(* ===== verification/Prelude.thy ===== *)
theory Prelude
  imports Main "HOL-Library.Word" "HOL-Library.AList" "HOL-Library.Char_ord"
    "HOL-Library.List_Lexorder" "HOL-Library.Code_Target_Nat"
begin

text \<open>
  The vocabulary every component theory shares: Python exceptions as values, results,
  insertion-ordered dictionaries, byte strings and their hexadecimal text, and the few
  string operations the sources use.

  \<^item> A Python \<open>str\<close> is a \<^typ>\<open>string\<close>: its UTF-8 bytes, one \<^typ>\<open>char\<close> per byte. The
    \<open>lower()\<close> of the sources is applied to hexadecimal text and addresses, so it is the
    ASCII one.
  \<^item> A Python \<open>int\<close> is an \<^typ>\<open>int\<close>; a \<open>bytes\<close> object is a list of 8-bit words.
  \<^item> A timezone-aware \<open>datetime\<close> is the number of microseconds since the epoch (the
    resolution of Python's \<open>datetime\<close>), as an \<^typ>\<open>int\<close>.
  \<^item> A \<open>uuid.UUID\<close> is its 128-bit integer.
  \<^item> A \<open>dict\<close> is an association list in insertion order; storing under a key that is
    present replaces the value in place, as Python does.
  \<^item> An exception is a value of type \<open>exn\<close>, one constructor per exception class of the
    sources, carrying the message where the source has one. \<open>OutOfFuel\<close> is no exception of
    the sources: a loop modelled with fuel returns it, and the theory that uses the loop
    proves that it never does.
\<close>

named_theorems result_simps \<open>rewriting of results and of sequences of checks\<close>
named_theorems dict_simps \<open>rewriting of dictionary lookups and updates\<close>

section \<open>Exceptions and results\<close>

datatype exn =
    ValueError string
  | TypeError string
  | KeyError string
  | LookupError string
  | PermissionError string
  | RuntimeError string
  | FileExistsError string
  | AssertionError
  | RecursionError
  | TimeoutError
  | CanonicalizationError string
  | Eip1559DecodeError string
  | SignerAuthorizationError string
  | SignerClientError string
  | MandateError string
  | AuthenticationError string
  | RuleViolation string
  | InsufficientFunds string
  | PolicyError string
  | RpcConfigurationError string
  | UniqueViolation string
  | CheckViolation string
  | ForeignKeyViolation string
  | StringDataRightTruncation string
  | NumericValueOutOfRange string
  | SerializationFailure
  | DeadlockDetected
  | ToolCallDenied string
  | MalformedProposal string
  | OIDCConfigurationError string
  | ApiError int string string
  | OSError string
  | ZeroDivisionError
  | OutOfFuel

type_synonym 'a res = "exn + 'a"

definition rbind :: "'e + 'a \<Rightarrow> ('a \<Rightarrow> 'e + 'b) \<Rightarrow> 'e + 'b" where
  "rbind m f = (case m of Inl e \<Rightarrow> Inl e | Inr x \<Rightarrow> f x)"

lemma rbind_simps [simp, result_simps]:
  "rbind (Inl e) f = Inl e"
  "rbind (Inr x) f = f x"
  by (simp_all add: rbind_def)

lemma rbind_Inr_iff [result_simps]:
  "rbind m f = Inr y \<longleftrightarrow> (\<exists>x. m = Inr x \<and> f x = Inr y)"
  by (cases m) auto

lemma rbind_Inl_iff [result_simps]:
  "rbind m f = Inl e \<longleftrightarrow> m = Inl e \<or> (\<exists>x. m = Inr x \<and> f x = Inl e)"
  by (cases m) auto

lemma rbind_InrE:
  assumes "rbind m f = Inr y"
  obtains x where "m = Inr x" "f x = Inr y"
  using assms by (auto simp: rbind_Inr_iff)

lemma if_raise_iff [simp, result_simps]:
  "(if b then Inl e else m) = Inr x \<longleftrightarrow> \<not> b \<and> m = Inr x"
  by simp

lemma rbind_split:
  "P (rbind m f) \<longleftrightarrow> (\<forall>e. m = Inl e \<longrightarrow> P (Inl e)) \<and> (\<forall>x. m = Inr x \<longrightarrow> P (f x))"
  by (cases m) auto

text \<open>
  A run of \<open>if condition: raise error\<close> statements: the first condition that holds decides
  the exception.
\<close>

fun raise_first :: "(bool \<times> 'e) list \<Rightarrow> 'e + unit" where
  "raise_first [] = Inr ()"
| "raise_first ((b, e) # cs) = (if b then Inl e else raise_first cs)"

lemma raise_first_Inr_iff [result_simps]:
  "raise_first cs = Inr u \<longleftrightarrow> list_all (\<lambda>c. \<not> fst c) cs"
  by (induction cs) (auto split: if_splits)

lemma raise_first_Inl_mem:
  "raise_first cs = Inl e \<Longrightarrow> (True, e) \<in> set cs"
  by (induction cs rule: raise_first.induct) (simp_all split: if_splits)

definition of_option :: "'e \<Rightarrow> 'a option \<Rightarrow> 'e + 'a" where
  "of_option e x = (case x of None \<Rightarrow> Inl e | Some v \<Rightarrow> Inr v)"

lemma of_option_simps [simp, result_simps]:
  "of_option e None = Inl e"
  "of_option e (Some v) = Inr v"
  "of_option e x = Inr v \<longleftrightarrow> x = Some v"
  by (auto simp: of_option_def split: option.splits)

section \<open>Dictionaries\<close>

type_synonym ('k, 'v) dict = "('k \<times> 'v) list"

definition dget :: "('k, 'v) dict \<Rightarrow> 'k \<Rightarrow> 'v option" where
  "dget d k = map_of d k"

definition dset :: "'k \<Rightarrow> 'v \<Rightarrow> ('k, 'v) dict \<Rightarrow> ('k, 'v) dict" where
  "dset k v d = AList.update k v d"

definition dhas :: "('k, 'v) dict \<Rightarrow> 'k \<Rightarrow> bool" where
  "dhas d k \<longleftrightarrow> dget d k \<noteq> None"

definition dget_or :: "('k, 'v) dict \<Rightarrow> 'k \<Rightarrow> 'v \<Rightarrow> 'v" where
  "dget_or d k v = (case dget d k of None \<Rightarrow> v | Some w \<Rightarrow> w)"

definition dvalues :: "('k, 'v) dict \<Rightarrow> 'v list" where
  "dvalues d = map snd d"

definition dkeys :: "('k, 'v) dict \<Rightarrow> 'k list" where
  "dkeys d = map fst d"

definition dict_wf :: "('k, 'v) dict \<Rightarrow> bool" where
  "dict_wf d \<longleftrightarrow> distinct (map fst d)"

lemma dget_Nil [simp, dict_simps]: "dget [] k = None"
  by (simp add: dget_def)

lemma dget_Cons [simp, dict_simps]: "dget ((a, v) # d) k = (if k = a then Some v else dget d k)"
  by (simp add: dget_def)

lemma dget_dset [simp, dict_simps]: "dget (dset k v d) k' = (if k' = k then Some v else dget d k')"
  by (simp add: dget_def dset_def update_conv')

lemma dset_Nil [simp, dict_simps]: "dset k v [] = [(k, v)]"
  by (simp add: dset_def)

lemma dset_Cons [simp, dict_simps]:
  "dset k v ((a, w) # d) = (if a = k then (k, v) # d else (a, w) # dset k v d)"
  by (simp add: dset_def)

lemma dict_wf_Nil [simp, intro]: "dict_wf []"
  by (simp add: dict_wf_def)

lemma dict_wf_dset [simp, intro]: "dict_wf d \<Longrightarrow> dict_wf (dset k v d)"
  by (simp add: dict_wf_def dset_def distinct_update)

lemma dset_fresh: "dget d k = None \<Longrightarrow> dset k v d = d @ [(k, v)]"
  by (induction d) (auto simp: dget_def dset_def split: if_splits)

lemma dget_None_iff: "dget d k = None \<longleftrightarrow> k \<notin> fst ` set d"
  by (simp add: dget_def map_of_eq_None_iff)

lemma dget_in_set: "dget d k = Some v \<Longrightarrow> (k, v) \<in> set d"
  by (simp add: dget_def map_of_SomeD)

lemma in_set_dget: "dict_wf d \<Longrightarrow> (k, v) \<in> set d \<Longrightarrow> dget d k = Some v"
  by (simp add: dget_def dict_wf_def)

lemma dget_iff_in_set: "dict_wf d \<Longrightarrow> dget d k = Some v \<longleftrightarrow> (k, v) \<in> set d"
  using dget_in_set in_set_dget by metis

lemma set_dvalues: "dict_wf d \<Longrightarrow> set (dvalues d) = {v. \<exists>k. dget d k = Some v}"
  by (force simp: dvalues_def dget_iff_in_set)

lemma dget_in_dvalues: "dget d k = Some v \<Longrightarrow> v \<in> set (dvalues d)"
  by (force simp: dvalues_def dest: dget_in_set)

lemma dhas_simps [simp, dict_simps]:
  "dhas [] k = False"
  "dhas (dset k v d) k' = (k' = k \<or> dhas d k')"
  by (auto simp: dhas_def)

text \<open>
  A sum over the values of a dictionary, after one value is replaced: the old summand is
  exchanged for the new one. With it the totals that the stores compute over
  \<open>dict.values()\<close> are followed through an update.
\<close>

lemma sum_dvalues_replace:
  fixes f :: "'v \<Rightarrow> int"
  assumes "dict_wf d" "dget d k = Some w"
  shows "(\<Sum>x\<leftarrow>dvalues (dset k v d). f x) = (\<Sum>x\<leftarrow>dvalues d. f x) - f w + f v"
  using assms
proof (induction d)
  case (Cons p d)
  obtain a x where p: "p = (a, x)" by (cases p)
  show ?case
  proof (cases "a = k")
    case True
    with Cons.prems p show ?thesis by (simp add: dvalues_def)
  next
    case False
    with Cons p show ?thesis by (simp add: dvalues_def dict_wf_def split: if_splits)
  qed
qed simp

lemma sum_dvalues_fresh:
  fixes f :: "'v \<Rightarrow> int"
  assumes "dget d k = None"
  shows "(\<Sum>x\<leftarrow>dvalues (dset k v d). f x) = (\<Sum>x\<leftarrow>dvalues d. f x) + f v"
  using assms by (simp add: dset_fresh dvalues_def)

lemma sum_filter_if:
  fixes f :: "'v \<Rightarrow> int"
  shows "(\<Sum>x\<leftarrow>filter P xs. f x) = (\<Sum>x\<leftarrow>xs. if P x then f x else 0)"
  by (induction xs) auto

lemma length_filter_sum: "int (length (filter P xs)) = (\<Sum>x\<leftarrow>xs. if P x then 1 else 0)"
  by (induction xs) auto

section \<open>Bytes and hexadecimal text\<close>

type_synonym byte = "8 word"
type_synonym bytes = "byte list"
type_synonym uuid = "128 word"
type_synonym time = int

text \<open>One second, in the microseconds of \<^typ>\<open>time\<close>.\<close>

definition seconds :: "int \<Rightarrow> time" where
  "seconds n = n * 1000000"

definition ascii :: "char \<Rightarrow> nat" where
  "ascii c = of_char c"

definition hexdigit :: "nat \<Rightarrow> char" where
  "hexdigit n = (if n < 10 then char_of (48 + n) else char_of (87 + n))"

definition hexval :: "char \<Rightarrow> nat option" where
  "hexval c = (let n = ascii c in
     if 48 \<le> n \<and> n \<le> 57 then Some (n - 48)
     else if 97 \<le> n \<and> n \<le> 102 then Some (n - 87)
     else if 65 \<le> n \<and> n \<le> 70 then Some (n - 55)
     else None)"

definition is_space :: "char \<Rightarrow> bool" where
  "is_space c = (let n = ascii c in n = 32 \<or> (9 \<le> n \<and> n \<le> 13))"

definition lower_char :: "char \<Rightarrow> char" where
  "lower_char c = (let n = ascii c in if 65 \<le> n \<and> n \<le> 90 then char_of (n + 32) else c)"

definition lower :: "string \<Rightarrow> string" where
  "lower s = map lower_char s"

definition startswith :: "string \<Rightarrow> string \<Rightarrow> bool" where
  "startswith s p \<longleftrightarrow> take (length p) s = p"

text \<open>\<open>bytes.hex()\<close>\<close>

fun bytes_hex :: "bytes \<Rightarrow> string" where
  "bytes_hex [] = []"
| "bytes_hex (b # bs) = hexdigit (unat b div 16) # hexdigit (unat b mod 16) # bytes_hex bs"

text \<open>
  \<open>bytes.fromhex\<close>: pairs of hexadecimal digits of either case; ASCII white space is
  skipped between pairs and nowhere else. \<open>None\<close> is its \<open>ValueError\<close>.
\<close>

fun bytes_fromhex :: "string \<Rightarrow> bytes option" where
  "bytes_fromhex [] = Some []"
| "bytes_fromhex (c # s) =
     (if is_space c then bytes_fromhex s
      else case s of
        [] \<Rightarrow> None
      | d # s' \<Rightarrow>
          (case hexval c of
             None \<Rightarrow> None
           | Some a \<Rightarrow>
               (case hexval d of
                  None \<Rightarrow> None
                | Some b \<Rightarrow>
                    map_option (Cons (word_of_nat (16 * a + b))) (bytes_fromhex s'))))"

lemma ascii_less [simp]: "ascii c < 256"
  using of_char_mod_256 [of c, where 'a = nat] by (simp add: ascii_def)

lemma ascii_char_of [simp]: "n < 256 \<Longrightarrow> ascii (char_of n) = n"
  by (simp add: ascii_def)

lemma char_of_ascii [simp]: "char_of (ascii c) = c"
  by (simp add: ascii_def)

lemma ascii_inject: "ascii a = ascii b \<longleftrightarrow> a = b"
  by (metis char_of_ascii)

lemma hexval_hexdigit [simp]: "n < 16 \<Longrightarrow> hexval (hexdigit n) = Some n"
  by (simp add: hexval_def hexdigit_def Let_def)

lemma hexdigit_small [simp]: "hexdigit 0 = CHR ''0''" "hexdigit 1 = CHR ''1''" "hexdigit 2 = CHR ''2''"
  by code_simp+

lemma hexval_bound: "hexval c = Some n \<Longrightarrow> n < 16"
  by (auto simp: hexval_def Let_def split: if_splits)

lemma hexdigit_hexval: "hexval c = Some n \<Longrightarrow> hexdigit n = lower_char c"
  by (auto simp: hexval_def hexdigit_def lower_char_def Let_def split: if_splits)

lemma hexval_not_space: "hexval c = Some n \<Longrightarrow> \<not> is_space c"
  by (auto simp: hexval_def is_space_def Let_def split: if_splits)

lemma hexdigit_not_space [simp]: "n < 16 \<Longrightarrow> \<not> is_space (hexdigit n)"
  using hexval_hexdigit hexval_not_space by blast

lemma lower_char_idem [simp]: "lower_char (lower_char c) = lower_char c"
  by (auto simp: lower_char_def Let_def)

lemma lower_idem [simp]: "lower (lower s) = lower s"
  by (simp add: lower_def)

lemma lower_append [simp]: "lower (s @ t) = lower s @ lower t"
  by (simp add: lower_def)

lemma lower_0x [simp]: "lower ''0x'' = ''0x''"
  by (simp add: lower_def lower_char_def ascii_def)

lemma startswith_0x_drop: "startswith s ''0x'' \<Longrightarrow> s = ''0x'' @ drop 2 s"
  by (metis append_take_drop_id length_Cons list.size(3) numeral_2_eq_2 startswith_def)

lemma startswith_append [simp]: "startswith (p @ s) p"
  by (simp add: startswith_def)

lemma length_lower [simp]: "length (lower s) = length s"
  by (simp add: lower_def)

lemma lower_hexdigit [simp]: "n < 16 \<Longrightarrow> lower_char (hexdigit n) = hexdigit n"
  by (simp add: lower_char_def hexdigit_def Let_def)

lemma unat_byte_less [simp]: "unat (b :: byte) < 256"
  using unsigned_less [of b, where 'a = nat] by simp

lemma unat_byte_of_nat: "unat (word_of_nat n :: byte) = n mod 256"
  by (simp add: unat_of_nat)

lemma byte_div_16 [simp]: "unat (b :: byte) div 16 < 16"
  using unat_byte_less [of b] by linarith

lemma byte_recompose: "word_of_nat (16 * (unat b div 16) + unat b mod 16) = (b :: byte)"
  by (simp flip: minus_mod_eq_mult_div)

lemma length_bytes_hex [simp]: "length (bytes_hex bs) = 2 * length bs"
  by (induction bs) auto

lemma bytes_hex_append [simp]: "bytes_hex (xs @ ys) = bytes_hex xs @ bytes_hex ys"
  by (induction xs) auto

lemma lower_bytes_hex [simp]: "lower (bytes_hex bs) = bytes_hex bs"
  by (induction bs) (auto simp: lower_def)

lemma bytes_fromhex_hex [simp]: "bytes_fromhex (bytes_hex bs) = Some bs"
  by (induction bs) (auto simp: byte_recompose)

lemma bytes_hex_inject [simp]: "bytes_hex xs = bytes_hex ys \<longleftrightarrow> xs = ys"
  by (metis bytes_fromhex_hex option.inject)

text \<open>
  What \<open>bytes.fromhex\<close> accepts is the printed form of its result up to letter case and
  white space.
\<close>

lemma bytes_hex_fromhex:
  "bytes_fromhex s = Some bs \<Longrightarrow> bytes_hex bs = lower (filter (\<lambda>c. \<not> is_space c) s)"
proof (induction s arbitrary: bs rule: bytes_fromhex.induct)
  case 1
  then show ?case by (simp add: lower_def)
next
  case (2 c s)
  show ?case
  proof (cases "is_space c")
    case True
    with 2 show ?thesis by simp
  next
    case False
    with "2.prems" obtain d s' a b bs' where
      s: "s = d # s'" and a: "hexval c = Some a" and b: "hexval d = Some b"
      and r: "bytes_fromhex s' = Some bs'" and bs: "bs = word_of_nat (16 * a + b) # bs'"
      by (auto split: list.splits option.splits)
    have IH: "bytes_hex bs' = lower (filter (\<lambda>c. \<not> is_space c) s')"
      using "2.IH" False s a b r by auto
    have lt: "a < 16" "b < 16" using a b by (auto dest: hexval_bound)
    then have "16 * a + b < 256" by linarith
    then have u: "unat (word_of_nat (16 * a + b) :: byte) = 16 * a + b"
      by (simp only: unat_byte_of_nat mod_less)
    show ?thesis
      using lt False a b hexval_not_space [OF b]
      by (simp add: bs u s IH lower_def hexdigit_hexval del: of_nat_add of_nat_mult)
  qed
qed

text \<open>A digit of either case, and text made of them: the classes of the sources' patterns.\<close>

definition is_hex :: "char \<Rightarrow> bool" where
  "is_hex c \<longleftrightarrow> hexval c \<noteq> None"

definition is_lower_hex :: "char \<Rightarrow> bool" where
  "is_lower_hex c \<longleftrightarrow> is_hex c \<and> lower_char c = c"

definition is_digit :: "char \<Rightarrow> bool" where
  "is_digit c = (48 \<le> ascii c \<and> ascii c \<le> 57)"

definition is_upper :: "char \<Rightarrow> bool" where
  "is_upper c = (65 \<le> ascii c \<and> ascii c \<le> 90)"

definition is_lower :: "char \<Rightarrow> bool" where
  "is_lower c = (97 \<le> ascii c \<and> ascii c \<le> 122)"

lemma hex_text_fromhex:
  assumes "list_all is_hex s" "even (length s)"
  shows "\<exists>bs. bytes_fromhex s = Some bs \<and> length s = 2 * length bs"
  using assms
proof (induction s rule: bytes_fromhex.induct)
  case (2 c s)
  from "2.prems" obtain d s' where s: "s = d # s'" by (cases s) auto
  from "2.prems" s obtain a b where ab: "hexval c = Some a" "hexval d = Some b"
    by (auto simp: is_hex_def)
  from ab(1) have ns: "\<not> is_space c" by (rule hexval_not_space)
  from "2.prems" s have "list_all is_hex s'" "even (length s')" by auto
  with "2.IH"(2) [OF ns s ab] obtain bs where
    "bytes_fromhex s' = Some bs" "length s' = 2 * length bs"
    by blast
  with ns s ab show ?case by simp
qed simp

lemma is_hex_not_space: "is_hex c \<Longrightarrow> \<not> is_space c"
  by (auto simp: is_hex_def dest: hexval_not_space)

lemma filter_hex_text: "list_all is_hex s \<Longrightarrow> filter (\<lambda>c. \<not> is_space c) s = s"
  by (induction s) (auto dest: is_hex_not_space)

lemma hexval_lower_char: "is_hex c \<Longrightarrow> hexval (lower_char c) = hexval c"
  by (auto simp: is_hex_def hexval_def lower_char_def Let_def split: if_splits)

lemma is_hex_lower_char: "is_hex c \<Longrightarrow> is_hex (lower_char c)"
  by (simp add: is_hex_def hexval_lower_char)

lemma list_all_is_hex_lower: "list_all is_hex s \<Longrightarrow> list_all is_hex (lower s)"
  by (induction s) (auto simp: lower_def is_hex_lower_char)

lemma is_hex_hexdigit [simp]: "n < 16 \<Longrightarrow> is_hex (hexdigit n)"
  by (simp add: is_hex_def)

lemma is_hex_bytes_hex [simp]: "list_all is_hex (bytes_hex bs)"
  by (induction bs) auto

section \<open>Integers as big-endian bytes\<close>

text \<open>\<open>int.from_bytes(\<dots>, "big")\<close>\<close>

definition be_nat :: "bytes \<Rightarrow> nat" where
  "be_nat bs = foldl (\<lambda>a b. a * 256 + unat b) 0 bs"

text \<open>
  \<open>n.to_bytes((n.bit_length() + 7) // 8, "big")\<close>: the shortest big-endian form, empty
  for 0.
\<close>

fun nat_be :: "nat \<Rightarrow> bytes" where
  "nat_be n = (if n = 0 then [] else nat_be (n div 256) @ [word_of_nat n])"

declare nat_be.simps [simp del]

lemma be_nat_Nil [simp]: "be_nat [] = 0"
  by (simp add: be_nat_def)

lemma be_nat_snoc [simp]: "be_nat (bs @ [b]) = be_nat bs * 256 + unat b"
  by (simp add: be_nat_def)

lemma nat_be_0 [simp]: "nat_be 0 = []"
  by (simp add: nat_be.simps)

lemma nat_be_pos: "0 < n \<Longrightarrow> nat_be n = nat_be (n div 256) @ [word_of_nat n]"
  by (subst nat_be.simps) simp

lemma be_nat_nat_be [simp]: "be_nat (nat_be n) = n"
proof (induction n rule: nat_be.induct)
  case (1 n)
  then show ?case
    by (cases "n = 0") (simp_all add: nat_be_pos unat_of_nat)
qed

lemma nat_be_eq_Nil [simp]: "nat_be n = [] \<longleftrightarrow> n = 0"
  by (subst nat_be.simps) simp

lemma nat_be_inject [simp]: "nat_be m = nat_be n \<longleftrightarrow> m = n"
  by (metis be_nat_nat_be)

lemma hd_nat_be: "0 < n \<Longrightarrow> hd (nat_be n) \<noteq> 0"
proof (induction n rule: nat_be.induct)
  case (1 n)
  show ?case
  proof (cases "n < 256")
    case True
    then have "unat (word_of_nat n :: byte) = n" by (simp add: unat_of_nat)
    with "1.prems" have "(word_of_nat n :: byte) \<noteq> 0" by (metis less_irrefl unat_0)
    with True "1.prems" show ?thesis by (simp add: nat_be_pos)
  next
    case False
    then have "0 < n div 256" by simp
    with "1.IH" "1.prems" have "hd (nat_be (n div 256)) \<noteq> 0" by simp
    with \<open>0 < n div 256\<close> "1.prems" show ?thesis by (simp add: nat_be_pos [of n])
  qed
qed

text \<open>Bytes with no leading zero are the shortest form of the number they stand for.\<close>

lemma be_nat_pos: "bs \<noteq> [] \<Longrightarrow> hd bs \<noteq> 0 \<Longrightarrow> 0 < be_nat bs"
proof (induction bs rule: rev_induct)
  case (snoc b bs)
  then show ?case
    by (cases "bs = []") (auto simp: be_nat_def unat_gt_0)
qed simp

lemma nat_be_be_nat: "bs = [] \<or> hd bs \<noteq> 0 \<Longrightarrow> nat_be (be_nat bs) = bs"
proof (induction bs rule: rev_induct)
  case (snoc b bs)
  have pos: "0 < be_nat (bs @ [b])" using snoc.prems by (intro be_nat_pos) auto
  have div: "(be_nat bs * 256 + unat b) div 256 = be_nat bs" by simp
  have "word_of_nat (be_nat bs * 256 + unat b) = b"
  proof -
    have "unat (word_of_nat (be_nat bs * 256 + unat b) :: byte) = unat b"
      by (simp only: unat_byte_of_nat) simp
    then show ?thesis by (simp add: word_unat_eq_iff)
  qed
  moreover have "bs = [] \<or> hd bs \<noteq> 0" using snoc.prems by (cases bs) auto
  ultimately show ?case using snoc.IH pos by (simp add: nat_be_pos div)
qed simp

lemma be_nat_less: "be_nat bs < 256 ^ length bs"
proof (induction bs rule: rev_induct)
  case (snoc b bs)
  have "unat b < 256" by simp
  with snoc have "be_nat bs * 256 + unat b < 256 * 256 ^ length bs" by linarith
  then show ?case by simp
qed simp

lemma length_nat_be_le: "n < 256 ^ k \<Longrightarrow> length (nat_be n) \<le> k"
proof (induction k arbitrary: n)
  case (Suc k)
  show ?case
  proof (cases "n = 0")
    case False
    have "n div 256 < 256 ^ k" using Suc.prems by (simp add: less_mult_imp_div_less)
    with Suc.IH False show ?thesis by (simp add: nat_be_pos)
  qed simp
qed simp

section \<open>Decimal text\<close>

fun show_nat :: "nat \<Rightarrow> string" where
  "show_nat n = (if n < 10 then [char_of (48 + n)] else show_nat (n div 10) @ [char_of (48 + n mod 10)])"

declare show_nat.simps [simp del]

text \<open>\<open>str(n)\<close>\<close>

definition show_int :: "int \<Rightarrow> string" where
  "show_int n = (if n < 0 then ''-'' @ show_nat (nat (- n)) else show_nat (nat n))"

definition read_nat :: "string \<Rightarrow> nat" where
  "read_nat s = foldl (\<lambda>a c. a * 10 + (ascii c - 48)) 0 s"

lemma read_show_nat [simp]: "read_nat (show_nat n) = n"
proof (induction n rule: show_nat.induct)
  case (1 n)
  show ?case
  proof (cases "n < 10")
    case True
    then show ?thesis by (subst show_nat.simps) (simp add: read_nat_def)
  next
    case False
    with 1 show ?thesis by (subst show_nat.simps) (simp add: read_nat_def)
  qed
qed

lemma show_nat_digits: "list_all is_digit (show_nat n)"
proof (induction n rule: show_nat.induct)
  case (1 n)
  show ?case
  proof (cases "n < 10")
    case True
    then show ?thesis by (subst show_nat.simps) (simp add: is_digit_def)
  next
    case False
    with 1 have "list_all is_digit (show_nat (n div 10))" by simp
    moreover have "is_digit (char_of (48 + n mod 10))" by (simp add: is_digit_def)
    ultimately show ?thesis using False by (subst show_nat.simps) simp
  qed
qed

lemma show_nat_nonempty [simp]: "show_nat n \<noteq> []"
  by (subst show_nat.simps) simp

lemma show_nat_inject: "show_nat m = show_nat n \<longleftrightarrow> m = n"
  by (metis read_show_nat)

lemma show_int_inject: "show_int m = show_int n \<longleftrightarrow> m = n"
proof -
  have "\<not> is_digit CHR ''-''" by (simp add: is_digit_def ascii_def)
  then have dash: "show_nat k \<noteq> CHR ''-'' # s" for k s
    using show_nat_digits [of k] by (cases "show_nat k") auto
  note dash' = dash [symmetric]
  show ?thesis
    by (cases "m < 0"; cases "n < 0") (simp_all add: show_int_def show_nat_inject dash dash', arith+)
qed

section \<open>Identifiers\<close>

text \<open>\<open>UUID.hex\<close>: 32 lower-case hexadecimal digits.\<close>

definition uuid_hex :: "uuid \<Rightarrow> string" where
  "uuid_hex u = map (\<lambda>i. hexdigit (unat u div 16 ^ (31 - i) mod 16)) [0..<32]"

text \<open>\<open>str(UUID)\<close>: the digits in groups of 8, 4, 4, 4 and 12.\<close>

definition uuid_str :: "uuid \<Rightarrow> string" where
  "uuid_str u = (let h = uuid_hex u in
     take 8 h @ ''-'' @ take 4 (drop 8 h) @ ''-'' @ take 4 (drop 12 h) @ ''-''
     @ take 4 (drop 16 h) @ ''-'' @ drop 20 h)"

text \<open>The value of hexadecimal text (\<open>int(text, 16)\<close> on digits only).\<close>

definition hex_nat :: "string \<Rightarrow> nat option" where
  "hex_nat s = (if s \<noteq> [] \<and> list_all is_hex s
     then Some (foldl (\<lambda>a c. a * 16 + the (hexval c)) 0 s) else None)"

lemma length_uuid_hex [simp]: "length (uuid_hex u) = 32"
  by (simp add: uuid_hex_def)

lemma is_hex_uuid_hex: "list_all is_hex (uuid_hex u)"
  by (simp add: uuid_hex_def list_all_iff)

lemma foldl_hexdigits:
  "foldl (\<lambda>a c. a * 16 + the (hexval c)) 0
     (map (\<lambda>i. hexdigit (n div 16 ^ (k - i) mod 16)) [0..<Suc k]) = n mod 16 ^ Suc k"
proof (induction k arbitrary: n)
  case (Suc k)
  have "map (\<lambda>i. hexdigit (n div 16 ^ (Suc k - i) mod 16)) [0..<Suc k]
      = map (\<lambda>i. hexdigit (n div 16 div 16 ^ (k - i) mod 16)) [0..<Suc k]"
    by (rule map_cong) (auto simp: div_mult2_eq Suc_diff_le)
  then have "foldl (\<lambda>a c. a * 16 + the (hexval c)) 0
      (map (\<lambda>i. hexdigit (n div 16 ^ (Suc k - i) mod 16)) [0..<Suc (Suc k)])
      = (n div 16 mod 16 ^ Suc k) * 16 + n mod 16"
    using Suc.IH [of "n div 16"] by (simp only: upt_Suc_append map_append foldl_append) simp
  also have "\<dots> = n mod 16 ^ Suc (Suc k)"
    by (simp only: power_Suc [of 16 "Suc k"] mod_mult2_eq [of n 16 "16 ^ Suc k"] mult.commute)
  finally show ?case .
qed simp

lemma hex_nat_uuid_hex [simp]: "hex_nat (uuid_hex u) = Some (unat u)"
proof -
  have "(32 :: nat) = Suc 31" by simp
  then have "foldl (\<lambda>a c. a * 16 + the (hexval c)) 0 (uuid_hex u) = unat u mod 16 ^ 32"
    using foldl_hexdigits [of "unat u" 31] by (simp only: uuid_hex_def)
  moreover have "unat u < 16 ^ 32" using unsigned_less [of u, where 'a = nat] by simp
  ultimately have "foldl (\<lambda>a c. a * 16 + the (hexval c)) 0 (uuid_hex u) = unat u" by simp
  moreover have "uuid_hex u \<noteq> []" by (metis length_uuid_hex list.size(3) zero_neq_numeral)
  ultimately show ?thesis using is_hex_uuid_hex by (simp add: hex_nat_def)
qed

lemma uuid_hex_inject [simp]: "uuid_hex u = uuid_hex v \<longleftrightarrow> u = v"
  by (metis hex_nat_uuid_hex option.inject word_unat_eq_iff)

lemma filter_dash_hex: "list_all is_hex s \<Longrightarrow> filter (\<lambda>c. c \<noteq> CHR ''-'') s = s"
proof -
  have "\<not> is_hex CHR ''-''" by (simp add: is_hex_def hexval_def ascii_def)
  then show "list_all is_hex s \<Longrightarrow> filter (\<lambda>c. c \<noteq> CHR ''-'') s = s"
    by (induction s) auto
qed

lemma uuid_str_inject [simp]: "uuid_str u = uuid_str v \<longleftrightarrow> u = v"
proof -
  have hex: "list_all is_hex (take n (drop m (uuid_hex w)))" "list_all is_hex (drop m (uuid_hex w))" for n m w
    using is_hex_uuid_hex [of w] by (auto simp: list_all_iff dest!: in_set_takeD in_set_dropD)
  have parts: "h = take 8 h @ take 4 (drop 8 h) @ take 4 (drop 12 h) @ take 4 (drop 16 h) @ drop 20 h"
    for h :: string
    using append_take_drop_id [of 8 h] append_take_drop_id [of 4 "drop 8 h"]
      append_take_drop_id [of 4 "drop 12 h"] append_take_drop_id [of 4 "drop 16 h"] by simp
  have "filter (\<lambda>c. c \<noteq> CHR ''-'') (uuid_str w) = uuid_hex w" for w
    using hex(1) [of 8 0 w] hex(1) [of 4 8 w] hex(1) [of 4 12 w] hex(1) [of 4 16 w] hex(2) [of 20 w] parts [of "uuid_hex w"]
    by (simp add: uuid_str_def Let_def filter_dash_hex)
  then show ?thesis by (metis uuid_hex_inject)
qed

text \<open>\<open>text.split(sep)\<close> with a separator of one character.\<close>

fun split_on :: "char \<Rightarrow> string \<Rightarrow> string list" where
  "split_on sep [] = [[]]"
| "split_on sep (c # cs) =
     (if c = sep then [] # split_on sep cs
      else case split_on sep cs of [] \<Rightarrow> [[c]] | part # parts \<Rightarrow> (c # part) # parts)"

section \<open>Tables\<close>

text \<open>\<open>UPDATE ... WHERE\<close> on the rows of a table, and the row found by a key.\<close>

definition update_where :: "('r \<Rightarrow> bool) \<Rightarrow> ('r \<Rightarrow> 'r) \<Rightarrow> 'r list \<Rightarrow> 'r list" where
  "update_where P f rows = map (\<lambda>row. if P row then f row else row) rows"

lemma find_unique:
  "distinct (map k rows) \<Longrightarrow> find (\<lambda>r. k r = x) rows = Some r \<longleftrightarrow> r \<in> set rows \<and> k r = x"
  by (induction rows) (auto simp: rev_image_eqI)

lemma find_map_keep: "(\<And>x. k (f x) = k x) \<Longrightarrow> find (\<lambda>x. k x = y) (map f xs) = map_option f (find (\<lambda>x. k x = y) xs)"
  by (induction xs) auto

lemma find_Some_mem: "find Q xs = Some x \<Longrightarrow> x \<in> set xs \<and> Q x"
  by (induction xs) (auto split: if_splits)

lemma find_append: "find Q (xs @ ys) = (case find Q xs of None \<Rightarrow> find Q ys | Some x \<Rightarrow> Some x)"
  by (induction xs) auto

end
