(* ===== verification/Canonical.thy ===== *)
theory Canonical
  imports Prelude
begin

text \<open>
  \<open>src/aegisledger/canonical.py\<close>: UUIDv7 identifiers and the canonical JSON that every
  signed artefact is hashed through. The JSON values that reach \<open>canonical_json\<close> are the
  datatype \<open>json\<close>, with constructors for the Python values it refuses. The \<open>rfc8785\<close>
  package is not part of the repository: it is an argument, absent (\<open>None\<close>) when the
  import failed; the standard library's \<open>json.dumps\<close> that replaces it is defined here.

  The locale \<open>canonicalizer\<close> states what the clients rely on, that equal bytes come from
  equal documents up to the order of keys; it is interpreted on the \<open>json.dumps\<close> form.
\<close>

section \<open>Identifiers\<close>

unbundle bit_operations_syntax

text \<open>The clock reading in milliseconds and the 74 random bits are arguments.\<close>

definition uuid7_value :: "nat \<Rightarrow> nat \<Rightarrow> nat" where
  "uuid7_value timestamp random_bits =
     push_bit 80 timestamp
     OR push_bit 76 0x7
     OR push_bit 64 (drop_bit 62 random_bits AND 0xFFF)
     OR push_bit 62 2
     OR (random_bits AND (2 ^ 62 - 1))"

definition uuid7 :: "int \<Rightarrow> nat \<Rightarrow> uuid res" where
  "uuid7 timestamp random_bits =
     (if \<not> (0 \<le> timestamp \<and> timestamp < 2 ^ 48)
      then Inl (ValueError ''UUIDv7 timestamp is outside the 48-bit range'')
      else Inr (word_of_nat (uuid7_value (nat timestamp) random_bits)))"

text \<open>\<open>UUID.version\<close>: the version digit, defined only for the RFC 4122 variant.\<close>

definition uuid_version :: "uuid \<Rightarrow> nat option" where
  "uuid_version u =
     (let n = unat u in if n div 2 ^ 62 mod 4 = 2 then Some (n div 2 ^ 76 mod 16) else None)"

lemma push_bit_or_add:
  assumes "a < 2 ^ n"
  shows "push_bit n b OR a = b * 2 ^ n + (a :: nat)"
proof -
  have "\<not> bit (push_bit n b) k \<or> \<not> bit a k" for k
  proof (cases "n \<le> k")
    case True
    then have "(2 :: nat) ^ n \<le> 2 ^ k" by simp
    with assms have "a div 2 ^ k = 0" by (intro div_less) linarith
    then show ?thesis by (simp add: bit_iff_odd)
  qed (simp add: bit_simps)
  then show ?thesis using disjunctive_add [of "push_bit n b" a] by (simp add: push_bit_eq_mult)
qed

lemma uuid7_value_eq:
  "uuid7_value ts r = ts * 2 ^ 80 + (7 * 2 ^ 76 + ((r div 2 ^ 62 mod 2 ^ 12) * 2 ^ 64 + (2 * 2 ^ 62 + r mod 2 ^ 62)))"
proof -
  define e where "e = r mod 2 ^ 62"
  define c where "c = r div 2 ^ 62 mod 2 ^ 12"
  have e: "r AND (2 ^ 62 - 1) = e"
    using take_bit_eq_mask [of 62 r] unfolding take_bit_eq_mod mask_eq_exp_minus_1 e_def by (rule sym)
  have "(0xFFF :: nat) = 2 ^ 12 - 1" by simp
  then have c: "drop_bit 62 r AND 0xFFF = c"
    using take_bit_eq_mask [of 12 "drop_bit 62 r"]
    unfolding take_bit_eq_mod mask_eq_exp_minus_1 drop_bit_eq_div c_def by simp
  have le: "e < 2 ^ 62" "c < 2 ^ 12" by (simp_all add: e_def c_def)
  have 1: "push_bit 62 2 OR e = 2 * 2 ^ 62 + e" using le by (intro push_bit_or_add)
  have 2: "push_bit 64 c OR (2 * 2 ^ 62 + e) = c * 2 ^ 64 + (2 * 2 ^ 62 + e)"
    using le by (intro push_bit_or_add) simp
  have 3: "push_bit 76 7 OR (c * 2 ^ 64 + (2 * 2 ^ 62 + e)) = 7 * 2 ^ 76 + (c * 2 ^ 64 + (2 * 2 ^ 62 + e))"
    using le by (intro push_bit_or_add) simp
  have 4: "push_bit 80 ts OR (7 * 2 ^ 76 + (c * 2 ^ 64 + (2 * 2 ^ 62 + e))) =
      ts * 2 ^ 80 + (7 * 2 ^ 76 + (c * 2 ^ 64 + (2 * 2 ^ 62 + e)))"
    using le by (intro push_bit_or_add) simp
  show ?thesis unfolding uuid7_value_def e c 1 2 3 4 by (simp only: e_def c_def)
qed

lemma unat_uuid7:
  assumes "uuid7 t r = Inr u"
  shows "0 \<le> t" "t < 2 ^ 48" "unat u = uuid7_value (nat t) r"
proof -
  from assms show t: "0 \<le> t" "t < 2 ^ 48" by (auto simp: uuid7_def split: if_splits)
  have "r mod 2 ^ 62 < 2 ^ 62" "r div 2 ^ 62 mod 2 ^ 12 < 2 ^ 12" "nat t < 2 ^ 48" using t by auto
  then have "uuid7_value (nat t) r < 2 ^ 128" unfolding uuid7_value_eq by simp
  then show "unat u = uuid7_value (nat t) r"
    using assms t by (auto simp: uuid7_def unat_of_nat)
qed

section \<open>Documents\<close>

datatype jkey = StrKey string | OtherKey

datatype json =
    JNull
  | JBool bool
  | JInt int
  | JFloat
  | JStr string
  | JList "json list"
  | JObj "(jkey \<times> json) list"
  | JOther string

fun assert_supported :: "json \<Rightarrow> string \<Rightarrow> unit res"
  and assert_items :: "json list \<Rightarrow> nat \<Rightarrow> string \<Rightarrow> unit res"
  and assert_fields :: "(jkey \<times> json) list \<Rightarrow> string \<Rightarrow> unit res" where
  "assert_supported JNull path = Inr ()"
| "assert_supported (JBool b) path = Inr ()"
| "assert_supported (JInt i) path = Inr ()"
| "assert_supported (JStr s) path = Inr ()"
| "assert_supported JFloat path =
     Inl (CanonicalizationError (''floating-point values are forbidden at '' @ path))"
| "assert_supported (JList items) path = assert_items items 0 path"
| "assert_supported (JObj fields) path =
     (if list_ex (\<lambda>f. fst f = OtherKey) fields
      then Inl (CanonicalizationError (''object keys must be strings at '' @ path))
      else assert_fields fields path)"
| "assert_supported (JOther type) path =
     Inl (CanonicalizationError (''unsupported canonical JSON type at '' @ path @ '': '' @ type))"
| "assert_items [] index path = Inr ()"
| "assert_items (item # items) index path =
     rbind (assert_supported item (path @ ''['' @ show_nat index @ '']'')) (\<lambda>_.
     assert_items items (Suc index) path)"
| "assert_fields [] path = Inr ()"
| "assert_fields ((key, item) # fields) path =
     rbind (assert_supported item
       (path @ ''.'' @ (case key of StrKey k \<Rightarrow> k | OtherKey \<Rightarrow> []))) (\<lambda>_.
     assert_fields fields path)"

text \<open>
  \<open>json.dumps(value, ensure_ascii=False, sort_keys=True, separators=(",", ":"))\<close>. Strings
  escape the quotation mark, the backslash and the control characters below \<open>0x20\<close>.
\<close>

definition quote_char :: char where
  "quote_char = CHR 0x22"

definition backslash :: char where
  "backslash = CHR 0x5C"

definition escape_char :: "char \<Rightarrow> string" where
  "escape_char c = (let n = ascii c in
     if n = 0x22 \<or> n = 0x5C then [backslash, c]
     else if n = 0x0A then [backslash, CHR ''n'']
     else if n = 0x0D then [backslash, CHR ''r'']
     else if n = 0x09 then [backslash, CHR ''t'']
     else if n = 0x0C then [backslash, CHR ''f'']
     else if n = 0x08 then [backslash, CHR ''b'']
     else if n < 0x20 then [backslash, CHR ''u'', CHR ''0'', CHR ''0'', hexdigit (n div 16), hexdigit (n mod 16)]
     else [c])"

definition json_string :: "string \<Rightarrow> string" where
  "json_string s = quote_char # concat (map escape_char s) @ [quote_char]"

definition key_text :: "jkey \<Rightarrow> string" where
  "key_text k = (case k of StrKey s \<Rightarrow> s | OtherKey \<Rightarrow> [])"

fun emit :: "json \<Rightarrow> string"
  and emit_items :: "bool \<Rightarrow> json list \<Rightarrow> string"
  and emit_fields :: "bool \<Rightarrow> (jkey \<times> json) list \<Rightarrow> string" where
  "emit JNull = ''null''"
| "emit (JBool b) = (if b then ''true'' else ''false'')"
| "emit (JInt i) = show_int i"
| "emit JFloat = []"
| "emit (JStr s) = json_string s"
| "emit (JList items) = ''['' @ emit_items True items @ '']''"
| "emit (JObj fields) = ''{'' @ emit_fields True fields @ ''}''"
| "emit (JOther type) = []"
| "emit_items first [] = []"
| "emit_items first (v # vs) = (if first then [] else '','') @ emit v @ emit_items False vs"
| "emit_fields first [] = []"
| "emit_fields first ((k, v) # fs) =
     (if first then [] else '','') @ json_string (key_text k) @ '':'' @ emit v @ emit_fields False fs"

text \<open>\<open>sort_keys=True\<close>: the fields of every object in the order of their keys.\<close>

fun sort_keys :: "json \<Rightarrow> json" where
  "sort_keys (JList items) = JList (map sort_keys items)"
| "sort_keys (JObj fields) =
     JObj (sort_key (\<lambda>f. key_text (fst f)) (map (\<lambda>f. (fst f, sort_keys (snd f))) fields))"
| "sort_keys v = v"

definition json_dumps :: "json \<Rightarrow> bytes res" where
  "json_dumps v = Inr (map (\<lambda>c. word_of_nat (ascii c)) (emit (sort_keys v)))"

definition canonical_json :: "(json \<Rightarrow> bytes res) option \<Rightarrow> json \<Rightarrow> bytes res" where
  "canonical_json rfc8785 value =
     rbind (assert_supported value ''$'') (\<lambda>_.
     case rfc8785 of Some dumps \<Rightarrow> dumps value | None \<Rightarrow> json_dumps value)"

section \<open>The text of a document determines it\<close>

fun supported :: "json \<Rightarrow> bool" where
  "supported (JList items) = list_all supported items"
| "supported (JObj fields) = list_all (\<lambda>f. fst f \<noteq> OtherKey \<and> supported (snd f)) fields"
| "supported JFloat = False"
| "supported (JOther type) = False"
| "supported v = True"

lemma assert_supported_iff:
  "assert_supported v path = Inr () \<longleftrightarrow> supported v"
  "assert_items vs i path = Inr () \<longleftrightarrow> list_all supported vs"
  "\<not> list_ex (\<lambda>f. fst f = OtherKey) fs \<Longrightarrow>
     assert_fields fs path = Inr () \<longleftrightarrow> list_all (\<lambda>f. supported (snd f)) fs"
  by (induction v path and vs i path and fs path
      rule: assert_supported_assert_items_assert_fields.induct)
    (auto simp: rbind_Inr_iff list_all_iff list_ex_iff)

lemma ascii_quote [simp]: "ascii quote_char = 0x22" "ascii backslash = 0x5C"
  by (simp_all add: quote_char_def backslash_def ascii_def)

lemma escape_char_cases:
  "escape_char c = [c] \<and> ascii c \<noteq> 0x22 \<and> ascii c \<noteq> 0x5C \<or>
   (\<exists>d. escape_char c = [backslash, d] \<and> d \<noteq> CHR ''u'' \<and>
      (ascii d = ascii c \<and> (ascii c = 0x22 \<or> ascii c = 0x5C) \<or>
       (ascii c, d) \<in> {(0x0A, CHR ''n''), (0x0D, CHR ''r''), (0x09, CHR ''t''), (0x0C, CHR ''f''), (0x08, CHR ''b'')})) \<or>
   escape_char c = [backslash, CHR ''u'', CHR ''0'', CHR ''0'', hexdigit (ascii c div 16), hexdigit (ascii c mod 16)]"
proof -
  have "c \<noteq> CHR ''u''" if "ascii c = 0x22 \<or> ascii c = 0x5C"
    using that by (auto simp: ascii_def)
  then show ?thesis unfolding escape_char_def Let_def by (auto simp: ascii_def)
qed

lemma hexdigit_inject: "m < 16 \<Longrightarrow> n < 16 \<Longrightarrow> hexdigit m = hexdigit n \<longleftrightarrow> m = n"
  by (metis hexval_hexdigit option.inject)

lemma ascii_neq_backslash: "ascii c \<noteq> 0x5C \<Longrightarrow> c \<noteq> backslash"
  by auto

lemma escape_char_prefix_free:
  assumes "escape_char c @ x = escape_char d @ y"
  shows "c = d \<and> x = y"
proof -
  have lit: "ascii CHR ''n'' = 110" "ascii CHR ''r'' = 114" "ascii CHR ''t'' = 116"
    "ascii CHR ''f'' = 102" "ascii CHR ''b'' = 98"
    by (simp_all add: ascii_def)
  have hex: "ascii c = ascii d" if "hexdigit (ascii c div 16) = hexdigit (ascii d div 16)"
    "hexdigit (ascii c mod 16) = hexdigit (ascii d mod 16)"
  proof -
    have "ascii c div 16 < 16" "ascii d div 16 < 16"
      using ascii_less [of c] ascii_less [of d] by linarith+
    with that have "ascii c div 16 = ascii d div 16" "ascii c mod 16 = ascii d mod 16"
      by (simp_all add: hexdigit_inject)
    then show ?thesis by (metis mult_div_mod_eq)
  qed
  show ?thesis
    using escape_char_cases [of c] escape_char_cases [of d] assms hex
    by (elim disjE exE conjE) (auto simp: ascii_inject [symmetric] lit dest: ascii_neq_backslash)
qed

lemma escape_char_not_quote: "escape_char c @ x \<noteq> quote_char # y"
proof -
  have "backslash \<noteq> quote_char" by (simp add: backslash_def quote_char_def)
  then show ?thesis using escape_char_cases [of c] by auto
qed

lemma json_string_prefix_free:
  "json_string s @ x = json_string t @ y \<Longrightarrow> s = t \<and> x = y"
proof -
  have "concat (map escape_char s) @ quote_char # x = concat (map escape_char t) @ quote_char # y
      \<Longrightarrow> s = t \<and> x = y"
  proof (induction s arbitrary: t)
    case Nil
    then show ?case using escape_char_not_quote by (cases t) (auto, metis)
  next
    case (Cons c s)
    show ?case
    proof (cases t)
      case Nil
      with Cons.prems escape_char_not_quote show ?thesis by auto
    next
      case t: (Cons d t')
      with Cons.prems have "escape_char c @ concat (map escape_char s) @ quote_char # x =
          escape_char d @ concat (map escape_char t') @ quote_char # y" by simp
      from escape_char_prefix_free [OF this] Cons.IH t show ?thesis by simp
    qed
  qed
  then show "json_string s @ x = json_string t @ y \<Longrightarrow> s = t \<and> x = y" by (simp add: json_string_def)
qed

text \<open>What may follow a value: nothing, or a separator.\<close>

definition delimited :: "string \<Rightarrow> bool" where
  "delimited r \<longleftrightarrow> r = [] \<or> hd r \<in> {CHR '','', CHR '']'', CHR ''}''}"

lemma delimited_simps [simp]:
  "delimited []" "delimited (CHR '','' # r)" "delimited (CHR '']'' # r)" "delimited (CHR ''}'' # r)"
  by (simp_all add: delimited_def)

definition num_char :: "char \<Rightarrow> bool" where
  "num_char c \<longleftrightarrow> is_digit c \<or> c = CHR ''-''"

lemma show_int_num: "list_all num_char (show_int i)" "show_int i \<noteq> []"
proof -
  have "list_all num_char (show_nat n)" for n
    using show_nat_digits [of n] by (auto simp: num_char_def list_all_iff)
  then show "list_all num_char (show_int i)" by (auto simp: show_int_def num_char_def)
qed (simp add: show_int_def)

lemma takeWhile_delimited:
  assumes "list_all P xs" "delimited r"
    and "\<not> P CHR '',''" "\<not> P CHR '']''" "\<not> P CHR ''}''"
  shows "takeWhile P (xs @ r) = xs" "dropWhile P (xs @ r) = r"
  using assms by (cases r; auto simp: list_all_iff delimited_def)+

lemma num_char_delims: "\<not> num_char CHR '',''" "\<not> num_char CHR '']''" "\<not> num_char CHR ''}''"
  by (simp_all add: num_char_def is_digit_def ascii_def)

lemma show_int_prefix_free:
  assumes "show_int i @ r = show_int j @ s" "delimited r" "delimited s"
  shows "i = j \<and> r = s"
  using assms takeWhile_delimited [OF show_int_num(1) _ num_char_delims] by (metis show_int_inject)

text \<open>The first character of a value tells its kind.\<close>

definition kind_char :: "json \<Rightarrow> char" where
  "kind_char v = (case v of JNull \<Rightarrow> CHR ''n'' | JBool b \<Rightarrow> (if b then CHR ''t'' else CHR ''f'')
     | JInt _ \<Rightarrow> CHR ''0'' | JStr _ \<Rightarrow> quote_char | JList _ \<Rightarrow> CHR ''['' | JObj _ \<Rightarrow> CHR ''{''
     | _ \<Rightarrow> CHR ''?'')"

definition num_norm :: "char \<Rightarrow> char" where
  "num_norm c = (if num_char c then CHR ''0'' else c)"

lemma emit_hd:
  assumes "supported v"
  shows "\<exists>c cs. emit v = c # cs \<and> num_norm c = kind_char v \<and> \<not> delimited (c # r)"
proof (cases v)
  case (JInt i)
  then obtain c cs where c: "show_int i = c # cs" using show_int_num(2) [of i] by (cases "show_int i") auto
  with show_int_num(1) [of i] have "num_char c" by simp
  with c JInt num_char_delims show ?thesis by (auto simp: num_norm_def kind_char_def delimited_def)
qed (use assms in \<open>auto simp: num_norm_def kind_char_def num_char_def is_digit_def ascii_def
    json_string_def quote_char_def delimited_def\<close>)

lemma emit_kind:
  assumes "supported v" "supported w" "emit v @ r = emit w @ s"
  shows "kind_char v = kind_char w"
  using emit_hd [OF assms(1), of "[]"] emit_hd [OF assms(2), of "[]"] assms(3) by force

lemma kind_char_inject:
  "kind_char v = kind_char w \<Longrightarrow> supported v \<Longrightarrow> supported w \<Longrightarrow>
     (case v of JNull \<Rightarrow> w = JNull | JBool b \<Rightarrow> w = JBool b | JInt _ \<Rightarrow> w \<in> range JInt
      | JStr _ \<Rightarrow> w \<in> range JStr | JList _ \<Rightarrow> w \<in> range JList | JObj _ \<Rightarrow> w \<in> range JObj | _ \<Rightarrow> False)"
  by (cases v; cases w) (auto simp: kind_char_def quote_char_def split: if_splits)

lemma emit_items_delimited: "delimited (emit_items False vs @ CHR '']'' # r)"
  by (cases vs) simp_all

lemma emit_fields_delimited: "delimited (emit_fields False fs @ CHR ''}'' # r)"
  by (cases fs) auto

definition emit_inj_at :: "json \<Rightarrow> bool" where
  "emit_inj_at v \<longleftrightarrow> (\<forall>w r s. supported w \<longrightarrow> delimited r \<longrightarrow> delimited s \<longrightarrow>
     emit v @ r = emit w @ s \<longrightarrow> v = w \<and> r = s)"

lemma emit_inj_atD:
  "emit_inj_at v \<Longrightarrow> supported w \<Longrightarrow> delimited r \<Longrightarrow> delimited s \<Longrightarrow>
     emit v @ r = emit w @ s \<Longrightarrow> v = w \<and> r = s"
  unfolding emit_inj_at_def by blast

lemma emit_items_inj:
  assumes "\<And>v. v \<in> set vs \<Longrightarrow> supported v \<and> emit_inj_at v" "list_all supported ws"
    and "emit_items b vs @ CHR '']'' # r = emit_items b ws @ CHR '']'' # s"
  shows "vs = ws \<and> r = s"
  using assms
proof (induction vs arbitrary: ws b)
  case Nil
  show ?case
  proof (cases ws)
    case (Cons w ws')
    with Nil.prems(2) emit_hd [of w "[]"] Nil.prems(3) show ?thesis
      by (auto simp: delimited_def split: if_splits)
  qed (use Nil.prems in simp)
next
  case (Cons v vs)
  show ?case
  proof (cases ws)
    case Nil
    with Cons.prems(1) [of v] emit_hd [of v "[]"] Cons.prems(3) show ?thesis
      by (auto simp: delimited_def split: if_splits)
  next
    case ws: (Cons w ws')
    with Cons.prems(3) have "emit v @ emit_items False vs @ CHR '']'' # r =
        emit w @ emit_items False ws' @ CHR '']'' # s" by (simp split: if_splits)
    with Cons.prems(1) [of v] Cons.prems(2) ws
    have e: "v = w" "emit_items False vs @ CHR '']'' # r = emit_items False ws' @ CHR '']'' # s"
      using emit_items_delimited unfolding emit_inj_at_def by force+
    from Cons.IH [OF _ _ e(2)] Cons.prems ws e(1) show ?thesis by auto
  qed
qed

lemma emit_fields_inj:
  assumes "\<And>f. f \<in> set fs \<Longrightarrow> fst f \<noteq> OtherKey \<and> supported (snd f) \<and> emit_inj_at (snd f)"
    and "list_all (\<lambda>f. fst f \<noteq> OtherKey \<and> supported (snd f)) gs"
    and "emit_fields b fs @ CHR ''}'' # r = emit_fields b gs @ CHR ''}'' # s"
  shows "fs = gs \<and> r = s"
  using assms
proof (induction fs arbitrary: gs b)
  case Nil
  then show ?case by (cases gs) (auto simp: json_string_def quote_char_def split: if_splits)
next
  case (Cons f fs)
  obtain k v where f: "f = (k, v)" by (cases f)
  show ?case
  proof (cases gs)
    case Nil
    with Cons.prems f show ?thesis by (auto simp: json_string_def quote_char_def split: if_splits)
  next
    case gs: (Cons g gs')
    obtain l w where g: "g = (l, w)" by (cases g)
    from Cons.prems(3) f gs g have
      "json_string (key_text k) @ CHR '':'' # emit v @ emit_fields False fs @ CHR ''}'' # r =
       json_string (key_text l) @ CHR '':'' # emit w @ emit_fields False gs' @ CHR ''}'' # s"
      by (simp split: if_splits)
    from json_string_prefix_free [OF this] have kl: "key_text k = key_text l"
      and e: "emit v @ emit_fields False fs @ CHR ''}'' # r = emit w @ emit_fields False gs' @ CHR ''}'' # s"
      by simp_all
    from kl have "k = l" using Cons.prems(1) [of f] Cons.prems(2) f gs g
      by (cases k; cases l) (auto simp: key_text_def)
    have v: "emit_inj_at v" "supported w" using Cons.prems(1) [of f] Cons.prems(2) f gs g by auto
    note e = emit_inj_atD [OF v emit_fields_delimited emit_fields_delimited e]
    have "fs = gs' \<and> r = s"
      using Cons.prems(1,2) gs by (intro Cons.IH [OF _ _ conjunct2 [OF e]]) auto
    with e \<open>k = l\<close> f g gs show ?thesis by simp
  qed
qed

lemma emit_inj_atom:
  assumes "supported v" "v \<notin> range JList" "v \<notin> range JObj"
  shows "emit_inj_at v"
  unfolding emit_inj_at_def
proof (intro allI impI)
  fix w r s
  assume w: "supported w" and d: "delimited r" "delimited s" and e: "emit v @ r = emit w @ s"
  from kind_char_inject [OF emit_kind [OF assms(1) w e] assms(1) w] assms e d
  show "v = w \<and> r = s"
    by (cases v) (auto dest: show_int_prefix_free json_string_prefix_free split: if_splits)
qed

lemma emit_inj: "supported v \<Longrightarrow> emit_inj_at v"
proof (induction v)
  case (JList vs)
  show ?case
    unfolding emit_inj_at_def
  proof (intro allI impI)
    fix w r s
    assume w: "supported w" and e: "emit (JList vs) @ r = emit w @ s"
    obtain ws where ws: "w = JList ws"
      using kind_char_inject [OF emit_kind [OF JList.prems w e] JList.prems w] by auto
    with e have "emit_items True vs @ CHR '']'' # r = emit_items True ws @ CHR '']'' # s" by simp
    from emit_items_inj [OF _ _ this] JList ws w show "JList vs = w \<and> r = s"
      by (auto simp: list_all_iff)
  qed
next
  case (JObj fs)
  show ?case
    unfolding emit_inj_at_def
  proof (intro allI impI)
    fix w r s
    assume w: "supported w" and e: "emit (JObj fs) @ r = emit w @ s"
    obtain gs where gs: "w = JObj gs"
      using kind_char_inject [OF emit_kind [OF JObj.prems w e] JObj.prems w] by auto
    with e have "emit_fields True fs @ CHR ''}'' # r = emit_fields True gs @ CHR ''}'' # s" by simp
    moreover have "fst f \<noteq> OtherKey \<and> supported (snd f) \<and> emit_inj_at (snd f)" if "f \<in> set fs" for f
      using JObj.prems that by (cases f) (auto simp: list_all_iff intro!: JObj.IH)
    ultimately have "fs = gs \<and> r = s" using w gs by (intro emit_fields_inj) auto
    with gs show "JObj fs = w \<and> r = s" by simp
  qed
qed (auto intro: emit_inj_atom)

lemma supported_sort_keys: "supported v \<Longrightarrow> supported (sort_keys v)"
  by (induction v rule: sort_keys.induct) (auto simp: list_all_iff)

lemma json_dumps_inject:
  assumes "supported v" "supported w" "json_dumps v = json_dumps w"
  shows "sort_keys v = sort_keys w"
proof -
  have "inj (\<lambda>c. word_of_nat (ascii c) :: byte)"
  proof (rule injI)
    fix c d
    assume "(word_of_nat (ascii c) :: byte) = word_of_nat (ascii d)"
    then have "unat (word_of_nat (ascii c) :: byte) = unat (word_of_nat (ascii d) :: byte)" by simp
    then show "c = d" by (simp add: unat_byte_of_nat ascii_inject)
  qed
  with assms(3) have "emit (sort_keys v) = emit (sort_keys w)"
    by (auto simp: json_dumps_def dest: inj_mapD)
  then have "emit (sort_keys v) @ [] = emit (sort_keys w) @ []" by simp
  with emit_inj_atD [OF emit_inj [OF supported_sort_keys [OF assms(1)]] supported_sort_keys [OF assms(2)]]
  show ?thesis by force
qed

definition is_object :: "json \<Rightarrow> bool" where
  "is_object v = (case v of JObj _ \<Rightarrow> True | _ \<Rightarrow> False)"

text \<open>Objects with distinct keys that agree up to the order of keys agree field by field.\<close>

definition field :: "json \<Rightarrow> string \<Rightarrow> json option" where
  "field v k = (case v of JObj fs \<Rightarrow> map_option sort_keys (map_of fs (StrKey k)) | _ \<Rightarrow> None)"

lemma field_sort_keys:
  assumes "sort_keys (JObj fs) = sort_keys (JObj gs)" "distinct (map fst fs)" "distinct (map fst gs)"
  shows "field (JObj fs) k = field (JObj gs) k"
proof -
  have m: "map_of (map (\<lambda>f. (fst f, sort_keys (snd f))) hs) l = map_option sort_keys (map_of hs l)" for hs l
    by (induction hs) auto
  have "map_of (map (\<lambda>f. (fst f, sort_keys (snd f))) fs) = map_of (map (\<lambda>f. (fst f, sort_keys (snd f))) gs)"
  proof (subst map_of_inject_set)
    show "distinct (map fst (map (\<lambda>f. (fst f, sort_keys (snd f))) fs))"
      "distinct (map fst (map (\<lambda>f. (fst f, sort_keys (snd f))) gs))"
      using assms(2,3) by (simp_all add: comp_def)
    show "set (map (\<lambda>f. (fst f, sort_keys (snd f))) fs) = set (map (\<lambda>f. (fst f, sort_keys (snd f))) gs)"
      using arg_cong [OF assms(1), of "\<lambda>v. case v of JObj hs \<Rightarrow> set hs | _ \<Rightarrow> {}"] by simp
  qed
  then have "map_of (map (\<lambda>f. (fst f, sort_keys (snd f))) fs) (StrKey k) =
      map_of (map (\<lambda>f. (fst f, sort_keys (snd f))) gs) (StrKey k)" by (rule fun_cong)
  then show ?thesis by (simp only: m field_def json.case)
qed

section \<open>The interface the signed artefacts rely on\<close>

locale canonicalizer =
  fixes dumps :: "json \<Rightarrow> bytes res"
  assumes dumps_inject:
    "supported v \<Longrightarrow> supported w \<Longrightarrow> dumps v = Inr b \<Longrightarrow> dumps w = Inr b \<Longrightarrow>
       sort_keys v = sort_keys w"
begin

lemma canonical_document:
  assumes "canonical_json (Some dumps) v = Inr b" "canonical_json (Some dumps) w = Inr b"
  shows "sort_keys v = sort_keys w"
  using assms dumps_inject
  by (auto simp: canonical_json_def rbind_Inr_iff assert_supported_iff)

end

interpretation stdlib: canonicalizer json_dumps
proof unfold_locales
  fix v w b
  assume "supported v" "supported w" "json_dumps v = Inr b" "json_dumps w = Inr b"
  then show "sort_keys v = sort_keys w" by (intro json_dumps_inject) simp_all
qed

text \<open>
  The serializer that \<open>canonical_json\<close> ends up with: \<open>rfc8785.dumps\<close>, of which injectivity
  is required, or the standard library's, for which it is proved.
\<close>

definition canonical_ok :: "(json \<Rightarrow> bytes res) option \<Rightarrow> bool" where
  "canonical_ok rfc8785 \<longleftrightarrow> (case rfc8785 of None \<Rightarrow> True | Some dumps \<Rightarrow> canonicalizer dumps)"

lemma canonical_json_document:
  assumes "canonical_ok rfc8785" "canonical_json rfc8785 v = Inr b" "canonical_json rfc8785 w = Inr b"
  shows "sort_keys v = sort_keys w"
proof (cases rfc8785)
  case None
  then have "canonical_json (Some json_dumps) u = canonical_json rfc8785 u" for u
    by (simp add: canonical_json_def)
  with assms(2,3) show ?thesis by (intro stdlib.canonical_document) simp_all
next
  case (Some dumps)
  with assms(1) have "canonicalizer dumps" by (simp add: canonical_ok_def)
  from canonicalizer.canonical_document [OF this] assms(2,3) Some show ?thesis by blast
qed

section \<open>Properties\<close>

text \<open>
  Every identifier \<open>uuid7\<close> returns has the RFC 4122 variant and version 7, so it passes
  the validator of \<open>ProposalV1\<close>, whatever the random bits.
\<close>

theorem uuid7_version:
  assumes "uuid7 timestamp random_bits = Inr u"
  shows "uuid_version u = Some 7"
proof -
  define e where "e = random_bits mod 2 ^ 62"
  define c where "c = random_bits div 2 ^ 62 mod 2 ^ 12"
  have le: "e < 2 ^ 62" "c < 2 ^ 12" by (simp_all add: e_def c_def)
  have u: "unat u = nat timestamp * 2 ^ 80 + (7 * 2 ^ 76 + (c * 2 ^ 64 + (2 * 2 ^ 62 + e)))"
    using unat_uuid7(3) [OF assms] by (simp only: uuid7_value_eq e_def c_def)
  have "unat u = (nat timestamp * 2 ^ 18 + 7 * 2 ^ 14 + c * 4 + 2) * 2 ^ 62 + e"
    unfolding u by simp
  then have "unat u div 2 ^ 62 = nat timestamp * 2 ^ 18 + 7 * 2 ^ 14 + c * 4 + 2"
    using le(1) by (simp only: div_mult_self3 div_less)
  also have "\<dots> = 2 + 4 * (nat timestamp * 2 ^ 16 + 7 * 2 ^ 12 + c)" by simp
  finally have variant: "unat u div 2 ^ 62 mod 4 = 2" by (simp only: mod_mult_self2) simp
  have "unat u = (nat timestamp * 16 + 7) * 2 ^ 76 + (c * 2 ^ 64 + (2 * 2 ^ 62 + e))"
    unfolding u by simp
  moreover have "c * 2 ^ 64 + (2 * 2 ^ 62 + e) < 2 ^ 76" using le by simp
  ultimately have "unat u div 2 ^ 76 = nat timestamp * 16 + 7" by simp
  then show ?thesis using variant by (simp add: uuid_version_def)
qed

theorem uuid7_version_witness: "uuid_version (0x123456789ABC7FFFBFFFFFFFFFFFFFFF) = Some 7"
proof (rule uuid7_version [where timestamp = "0x123456789ABC" and random_bits = "2 ^ 74 - 1"])
  show "uuid7 0x123456789ABC (2 ^ 74 - 1) = Inr 0x123456789ABC7FFFBFFFFFFFFFFFFFFF" by code_simp
qed

text \<open>
  Identifiers sort by time: one generated in an earlier millisecond is the smaller
  number, whatever the random bits of the two.
\<close>

theorem uuid7_sorts_by_time:
  assumes "uuid7 t random_bits = Inr u" "uuid7 t' random_bits' = Inr u'" "t < t'"
  shows "u < u'"
proof -
  have lt: "uuid7_value ts r < (ts + 1) * 2 ^ 80" for ts r
  proof -
    have "r mod 2 ^ 62 < 2 ^ 62" "r div 2 ^ 62 mod 2 ^ 12 < 2 ^ 12" by simp_all
    then show ?thesis unfolding uuid7_value_eq by simp
  qed
  have "unat u < (nat t + 1) * 2 ^ 80" using unat_uuid7(3) [OF assms(1)] lt by simp
  also have "\<dots> \<le> nat t' * 2 ^ 80"
    using assms(3) unat_uuid7(1) [OF assms(1)] by (intro mult_right_mono) auto
  also have "\<dots> \<le> unat u'" using unat_uuid7(3) [OF assms(2)] by (simp add: uuid7_value_eq)
  finally show ?thesis by (simp add: word_less_nat_alt)
qed

theorem uuid7_sorts_by_time_witness:
  "(0x00000000000171FFB000000000000005 :: uuid) < 0x00000000000270008000000000000000"
proof (rule uuid7_sorts_by_time [where t = 1 and t' = 2 and
      random_bits = "0x1FF * 2 ^ 62 + 0x3000000000000005" and random_bits' = 0])
  show "uuid7 1 (0x1FF * 2 ^ 62 + 0x3000000000000005) = Inr 0x00000000000171FFB000000000000005"
    by code_simp
  show "uuid7 2 0 = Inr 0x00000000000270008000000000000000" by code_simp
qed simp

text \<open>
  Canonical bytes determine the document: two documents that \<open>canonical_json\<close> maps to
  the same bytes are equal up to the order of object keys. For the standard library's
  serializer nothing is assumed; for the \<open>rfc8785\<close> package, that it has this property.
\<close>

theorem canonical_json_binding:
  assumes "canonical_ok rfc8785" "canonical_json rfc8785 v = Inr b" "canonical_json rfc8785 w = Inr b"
  shows "sort_keys v = sort_keys w"
  using assms by (rule canonical_json_document)

theorem canonical_json_binding_witness:
  "sort_keys (JObj [(StrKey ''b'', JInt (- 12)), (StrKey ''a'', JList [JBool True, JStr [CHR 0x0A]])]) =
   sort_keys (JObj [(StrKey ''a'', JList [JBool True, JStr [CHR 0x0A]]), (StrKey ''b'', JInt (- 12))])"
  (is "sort_keys ?v = sort_keys ?w")
proof -
  have "canonical_json None ?v = canonical_json None ?w" by code_simp
  moreover have "canonical_json None ?w = Inr (projr (canonical_json None ?w))"
    by (simp add: canonical_json_def json_dumps_def)
  ultimately show ?thesis by (intro canonical_json_binding [of None]) (simp_all add: canonical_ok_def)
qed

end
