(* ===== verification/Crypto.thy ===== *)
theory Crypto
  imports Canonical
begin

text \<open>
  \<open>src/agentwallet/chain/crypto.py\<close> and the primitives below it. The hash functions, the
  Ed25519 operations of the \<open>cryptography\<close> package, the \<open>rfc8785\<close> serializer and the ISO
  8601 text that pydantic gives a timestamp are not code of the repository: they are the
  fields of a record, an argument of every definition that uses them. What a property
  needs of them is one of the predicates \<open>hash_ok\<close>, \<open>keys_ok\<close> and \<open>iso_ok\<close> below, and
  \<open>prims\<close> satisfies them all.
\<close>

record primitives =
  sha256 :: "bytes \<Rightarrow> bytes"
  keccak :: "bytes \<Rightarrow> bytes"
  ed25519_public :: "bytes \<Rightarrow> bytes"
  ed25519_sign :: "bytes \<Rightarrow> bytes \<Rightarrow> bytes"
  ed25519_verify :: "bytes \<Rightarrow> bytes \<Rightarrow> bytes \<Rightarrow> bool"
  rfc8785 :: "(json \<Rightarrow> bytes res) option"
  iso8601 :: "time \<Rightarrow> string"

text \<open>\<open>str.encode()\<close>: the text's UTF-8 bytes.\<close>

definition encode :: "string \<Rightarrow> bytes" where
  "encode s = map (\<lambda>c. word_of_nat (ascii c)) s"

lemma encode_inject [simp]: "encode s = encode t \<longleftrightarrow> s = t"
proof -
  have "inj (\<lambda>c. word_of_nat (ascii c) :: byte)"
  proof (rule injI)
    fix c d
    assume "(word_of_nat (ascii c) :: byte) = word_of_nat (ascii d)"
    then have "unat (word_of_nat (ascii c) :: byte) = unat (word_of_nat (ascii d) :: byte)" by simp
    then show "c = d" by (simp add: unat_byte_of_nat ascii_inject)
  qed
  then show ?thesis by (simp add: encode_def inj_map_eq_map)
qed

definition sha256_hex :: "primitives \<Rightarrow> bytes \<Rightarrow> string" where
  "sha256_hex P data = bytes_hex (sha256 P data)"

definition seed_bytes :: "primitives \<Rightarrow> string \<Rightarrow> bytes" where
  "seed_bytes P seed = sha256 P (encode (''agentwallet-seed::'' @ seed))"

text \<open>\<open>text[-n:]\<close>\<close>

definition last_chars :: "nat \<Rightarrow> string \<Rightarrow> string" where
  "last_chars n s = drop (length s - n) s"

definition address_of :: "primitives \<Rightarrow> bytes \<Rightarrow> string" where
  "address_of P pub = ''0x'' @ last_chars 40 (sha256_hex P pub)"

record KeyPair =
  kp_priv :: bytes
  kp_pub :: bytes
  kp_address :: string

definition from_seed :: "primitives \<Rightarrow> string \<Rightarrow> KeyPair" where
  "from_seed P seed =
     (let priv = seed_bytes P seed; pub = ed25519_public P priv
      in \<lparr>kp_priv = priv, kp_pub = pub, kp_address = address_of P pub\<rparr>)"

definition key_sign :: "primitives \<Rightarrow> KeyPair \<Rightarrow> bytes \<Rightarrow> bytes" where
  "key_sign P k msg = ed25519_sign P (kp_priv k) msg"

definition verify_with_address ::
  "primitives \<Rightarrow> string \<Rightarrow> bytes \<Rightarrow> bytes \<Rightarrow> bytes \<Rightarrow> bool" where
  "verify_with_address P address msg sig pub =
     (if address_of P pub \<noteq> lower address \<and> address_of P pub \<noteq> address then False
      else ed25519_verify P pub sig msg)"

section \<open>What is documented of the primitives\<close>

definition hash_ok :: "primitives \<Rightarrow> bool" where
  "hash_ok P \<longleftrightarrow> (\<forall>b. length (sha256 P b) = 32)"

definition keys_ok :: "primitives \<Rightarrow> bool" where
  "keys_ok P \<longleftrightarrow> (\<forall>k m. ed25519_verify P (ed25519_public P k) (ed25519_sign P k m) m
      \<and> length (ed25519_sign P k m) = 64)"

definition iso_ok :: "primitives \<Rightarrow> bool" where
  "iso_ok P \<longleftrightarrow> inj (iso8601 P) \<and> canonical_ok (rfc8785 P)"

text \<open>
  A set of primitives that satisfies them: the hash keeps the length of its input and its
  first bytes, a signature is its key and a digest of the message, a timestamp is its
  decimal text.
\<close>

definition toy_hash :: "bytes \<Rightarrow> bytes" where
  "toy_hash b = take 32 (word_of_nat (length b) # word_of_nat (sum_list (map unat b)) # b @ replicate 32 0)"

definition prims :: primitives where
  "prims = \<lparr>sha256 = toy_hash, keccak = toy_hash, ed25519_public = (\<lambda>k. take 32 (k @ replicate 32 0)),
     ed25519_sign = (\<lambda>k m. take 32 (k @ replicate 32 0) @ toy_hash m),
     ed25519_verify = (\<lambda>p s m. s = p @ toy_hash m),
     rfc8785 = None, iso8601 = show_int\<rparr>"

lemma length_toy_hash [simp]: "length (toy_hash b) = 32"
  by (simp add: toy_hash_def)

lemma prims_ok: "hash_ok prims" "keys_ok prims" "iso_ok prims"
  by (auto simp: hash_ok_def keys_ok_def iso_ok_def prims_def canonical_ok_def inj_def show_int_inject)

lemma length_address_of: "hash_ok P \<Longrightarrow> length (address_of P pub) = 42"
  by (simp add: address_of_def last_chars_def sha256_hex_def hash_ok_def)

lemma lower_address_of: "lower (address_of P pub) = address_of P pub"
proof -
  have "lower (drop n s) = drop n (lower s)" for n s by (simp add: lower_def drop_map)
  then show ?thesis
    unfolding address_of_def last_chars_def sha256_hex_def by (simp only: lower_append lower_0x lower_bytes_hex)
qed

end
