(* ===== verification/Contracts.thy ===== *)
theory Contracts
  imports Crypto
begin

text \<open>
  \<open>src/aegisledger/contracts.py\<close> and \<open>policy.py\<close>: the strict models that the gateway, the
  policy service and the signer share. A pydantic model is a record; constructing one is
  a function that checks the field constraints and returns the normalized record or the
  validation error (a \<open>ValueError\<close>). Values arrive here already parsed into their types
  (identifiers, timestamps with an offset); a model's JSON dump is a \<^typ>\<open>json\<close> value with
  the fields in the order of the class.
\<close>

section \<open>Patterns\<close>

text \<open>\<open>len(text)\<close>: code points, that is the bytes that do not continue a sequence.\<close>

definition py_len :: "string \<Rightarrow> nat" where
  "py_len s = length (filter (\<lambda>c. ascii c div 64 \<noteq> 2) s)"

definition len_between :: "nat \<Rightarrow> nat \<Rightarrow> string \<Rightarrow> bool" where
  "len_between m n s \<longleftrightarrow> m \<le> py_len s \<and> py_len s \<le> n"

definition Hex32 :: "string \<Rightarrow> bool" where
  "Hex32 s \<longleftrightarrow> startswith s ''0x'' \<and> length s = 66 \<and> list_all is_lower_hex (drop 2 s)"

definition Address :: "string \<Rightarrow> bool" where
  "Address s \<longleftrightarrow> startswith s ''0x'' \<and> length s = 42 \<and> list_all is_hex (drop 2 s)"

definition asset_char :: "char \<Rightarrow> bool" where
  "asset_char c \<longleftrightarrow> is_upper c \<or> is_digit c \<or> c \<in> {CHR ''.'', CHR ''_'', CHR '':'', CHR ''-''}"

definition AssetId :: "string \<Rightarrow> bool" where
  "AssetId s \<longleftrightarrow> 2 \<le> length s \<and> length s \<le> 64 \<and> is_upper (hd s) \<and> list_all asset_char (tl s)"

definition Selector :: "string \<Rightarrow> bool" where
  "Selector s \<longleftrightarrow> startswith s ''0x'' \<and> length s = 10 \<and> list_all is_hex (drop 2 s)"

definition CallData :: "string \<Rightarrow> bool" where
  "CallData s \<longleftrightarrow> startswith s ''0x'' \<and> even (length s) \<and> list_all is_hex (drop 2 s)"

definition HexData :: "string \<Rightarrow> bool" where
  "HexData s \<longleftrightarrow> CallData s \<and> 2 < length s"

definition IdempotencyKey :: "string \<Rightarrow> bool" where
  "IdempotencyKey s \<longleftrightarrow> len_between 8 128 s"

definition ReasonCode :: "string \<Rightarrow> bool" where
  "ReasonCode s \<longleftrightarrow> 2 \<le> length s \<and> length s \<le> 64 \<and> is_upper (hd s) \<and>
     list_all (\<lambda>c. is_upper c \<or> is_digit c \<or> c = CHR ''_'') (tl s)"

definition SignatureHex :: "string \<Rightarrow> bool" where
  "SignatureHex s \<longleftrightarrow> length s = 128 \<and> list_all is_lower_hex s"

section \<open>Proposals\<close>

datatype IntentV1 =
    TransferIntentV1 (intent_recipient: string)
  | SwapIntentV1 (intent_contract: string) (intent_selector: string) (intent_calldata: string)
      (intent_minimum_output: int) (intent_output_asset: string)

definition intent_kind :: "IntentV1 \<Rightarrow> string" where
  "intent_kind i = (case i of TransferIntentV1 _ \<Rightarrow> ''transfer'' | SwapIntentV1 _ _ _ _ _ \<Rightarrow> ''swap'')"

fun make_IntentV1 :: "IntentV1 \<Rightarrow> IntentV1 res" where
  "make_IntentV1 (TransferIntentV1 recipient) =
     (if Address recipient then Inr (TransferIntentV1 (lower recipient))
      else Inl (ValueError ''TransferIntentV1''))"
| "make_IntentV1 (SwapIntentV1 contract selector calldata minimum_output output_asset) =
     (if Address contract \<and> Selector selector \<and> CallData calldata \<and> 0 \<le> minimum_output
         \<and> AssetId output_asset
      then Inr (SwapIntentV1 (lower contract) (lower selector) (lower calldata) minimum_output
        output_asset)
      else Inl (ValueError ''SwapIntentV1''))"

record ProposalV1 =
  pr_proposal_id :: uuid
  pr_principal_id :: string
  pr_wallet :: string
  pr_chain_id :: int
  pr_asset :: string
  pr_amount :: int
  pr_intent :: IntentV1
  pr_deadline :: time
  pr_idempotency_key :: string
  pr_mandate_id :: "uuid option"
  pr_quote_reference :: "string option"

definition require_uuid7 :: "uuid \<Rightarrow> uuid res" where
  "require_uuid7 u =
     (if uuid_version u \<noteq> Some 7 then Inl (ValueError ''proposal_id must be UUIDv7'') else Inr u)"

definition make_ProposalV1 :: "ProposalV1 \<Rightarrow> ProposalV1 res" where
  "make_ProposalV1 p =
     rbind (require_uuid7 (pr_proposal_id p)) (\<lambda>_.
     rbind (make_IntentV1 (pr_intent p)) (\<lambda>intent.
     if len_between 1 128 (pr_principal_id p) \<and> Address (pr_wallet p) \<and> 0 < pr_chain_id p
        \<and> AssetId (pr_asset p) \<and> 0 < pr_amount p \<and> IdempotencyKey (pr_idempotency_key p)
        \<and> (case pr_quote_reference p of None \<Rightarrow> True | Some q \<Rightarrow> len_between 1 256 q)
     then Inr (p\<lparr>pr_wallet := lower (pr_wallet p), pr_intent := intent\<rparr>)
     else Inl (ValueError ''ProposalV1'')))"

definition obj :: "(string \<times> json) list \<Rightarrow> json" where
  "obj fs = JObj (map (\<lambda>f. (StrKey (fst f), snd f)) fs)"

fun intent_json :: "IntentV1 \<Rightarrow> json" where
  "intent_json (TransferIntentV1 recipient) =
     obj [(''kind'', JStr ''transfer''), (''recipient'', JStr recipient)]"
| "intent_json (SwapIntentV1 contract selector calldata minimum_output output_asset) =
     obj [(''kind'', JStr ''swap''), (''contract'', JStr contract), (''selector'', JStr selector),
       (''calldata'', JStr calldata), (''minimum_output'', JInt minimum_output),
       (''output_asset'', JStr output_asset)]"

text \<open>\<open>model_dump(mode="json", exclude_none=True)\<close>\<close>

definition proposal_json :: "primitives \<Rightarrow> ProposalV1 \<Rightarrow> json" where
  "proposal_json P p = obj (
     [(''schema_version'', JStr ''aegisledger.proposal.v1''),
      (''proposal_id'', JStr (uuid_str (pr_proposal_id p))),
      (''principal_id'', JStr (pr_principal_id p)),
      (''wallet'', JStr (pr_wallet p)),
      (''chain_id'', JInt (pr_chain_id p)),
      (''asset'', JStr (pr_asset p)),
      (''amount'', JInt (pr_amount p)),
      (''intent'', intent_json (pr_intent p)),
      (''deadline'', JStr (iso8601 P (pr_deadline p))),
      (''idempotency_key'', JStr (pr_idempotency_key p))]
     @ (case pr_mandate_id p of None \<Rightarrow> [] | Some m \<Rightarrow> [(''mandate_id'', JStr (uuid_str m))])
     @ (case pr_quote_reference p of None \<Rightarrow> [] | Some q \<Rightarrow> [(''quote_reference'', JStr q)]))"

definition canonical_payload :: "primitives \<Rightarrow> ProposalV1 \<Rightarrow> bytes res" where
  "canonical_payload P p = canonical_json (rfc8785 P) (proposal_json P p)"

definition proposal_hash :: "primitives \<Rightarrow> ProposalV1 \<Rightarrow> string res" where
  "proposal_hash P p = rbind (canonical_payload P p) (\<lambda>b. Inr (''0x'' @ sha256_hex P b))"

section \<open>Decision tokens\<close>

datatype DecisionVerdict = ALLOW | DENY

definition verdict_name :: "DecisionVerdict \<Rightarrow> string" where
  "verdict_name v = (case v of ALLOW \<Rightarrow> ''ALLOW'' | DENY \<Rightarrow> ''DENY'')"

record DecisionTokenV1 =
  dt_decision_id :: uuid
  dt_proposal_hash :: string
  dt_policy_version_id :: uuid
  dt_policy_hash :: string
  dt_state_version :: int
  dt_reservation_id :: "uuid option"
  dt_verdict :: DecisionVerdict
  dt_reason_codes :: "string list"
  dt_expires_at :: time
  dt_decision_nonce :: uuid
  dt_policy_signer :: string
  dt_signature :: string

definition make_DecisionTokenV1 :: "DecisionTokenV1 \<Rightarrow> DecisionTokenV1 res" where
  "make_DecisionTokenV1 t =
     (if \<not> (Hex32 (dt_proposal_hash t) \<and> Hex32 (dt_policy_hash t) \<and> 0 \<le> dt_state_version t
         \<and> list_all ReasonCode (dt_reason_codes t) \<and> len_between 1 256 (dt_policy_signer t)
         \<and> SignatureHex (dt_signature t))
      then Inl (ValueError ''DecisionTokenV1'')
      else if dt_verdict t = ALLOW \<and> dt_reservation_id t = None
      then Inl (ValueError ''ALLOW decisions require a reservation'')
      else if dt_verdict t = DENY \<and> dt_reservation_id t \<noteq> None
      then Inl (ValueError ''DENY decisions cannot carry a reservation'')
      else Inr t)"

section \<open>Signed transactions\<close>

record SignedTransactionV1 =
  st_transaction_id :: uuid
  st_eip712_hash :: string
  st_eip1559_hash :: string
  st_transaction_hash :: string
  st_raw_transaction :: string
  st_wallet :: string
  st_wallet_nonce :: int
  st_chain_id :: int
  st_decision_id :: uuid
  st_signer_identity :: string
  st_enclave_evidence :: json
  st_signature :: string

definition RecoverableSignature :: "string \<Rightarrow> bool" where
  "RecoverableSignature s \<longleftrightarrow> startswith s ''0x'' \<and> length s = 132 \<and> list_all is_lower_hex (drop 2 s)"

definition make_SignedTransactionV1 :: "SignedTransactionV1 \<Rightarrow> SignedTransactionV1 res" where
  "make_SignedTransactionV1 t =
     (if Hex32 (st_eip712_hash t) \<and> Hex32 (st_eip1559_hash t) \<and> Hex32 (st_transaction_hash t)
         \<and> HexData (st_raw_transaction t) \<and> Address (st_wallet t) \<and> 0 \<le> st_wallet_nonce t
         \<and> 0 < st_chain_id t \<and> len_between 1 256 (st_signer_identity t)
         \<and> (case st_enclave_evidence t of JObj fs \<Rightarrow> list_all (\<lambda>f. fst f \<noteq> OtherKey) fs | _ \<Rightarrow> False)
         \<and> RecoverableSignature (st_signature t)
      then Inr t else Inl (ValueError ''SignedTransactionV1''))"

section \<open>The lifecycle of a proposal\<close>

datatype LifecycleState =
  PROPOSED | RESERVED | SIGNED | SUBMITTED | SETTLED | DENIED | REVERTED | EXPIRED

definition lifecycle_name :: "LifecycleState \<Rightarrow> string" where
  "lifecycle_name s = (case s of PROPOSED \<Rightarrow> ''PROPOSED'' | RESERVED \<Rightarrow> ''RESERVED''
     | SIGNED \<Rightarrow> ''SIGNED'' | SUBMITTED \<Rightarrow> ''SUBMITTED'' | SETTLED \<Rightarrow> ''SETTLED''
     | DENIED \<Rightarrow> ''DENIED'' | REVERTED \<Rightarrow> ''REVERTED'' | EXPIRED \<Rightarrow> ''EXPIRED'')"

fun ALLOWED_TRANSITIONS :: "LifecycleState \<Rightarrow> LifecycleState list" where
  "ALLOWED_TRANSITIONS PROPOSED = [RESERVED, DENIED, EXPIRED]"
| "ALLOWED_TRANSITIONS RESERVED = [SIGNED, EXPIRED]"
| "ALLOWED_TRANSITIONS SIGNED = [SUBMITTED, EXPIRED]"
| "ALLOWED_TRANSITIONS SUBMITTED = [SETTLED, REVERTED]"
| "ALLOWED_TRANSITIONS _ = []"

definition require_transition :: "LifecycleState \<Rightarrow> LifecycleState \<Rightarrow> unit res" where
  "require_transition current target =
     (if target \<notin> set (ALLOWED_TRANSITIONS current)
      then Inl (ValueError (''invalid lifecycle transition: '' @ lifecycle_name current @ '' -> ''
        @ lifecycle_name target))
      else Inr ())"

section \<open>Policies\<close>

record RollingCapV1 =
  cap_window_seconds :: int
  cap_amount :: int

record RiskConstraintsV1 =
  risk_maximum_slippage_bps :: int
  risk_maximum_quote_age_seconds :: int
  risk_deny_on_missing_quote :: bool

record ContractRuleV1 =
  rule_contract :: string
  rule_selectors :: "string list"

record PolicyV1 =
  po_name :: string
  po_enabled_wallets :: "string list"
  po_enabled_principals :: "string list"
  po_enabled_chains :: "int list"
  po_enabled_assets :: "string list"
  po_allowed_recipients :: "string list"
  po_contract_rules :: "ContractRuleV1 list"
  po_per_transaction_cap :: int
  po_rolling_caps :: "RollingCapV1 list"
  po_maximum_transactions_per_hour :: int
  po_mandate_required_above :: int
  po_risk :: RiskConstraintsV1
  po_emergency_stop :: bool

definition make_ContractRuleV1 :: "ContractRuleV1 \<Rightarrow> ContractRuleV1 res" where
  "make_ContractRuleV1 r =
     (if Address (rule_contract r) \<and> list_all Selector (rule_selectors r)
      then Inr (r\<lparr>rule_contract := lower (rule_contract r)\<rparr>)
      else Inl (ValueError ''ContractRuleV1''))"

definition sorted_set :: "('a :: linorder) list \<Rightarrow> 'a list" where
  "sorted_set xs = sort (remdups xs)"

definition policy_fields_ok :: "PolicyV1 \<Rightarrow> bool" where
  "policy_fields_ok p \<longleftrightarrow> len_between 3 96 (po_name p)
     \<and> list_all Address (po_enabled_wallets p)
     \<and> list_all (len_between 1 128) (po_enabled_principals p)
     \<and> list_all (\<lambda>c. 0 < c) (po_enabled_chains p)
     \<and> list_all AssetId (po_enabled_assets p)
     \<and> list_all Address (po_allowed_recipients p)
     \<and> list_all (\<lambda>r. Address (rule_contract r) \<and> list_all Selector (rule_selectors r)) (po_contract_rules p)
     \<and> 0 \<le> po_per_transaction_cap p
     \<and> list_all (\<lambda>c. 0 < cap_window_seconds c \<and> 0 \<le> cap_amount c) (po_rolling_caps p)
     \<and> 0 \<le> po_maximum_transactions_per_hour p
     \<and> 0 \<le> po_mandate_required_above p
     \<and> 0 \<le> risk_maximum_slippage_bps (po_risk p) \<and> risk_maximum_slippage_bps (po_risk p) \<le> 10000
     \<and> 0 < risk_maximum_quote_age_seconds (po_risk p)"

definition normalize_policy :: "PolicyV1 \<Rightarrow> PolicyV1" where
  "normalize_policy p = p\<lparr>
     po_enabled_wallets := sorted_set (map lower (po_enabled_wallets p)),
     po_enabled_principals := sorted_set (po_enabled_principals p),
     po_enabled_chains := sorted_set (po_enabled_chains p),
     po_enabled_assets := sorted_set (po_enabled_assets p),
     po_allowed_recipients := sorted_set (map lower (po_allowed_recipients p)),
     po_contract_rules := map (\<lambda>r. r\<lparr>rule_contract := lower (rule_contract r)\<rparr>) (po_contract_rules p)\<rparr>"

definition make_PolicyV1 :: "PolicyV1 \<Rightarrow> PolicyV1 res" where
  "make_PolicyV1 p =
     (if \<not> policy_fields_ok p then Inl (ValueError ''PolicyV1'')
      else if \<not> distinct (map cap_window_seconds (po_rolling_caps p))
      then Inl (ValueError ''rolling cap windows must be unique'')
      else if po_per_transaction_cap p = 0 \<and> \<not> po_emergency_stop p
      then Inl (ValueError ''a zero per-transaction cap requires emergency_stop'')
      else Inr (normalize_policy p))"

definition policy_json :: "PolicyV1 \<Rightarrow> json" where
  "policy_json p = obj
     [(''schema_version'', JStr ''aegisledger.policy.v1''),
      (''name'', JStr (po_name p)),
      (''default_action'', JStr ''deny''),
      (''enabled_wallets'', JList (map JStr (po_enabled_wallets p))),
      (''enabled_principals'', JList (map JStr (po_enabled_principals p))),
      (''enabled_chains'', JList (map JInt (po_enabled_chains p))),
      (''enabled_assets'', JList (map JStr (po_enabled_assets p))),
      (''allowed_recipients'', JList (map JStr (po_allowed_recipients p))),
      (''contract_rules'', JList (map (\<lambda>r. obj [(''contract'', JStr (rule_contract r)),
         (''selectors'', JList (map JStr (rule_selectors r)))]) (po_contract_rules p))),
      (''per_transaction_cap'', JInt (po_per_transaction_cap p)),
      (''rolling_caps'', JList (map (\<lambda>c. obj [(''window_seconds'', JInt (cap_window_seconds c)),
         (''amount'', JInt (cap_amount c))]) (po_rolling_caps p))),
      (''maximum_transactions_per_hour'', JInt (po_maximum_transactions_per_hour p)),
      (''mandate_required_above'', JInt (po_mandate_required_above p)),
      (''risk'', obj [(''maximum_slippage_bps'', JInt (risk_maximum_slippage_bps (po_risk p))),
         (''maximum_quote_age_seconds'', JInt (risk_maximum_quote_age_seconds (po_risk p))),
         (''deny_on_missing_quote'', JBool (risk_deny_on_missing_quote (po_risk p)))]),
      (''emergency_stop'', JBool (po_emergency_stop p))]"

definition policy_hash :: "primitives \<Rightarrow> PolicyV1 \<Rightarrow> string res" where
  "policy_hash P p =
     rbind (canonical_json (rfc8785 P) (policy_json p)) (\<lambda>b. Inr (''0x'' @ sha256_hex P b))"

section \<open>A proposal's hash determines it\<close>

lemma map_of_StrKey: "map_of (map (\<lambda>f. (StrKey (fst f), snd f)) fs) (StrKey k) = map_of fs k"
  by (induction fs) auto

lemma field_obj: "field (obj fs) k = map_option sort_keys (map_of fs k)"
  by (simp add: obj_def field_def map_of_StrKey)

lemma obj_fields_eq:
  assumes "sort_keys (obj fs) = sort_keys (obj gs)" "distinct (map fst fs)" "distinct (map fst gs)"
  shows "map_option sort_keys (map_of fs k) = map_option sort_keys (map_of gs k)"
proof -
  have "distinct (map fst (map (\<lambda>f. (StrKey (fst f), snd f)) hs)) \<longleftrightarrow> distinct (map fst hs)"
    for hs :: "(string \<times> json) list"
    by (induction hs) auto
  with field_sort_keys [of "map (\<lambda>f. (StrKey (fst f), snd f)) fs" "map (\<lambda>f. (StrKey (fst f), snd f)) gs" k]
    assms have "field (obj fs) k = field (obj gs) k" by (simp add: obj_def)
  then show ?thesis by (simp add: field_obj)
qed

lemma intent_json_inject:
  assumes "sort_keys (intent_json i) = sort_keys (intent_json j)"
  shows "i = j"
proof -
  have "\<exists>fs. intent_json i = obj fs \<and> distinct (map fst fs)" for i
    by (cases i) (simp only: intent_json.simps, intro exI conjI, rule refl, simp)+
  then obtain fs gs where fs: "intent_json i = obj fs" "distinct (map fst fs)"
    and gs: "intent_json j = obj gs" "distinct (map fst gs)" by metis
  have field: "field (intent_json i) k = field (intent_json j) k" for k
    using obj_fields_eq [OF assms [unfolded fs gs] fs(2) gs(2)] by (simp add: fs(1) gs(1) field_obj)
  from field [of "''kind''"] field [of "''recipient''"] field [of "''contract''"]
    field [of "''selector''"] field [of "''calldata''"] field [of "''minimum_output''"]
    field [of "''output_asset''"]
  show ?thesis by (cases i; cases j) (simp_all add: field_obj)
qed

definition proposal_fields :: "primitives \<Rightarrow> ProposalV1 \<Rightarrow> (string \<times> json) list" where
  "proposal_fields P p =
     [(''schema_version'', JStr ''aegisledger.proposal.v1''),
      (''proposal_id'', JStr (uuid_str (pr_proposal_id p))),
      (''principal_id'', JStr (pr_principal_id p)),
      (''wallet'', JStr (pr_wallet p)),
      (''chain_id'', JInt (pr_chain_id p)),
      (''asset'', JStr (pr_asset p)),
      (''amount'', JInt (pr_amount p)),
      (''intent'', intent_json (pr_intent p)),
      (''deadline'', JStr (iso8601 P (pr_deadline p))),
      (''idempotency_key'', JStr (pr_idempotency_key p))]
     @ (case pr_mandate_id p of None \<Rightarrow> [] | Some m \<Rightarrow> [(''mandate_id'', JStr (uuid_str m))])
     @ (case pr_quote_reference p of None \<Rightarrow> [] | Some q \<Rightarrow> [(''quote_reference'', JStr q)])"

lemma proposal_json_inject:
  assumes "sort_keys (proposal_json P p) = sort_keys (proposal_json P q)" "inj (iso8601 P)"
  shows "p = q"
proof -
  have json: "proposal_json P r = obj (proposal_fields P r)" for r
    by (simp add: proposal_json_def proposal_fields_def)
  have distinct: "distinct (map fst (proposal_fields P r))" for r
    by (simp add: proposal_fields_def split: option.split)
  have field: "map_option sort_keys (map_of (proposal_fields P p) k) =
      map_option sort_keys (map_of (proposal_fields P q) k)" for k
    using assms(1) unfolding json by (rule obj_fields_eq) (rule distinct)+
  note field = field [unfolded proposal_fields_def, simplified]
  have "pr_mandate_id p = pr_mandate_id q"
    using field [of "''mandate_id''"] by (auto split: option.splits)
  moreover have "pr_quote_reference p = pr_quote_reference q"
    using field [of "''quote_reference''"] by (auto split: option.splits)
  moreover have "pr_intent p = pr_intent q"
    using field [of "''intent''"] by (simp add: intent_json_inject)
  moreover have "pr_deadline p = pr_deadline q"
    using field [of "''deadline''"] assms(2) by (simp add: inj_eq)
  moreover have "pr_proposal_id p = pr_proposal_id q" "pr_principal_id p = pr_principal_id q"
    "pr_wallet p = pr_wallet q" "pr_chain_id p = pr_chain_id q" "pr_asset p = pr_asset q"
    "pr_amount p = pr_amount q" "pr_idempotency_key p = pr_idempotency_key q"
    using field [of "''proposal_id''"] field [of "''principal_id''"] field [of "''wallet''"]
      field [of "''chain_id''"] field [of "''asset''"] field [of "''amount''"]
      field [of "''idempotency_key''"] by simp_all
  ultimately show ?thesis by simp
qed

text \<open>A collision of the hash between the given inputs: a statement up to a collision names the bytes that
  were hashed, so that a counterexample to it is a pair of colliding inputs.\<close>

definition collide :: "(bytes \<Rightarrow> bytes) \<Rightarrow> bytes set \<Rightarrow> bytes set \<Rightarrow> bool" where
  "collide h A B \<longleftrightarrow> (\<exists>b\<in>A. \<exists>c\<in>B. b \<noteq> c \<and> h b = h c)"

lemma collideI: "b \<in> A \<Longrightarrow> c \<in> B \<Longrightarrow> b \<noteq> c \<Longrightarrow> h b = h c \<Longrightarrow> collide h A B"
  by (auto simp: collide_def)

lemma collide_mono: "collide h A B \<Longrightarrow> A \<subseteq> A' \<Longrightarrow> B \<subseteq> B' \<Longrightarrow> collide h A' B'"
  by (auto simp: collide_def)

text \<open>The bytes that are hashed for a proposal.\<close>

definition proposal_inputs :: "primitives \<Rightarrow> ProposalV1 \<Rightarrow> bytes set" where
  "proposal_inputs P p = {b. canonical_payload P p = Inr b}"

lemma proposal_hash_inject:
  assumes "iso_ok P" "proposal_hash P p = Inr h" "proposal_hash P q = Inr h"
  shows "p = q \<or> collide (sha256 P) (proposal_inputs P p) (proposal_inputs P q)"
proof -
  from assms(2,3) obtain b c where b: "canonical_payload P p = Inr b" and c: "canonical_payload P q = Inr c"
    and "''0x'' @ sha256_hex P b = h" "''0x'' @ sha256_hex P c = h"
    by (auto simp: proposal_hash_def rbind_Inr_iff)
  then have h: "sha256 P b = sha256 P c" by (auto simp: sha256_hex_def)
  show ?thesis
  proof (cases "b = c")
    case True
    with b c assms(1) have "sort_keys (proposal_json P p) = sort_keys (proposal_json P q)"
      by (auto simp: canonical_payload_def iso_ok_def intro: canonical_json_document)
    with assms(1) show ?thesis by (auto simp: iso_ok_def intro: proposal_json_inject)
  next
    case False
    with h b c show ?thesis by (intro disjI2 collideI [of b _ c]) (simp_all add: proposal_inputs_def)
  qed
qed

text \<open>A proposal and a policy are made of supported values only.\<close>

lemma supported_obj: "supported (obj fs) \<longleftrightarrow> list_all (\<lambda>f. supported (snd f)) fs"
  by (simp add: obj_def list_all_iff)

lemma supported_proposal_json: "supported (proposal_json P p)"
proof -
  have "supported (intent_json i)" for i by (cases i) (simp_all add: supported_obj)
  then show ?thesis by (simp add: proposal_json_def supported_obj split: option.split)
qed

lemma supported_policy_json: "supported (policy_json p)"
  by (simp add: policy_json_def supported_obj list_all_iff)

lemma canonical_json_stdlib: "supported v \<Longrightarrow> canonical_json None v = json_dumps v"
  by (simp add: canonical_json_def assert_supported_iff [THEN iffD2])

lemma proposal_hash_stdlib: "rfc8785 P = None \<Longrightarrow> \<exists>h. proposal_hash P p = Inr h"
  by (simp add: proposal_hash_def canonical_payload_def canonical_json_stdlib supported_proposal_json
      json_dumps_def)

section \<open>Validation returns normal forms\<close>

lemma drop2_lower: "drop 2 (lower s) = lower (drop 2 s)"
  by (simp add: lower_def drop_map)

lemma startswith_lower: "startswith s ''0x'' \<Longrightarrow> startswith (lower s) ''0x''"
  by (metis lower_0x lower_append startswith_0x_drop startswith_append)

lemma pattern_lower [simp]:
  "Address s \<Longrightarrow> Address (lower s)" "Selector s \<Longrightarrow> Selector (lower s)" "CallData s \<Longrightarrow> CallData (lower s)"
  by (auto simp: Address_def Selector_def CallData_def drop2_lower list_all_is_hex_lower startswith_lower)

lemma make_IntentV1_fixed: "make_IntentV1 i = Inr j \<Longrightarrow> make_IntentV1 j = Inr j"
  by (cases i) (auto split: if_splits)

lemma make_ProposalV1_Inr:
  "make_ProposalV1 p = Inr q \<longleftrightarrow> uuid_version (pr_proposal_id p) = Some 7 \<and>
     len_between 1 128 (pr_principal_id p) \<and> Address (pr_wallet p) \<and> 0 < pr_chain_id p \<and>
     AssetId (pr_asset p) \<and> 0 < pr_amount p \<and> IdempotencyKey (pr_idempotency_key p) \<and>
     (case pr_quote_reference p of None \<Rightarrow> True | Some r \<Rightarrow> len_between 1 256 r) \<and>
     (\<exists>i. make_IntentV1 (pr_intent p) = Inr i \<and> q = p\<lparr>pr_wallet := lower (pr_wallet p), pr_intent := i\<rparr>)"
  by (auto simp: make_ProposalV1_def rbind_Inr_iff require_uuid7_def split: if_splits)

text \<open>A validated proposal: what the constructor returns.\<close>

definition valid_proposal :: "ProposalV1 \<Rightarrow> bool" where
  "valid_proposal p \<longleftrightarrow> make_ProposalV1 p = Inr p"

lemma make_ProposalV1_fixed: "make_ProposalV1 p = Inr q \<Longrightarrow> valid_proposal q"
  unfolding valid_proposal_def make_ProposalV1_Inr by (auto dest: make_IntentV1_fixed)

lemma make_IntentV1_self:
  "make_IntentV1 (TransferIntentV1 a) = Inr (TransferIntentV1 a) \<longleftrightarrow> Address a \<and> lower a = a"
  "make_IntentV1 (SwapIntentV1 a s d m x) = Inr (SwapIntentV1 a s d m x) \<longleftrightarrow>
     Address a \<and> lower a = a \<and> Selector s \<and> lower s = s \<and> CallData d \<and> lower d = d \<and> 0 \<le> m \<and> AssetId x"
  by auto

lemma valid_proposalD:
  assumes "valid_proposal p"
  shows "0 < pr_amount p" "0 < pr_chain_id p" "Address (pr_wallet p)" "lower (pr_wallet p) = pr_wallet p"
    "make_IntentV1 (pr_intent p) = Inr (pr_intent p)"
  using assms unfolding valid_proposal_def make_ProposalV1_Inr by (cases p; auto)+

lemma set_sorted_set [simp]: "set (sorted_set xs) = set xs"
  by (simp add: sorted_set_def)

lemma sorted_set_eqI: "set xs = set ys \<Longrightarrow> sorted_set xs = sorted_set ys"
  unfolding sorted_set_def sorted_list_of_set_sort_remdups [symmetric] by simp

lemma sorted_set_idem [simp]: "sorted_set (sorted_set xs) = sorted_set xs"
  by (rule sorted_set_eqI) simp

lemma map_lower_fixed: "\<forall>x \<in> set xs. lower x = x \<Longrightarrow> map lower xs = xs"
  by (induction xs) auto

lemma normalize_policy_idem: "normalize_policy (normalize_policy p) = normalize_policy p"
proof -
  have "map lower (sorted_set (map lower xs)) = sorted_set (map lower xs)" for xs
    by (rule map_lower_fixed) auto
  then show ?thesis by (simp add: normalize_policy_def)
qed

lemma policy_fields_ok_normalize: "policy_fields_ok p \<Longrightarrow> policy_fields_ok (normalize_policy p)"
  by (auto simp: policy_fields_ok_def normalize_policy_def list_all_iff)

lemma make_PolicyV1_Inr:
  "make_PolicyV1 p = Inr q \<longleftrightarrow> policy_fields_ok p \<and> distinct (map cap_window_seconds (po_rolling_caps p)) \<and>
     (po_per_transaction_cap p = 0 \<longrightarrow> po_emergency_stop p) \<and> q = normalize_policy p"
  by (auto simp: make_PolicyV1_def)

lemma make_PolicyV1_fixed: "make_PolicyV1 p = Inr q \<Longrightarrow> make_PolicyV1 q = Inr q"
  unfolding make_PolicyV1_Inr
  by (auto simp: policy_fields_ok_normalize normalize_policy_idem) (simp_all add: normalize_policy_def)

section \<open>Sample data\<close>

definition alice :: string where
  "alice = ''0x00112233445566778899aabbccddeeff00112233''"

definition bob :: string where
  "bob = ''0xffeeddccbbaa99887766554433221100ffeeddcc''"

definition sample_transfer :: ProposalV1 where
  "sample_transfer = \<lparr>pr_proposal_id = 0x00000000000170008000000000000001,
     pr_principal_id = ''agent-1'', pr_wallet = alice, pr_chain_id = 1, pr_asset = ''NATIVE:1'',
     pr_amount = 60, pr_intent = TransferIntentV1 bob, pr_deadline = seconds 1000,
     pr_idempotency_key = ''key-0001'', pr_mandate_id = None, pr_quote_reference = None\<rparr>"

definition sample_policy :: PolicyV1 where
  "sample_policy = \<lparr>po_name = ''default'', po_enabled_wallets = [alice],
     po_enabled_principals = [''agent-1''], po_enabled_chains = [1], po_enabled_assets = [''NATIVE:1''],
     po_allowed_recipients = [bob], po_contract_rules = [], po_per_transaction_cap = 100,
     po_rolling_caps = [\<lparr>cap_window_seconds = 3600, cap_amount = 100\<rparr>],
     po_maximum_transactions_per_hour = 5, po_mandate_required_above = 1000,
     po_risk = \<lparr>risk_maximum_slippage_bps = 50, risk_maximum_quote_age_seconds = 30,
       risk_deny_on_missing_quote = True\<rparr>, po_emergency_stop = False\<rparr>"

lemma sample_transfer_valid: "valid_proposal sample_transfer"
  unfolding valid_proposal_def by code_simp

lemma sample_policy_valid: "make_PolicyV1 sample_policy = Inr sample_policy"
  by code_simp

section \<open>Properties\<close>

text \<open>
  The proposal hash binds every field of the proposal: two proposals with the same hash
  are the same proposal, or their canonical payloads are a collision of SHA-256.
\<close>

theorem proposal_hash_binds:
  assumes "iso_ok P" "proposal_hash P p = Inr h" "proposal_hash P q = Inr h"
  shows "p = q \<or> collide (sha256 P) (proposal_inputs P p) (proposal_inputs P q)"
  using assms by (rule proposal_hash_inject)

theorem proposal_hash_binds_witness:
  "\<exists>h. proposal_hash prims sample_transfer = Inr h \<and>
     (sample_transfer = sample_transfer \<or>
      collide (sha256 prims) (proposal_inputs prims sample_transfer) (proposal_inputs prims sample_transfer))"
proof -
  have "rfc8785 prims = None" by (simp add: prims_def)
  then obtain h where "proposal_hash prims sample_transfer = Inr h" using proposal_hash_stdlib by blast
  with proposal_hash_binds [OF prims_ok(3) this this] show ?thesis by blast
qed

text \<open>
  Validation of a proposal gives a normal form: what the constructor returns passes the
  constructor unchanged, with a version 7 identifier, a positive amount and chain, and
  lower-case wallet, so the hash of a stored proposal is that of the validated one.
\<close>

theorem proposal_validation_fixpoint:
  assumes "make_ProposalV1 p = Inr q"
  shows "make_ProposalV1 q = Inr q \<and> uuid_version (pr_proposal_id q) = Some 7 \<and> 0 < pr_amount q \<and>
    0 < pr_chain_id q \<and> lower (pr_wallet q) = pr_wallet q"
  using make_ProposalV1_fixed [OF assms] valid_proposalD [OF make_ProposalV1_fixed [OF assms]]
  unfolding valid_proposal_def by (auto simp: make_ProposalV1_Inr)

theorem proposal_validation_fixpoint_witness:
  "make_ProposalV1 sample_transfer = Inr sample_transfer \<and>
   uuid_version (pr_proposal_id sample_transfer) = Some 7 \<and> 0 < pr_amount sample_transfer \<and>
   0 < pr_chain_id sample_transfer \<and> lower (pr_wallet sample_transfer) = pr_wallet sample_transfer"
proof (rule proposal_validation_fixpoint)
  show "make_ProposalV1 (sample_transfer\<lparr>pr_wallet := ''0x00112233445566778899AABBCCDDEEFF00112233''\<rparr>)
    = Inr sample_transfer" by code_simp
qed

text \<open>
  A policy's normal form, and with it its hash, depends on the sets of enabled wallets,
  principals, chains, assets and recipients and not on the order, the repetitions or the
  letter case they are written with.
\<close>

theorem policy_normal_form:
  assumes "make_PolicyV1 p = Inr p'"
    and "q = p\<lparr>po_enabled_wallets := wallets, po_enabled_principals := principals,
      po_enabled_chains := chain_ids, po_enabled_assets := assets, po_allowed_recipients := recipients\<rparr>"
    and "lower ` set wallets = lower ` set (po_enabled_wallets p)"
    and "set principals = set (po_enabled_principals p)" "set chain_ids = set (po_enabled_chains p)"
    and "set assets = set (po_enabled_assets p)"
    and "lower ` set recipients = lower ` set (po_allowed_recipients p)"
    and "make_PolicyV1 q = Inr q'"
  shows "p' = q' \<and> policy_hash P p' = policy_hash P q'"
proof -
  have "normalize_policy p = normalize_policy q"
    using assms(3-7) unfolding normalize_policy_def assms(2)
    by (simp add: sorted_set_eqI [of "map lower wallets" "map lower (po_enabled_wallets p)"]
        sorted_set_eqI [of principals "po_enabled_principals p"]
        sorted_set_eqI [of chain_ids "po_enabled_chains p"] sorted_set_eqI [of assets "po_enabled_assets p"]
        sorted_set_eqI [of "map lower recipients" "map lower (po_allowed_recipients p)"])
  with assms(1,8) show ?thesis by (simp add: make_PolicyV1_Inr)
qed

theorem policy_normal_form_witness:
  "sample_policy = sample_policy \<and> policy_hash prims sample_policy = policy_hash prims sample_policy"
proof (rule policy_normal_form [OF sample_policy_valid refl])
  show "lower ` set [''0x00112233445566778899AABBCCDDEEFF00112233'', alice] =
      lower ` set (po_enabled_wallets sample_policy)" by code_simp
  show "lower ` set [bob] = lower ` set (po_allowed_recipients sample_policy)" by code_simp
  show "make_PolicyV1 (sample_policy
    \<lparr>po_enabled_wallets := [''0x00112233445566778899AABBCCDDEEFF00112233'', alice],
     po_enabled_principals := [''agent-1'', ''agent-1''], po_enabled_chains := [1],
     po_enabled_assets := [''NATIVE:1''], po_allowed_recipients := [bob]\<rparr>) = Inr sample_policy" by code_simp
qed (simp_all add: sample_policy_def)

end
