(* ===== verification/Authorization.thy ===== *)
theory Authorization
  imports Contracts
begin

text \<open>
  The abstract specification of the authorization lifecycle, after
  \<open>formal/Authorization.tla\<close>, and the contract a state store keeps to implement it.

  The specification's variables are those of the TLA module; the amount of a proposal, a
  constant there, is fixed when the proposal is reserved. The guards of \<open>Reserve\<close> and \<open>Deny\<close>
  are parameters: the module compares a lifetime total with \<open>Cap\<close>, the code evaluates a
  policy.

  The locale \<open>lifecycle_store\<close> has the operations of the \<open>StateStore\<close> protocol that move a
  proposal through its lifecycle. The simulation of the specification is proved in it once,
  for \<open>MemoryStateStore\<close> and for \<open>PostgresStateStore\<close>.
\<close>

section \<open>The specification\<close>

record auth =
  au_state :: "uuid \<Rightarrow> LifecycleState"
  au_amount :: "uuid \<Rightarrow> int"
  au_reservations :: "uuid set"
  au_settledSpend :: int
  au_authorized :: "uuid set"

definition auth_init :: auth where
  "auth_init = \<lparr>au_state = (\<lambda>p. PROPOSED), au_amount = (\<lambda>p. 0), au_reservations = {},
     au_settledSpend = 0, au_authorized = {}\<rparr>"

inductive auth_step :: "(auth \<Rightarrow> uuid \<Rightarrow> int \<Rightarrow> bool) \<Rightarrow> (auth \<Rightarrow> uuid \<Rightarrow> int \<Rightarrow> bool) \<Rightarrow> auth \<Rightarrow> auth \<Rightarrow> bool"
  for may_reserve may_deny where
  Reserve: "au_state a p = PROPOSED \<Longrightarrow> may_reserve a p n \<Longrightarrow> 0 < n \<Longrightarrow>
    auth_step may_reserve may_deny a (a\<lparr>au_state := (au_state a)(p := RESERVED),
      au_amount := (au_amount a)(p := n), au_reservations := insert p (au_reservations a)\<rparr>)"
| Deny: "au_state a p = PROPOSED \<Longrightarrow> may_deny a p n \<Longrightarrow>
    auth_step may_reserve may_deny a (a\<lparr>au_state := (au_state a)(p := DENIED)\<rparr>)"
| Sign: "au_state a p = RESERVED \<Longrightarrow>
    auth_step may_reserve may_deny a (a\<lparr>au_state := (au_state a)(p := SIGNED),
      au_authorized := insert p (au_authorized a)\<rparr>)"
| Submit: "au_state a p = SIGNED \<Longrightarrow>
    auth_step may_reserve may_deny a (a\<lparr>au_state := (au_state a)(p := SUBMITTED)\<rparr>)"
| Settle: "au_state a p = SUBMITTED \<Longrightarrow>
    auth_step may_reserve may_deny a (a\<lparr>au_state := (au_state a)(p := SETTLED),
      au_reservations := au_reservations a - {p}, au_settledSpend := au_settledSpend a + au_amount a p\<rparr>)"
| Revert: "au_state a p = SUBMITTED \<Longrightarrow>
    auth_step may_reserve may_deny a (a\<lparr>au_state := (au_state a)(p := REVERTED),
      au_reservations := au_reservations a - {p}\<rparr>)"
| Expire: "au_state a p \<in> {PROPOSED, RESERVED, SIGNED} \<Longrightarrow>
    auth_step may_reserve may_deny a (a\<lparr>au_state := (au_state a)(p := EXPIRED),
      au_reservations := au_reservations a - {p}\<rparr>)"

inductive auth_reachable :: "(auth \<Rightarrow> uuid \<Rightarrow> int \<Rightarrow> bool) \<Rightarrow> (auth \<Rightarrow> uuid \<Rightarrow> int \<Rightarrow> bool) \<Rightarrow> auth \<Rightarrow> bool"
  for may_reserve may_deny where
  Init: "auth_reachable may_reserve may_deny auth_init"
| Next: "auth_reachable may_reserve may_deny a \<Longrightarrow> auth_step may_reserve may_deny a a' \<Longrightarrow>
    auth_reachable may_reserve may_deny a'"

definition NoSigningWithoutAuthorization :: "auth \<Rightarrow> bool" where
  "NoSigningWithoutAuthorization a \<longleftrightarrow>
     (\<forall>p. au_state a p \<in> {SIGNED, SUBMITTED, SETTLED} \<longrightarrow> p \<in> au_authorized a)"

definition ReservationSafety :: "auth \<Rightarrow> bool" where
  "ReservationSafety a \<longleftrightarrow>
     (\<forall>p. p \<in> au_reservations a \<longleftrightarrow> au_state a p \<in> {RESERVED, SIGNED, SUBMITTED})"

definition ReservedSpend :: "auth \<Rightarrow> int" where
  "ReservedSpend a = (\<Sum>p\<in>au_reservations a. au_amount a p)"

definition NoOverspend :: "int \<Rightarrow> auth \<Rightarrow> bool" where
  "NoOverspend cap a \<longleftrightarrow> ReservedSpend a + au_settledSpend a \<le> cap"

lemma auth_invariants:
  "auth_reachable may_reserve may_deny a \<Longrightarrow> NoSigningWithoutAuthorization a \<and> ReservationSafety a"
proof (induction rule: auth_reachable.induct)
  case Init
  show ?case by (simp add: NoSigningWithoutAuthorization_def ReservationSafety_def auth_init_def)
next
  case (Next a a')
  from Next.hyps(2) Next.IH show ?case
    by (cases rule: auth_step.cases) (auto simp: NoSigningWithoutAuthorization_def ReservationSafety_def)
qed

lemma auth_finite: "auth_reachable may_reserve may_deny a \<Longrightarrow> finite (au_reservations a)"
proof (induction rule: auth_reachable.induct)
  case (Next a a')
  from Next.hyps(2) Next.IH show ?case by (cases rule: auth_step.cases) auto
qed (simp add: auth_init_def)

lemma auth_amounts: "auth_reachable may_reserve may_deny a \<Longrightarrow> p \<in> au_reservations a \<Longrightarrow> 0 < au_amount a p"
proof (induction arbitrary: p rule: auth_reachable.induct)
  case (Next a a')
  from Next.hyps(2) Next.IH Next.prems show ?case by (cases rule: auth_step.cases) (auto split: if_splits)
qed (simp add: auth_init_def)

text \<open>With the guard of the module, spending never exceeds \<open>Cap\<close>.\<close>

lemma ReservedSpend_remove:
  assumes "finite (au_reservations a)" "\<And>p. p \<in> au_reservations a \<Longrightarrow> 0 < au_amount a p"
  shows "(\<Sum>q\<in>au_reservations a - {p}. au_amount a q) \<le> ReservedSpend a"
  unfolding ReservedSpend_def using assms by (intro sum_mono2) (auto simp: less_imp_le)

lemma auth_no_overspend:
  assumes "auth_reachable may_reserve may_deny a" "0 \<le> cap"
    and guard: "\<And>a p n. may_reserve a p n \<Longrightarrow> ReservedSpend a + au_settledSpend a + n \<le> cap"
  shows "NoOverspend cap a"
  using assms(1)
proof (induction rule: auth_reachable.induct)
  case Init
  then show ?case using assms(2) by (simp add: NoOverspend_def ReservedSpend_def auth_init_def)
next
  case (Next a a')
  note fin = auth_finite [OF Next.hyps(1)] and pos = auth_amounts [OF Next.hyps(1)]
  note safe = auth_invariants [OF Next.hyps(1), THEN conjunct2, unfolded ReservationSafety_def]
  from Next.hyps(2) show ?case
  proof (cases rule: auth_step.cases)
    case (Reserve p n)
    have "p \<notin> au_reservations a" using safe Reserve(2) by simp
    then have "(\<Sum>q\<in>au_reservations a. if q = p then n else au_amount a q) = ReservedSpend a"
      unfolding ReservedSpend_def by (intro sum.cong) auto
    with \<open>p \<notin> au_reservations a\<close> fin guard [OF Reserve(3)] show ?thesis
      unfolding Reserve(1) by (simp add: NoOverspend_def ReservedSpend_def)
  next
    case (Settle p)
    have p: "p \<in> au_reservations a" using safe Settle(2) by simp
    have "(\<Sum>q\<in>au_reservations a - {p}. au_amount a q) + au_amount a p = ReservedSpend a"
      unfolding ReservedSpend_def using fin p by (simp add: sum.remove)
    with Next.IH show ?thesis unfolding Settle(1) by (simp add: NoOverspend_def ReservedSpend_def)
  next
    case (Revert p)
    with Next.IH ReservedSpend_remove [OF fin pos, of p] show ?thesis
      by (simp add: NoOverspend_def ReservedSpend_def)
  next
    case (Expire p)
    with Next.IH ReservedSpend_remove [OF fin pos, of p] show ?thesis
      by (simp add: NoOverspend_def ReservedSpend_def)
  qed (use Next.IH in \<open>simp_all add: NoOverspend_def ReservedSpend_def\<close>)
qed

section \<open>The contract of a state store\<close>

inductive lifecycle_reachable ::
  "(PolicyV1 \<Rightarrow> bool) \<Rightarrow> ('e \<Rightarrow> ProposalV1 \<Rightarrow> PolicyV1 \<Rightarrow> 's \<Rightarrow> (('r \<times> bool) \<times> 's) res) \<Rightarrow>
   (time \<Rightarrow> uuid \<Rightarrow> LifecycleState \<Rightarrow> 's \<Rightarrow> ('r \<times> 's) res) \<Rightarrow>
   ('e \<Rightarrow> ProposalV1 \<Rightarrow> 's \<Rightarrow> bool) \<Rightarrow> 's \<Rightarrow> 's \<Rightarrow> bool"
  for Q reserve transition admits start where
  starting: "lifecycle_reachable Q reserve transition admits start start"
| reserving: "lifecycle_reachable Q reserve transition admits start s \<Longrightarrow> admits e p s \<Longrightarrow> valid_proposal p \<Longrightarrow> Q policy \<Longrightarrow>
    reserve e p policy s = Inr (r, s') \<Longrightarrow> lifecycle_reachable Q reserve transition admits start s'"
| moving: "lifecycle_reachable Q reserve transition admits start s \<Longrightarrow> transition now pid target s = Inr (r, s') \<Longrightarrow>
    lifecycle_reachable Q reserve transition admits start s'"

text \<open>A store in state \<open>s\<close> implements the specification's state \<open>a\<close>.\<close>

definition implements ::
  "(uuid \<Rightarrow> 's \<Rightarrow> LifecycleState option) \<Rightarrow> (uuid \<Rightarrow> 's \<Rightarrow> int) \<Rightarrow> (uuid \<Rightarrow> 's \<Rightarrow> bool) \<Rightarrow> ('s \<Rightarrow> int) \<Rightarrow>
   's \<Rightarrow> auth \<Rightarrow> bool" where
  "implements state_of amount_of held spend s a \<longleftrightarrow>
     (\<forall>p. au_state a p = (case state_of p s of None \<Rightarrow> PROPOSED | Some st \<Rightarrow> st)) \<and>
     au_reservations a = {p. held p s} \<and> au_settledSpend a = spend s \<and>
     (\<forall>p. held p s \<longrightarrow> au_amount a p = amount_of p s)"

abbreviation "lifecycle_spec \<equiv> auth_reachable (\<lambda>_ _ _. True) (\<lambda>_ _ _. True)"

locale lifecycle_store =
  fixes invar :: "'s \<Rightarrow> bool"
    and state_of :: "uuid \<Rightarrow> 's \<Rightarrow> LifecycleState option"
    and amount_of :: "uuid \<Rightarrow> 's \<Rightarrow> int"
    and held :: "uuid \<Rightarrow> 's \<Rightarrow> bool"
    and spend :: "'s \<Rightarrow> int"
    and reserve :: "'e \<Rightarrow> ProposalV1 \<Rightarrow> PolicyV1 \<Rightarrow> 's \<Rightarrow> (('r \<times> bool) \<times> 's) res"
    and transition :: "time \<Rightarrow> uuid \<Rightarrow> LifecycleState \<Rightarrow> 's \<Rightarrow> ('r \<times> 's) res"
    and admits :: "'e \<Rightarrow> ProposalV1 \<Rightarrow> 's \<Rightarrow> bool"
    and start :: 's
  assumes reserve_old: "invar s \<Longrightarrow> reserve e p policy s = Inr ((r, False), s') \<Longrightarrow> s' = s"
    and reserve_new: "invar s \<Longrightarrow> admits e p s \<Longrightarrow> valid_proposal p \<Longrightarrow> reserve e p policy s = Inr ((r, True), s') \<Longrightarrow>
      invar s' \<and> state_of (pr_proposal_id p) s = None \<and>
      state_of (pr_proposal_id p) s' \<in> {Some RESERVED, Some DENIED} \<and>
      amount_of (pr_proposal_id p) s' = pr_amount p \<and> spend s' = spend s \<and>
      (\<forall>q. q \<noteq> pr_proposal_id p \<longrightarrow> state_of q s' = state_of q s \<and> amount_of q s' = amount_of q s)"
    and transition_law: "invar s \<Longrightarrow> transition now pid target s = Inr (r, s') \<Longrightarrow>
      \<exists>st. invar s' \<and> state_of pid s = Some st \<and> st \<noteq> PROPOSED \<and> target \<in> set (ALLOWED_TRANSITIONS st) \<and>
        state_of pid s' = Some target \<and> amount_of pid s' = amount_of pid s \<and>
        spend s' = spend s + (if target = SETTLED then amount_of pid s else 0) \<and>
        (\<forall>q. q \<noteq> pid \<longrightarrow> state_of q s' = state_of q s \<and> amount_of q s' = amount_of q s)"
    and start_law: "invar start \<and> (\<forall>p. state_of p start = None) \<and> spend start = 0"
    and held_iff: "invar s \<Longrightarrow> held pid s \<longleftrightarrow> state_of pid s \<in> {Some RESERVED, Some SIGNED, Some SUBMITTED}"
begin

lemma implements_start: "implements state_of amount_of held spend start auth_init"
  using start_law held_iff [of start] by (auto simp: implements_def auth_init_def)

lemma implements_reserve:
  assumes a: "lifecycle_spec a" "implements state_of amount_of held spend s a" "invar s"
    and step: "admits e p s" "valid_proposal p" "reserve e p policy s = Inr ((r, created), s')"
  shows "\<exists>a'. lifecycle_spec a' \<and> implements state_of amount_of held spend s' a' \<and> invar s'"
proof (cases created)
  case False
  then have "s' = s" using reserve_old [OF a(3)] step(3) by simp
  with a show ?thesis by blast
next
  case True
  define pid where "pid = pr_proposal_id p"
  from True step(3) have "reserve e p policy s = Inr ((r, True), s')" by simp
  from reserve_new [OF a(3) step(1,2) this] have s': "invar s'" "state_of pid s = None"
      "state_of pid s' \<in> {Some RESERVED, Some DENIED}" "amount_of pid s' = pr_amount p" "spend s' = spend s"
    and same: "\<And>q. q \<noteq> pid \<Longrightarrow> state_of q s' = state_of q s \<and> amount_of q s' = amount_of q s"
    unfolding pid_def by blast+
  have proposed: "au_state a pid = PROPOSED" using a(2) s'(2) by (simp add: implements_def)
  have held: "held q s' = (if q = pid then state_of pid s' = Some RESERVED else held q s)" for q
    using held_iff [OF s'(1), of q] held_iff [OF a(3), of q] s'(3) same [of q] by auto
  show ?thesis
  proof (cases "state_of pid s' = Some RESERVED")
    case True
    have "0 < pr_amount p" using valid_proposalD [OF step(2)] by simp
    note nxt = auth_reachable.Next [OF a(1) auth_step.Reserve [OF proposed TrueI this]]
    show ?thesis
      by (rule exI, rule conjI, rule nxt) (use a(2) s' True same held in \<open>auto simp: implements_def split: if_splits\<close>)
  next
    case False
    with s'(3) have "state_of pid s' = Some DENIED" by simp
    moreover have "\<not> held pid s" using held_iff [OF a(3)] s'(2) by simp
    ultimately show ?thesis
      by (intro exI [of _ "a\<lparr>au_state := (au_state a)(pid := DENIED)\<rparr>"] conjI
          auth_reachable.Next [OF a(1) auth_step.Deny [OF proposed TrueI]])
        (use a(2) s' same held in \<open>auto simp: implements_def split: if_splits\<close>)
  qed
qed

lemma spec_moves:
  assumes "lifecycle_spec a" "au_state a p = st" "target \<in> set (ALLOWED_TRANSITIONS st)" "st \<noteq> PROPOSED"
  shows "\<exists>a'. lifecycle_spec a' \<and> au_state a' = (au_state a)(p := target) \<and> au_amount a' = au_amount a \<and>
    au_reservations a' = (if target \<in> {SIGNED, SUBMITTED} then au_reservations a else au_reservations a - {p}) \<and>
    au_settledSpend a' = au_settledSpend a + (if target = SETTLED then au_amount a p else 0)"
proof -
  note nxt = auth_reachable.Next [OF assms(1)]
  consider "st = RESERVED" "target = SIGNED" | "st = SIGNED" "target = SUBMITTED" | "st = SUBMITTED" "target = SETTLED"
    | "st = SUBMITTED" "target = REVERTED" | "st \<in> {RESERVED, SIGNED}" "target = EXPIRED"
    using assms(3,4) by (cases st) auto
  then show ?thesis
  proof cases
    case 1
    show ?thesis by (rule exI, rule conjI, rule nxt [OF auth_step.Sign, of p]) (use 1 assms(2) in auto)
  next
    case 2
    show ?thesis by (rule exI, rule conjI, rule nxt [OF auth_step.Submit, of p]) (use 2 assms(2) in auto)
  next
    case 3
    show ?thesis by (rule exI, rule conjI, rule nxt [OF auth_step.Settle, of p]) (use 3 assms(2) in auto)
  next
    case 4
    show ?thesis by (rule exI, rule conjI, rule nxt [OF auth_step.Revert, of p]) (use 4 assms(2) in auto)
  next
    case 5
    show ?thesis by (rule exI, rule conjI, rule nxt [OF auth_step.Expire, of p]) (use 5 assms(2) in auto)
  qed
qed

lemma implements_transition:
  assumes a: "lifecycle_spec a" "implements state_of amount_of held spend s a" "invar s"
    and step: "transition now pid target s = Inr (r, s')"
  shows "\<exists>a'. lifecycle_spec a' \<and> implements state_of amount_of held spend s' a' \<and> invar s'"
proof -
  from transition_law [OF a(3) step] obtain st where
    s': "invar s'" "state_of pid s = Some st" "st \<noteq> PROPOSED" "target \<in> set (ALLOWED_TRANSITIONS st)"
      "state_of pid s' = Some target" "amount_of pid s' = amount_of pid s"
      "spend s' = spend s + (if target = SETTLED then amount_of pid s else 0)"
    and same: "\<And>q. q \<noteq> pid \<Longrightarrow> state_of q s' = state_of q s \<and> amount_of q s' = amount_of q s"
    by blast
  have st: "au_state a pid = st" using a(2) s'(2) by (simp add: implements_def)
  have was_held: "held pid s" using held_iff [OF a(3)] s'(2-4) by (cases st) auto
  have held: "held q s' = (if q = pid then target \<in> {SIGNED, SUBMITTED} else held q s)" for q
    using held_iff [OF s'(1), of q] held_iff [OF a(3), of q] s'(3-5) same [of q] by (cases st) auto
  from spec_moves [OF a(1) st s'(4,3)] obtain a' where
    "lifecycle_spec a'" "au_state a' = (au_state a)(pid := target)" "au_amount a' = au_amount a"
    "au_reservations a' = (if target \<in> {SIGNED, SUBMITTED} then au_reservations a else au_reservations a - {pid})"
    "au_settledSpend a' = au_settledSpend a + (if target = SETTLED then au_amount a pid else 0)" by blast
  then show ?thesis
    using a(2) s' same held was_held by (intro exI conjI) (auto simp: implements_def split: if_splits)
qed

lemma refines:
  "lifecycle_reachable Q reserve transition admits start s \<Longrightarrow>
     \<exists>a. lifecycle_spec a \<and> implements state_of amount_of held spend s a \<and> invar s"
proof (induction rule: lifecycle_reachable.induct)
  case starting
  then show ?case using implements_start start_law auth_reachable.Init by blast
next
  case (reserving s e p policy r s')
  then show ?case using implements_reserve by (cases r) blast
next
  case (moving s now pid target r s')
  then show ?case using implements_transition by blast
qed

end

end
