(* ===== verification/StateStore.thy ===== *)
theory StateStore
  imports Authorization
begin

text \<open>
  \<open>src/aegisledger/state.py\<close>: the static policy checks and the \<open>MemoryStateStore\<close>, which
  evaluates the budget and reserves in one step under its lock, so each method is one
  step on the state. The readings of the clock are an argument, one field of the record
  \<open>clock\<close> per \<open>datetime.now(UTC)\<close> of the method; so is the identifier that \<open>uuid7()\<close>
  returns.

  Shown here: the invariant that ties records to reservations, kept by every operation;
  the sliding-window bound on spending and on the number of transactions over every
  reachable state; single use of nonces and idempotency keys; and the totals that
  \<open>budget_totals\<close> reports.
\<close>

section \<open>Static checks\<close>

definition rule_allows :: "PolicyV1 \<Rightarrow> string \<Rightarrow> string \<Rightarrow> bool" where
  "rule_allows policy contract selector \<longleftrightarrow>
     list_ex (\<lambda>rule. contract = rule_contract rule \<and> selector \<in> set (map lower (rule_selectors rule)))
       (po_contract_rules policy)"

definition intent_reasons :: "ProposalV1 \<Rightarrow> PolicyV1 \<Rightarrow> string list" where
  "intent_reasons proposal policy =
     (case pr_intent proposal of
        TransferIntentV1 recipient \<Rightarrow>
          (if recipient \<notin> set (po_allowed_recipients policy) then [''RECIPIENT_NOT_ALLOWED''] else [])
      | SwapIntentV1 contract selector _ _ _ \<Rightarrow>
          (if \<not> rule_allows policy contract (lower selector)
           then [''CONTRACT_SELECTOR_NOT_ALLOWED''] else [])
          @ (if risk_deny_on_missing_quote (po_risk policy) \<and> pr_quote_reference proposal = None
             then [''QUOTE_REQUIRED''] else []))"

definition static_policy_reasons :: "time \<Rightarrow> ProposalV1 \<Rightarrow> PolicyV1 \<Rightarrow> string list" where
  "static_policy_reasons now proposal policy =
     (if po_emergency_stop policy then [''EMERGENCY_STOP'']
      else
        (if pr_deadline proposal \<le> now then [''DEADLINE_EXPIRED''] else [])
        @ (if pr_wallet proposal \<notin> set (po_enabled_wallets policy) then [''WALLET_NOT_ENABLED''] else [])
        @ (if pr_principal_id proposal \<notin> set (po_enabled_principals policy)
           then [''PRINCIPAL_NOT_ENABLED''] else [])
        @ (if pr_chain_id proposal \<notin> set (po_enabled_chains policy) then [''CHAIN_NOT_ENABLED''] else [])
        @ (if pr_asset proposal \<notin> set (po_enabled_assets policy) then [''ASSET_NOT_ENABLED''] else [])
        @ (if pr_amount proposal > po_per_transaction_cap policy
           then [''PER_TRANSACTION_CAP_EXCEEDED''] else [])
        @ intent_reasons proposal policy
        @ (if pr_amount proposal > po_mandate_required_above policy \<and> pr_mandate_id proposal = None
           then [''MANDATE_REQUIRED''] else []))"

section \<open>The store\<close>

record Reservation =
  rs_reservation_id :: uuid
  rs_proposal_id :: uuid
  rs_principal_id :: string
  rs_wallet :: string
  rs_chain_id :: int
  rs_asset :: string
  rs_amount :: int
  rs_created_at :: time
  rs_active :: bool
  rs_settled :: bool

record ProposalRecord =
  rec_proposal :: ProposalV1
  rec_state :: LifecycleState
  rec_state_version :: int
  rec_reason_codes :: "string list"
  rec_reservation_id :: "uuid option"
  rec_created_at :: time
  rec_updated_at :: time

record MemoryStateStore =
  ms_records :: "(uuid, ProposalRecord) dict"
  ms_idempotency :: "(string \<times> string, uuid) dict"
  ms_reservations :: "(uuid, Reservation) dict"
  ms_decision_nonces :: "uuid list"
  ms_wallet_nonces :: "(string \<times> int \<times> int) list"
  ms_version :: int

definition MemoryStateStore_init :: MemoryStateStore where
  "MemoryStateStore_init = \<lparr>ms_records = [], ms_idempotency = [], ms_reservations = [],
     ms_decision_nonces = [], ms_wallet_nonces = [], ms_version = 0\<rparr>"

text \<open>One field per reading of the clock, in the order a method makes them.\<close>

record clock =
  at_static :: time
  at_evaluate :: time
  at_reservation :: time
  at_created :: time
  at_updated :: time

text \<open>The scope of a budget: principal, wallet, chain and asset.\<close>

type_synonym scope = "string \<times> string \<times> int \<times> string"

definition res_scope :: "Reservation \<Rightarrow> scope" where
  "res_scope r = (rs_principal_id r, rs_wallet r, rs_chain_id r, rs_asset r)"

definition prop_scope :: "ProposalV1 \<Rightarrow> scope" where
  "prop_scope p = (pr_principal_id p, pr_wallet p, pr_chain_id p, pr_asset p)"

definition counted :: "Reservation \<Rightarrow> bool" where
  "counted r \<longleftrightarrow> rs_active r \<or> rs_settled r"

definition ms_get :: "MemoryStateStore \<Rightarrow> uuid \<Rightarrow> ProposalRecord option" where
  "ms_get s proposal_id = dget (ms_records s) proposal_id"

definition active_in_scope :: "MemoryStateStore \<Rightarrow> ProposalV1 \<Rightarrow> Reservation list" where
  "active_in_scope s proposal =
     filter (\<lambda>item. counted item \<and> res_scope item = prop_scope proposal) (dvalues (ms_reservations s))"

definition window_spent :: "time \<Rightarrow> int \<Rightarrow> Reservation list \<Rightarrow> int" where
  "window_spent now window_seconds items =
     (\<Sum>item\<leftarrow>filter (\<lambda>item. now - rs_created_at item < seconds window_seconds) items. rs_amount item)"

definition evaluate :: "clock \<Rightarrow> ProposalV1 \<Rightarrow> PolicyV1 \<Rightarrow> MemoryStateStore \<Rightarrow> string list" where
  "evaluate clk proposal policy s =
     (let active = active_in_scope s proposal; now = at_evaluate clk in
      static_policy_reasons (at_static clk) proposal policy
      @ (if list_ex (\<lambda>cap. window_spent now (cap_window_seconds cap) active + pr_amount proposal
             > cap_amount cap) (po_rolling_caps policy)
         then [''ROLLING_CAP_EXCEEDED''] else [])
      @ (if int (length (filter (\<lambda>item. now - rs_created_at item < seconds 3600) active)) + 1
             > po_maximum_transactions_per_hour policy
         then [''VELOCITY_EXCEEDED''] else []))"

definition ms_simulate :: "clock \<Rightarrow> ProposalV1 \<Rightarrow> PolicyV1 \<Rightarrow> MemoryStateStore \<Rightarrow> string list" where
  "ms_simulate = evaluate"

definition new_reservation :: "clock \<Rightarrow> uuid \<Rightarrow> ProposalV1 \<Rightarrow> Reservation" where
  "new_reservation clk reservation_id proposal =
     \<lparr>rs_reservation_id = reservation_id, rs_proposal_id = pr_proposal_id proposal,
      rs_principal_id = pr_principal_id proposal, rs_wallet = pr_wallet proposal,
      rs_chain_id = pr_chain_id proposal, rs_asset = pr_asset proposal,
      rs_amount = pr_amount proposal, rs_created_at = at_reservation clk,
      rs_active = True, rs_settled = False\<rparr>"

definition ms_reserve ::
  "clock \<Rightarrow> uuid \<Rightarrow> ProposalV1 \<Rightarrow> PolicyV1 \<Rightarrow> MemoryStateStore
     \<Rightarrow> ((ProposalRecord \<times> bool) \<times> MemoryStateStore) res" where
  "ms_reserve clk reservation_id proposal policy s =
     (let key = (pr_principal_id proposal, pr_idempotency_key proposal) in
      case dget (ms_idempotency s) key of
        Some duplicate_id \<Rightarrow>
          rbind (of_option (KeyError (uuid_str duplicate_id)) (dget (ms_records s) duplicate_id))
            (\<lambda>record. Inr ((record, False), s))
      | None \<Rightarrow>
          let reasons = evaluate clk proposal policy s;
              version = ms_version s + 1;
              record =
                \<lparr>rec_proposal = proposal,
                 rec_state = (if reasons \<noteq> [] then DENIED else RESERVED),
                 rec_state_version = version, rec_reason_codes = reasons,
                 rec_reservation_id = (if reasons \<noteq> [] then None else Some reservation_id),
                 rec_created_at = at_created clk, rec_updated_at = at_updated clk\<rparr>;
              reservations =
                (if reasons \<noteq> [] then ms_reservations s
                 else dset reservation_id (new_reservation clk reservation_id proposal) (ms_reservations s))
          in Inr ((record, True),
               s\<lparr>ms_records := dset (pr_proposal_id proposal) record (ms_records s),
                 ms_idempotency := dset key (pr_proposal_id proposal) (ms_idempotency s),
                 ms_reservations := reservations, ms_version := version\<rparr>))"

definition release :: "ProposalRecord \<Rightarrow> MemoryStateStore \<Rightarrow> MemoryStateStore res" where
  "release record s =
     (case rec_reservation_id record of
        None \<Rightarrow> Inr s
      | Some rid \<Rightarrow>
          rbind (of_option (KeyError (uuid_str rid)) (dget (ms_reservations s) rid)) (\<lambda>r.
          Inr (s\<lparr>ms_reservations := dset rid (r\<lparr>rs_active := False\<rparr>) (ms_reservations s)\<rparr>)))"

definition required_reservation :: "ProposalRecord \<Rightarrow> MemoryStateStore \<Rightarrow> (uuid \<times> Reservation) res" where
  "required_reservation record s =
     (case rec_reservation_id record of
        None \<Rightarrow> Inl (ValueError ''lifecycle state has no reservation'')
      | Some rid \<Rightarrow>
          rbind (of_option (KeyError (uuid_str rid)) (dget (ms_reservations s) rid)) (\<lambda>r.
          Inr (rid, r)))"

definition settle :: "ProposalRecord \<Rightarrow> MemoryStateStore \<Rightarrow> MemoryStateStore res" where
  "settle record s =
     rbind (required_reservation record s) (\<lambda>(rid, r).
     Inr (s\<lparr>ms_reservations :=
       dset rid (r\<lparr>rs_active := False, rs_settled := True\<rparr>) (ms_reservations s)\<rparr>))"

definition ms_transition ::
  "time \<Rightarrow> uuid \<Rightarrow> LifecycleState \<Rightarrow> MemoryStateStore \<Rightarrow> (ProposalRecord \<times> MemoryStateStore) res" where
  "ms_transition now proposal_id target s =
     rbind (of_option (KeyError (uuid_str proposal_id)) (dget (ms_records s) proposal_id)) (\<lambda>record.
     rbind (require_transition (rec_state record) target) (\<lambda>_.
     rbind (if target \<in> {EXPIRED, REVERTED} then release record s else Inr s) (\<lambda>s.
     rbind (if target = SETTLED then settle record s else Inr s) (\<lambda>s.
     let version = ms_version s + 1;
         record = record\<lparr>rec_state := target, rec_state_version := version, rec_updated_at := now\<rparr>
     in Inr (record, s\<lparr>ms_records := dset proposal_id record (ms_records s), ms_version := version\<rparr>)))))"

definition ms_register_decision_nonce :: "uuid \<Rightarrow> MemoryStateStore \<Rightarrow> MemoryStateStore res" where
  "ms_register_decision_nonce nonce s =
     (if nonce \<in> set (ms_decision_nonces s) then Inl (ValueError ''decision nonce already used'')
      else Inr (s\<lparr>ms_decision_nonces := nonce # ms_decision_nonces s\<rparr>))"

definition ms_register_wallet_nonce :: "string \<Rightarrow> int \<Rightarrow> int \<Rightarrow> MemoryStateStore \<Rightarrow> MemoryStateStore res" where
  "ms_register_wallet_nonce wallet chain_id nonce s =
     (let key = (lower wallet, chain_id, nonce) in
      if key \<in> set (ms_wallet_nonces s) then Inl (ValueError ''wallet nonce already used'')
      else Inr (s\<lparr>ms_wallet_nonces := key # ms_wallet_nonces s\<rparr>))"

definition ms_budget_totals ::
  "string \<Rightarrow> string \<Rightarrow> int \<Rightarrow> string \<Rightarrow> MemoryStateStore \<Rightarrow> int \<times> int" where
  "ms_budget_totals principal_id wallet chain_id asset s =
     (let matching = filter (\<lambda>item. res_scope item = (principal_id, lower wallet, chain_id, asset))
            (dvalues (ms_reservations s))
      in (\<Sum>item\<leftarrow>filter rs_active matching. rs_amount item,
          \<Sum>item\<leftarrow>filter rs_settled matching. rs_amount item))"

section \<open>The invariant\<close>

text \<open>
  A record and its reservation: the reservation is that of the record's proposal, active
  exactly while the proposal is reserved, signed or submitted, and settled exactly when the
  proposal is.
\<close>

definition linked :: "(uuid, Reservation) dict \<Rightarrow> uuid \<Rightarrow> ProposalRecord \<Rightarrow> bool" where
  "linked rs pid r \<longleftrightarrow> pr_proposal_id (rec_proposal r) = pid \<and>
     (case rec_reservation_id r of
        None \<Rightarrow> rec_state r = DENIED
      | Some rid \<Rightarrow>
          (case dget rs rid of
             None \<Rightarrow> False
           | Some v \<Rightarrow> rs_proposal_id v = pid \<and> res_scope v = prop_scope (rec_proposal r)
               \<and> rs_amount v = pr_amount (rec_proposal r)
               \<and> rs_active v = (rec_state r \<in> {RESERVED, SIGNED, SUBMITTED})
               \<and> rs_settled v = (rec_state r = SETTLED)
               \<and> rec_state r \<notin> {PROPOSED, DENIED}))"

definition store_ok :: "MemoryStateStore \<Rightarrow> bool" where
  "store_ok s \<longleftrightarrow> dict_wf (ms_records s) \<and> dict_wf (ms_reservations s) \<and> dict_wf (ms_idempotency s)
     \<and> (\<forall>pid r. dget (ms_records s) pid = Some r \<longrightarrow> linked (ms_reservations s) pid r)
     \<and> (\<forall>key pid. dget (ms_idempotency s) key = Some pid \<longrightarrow> dhas (ms_records s) pid)
     \<and> (\<forall>rid v. dget (ms_reservations s) rid = Some v \<longrightarrow> 0 < rs_amount v \<and> \<not> (rs_active v \<and> rs_settled v))
     \<and> distinct (ms_decision_nonces s) \<and> distinct (ms_wallet_nonces s)"

lemma store_ok_init: "store_ok MemoryStateStore_init"
  by (simp add: store_ok_def MemoryStateStore_init_def)

lemma linked_fresh: "dget rs rid = None \<Longrightarrow> linked rs pid r \<Longrightarrow> linked (dset rid v rs) pid r"
  by (auto simp: linked_def split: option.splits)

lemma linked_other:
  "linked rs pid r \<Longrightarrow> dget rs rid = Some v \<Longrightarrow> rs_proposal_id v \<noteq> pid \<Longrightarrow> linked (dset rid w rs) pid r"
  by (auto simp: linked_def split: option.splits)

lemma linked_reservation:
  "linked rs pid r \<Longrightarrow> rec_reservation_id r = Some rid \<Longrightarrow> dget rs rid = Some v \<Longrightarrow> rs_proposal_id v = pid"
  by (auto simp: linked_def)

text \<open>The two outcomes of \<open>reserve\<close>.\<close>

lemma ms_reserve_cases:
  assumes "ms_reserve clk rid p policy s = Inr ((r, created), s')"
  obtains (replay) duplicate_id where
      "dget (ms_idempotency s) (pr_principal_id p, pr_idempotency_key p) = Some duplicate_id"
      "dget (ms_records s) duplicate_id = Some r" "\<not> created" "s' = s"
  | (denied) "dget (ms_idempotency s) (pr_principal_id p, pr_idempotency_key p) = None" "created"
      "evaluate clk p policy s \<noteq> []"
      "r = \<lparr>rec_proposal = p, rec_state = DENIED, rec_state_version = ms_version s + 1,
        rec_reason_codes = evaluate clk p policy s, rec_reservation_id = None,
        rec_created_at = at_created clk, rec_updated_at = at_updated clk\<rparr>"
      "s' = s\<lparr>ms_records := dset (pr_proposal_id p) r (ms_records s),
        ms_idempotency := dset (pr_principal_id p, pr_idempotency_key p) (pr_proposal_id p) (ms_idempotency s),
        ms_version := ms_version s + 1\<rparr>"
  | (reserved) "dget (ms_idempotency s) (pr_principal_id p, pr_idempotency_key p) = None" "created"
      "evaluate clk p policy s = []"
      "r = \<lparr>rec_proposal = p, rec_state = RESERVED, rec_state_version = ms_version s + 1,
        rec_reason_codes = [], rec_reservation_id = Some rid,
        rec_created_at = at_created clk, rec_updated_at = at_updated clk\<rparr>"
      "s' = s\<lparr>ms_records := dset (pr_proposal_id p) r (ms_records s),
        ms_idempotency := dset (pr_principal_id p, pr_idempotency_key p) (pr_proposal_id p) (ms_idempotency s),
        ms_reservations := dset rid (new_reservation clk rid p) (ms_reservations s),
        ms_version := ms_version s + 1\<rparr>"
proof (cases "dget (ms_idempotency s) (pr_principal_id p, pr_idempotency_key p)")
  case None
  show ?thesis
  proof (cases "evaluate clk p policy s = []")
    case True
    note eq = assms [unfolded ms_reserve_def Let_def, simplified None True, simplified]
    note parts = conjunct1 [OF eq, symmetric] conjunct1 [OF conjunct2 [OF eq]]
      conjunct2 [OF conjunct2 [OF eq], symmetric]
    show ?thesis by (rule reserved [OF None parts(2) True parts(1)]) (simp only: parts(1,3))
  next
    case False
    note eq = assms [unfolded ms_reserve_def Let_def, simplified None, simplified False, simplified]
    note parts = conjunct1 [OF eq, symmetric] conjunct1 [OF conjunct2 [OF eq]]
      conjunct2 [OF conjunct2 [OF eq], symmetric]
    show ?thesis by (rule denied [OF None parts(2) False parts(1)]) (simp only: parts(1,3))
  qed
next
  case (Some d)
  with assms have "dget (ms_records s) d = Some r \<and> \<not> created \<and> s' = s"
    by (cases "dget (ms_records s) d") (simp_all add: ms_reserve_def)
  with Some replay show ?thesis by blast
qed

lemma store_ok_reserve:
  assumes "store_ok s" "0 < pr_amount p" "dget (ms_reservations s) rid = None"
    and "ms_reserve clk rid p policy s = Inr ((r, created), s')"
  shows "store_ok s'"
  using assms(4)
proof (cases rule: ms_reserve_cases)
  case replay
  with assms(1) show ?thesis by simp
next
  case denied
  then have "linked (ms_reservations s) (pr_proposal_id p) r" by (simp add: linked_def)
  with assms(1) denied(5) show ?thesis by (auto simp: store_ok_def)
next
  case reserved
  have "linked (dset rid (new_reservation clk rid p) (ms_reservations s)) (pr_proposal_id p) r"
    by (simp add: reserved(4) linked_def new_reservation_def res_scope_def prop_scope_def)
  with assms reserved(5) show ?thesis
    by (auto simp: store_ok_def linked_fresh) (simp_all add: new_reservation_def)
qed

text \<open>The effect of a transition on the reservations: at most one entry changes, keeping its
  identity, amount and time.\<close>

definition retire :: "LifecycleState \<Rightarrow> Reservation \<Rightarrow> Reservation" where
  "retire target v = (if target = SETTLED then v\<lparr>rs_active := False, rs_settled := True\<rparr>
     else v\<lparr>rs_active := False\<rparr>)"

lemma retire_simps [simp]:
  "rs_reservation_id (retire t v) = rs_reservation_id v" "rs_proposal_id (retire t v) = rs_proposal_id v"
  "res_scope (retire t v) = res_scope v" "rs_amount (retire t v) = rs_amount v"
  "rs_created_at (retire t v) = rs_created_at v" "\<not> rs_active (retire t v)"
  "rs_settled (retire t v) = (t = SETTLED \<or> rs_settled v)"
  by (simp_all add: retire_def res_scope_def)

lemma ms_transition_cases:
  assumes "ms_transition now pid target s = Inr (r, s')" "store_ok s"
  obtains r0 where "dget (ms_records s) pid = Some r0"
    "target \<in> set (ALLOWED_TRANSITIONS (rec_state r0))"
    "r = r0\<lparr>rec_state := target, rec_state_version := ms_version s + 1, rec_updated_at := now\<rparr>"
    "ms_records s' = dset pid r (ms_records s)" "ms_version s' = ms_version s + 1"
    "ms_idempotency s' = ms_idempotency s" "ms_decision_nonces s' = ms_decision_nonces s"
    "ms_wallet_nonces s' = ms_wallet_nonces s"
    "ms_reservations s' = ms_reservations s \<and> target \<in> {SIGNED, SUBMITTED} \<or>
     (\<exists>rid v. rec_reservation_id r0 = Some rid \<and> dget (ms_reservations s) rid = Some v \<and>
        ms_reservations s' = dset rid (retire target v) (ms_reservations s) \<and>
        rs_active v \<and> \<not> rs_settled v \<and> target \<in> {EXPIRED, REVERTED, SETTLED})"
proof -
  from assms(1) obtain r0 where r0: "dget (ms_records s) pid = Some r0"
    by (auto simp: ms_transition_def rbind_Inr_iff)
  with assms(2) have l: "linked (ms_reservations s) pid r0" by (simp add: store_ok_def)
  from assms(1) r0 have t: "target \<in> set (ALLOWED_TRANSITIONS (rec_state r0))"
    by (auto simp: ms_transition_def rbind_Inr_iff require_transition_def)
  from l t show ?thesis
    using assms(1) r0 that
    by (cases "rec_state r0"; cases target)
      (auto simp: ms_transition_def rbind_Inr_iff release_def settle_def required_reservation_def Let_def
        linked_def retire_def require_transition_def split: option.splits)
qed

lemma store_ok_transition:
  assumes "store_ok s" "ms_transition now pid target s = Inr (r, s')"
  shows "store_ok s'"
  using assms(2,1)
proof (cases rule: ms_transition_cases)
  case (1 r0)
  from assms(1) 1(1) have l0: "linked (ms_reservations s) pid r0" by (simp add: store_ok_def)
  have "linked (ms_reservations s') pid r"
    using 1(9) l0 1(2) unfolding 1(3)
    by (cases "rec_state r0") (auto simp: linked_def split: option.splits)
  moreover have "linked (ms_reservations s') q w" if "dget (ms_records s) q = Some w" "q \<noteq> pid" for q w
  proof -
    from assms(1) that(1) have l: "linked (ms_reservations s) q w" by (simp add: store_ok_def)
    from 1(9) show ?thesis
    proof (elim disjE exE conjE)
      fix rid v
      assume "rec_reservation_id r0 = Some rid" "dget (ms_reservations s) rid = Some v"
        and s': "ms_reservations s' = dset rid (retire target v) (ms_reservations s)"
      with linked_reservation [OF l0] that(2) show ?thesis by (auto simp: s' intro: linked_other [OF l])
    qed (use l in simp)
  qed
  ultimately show ?thesis
    using assms(1) 1(4-9) by (auto simp: store_ok_def split: if_splits)
qed

lemma store_ok_nonces:
  "store_ok s \<Longrightarrow> ms_register_decision_nonce n s = Inr s' \<Longrightarrow> store_ok s'"
  "store_ok s \<Longrightarrow> ms_register_wallet_nonce w c m s = Inr s' \<Longrightarrow> store_ok s'"
  by (auto simp: ms_register_decision_nonce_def ms_register_wallet_nonce_def store_ok_def Let_def)

section \<open>Histories\<close>

text \<open>
  The states the store can be in, with the last reading of the clock: every reservation
  is made under a policy of \<open>Q\<close> for a validated proposal, the clock does not run backwards,
  and \<open>uuid7\<close> gives identifiers that are not in use.
\<close>

definition clock_ok :: "time \<Rightarrow> clock \<Rightarrow> bool" where
  "clock_ok t clk \<longleftrightarrow> t \<le> at_static clk \<and> at_static clk \<le> at_evaluate clk \<and>
     at_evaluate clk \<le> at_reservation clk \<and> at_reservation clk \<le> at_created clk \<and>
     at_created clk \<le> at_updated clk"

inductive reachable :: "(PolicyV1 \<Rightarrow> bool) \<Rightarrow> time \<Rightarrow> MemoryStateStore \<Rightarrow> bool"
  for Q :: "PolicyV1 \<Rightarrow> bool" where
  init: "reachable Q t MemoryStateStore_init"
| reserve: "reachable Q t s \<Longrightarrow> clock_ok t clk \<Longrightarrow> Q policy \<Longrightarrow> valid_proposal p \<Longrightarrow>
    dget (ms_reservations s) rid = None \<Longrightarrow>
    ms_reserve clk rid p policy s = Inr ((r, created), s') \<Longrightarrow> reachable Q (at_updated clk) s'"
| transition: "reachable Q t s \<Longrightarrow> t \<le> now \<Longrightarrow> ms_transition now pid target s = Inr (r, s') \<Longrightarrow>
    reachable Q now s'"
| decision_nonce: "reachable Q t s \<Longrightarrow> ms_register_decision_nonce nonce s = Inr s' \<Longrightarrow> reachable Q t s'"
| wallet_nonce: "reachable Q t s \<Longrightarrow> ms_register_wallet_nonce wallet chain_id nonce s = Inr s' \<Longrightarrow>
    reachable Q t s'"

lemma nonce_reservations:
  "ms_register_decision_nonce nonce s = Inr s' \<Longrightarrow> ms_reservations s' = ms_reservations s"
  "ms_register_wallet_nonce wallet chain_id n s = Inr s' \<Longrightarrow> ms_reservations s' = ms_reservations s"
  by (auto simp: ms_register_decision_nonce_def ms_register_wallet_nonce_def Let_def)

lemma reachable_store_ok: "reachable Q t s \<Longrightarrow> store_ok s"
  by (induction rule: reachable.induct)
    (blast intro: store_ok_init store_ok_reserve store_ok_transition store_ok_nonces valid_proposalD)+

lemma dvalues_dset_subset: "set (dvalues (dset k v d)) \<subseteq> insert v (set (dvalues d))"
proof (induction d)
  case (Cons p d)
  then show ?case by (cases p) (auto simp: dvalues_def)
qed (simp add: dvalues_def)

lemma reachable_created_at:
  "reachable Q t s \<Longrightarrow> v \<in> set (dvalues (ms_reservations s)) \<Longrightarrow> rs_created_at v \<le> t"
proof (induction arbitrary: v rule: reachable.induct)
  case (init t)
  then show ?case by (simp add: MemoryStateStore_init_def dvalues_def)
next
  case (reserve t s clk policy p rid r created s')
  have old: "rs_created_at w \<le> at_updated clk" if "w \<in> set (dvalues (ms_reservations s))" for w
    using reserve.IH [OF that] reserve.hyps(2) by (simp add: clock_ok_def)
  from reserve.hyps(6) show ?case
  proof (cases rule: ms_reserve_cases)
    case reserved
    with reserve.prems have "v = new_reservation clk rid p \<or> v \<in> set (dvalues (ms_reservations s))"
      using dvalues_dset_subset by fastforce
    then show ?thesis using old reserve.hyps(2) by (auto simp: new_reservation_def clock_ok_def)
  qed (use reserve.prems old in auto)
next
  case (transition t s now pid target r s')
  from transition.hyps(3) reachable_store_ok [OF transition.hyps(1)]
  show ?case
  proof (cases rule: ms_transition_cases)
    case (1 r0)
    from 1(9) have "\<exists>w \<in> set (dvalues (ms_reservations s)). rs_created_at v = rs_created_at w"
    proof (elim disjE exE conjE)
      fix rid w
      assume "dget (ms_reservations s) rid = Some w"
        "ms_reservations s' = dset rid (retire target w) (ms_reservations s)"
      then show ?thesis
        using transition.prems dvalues_dset_subset [of rid "retire target w" "ms_reservations s"]
          dget_in_dvalues by fastforce
    qed (use transition.prems in auto)
    with transition.IH transition.hyps(2) show ?thesis by fastforce
  qed
qed (auto dest: nonce_reservations)

section \<open>Sliding windows\<close>

text \<open>
  The sum of \<open>f\<close> over the reservations of a scope that are active or settled and were made
  in the \<open>w\<close> seconds that end at \<open>\<tau>\<close>.
\<close>

definition in_window :: "scope \<Rightarrow> int \<Rightarrow> time \<Rightarrow> Reservation \<Rightarrow> bool" where
  "in_window sc w \<tau> v \<longleftrightarrow> counted v \<and> res_scope v = sc \<and> \<tau> - seconds w < rs_created_at v \<and> rs_created_at v \<le> \<tau>"

definition window_total :: "(Reservation \<Rightarrow> int) \<Rightarrow> scope \<Rightarrow> int \<Rightarrow> time \<Rightarrow> MemoryStateStore \<Rightarrow> int" where
  "window_total f sc w \<tau> s = (\<Sum>v\<leftarrow>filter (in_window sc w \<tau>) (dvalues (ms_reservations s)). f v)"

lemma window_total_if:
  "window_total f sc w \<tau> s = (\<Sum>v\<leftarrow>dvalues (ms_reservations s). if in_window sc w \<tau> v then f v else 0)"
  by (simp add: window_total_def sum_filter_if)

lemma sum_list_le: "(\<And>x. x \<in> set xs \<Longrightarrow> f x \<le> (g x :: int)) \<Longrightarrow> (\<Sum>x\<leftarrow>xs. f x) \<le> (\<Sum>x\<leftarrow>xs. g x)"
  by (induction xs) (auto intro: add_mono)

lemma window_total_reserve:
  assumes "dget (ms_reservations s) rid = None"
    and "ms_reservations s' = dset rid new (ms_reservations s)"
    and "\<And>v. v \<in> set (dvalues (ms_reservations s)) \<Longrightarrow> 0 \<le> f v"
    and "now \<le> rs_created_at new" "window_total f sc w \<tau> s \<le> A"
    and "res_scope new = sc \<Longrightarrow> (\<Sum>v\<leftarrow>filter (\<lambda>v. now - rs_created_at v < seconds w)
        (filter (\<lambda>v. counted v \<and> res_scope v = res_scope new) (dvalues (ms_reservations s))). f v) + f new \<le> A"
  shows "window_total f sc w \<tau> s' \<le> A"
proof -
  have eq: "window_total f sc w \<tau> s' = window_total f sc w \<tau> s + (if in_window sc w \<tau> new then f new else 0)"
    unfolding window_total_if assms(2) using assms(1) by (rule sum_dvalues_fresh)
  show ?thesis
  proof (cases "in_window sc w \<tau> new")
    case True
    then have sc: "res_scope new = sc" "rs_created_at new \<le> \<tau>" by (auto simp: in_window_def)
    have "window_total f sc w \<tau> s \<le> (\<Sum>v\<leftarrow>dvalues (ms_reservations s).
        if counted v \<and> res_scope v = res_scope new \<and> now - rs_created_at v < seconds w then f v else 0)"
      unfolding window_total_if
      by (rule sum_list_le) (use assms(3,4) sc in \<open>auto simp: in_window_def\<close>)
    also have "\<dots> = (\<Sum>v\<leftarrow>filter (\<lambda>v. now - rs_created_at v < seconds w)
        (filter (\<lambda>v. counted v \<and> res_scope v = res_scope new) (dvalues (ms_reservations s))). f v)"
      unfolding filter_filter sum_filter_if by (rule arg_cong [of _ _ sum_list]) auto
    finally show ?thesis using eq True assms(6) sc(1) by simp
  next
    case False
    with eq assms(5) show ?thesis by simp
  qed
qed

lemma window_total_transition:
  assumes "store_ok s" "ms_transition now pid target s = Inr (r, s')"
    and "\<And>t v. f (retire t v) = f v" "\<And>v. v \<in> set (dvalues (ms_reservations s)) \<Longrightarrow> 0 \<le> f v"
  shows "window_total f sc w \<tau> s' \<le> window_total f sc w \<tau> s"
  using assms(2,1)
proof (cases rule: ms_transition_cases)
  case (1 r0)
  from 1(9) show ?thesis
  proof (elim disjE exE conjE)
    fix rid v
    assume v: "dget (ms_reservations s) rid = Some v"
      and s': "ms_reservations s' = dset rid (retire target v) (ms_reservations s)" and "rs_active v"
    have wf: "dict_wf (ms_reservations s)" using assms(1) by (simp add: store_ok_def)
    have "window_total f sc w \<tau> s' = window_total f sc w \<tau> s
        - (if in_window sc w \<tau> v then f v else 0) + (if in_window sc w \<tau> (retire target v) then f (retire target v) else 0)"
      unfolding window_total_if s' using wf v by (rule sum_dvalues_replace)
    moreover have "in_window sc w \<tau> (retire target v) \<Longrightarrow> in_window sc w \<tau> v"
      using \<open>rs_active v\<close> by (auto simp: in_window_def counted_def)
    moreover have "0 \<le> f v" using assms(4) dget_in_dvalues [OF v] by simp
    ultimately show ?thesis using assms(3) by (auto split: if_splits)
  qed (simp add: window_total_def)
qed

lemma res_scope_new [simp]: "res_scope (new_reservation clk rid p) = prop_scope p"
  by (simp add: res_scope_def prop_scope_def new_reservation_def)

lemma reachable_window_total:
  assumes "reachable Q t s" "0 \<le> A" "\<And>t v. f (retire t v) = f v" "\<And>v. 0 < rs_amount v \<Longrightarrow> 0 \<le> f v"
    and bound: "\<And>clk rid p policy s. Q policy \<Longrightarrow> evaluate clk p policy s = [] \<Longrightarrow>
      (\<Sum>v\<leftarrow>filter (\<lambda>v. at_evaluate clk - rs_created_at v < seconds w) (active_in_scope s p). f v)
        + f (new_reservation clk rid p) \<le> A"
  shows "window_total f sc w \<tau> s \<le> A"
  using assms(1)
proof (induction rule: reachable.induct)
  case (init t)
  then show ?case using assms(2) by (simp add: window_total_def MemoryStateStore_init_def dvalues_def)
next
  case (reserve t s clk policy p rid r created s')
  have ok: "store_ok s" using reserve.hyps(1) by (rule reachable_store_ok)
  then have nonneg: "0 \<le> f v" if "v \<in> set (dvalues (ms_reservations s))" for v
    using that assms(4) by (auto simp: store_ok_def set_dvalues)
  from reserve.hyps(6) show ?case
  proof (cases rule: ms_reserve_cases)
    case reserved
    have "ms_reservations s' = dset rid (new_reservation clk rid p) (ms_reservations s)"
      by (simp add: reserved(5))
    then show ?thesis
    proof (rule window_total_reserve [OF reserve.hyps(5) _ nonneg _ reserve.IH])
      show "at_evaluate clk \<le> rs_created_at (new_reservation clk rid p)"
        using reserve.hyps(2) by (simp add: clock_ok_def new_reservation_def)
      show "(\<Sum>v\<leftarrow>filter (\<lambda>v. at_evaluate clk - rs_created_at v < seconds w)
          (filter (\<lambda>v. counted v \<and> res_scope v = res_scope (new_reservation clk rid p))
            (dvalues (ms_reservations s))). f v) + f (new_reservation clk rid p) \<le> A"
        using bound [OF reserve.hyps(3) reserved(3), of rid] by (simp add: active_in_scope_def)
    qed
  qed (use reserve.IH in \<open>auto simp: window_total_def\<close>)
next
  case (transition t s now pid target r s')
  have ok: "store_ok s" using transition.hyps(1) by (rule reachable_store_ok)
  then have "0 \<le> f v" if "v \<in> set (dvalues (ms_reservations s))" for v
    using that assms(4) by (auto simp: store_ok_def set_dvalues)
  with window_total_transition [OF ok transition.hyps(3) assms(3)] transition.IH show ?case
    by (meson order_trans)
qed (simp_all add: window_total_def nonce_reservations)

lemma list_ex_bound:
  "\<not> list_ex (\<lambda>cap. a cap > b cap) caps \<Longrightarrow> cap \<in> set caps \<Longrightarrow> a cap \<le> (b cap :: int)"
  by (auto simp: list_ex_iff not_less)

lemma evaluate_NilD:
  assumes "evaluate clk p policy s = []"
  shows "static_policy_reasons (at_static clk) p policy = []"
    "cap \<in> set (po_rolling_caps policy) \<Longrightarrow>
       window_spent (at_evaluate clk) (cap_window_seconds cap) (active_in_scope s p) + pr_amount p \<le> cap_amount cap"
    "int (length (filter (\<lambda>v. at_evaluate clk - rs_created_at v < seconds 3600) (active_in_scope s p))) + 1
       \<le> po_maximum_transactions_per_hour policy"
  using assms by (auto simp: evaluate_def Let_def list_ex_iff not_less split: if_splits)

section \<open>Sequences of calls\<close>

text \<open>A call that raises leaves the store as it was.\<close>

datatype store_op =
    Reserve clock uuid ProposalV1 PolicyV1
  | Transition time uuid LifecycleState
  | DecisionNonce uuid
  | WalletNonce string int int

definition after :: "('a \<Rightarrow> 's) \<Rightarrow> 's \<Rightarrow> 'a res \<Rightarrow> 's" where
  "after f s m = (case m of Inl _ \<Rightarrow> s | Inr x \<Rightarrow> f x)"

fun run_op :: "store_op \<Rightarrow> MemoryStateStore \<Rightarrow> MemoryStateStore" where
  "run_op (Reserve clk rid p policy) s = after snd s (ms_reserve clk rid p policy s)"
| "run_op (Transition now pid target) s = after snd s (ms_transition now pid target s)"
| "run_op (DecisionNonce nonce) s = after id s (ms_register_decision_nonce nonce s)"
| "run_op (WalletNonce wallet chain_id nonce) s = after id s (ms_register_wallet_nonce wallet chain_id nonce s)"

lemma release_settle_frame:
  "release r s = Inr s' \<Longrightarrow> ms_records s' = ms_records s \<and> ms_idempotency s' = ms_idempotency s \<and>
     ms_decision_nonces s' = ms_decision_nonces s \<and> ms_wallet_nonces s' = ms_wallet_nonces s"
  "settle r s = Inr s' \<Longrightarrow> ms_records s' = ms_records s \<and> ms_idempotency s' = ms_idempotency s \<and>
     ms_decision_nonces s' = ms_decision_nonces s \<and> ms_wallet_nonces s' = ms_wallet_nonces s"
  by (auto simp: release_def settle_def required_reservation_def rbind_Inr_iff split: option.splits)

lemma ms_transition_frame:
  assumes "ms_transition now pid target s = Inr (r, s')"
  shows "ms_records s' = dset pid r (ms_records s) \<and> dhas (ms_records s) pid \<and>
    ms_idempotency s' = ms_idempotency s \<and>
    ms_decision_nonces s' = ms_decision_nonces s \<and> ms_wallet_nonces s' = ms_wallet_nonces s"
proof -
  from assms obtain r0 s1 s2 where r0: "dget (ms_records s) pid = Some r0"
    and s1: "(if target \<in> {EXPIRED, REVERTED} then release r0 s else Inr s) = Inr s1"
    and s2: "(if target = SETTLED then settle r0 s1 else Inr s1) = Inr s2"
    and r: "r0\<lparr>rec_state := target, rec_state_version := ms_version s2 + 1, rec_updated_at := now\<rparr> = r"
      "s2\<lparr>ms_records := dset pid (r0\<lparr>rec_state := target, rec_state_version := ms_version s2 + 1,
        rec_updated_at := now\<rparr>) (ms_records s2), ms_version := ms_version s2 + 1\<rparr> = s'"
    unfolding ms_transition_def Let_def rbind_Inr_iff of_option_simps(3) sum.inject prod.inject by blast
  have "ms_records s1 = ms_records s \<and> ms_idempotency s1 = ms_idempotency s \<and>
     ms_decision_nonces s1 = ms_decision_nonces s \<and> ms_wallet_nonces s1 = ms_wallet_nonces s"
    using s1 release_settle_frame(1) [of r0 s s1] by (cases "target \<in> {EXPIRED, REVERTED}") simp_all
  moreover have "ms_records s2 = ms_records s1 \<and> ms_idempotency s2 = ms_idempotency s1 \<and>
     ms_decision_nonces s2 = ms_decision_nonces s1 \<and> ms_wallet_nonces s2 = ms_wallet_nonces s1"
    using s2 release_settle_frame(2) [of r0 s1 s2] by (cases "target = SETTLED") simp_all
  ultimately show ?thesis using r(1) r0 unfolding r(2) [symmetric] by (simp add: dhas_def)
qed

text \<open>What no call takes back: used nonces, and the proposal an idempotency key stands for.\<close>

definition keeps :: "MemoryStateStore \<Rightarrow> MemoryStateStore \<Rightarrow> bool" where
  "keeps s s' \<longleftrightarrow> set (ms_decision_nonces s) \<subseteq> set (ms_decision_nonces s') \<and>
     set (ms_wallet_nonces s) \<subseteq> set (ms_wallet_nonces s') \<and>
     (\<forall>key pid. dget (ms_idempotency s) key = Some pid \<longrightarrow> dget (ms_idempotency s') key = Some pid) \<and>
     (\<forall>pid. dhas (ms_records s) pid \<longrightarrow> dhas (ms_records s') pid)"

lemma keeps_refl [simp]: "keeps s s"
  by (simp add: keeps_def)

lemma keeps_trans: "keeps s s' \<Longrightarrow> keeps s' s'' \<Longrightarrow> keeps s s''"
  by (auto simp: keeps_def)

lemma keeps_reserve: "ms_reserve clk rid p policy s = Inr ((r, created), s') \<Longrightarrow> keeps s s'"
  by (erule ms_reserve_cases) (auto simp: keeps_def)

lemma keeps_transition: "ms_transition now pid target s = Inr (r, s') \<Longrightarrow> keeps s s'"
  by (drule ms_transition_frame) (simp add: keeps_def)

lemma keeps_run_op: "keeps s (run_op op s)"
proof (cases op)
  case (Reserve clk rid p policy)
  then show ?thesis
    using keeps_reserve by (auto simp: after_def split: sum.split)
next
  case (Transition now pid target)
  then show ?thesis using keeps_transition by (auto simp: after_def split: sum.split)
qed (auto simp: after_def ms_register_decision_nonce_def ms_register_wallet_nonce_def Let_def keeps_def)

lemma keeps_run_ops: "keeps s (fold run_op ops s)"
  by (induction ops arbitrary: s) (auto intro: keeps_trans keeps_run_op)

section \<open>Sample data\<close>

definition sample_clock :: "time \<Rightarrow> clock" where
  "sample_clock t = \<lparr>at_static = t, at_evaluate = t, at_reservation = t, at_created = t, at_updated = t\<rparr>"

definition sample_record :: ProposalRecord where
  "sample_record = \<lparr>rec_proposal = sample_transfer, rec_state = RESERVED, rec_state_version = 1,
     rec_reason_codes = [], rec_reservation_id = Some 7, rec_created_at = seconds 10,
     rec_updated_at = seconds 10\<rparr>"

definition sample_reserved :: MemoryStateStore where
  "sample_reserved = run_op (Reserve (sample_clock (seconds 10)) 7 sample_transfer sample_policy)
     MemoryStateStore_init"

lemma sample_reserve:
  "ms_reserve (sample_clock (seconds 10)) 7 sample_transfer sample_policy MemoryStateStore_init =
     Inr ((sample_record, True), sample_reserved)"
  by code_simp

lemma sample_reachable: "Q sample_policy \<Longrightarrow> reachable Q (seconds 10) sample_reserved"
proof -
  assume "Q sample_policy"
  from reachable.reserve [OF reachable.init [of Q 0] _ this sample_transfer_valid _ sample_reserve]
  show ?thesis by (simp add: sample_clock_def clock_ok_def seconds_def MemoryStateStore_init_def)
qed

section \<open>Properties\<close>

text \<open>
  C2. No overspending: when every policy in force carries the rolling cap, the reservations
  of a scope that are active or settled and were made within any interval as long as the
  cap's window add up to at most the cap, in every state the store reaches.
\<close>

theorem rolling_cap_window:
  assumes "reachable (\<lambda>policy. cap \<in> set (po_rolling_caps policy)) t s" "0 \<le> cap_amount cap"
  shows "window_total rs_amount sc (cap_window_seconds cap) \<tau> s \<le> cap_amount cap"
  using assms(1,2)
proof (rule reachable_window_total)
  fix clk rid p policy s
  assume "cap \<in> set (po_rolling_caps policy)" "evaluate clk p policy s = []"
  from evaluate_NilD(2) [OF this(2,1)]
  show "(\<Sum>v\<leftarrow>filter (\<lambda>v. at_evaluate clk - rs_created_at v < seconds (cap_window_seconds cap))
      (active_in_scope s p). rs_amount v) + rs_amount (new_reservation clk rid p) \<le> cap_amount cap"
    by (simp add: window_spent_def new_reservation_def)
qed auto

theorem rolling_cap_window_witness:
  "window_total rs_amount (''agent-1'', alice, 1, ''NATIVE:1'') 3600 (seconds 20) sample_reserved \<le> 100"
  using rolling_cap_window [of "\<lparr>cap_window_seconds = 3600, cap_amount = 100\<rparr>" "seconds 10" sample_reserved
      "(''agent-1'', alice, 1, ''NATIVE:1'')" "seconds 20"]
    sample_reachable [of "\<lambda>policy. \<lparr>cap_window_seconds = 3600, cap_amount = 100\<rparr> \<in> set (po_rolling_caps policy)"]
  by (simp add: sample_policy_def)

text \<open>
  C38. Velocity: when no policy in force allows more than \<open>n\<close> transactions an hour, at most \<open>n\<close>
  reservations of a scope that are active or settled were made within any hour.
\<close>

theorem velocity_window:
  assumes "reachable (\<lambda>policy. po_maximum_transactions_per_hour policy \<le> n) t s" "0 \<le> n"
  shows "window_total (\<lambda>_. 1) sc 3600 \<tau> s \<le> n"
  using assms(1,2)
proof (rule reachable_window_total)
  fix clk p policy s and rid :: uuid
  assume "po_maximum_transactions_per_hour policy \<le> n" "evaluate clk p policy s = []"
  with evaluate_NilD(3) [OF this(2)]
  show "(\<Sum>v\<leftarrow>filter (\<lambda>v. at_evaluate clk - rs_created_at v < seconds 3600) (active_in_scope s p). 1) + 1 \<le> n"
    by (simp add: sum_list_triv)
qed auto

theorem velocity_window_witness:
  "window_total (\<lambda>_. 1) (''agent-1'', alice, 1, ''NATIVE:1'') 3600 (seconds 20) sample_reserved \<le> 5"
  using velocity_window [of 5 "seconds 10" sample_reserved "(''agent-1'', alice, 1, ''NATIVE:1'')" "seconds 20"]
    sample_reachable [of "\<lambda>policy. po_maximum_transactions_per_hour policy \<le> 5"]
  by (simp add: sample_policy_def)

text \<open>
  C6. Reservations follow the lifecycle: in every reachable state a stored proposal that was
  not denied has a reservation for its own scope and amount, which is active exactly while
  the proposal is reserved, signed or submitted and settled exactly when it is settled; a
  denied proposal has none.
\<close>

theorem reservation_lifecycle:
  assumes "reachable Q t s" "ms_get s proposal_id = Some r"
  shows "linked (ms_reservations s) proposal_id r"
  using reachable_store_ok [OF assms(1)] assms(2) by (simp add: store_ok_def ms_get_def)

theorem reservation_lifecycle_witness:
  "linked (ms_reservations sample_reserved) (pr_proposal_id sample_transfer) sample_record"
proof (rule reservation_lifecycle [OF sample_reachable [of "\<lambda>_. True"]])
  show "ms_get sample_reserved (pr_proposal_id sample_transfer) = Some sample_record" by code_simp
qed simp

text \<open>
  C39. What is reserved satisfies the policy: a new reservation is made only with the
  emergency stop off, before the deadline, for an enabled wallet, principal, chain and
  asset, within the transaction cap, to an allowed recipient or an allowed contract and
  selector, with a mandate where one is required.
\<close>

theorem reserved_satisfies_policy:
  assumes "ms_reserve clk rid p policy s = Inr ((r, True), s')" "rec_state r = RESERVED"
  shows "\<not> po_emergency_stop policy \<and> at_static clk < pr_deadline p \<and>
    pr_wallet p \<in> set (po_enabled_wallets policy) \<and>
    pr_principal_id p \<in> set (po_enabled_principals policy) \<and>
    pr_chain_id p \<in> set (po_enabled_chains policy) \<and> pr_asset p \<in> set (po_enabled_assets policy) \<and>
    pr_amount p \<le> po_per_transaction_cap policy \<and>
    (case pr_intent p of
       TransferIntentV1 recipient \<Rightarrow> recipient \<in> set (po_allowed_recipients policy)
     | SwapIntentV1 contract selector _ _ _ \<Rightarrow> rule_allows policy contract (lower selector) \<and>
         (risk_deny_on_missing_quote (po_risk policy) \<longrightarrow> pr_quote_reference p \<noteq> None)) \<and>
    (pr_amount p > po_mandate_required_above policy \<longrightarrow> pr_mandate_id p \<noteq> None)"
  using assms(1)
proof (cases rule: ms_reserve_cases)
  case reserved
  from evaluate_NilD(1) [OF reserved(3)] show ?thesis
    by (cases "pr_intent p") (auto simp: static_policy_reasons_def intent_reasons_def split: if_splits)
qed (use assms(2) in auto)

theorem reserved_satisfies_policy_witness:
  "pr_wallet sample_transfer \<in> set (po_enabled_wallets sample_policy) \<and>
   pr_amount sample_transfer \<le> po_per_transaction_cap sample_policy"
  using reserved_satisfies_policy [OF sample_reserve] by (simp add: sample_record_def)

text \<open>
  C40. Idempotency: after a call of \<open>reserve\<close>, and any sequence of calls after it, a call with
  the same principal and idempotency key creates nothing and leaves the store unchanged,
  whatever proposal and policy it carries.
\<close>

theorem reserve_idempotent:
  assumes "store_ok s" "ms_reserve clk rid p policy s = Inr ((r, created), s')"
    and "pr_principal_id p' = pr_principal_id p" "pr_idempotency_key p' = pr_idempotency_key p"
  shows "\<exists>r'. ms_reserve clk' rid' p' policy' (fold run_op ops s') = Inr ((r', False), fold run_op ops s')"
proof -
  obtain pid where "dget (ms_idempotency s') (pr_principal_id p, pr_idempotency_key p) = Some pid"
    and "dhas (ms_records s') pid"
    using assms(2,1) by (cases rule: ms_reserve_cases) (auto simp: dhas_def)
  with keeps_run_ops [of s' ops]
  have "dget (ms_idempotency (fold run_op ops s')) (pr_principal_id p, pr_idempotency_key p) = Some pid"
    "dhas (ms_records (fold run_op ops s')) pid"
    by (simp_all add: keeps_def)
  with assms(3,4) show ?thesis by (auto simp: ms_reserve_def dhas_def)
qed

theorem reserve_idempotent_witness:
  "\<exists>r'. ms_reserve (sample_clock 0) 8 (sample_transfer\<lparr>pr_amount := 1\<rparr>) sample_policy
     (fold run_op [DecisionNonce 3] sample_reserved) = Inr ((r', False), fold run_op [DecisionNonce 3] sample_reserved)"
  by (rule reserve_idempotent [OF store_ok_init sample_reserve]) simp_all

text \<open>
  Transitions, completely: in a reachable state a transition fails with \<open>KeyError\<close> exactly
  when the proposal is unknown and with \<open>ValueError\<close> exactly when the lifecycle forbids it;
  otherwise it succeeds, so settlement never lacks its reservation.
\<close>

theorem transition_outcome:
  assumes "reachable Q t s"
  shows "case ms_get s proposal_id of
      None \<Rightarrow> ms_transition now proposal_id target s = Inl (KeyError (uuid_str proposal_id))
    | Some r \<Rightarrow>
        if target \<in> set (ALLOWED_TRANSITIONS (rec_state r))
        then \<exists>r' s'. ms_transition now proposal_id target s = Inr (r', s') \<and> rec_state r' = target \<and>
               ms_get s' proposal_id = Some r'
        else ms_transition now proposal_id target s = Inl (ValueError (''invalid lifecycle transition: ''
               @ lifecycle_name (rec_state r) @ '' -> '' @ lifecycle_name target))"
proof (cases "ms_get s proposal_id")
  case None
  then show ?thesis by (simp add: ms_transition_def ms_get_def)
next
  case (Some r)
  then have l: "linked (ms_reservations s) proposal_id r"
    using reachable_store_ok [OF assms] by (simp add: store_ok_def ms_get_def)
  show ?thesis
  proof (cases "target \<in> set (ALLOWED_TRANSITIONS (rec_state r))")
    case True
    then have "rec_state r \<noteq> DENIED" by auto
    with l obtain rid v where "rec_reservation_id r = Some rid" "dget (ms_reservations s) rid = Some v"
      by (auto simp: linked_def split: option.splits)
    with Some True show ?thesis
      by (simp add: ms_transition_def ms_get_def require_transition_def release_def settle_def
          required_reservation_def Let_def)
  next
    case False
    with Some show ?thesis by (simp add: ms_transition_def ms_get_def require_transition_def)
  qed
qed

theorem transition_outcome_witness:
  "case ms_get sample_reserved 0 of
      None \<Rightarrow> ms_transition 0 0 SIGNED sample_reserved = Inl (KeyError (uuid_str 0))
    | Some r \<Rightarrow>
        if SIGNED \<in> set (ALLOWED_TRANSITIONS (rec_state r))
        then \<exists>r' s'. ms_transition 0 0 SIGNED sample_reserved = Inr (r', s') \<and> rec_state r' = SIGNED \<and>
               ms_get s' 0 = Some r'
        else ms_transition 0 0 SIGNED sample_reserved = Inl (ValueError (''invalid lifecycle transition: ''
               @ lifecycle_name (rec_state r) @ '' -> '' @ lifecycle_name SIGNED))"
  by (rule transition_outcome [OF sample_reachable [of "\<lambda>_. True"]]) simp

text \<open>
  Nonces are used once: after a decision nonce or a wallet nonce has been registered, and
  any sequence of calls after it, registering it again raises; a wallet's letter case does
  not make its nonces new.
\<close>

theorem nonces_single_use:
  assumes "ms_register_decision_nonce nonce s = Inr s1" "ms_register_wallet_nonce wallet chain_id n s1 = Inr s2"
    and "lower wallet' = lower wallet"
  shows "ms_register_decision_nonce nonce (fold run_op ops s2) = Inl (ValueError ''decision nonce already used'') \<and>
    ms_register_wallet_nonce wallet' chain_id n (fold run_op ops s2) = Inl (ValueError ''wallet nonce already used'')"
proof -
  have "nonce \<in> set (ms_decision_nonces s2)" "(lower wallet, chain_id, n) \<in> set (ms_wallet_nonces s2)"
    using assms(1,2) by (auto simp: ms_register_decision_nonce_def ms_register_wallet_nonce_def Let_def)
  with keeps_run_ops [of s2 ops] have "nonce \<in> set (ms_decision_nonces (fold run_op ops s2))"
    "(lower wallet, chain_id, n) \<in> set (ms_wallet_nonces (fold run_op ops s2))"
    by (auto simp: keeps_def)
  with assms(3) show ?thesis
    by (simp add: ms_register_decision_nonce_def ms_register_wallet_nonce_def)
qed

theorem nonces_single_use_witness:
  "let s2 = run_op (WalletNonce ''0xAB'' 1 0) (run_op (DecisionNonce 3) MemoryStateStore_init) in
   ms_register_decision_nonce 3 (fold run_op [] s2) = Inl (ValueError ''decision nonce already used'') \<and>
   ms_register_wallet_nonce ''0xab'' 1 0 (fold run_op [] s2) = Inl (ValueError ''wallet nonce already used'')"
  unfolding Let_def
proof (rule nonces_single_use [where s = MemoryStateStore_init and wallet = "''0xAB''"])
  show "ms_register_decision_nonce 3 MemoryStateStore_init = Inr (run_op (DecisionNonce 3) MemoryStateStore_init)"
    by code_simp
  show "ms_register_wallet_nonce ''0xAB'' 1 0 (run_op (DecisionNonce 3) MemoryStateStore_init) =
      Inr (run_op (WalletNonce ''0xAB'' 1 0) (run_op (DecisionNonce 3) MemoryStateStore_init))" by code_simp
  show "lower ''0xab'' = lower ''0xAB''" by code_simp
qed

section \<open>The store implements the specification\<close>

text \<open>No reservation is left behind: each is the reservation of the record of its proposal.
  This needs new proposals to have new identifiers, which \<open>memory_admits\<close> asks for.\<close>

definition memory_ok :: "MemoryStateStore \<Rightarrow> bool" where
  "memory_ok s \<longleftrightarrow> store_ok s \<and> (\<forall>rid v. dget (ms_reservations s) rid = Some v \<longrightarrow>
     (\<exists>r. dget (ms_records s) (rs_proposal_id v) = Some r \<and> rec_reservation_id r = Some rid))"

definition memory_state :: "uuid \<Rightarrow> MemoryStateStore \<Rightarrow> LifecycleState option" where
  "memory_state pid s = map_option rec_state (ms_get s pid)"

definition memory_amount :: "uuid \<Rightarrow> MemoryStateStore \<Rightarrow> int" where
  "memory_amount pid s = (case ms_get s pid of None \<Rightarrow> 0 | Some r \<Rightarrow> pr_amount (rec_proposal r))"

definition memory_held :: "uuid \<Rightarrow> MemoryStateStore \<Rightarrow> bool" where
  "memory_held pid s \<longleftrightarrow> list_ex (\<lambda>v. rs_proposal_id v = pid \<and> rs_active v) (dvalues (ms_reservations s))"

definition memory_spend :: "MemoryStateStore \<Rightarrow> int" where
  "memory_spend s = (\<Sum>v\<leftarrow>filter rs_settled (dvalues (ms_reservations s)). rs_amount v)"

definition memory_admits :: "clock \<times> uuid \<Rightarrow> ProposalV1 \<Rightarrow> MemoryStateStore \<Rightarrow> bool" where
  "memory_admits e p s \<longleftrightarrow> dget (ms_reservations s) (snd e) = None \<and>
     (dhas (ms_idempotency s) (pr_principal_id p, pr_idempotency_key p) \<or> dget (ms_records s) (pr_proposal_id p) = None)"

abbreviation "memory_reserve e \<equiv> ms_reserve (fst e) (snd e)"

lemma memory_held_iff:
  assumes "memory_ok s"
  shows "memory_held pid s \<longleftrightarrow> memory_state pid s \<in> {Some RESERVED, Some SIGNED, Some SUBMITTED}"
proof
  assume "memory_held pid s"
  then obtain v where v: "v \<in> set (dvalues (ms_reservations s))" "rs_proposal_id v = pid" "rs_active v"
    by (auto simp: memory_held_def list_ex_iff)
  moreover have "dict_wf (ms_reservations s)" using assms by (simp add: memory_ok_def store_ok_def)
  ultimately obtain rid where rid: "dget (ms_reservations s) rid = Some v" by (auto simp: set_dvalues)
  with assms v(2) obtain r where r: "dget (ms_records s) pid = Some r" "rec_reservation_id r = Some rid"
    by (auto simp: memory_ok_def)
  with assms have "linked (ms_reservations s) pid r" by (simp add: memory_ok_def store_ok_def)
  with r rid v(3) show "memory_state pid s \<in> {Some RESERVED, Some SIGNED, Some SUBMITTED}"
    by (auto simp: linked_def memory_state_def ms_get_def)
next
  assume "memory_state pid s \<in> {Some RESERVED, Some SIGNED, Some SUBMITTED}"
  then obtain r where r: "dget (ms_records s) pid = Some r" "rec_state r \<in> {RESERVED, SIGNED, SUBMITTED}"
    by (auto simp: memory_state_def ms_get_def)
  with assms have "linked (ms_reservations s) pid r" by (simp add: memory_ok_def store_ok_def)
  with r obtain rid v where "dget (ms_reservations s) rid = Some v" "rs_proposal_id v = pid" "rs_active v"
    by (auto simp: linked_def split: option.splits)
  then show "memory_held pid s" by (auto simp: memory_held_def list_ex_iff dest: dget_in_dvalues)
qed

lemma memory_reserve_law:
  assumes "memory_ok s" "memory_admits e p s" "valid_proposal p" "memory_reserve e p policy s = Inr ((r, True), s')"
  shows "memory_ok s' \<and> memory_state (pr_proposal_id p) s = None \<and>
      memory_state (pr_proposal_id p) s' \<in> {Some RESERVED, Some DENIED} \<and>
      memory_amount (pr_proposal_id p) s' = pr_amount p \<and> memory_spend s' = memory_spend s \<and>
      (\<forall>q. q \<noteq> pr_proposal_id p \<longrightarrow> memory_state q s' = memory_state q s \<and> memory_amount q s' = memory_amount q s)"
proof -
  obtain clk rid where e: "e = (clk, rid)" by (cases e)
  have ok: "store_ok s'"
    using store_ok_reserve [of s p rid clk policy r True s'] assms valid_proposalD(1) [OF assms(3)]
    by (simp add: memory_ok_def memory_admits_def e)
  have res: "ms_reserve clk rid p policy s = Inr ((r, True), s')" using assms(4) by (simp add: e)
  have fresh: "dget (ms_reservations s) rid = None" using assms(2) by (simp add: memory_admits_def e)
  have others: "rs_proposal_id v \<noteq> pr_proposal_id p"
    if "dget (ms_records s) (pr_proposal_id p) = None" "dget (ms_reservations s) i = Some v" for i v
    using assms(1) that by (force simp: memory_ok_def)
  from res show ?thesis
  proof (cases rule: ms_reserve_cases)
    case denied
    then have new: "dget (ms_records s) (pr_proposal_id p) = None"
      using assms(2) by (simp add: memory_admits_def dhas_def)
    have eqs: "ms_records s' = dset (pr_proposal_id p) r (ms_records s)" "ms_reservations s' = ms_reservations s"
      using denied(5) by simp_all
    have "memory_ok s'"
      using assms(1) ok others [OF new] by (simp add: memory_ok_def eqs)
    moreover have "rec_state r = DENIED" "rec_proposal r = p" by (simp_all add: denied(4))
    ultimately show ?thesis
      using new by (simp add: memory_state_def memory_amount_def memory_spend_def ms_get_def eqs)
  next
    case reserved
    then have new: "dget (ms_records s) (pr_proposal_id p) = None"
      using assms(2) by (simp add: memory_admits_def dhas_def)
    have eqs: "ms_records s' = dset (pr_proposal_id p) r (ms_records s)"
      "ms_reservations s' = dset rid (new_reservation clk rid p) (ms_reservations s)"
      using reserved(5) by simp_all
    have r: "rec_state r = RESERVED" "rec_proposal r = p" "rec_reservation_id r = Some rid"
      by (simp_all add: reserved(4))
    have "memory_spend s' = memory_spend s"
      unfolding memory_spend_def sum_filter_if eqs using sum_dvalues_fresh [OF fresh]
      by (simp add: new_reservation_def)
    moreover have "memory_ok s'"
      using assms(1) ok others [OF new] r by (simp add: memory_ok_def eqs) (simp add: new_reservation_def)
    ultimately show ?thesis
      using new r by (simp add: memory_state_def memory_amount_def ms_get_def eqs)
  qed simp
qed

lemma memory_transition_law:
  assumes "memory_ok s" "ms_transition now pid target s = Inr (r, s')"
  shows "\<exists>st. memory_ok s' \<and> memory_state pid s = Some st \<and> st \<noteq> PROPOSED \<and> target \<in> set (ALLOWED_TRANSITIONS st) \<and>
    memory_state pid s' = Some target \<and> memory_amount pid s' = memory_amount pid s \<and>
    memory_spend s' = memory_spend s + (if target = SETTLED then memory_amount pid s else 0) \<and>
    (\<forall>q. q \<noteq> pid \<longrightarrow> memory_state q s' = memory_state q s \<and> memory_amount q s' = memory_amount q s)"
proof -
  have ok: "store_ok s" and wf: "dict_wf (ms_reservations s)" using assms(1) by (auto simp: memory_ok_def store_ok_def)
  have ok': "store_ok s'" by (rule store_ok_transition [OF ok assms(2)])
  from assms(2) ok show ?thesis
  proof (cases rule: ms_transition_cases)
    case (1 r0)
    have linked: "linked (ms_reservations s) pid r0" using ok 1(1) by (simp add: store_ok_def)
    have st: "rec_state r0 \<noteq> PROPOSED" using linked by (auto simp: linked_def split: option.splits)
    have keep: "rec_reservation_id r = rec_reservation_id r0" "rec_proposal r = rec_proposal r0" "rec_state r = target"
      using 1(3) by simp_all
    from 1(9) have spend: "memory_spend s' = memory_spend s + (if target = SETTLED then pr_amount (rec_proposal r0) else 0)
        \<and> (\<forall>rid v. dget (ms_reservations s') rid = Some v \<longrightarrow> (\<exists>w. dget (ms_reservations s) rid = Some w \<and>
             rs_proposal_id w = rs_proposal_id v))"
    proof (elim disjE exE conjE)
      fix rid v
      assume v: "rec_reservation_id r0 = Some rid" "dget (ms_reservations s) rid = Some v"
        "ms_reservations s' = dset rid (retire target v) (ms_reservations s)" "\<not> rs_settled v"
      then have "rs_amount v = pr_amount (rec_proposal r0)" using linked by (auto simp: linked_def)
      with v show ?thesis
        unfolding memory_spend_def sum_filter_if v(3) sum_dvalues_replace [OF wf v(2)] by (auto split: if_splits)
    qed (auto simp: memory_spend_def)
    then have "memory_ok s'"
      using assms(1) ok' 1(1,4) keep by (fastforce simp: memory_ok_def split: if_splits)
    with spend show ?thesis
      using 1(1,2,4) st keep by (auto simp: memory_state_def memory_amount_def ms_get_def)
  qed
qed

interpretation memory: lifecycle_store memory_ok memory_state memory_amount memory_held memory_spend
  memory_reserve ms_transition memory_admits MemoryStateStore_init
proof unfold_locales
  fix s e p policy r s'
  assume "memory_reserve e p policy s = Inr ((r, False), s')"
  then show "s' = s" by (cases rule: ms_reserve_cases) auto
next
  show "memory_ok MemoryStateStore_init \<and> (\<forall>p. memory_state p MemoryStateStore_init = None) \<and>
      memory_spend MemoryStateStore_init = 0"
    using store_ok_init
    by (simp add: memory_ok_def memory_state_def memory_spend_def ms_get_def MemoryStateStore_init_def dvalues_def)
qed (fact memory_reserve_law memory_transition_law memory_held_iff)+

end
