(* ===== verification/PolicyVersions.thy ===== *)
theory PolicyVersions
  imports Contracts
begin

text \<open>
  The workflow of policy versions: \<open>PolicyRegistry\<close> of \<open>src/aegisledger/policies.py\<close> and
  \<open>PostgresPolicyStore\<close> of \<open>postgres.py\<close>, the latter on the tables of migration
  \<open>0001_core.py\<close>. A transaction that raises is rolled back: the definition returns the
  exception and no state. The identifier from \<open>uuid7()\<close> and the time are arguments.

  The locale \<open>policy_store\<close> is the contract of the \<open>PolicyStore\<close> protocol: two distinct
  approvals before activation, at most one active version. Both stores interpret it.
\<close>

section \<open>The in-memory registry\<close>

datatype PolicyStatus = DRAFT | APPROVED | ACTIVE | RETIRED

record PolicyVersion =
  pv_version_id :: uuid
  pv_policy :: PolicyV1
  pv_policy_hash :: string
  pv_status :: PolicyStatus
  pv_created_by :: string
  pv_created_at :: time
  pv_approvals :: "string list"
  pv_activated_at :: "time option"
  pv_activated_by :: "string option"

record PolicyRegistry =
  pg_versions :: "(uuid, PolicyVersion) dict"
  pg_active_id :: "uuid option"

definition PolicyRegistry_init :: PolicyRegistry where
  "PolicyRegistry_init = \<lparr>pg_versions = [], pg_active_id = None\<rparr>"

definition pg_create ::
  "primitives \<Rightarrow> uuid \<Rightarrow> time \<Rightarrow> PolicyV1 \<Rightarrow> string \<Rightarrow> PolicyRegistry \<Rightarrow> (PolicyVersion \<times> PolicyRegistry) res" where
  "pg_create P version_id now policy created_by s =
     rbind (policy_hash P policy) (\<lambda>h.
     let version = \<lparr>pv_version_id = version_id, pv_policy = policy, pv_policy_hash = h, pv_status = DRAFT,
       pv_created_by = created_by, pv_created_at = now, pv_approvals = [], pv_activated_at = None,
       pv_activated_by = None\<rparr>
     in Inr (version, s\<lparr>pg_versions := dset version_id version (pg_versions s)\<rparr>))"

definition pg_get :: "uuid \<Rightarrow> PolicyRegistry \<Rightarrow> PolicyVersion res" where
  "pg_get version_id s =
     of_option (KeyError (''unknown policy version '' @ uuid_str version_id)) (dget (pg_versions s) version_id)"

definition pg_approve :: "uuid \<Rightarrow> string \<Rightarrow> PolicyRegistry \<Rightarrow> (PolicyVersion \<times> PolicyRegistry) res" where
  "pg_approve version_id administrator_id s =
     rbind (pg_get version_id s) (\<lambda>version.
     if pv_status version \<in> {ACTIVE, RETIRED}
     then Inl (ValueError ''active or retired policies are immutable'')
     else
       let approvals = List.insert administrator_id (pv_approvals version);
           version = version\<lparr>pv_approvals := approvals,
             pv_status := (if length approvals \<ge> 2 then APPROVED else pv_status version)\<rparr>
       in Inr (version, s\<lparr>pg_versions := dset version_id version (pg_versions s)\<rparr>))"

text \<open>Retiring the version that was active, before the new one is marked.\<close>

definition pg_retire :: "uuid \<Rightarrow> PolicyRegistry \<Rightarrow> PolicyRegistry res" where
  "pg_retire version_id s =
     (case pg_active_id s of
        None \<Rightarrow> Inr s
      | Some active_id \<Rightarrow>
          if active_id = version_id then Inr s
          else rbind (of_option (KeyError (uuid_str active_id)) (dget (pg_versions s) active_id)) (\<lambda>old.
            Inr (s\<lparr>pg_versions := dset active_id (old\<lparr>pv_status := RETIRED\<rparr>) (pg_versions s)\<rparr>)))"

definition pg_activate ::
  "time \<Rightarrow> uuid \<Rightarrow> string \<Rightarrow> PolicyRegistry \<Rightarrow> (PolicyVersion \<times> PolicyRegistry) res" where
  "pg_activate now version_id activated_by s =
     rbind (pg_get version_id s) (\<lambda>version.
     if length (pv_approvals version) < 2
     then Inl (PermissionError ''policy activation requires two distinct administrator approvals'')
     else rbind (pg_retire version_id s) (\<lambda>s.
       let version = version\<lparr>pv_status := ACTIVE, pv_activated_at := Some now,
             pv_activated_by := Some activated_by\<rparr>
       in Inr (version, s\<lparr>pg_versions := dset version_id version (pg_versions s),
            pg_active_id := Some version_id\<rparr>)))"

definition pg_active :: "PolicyRegistry \<Rightarrow> PolicyVersion res" where
  "pg_active s =
     (case pg_active_id s of
        None \<Rightarrow> Inl (LookupError ''no active policy'')
      | Some active_id \<Rightarrow> of_option (KeyError (uuid_str active_id)) (dget (pg_versions s) active_id))"

definition pg_list :: "PolicyRegistry \<Rightarrow> PolicyVersion list" where
  "pg_list s = sort_key pv_created_at (dvalues (pg_versions s))"

section \<open>The PostgreSQL store\<close>

record policy_versions_row =
  pw_id :: uuid
  pw_policy_hash :: string
  pw_document :: PolicyV1
  pw_status :: PolicyStatus
  pw_created_by :: string
  pw_created_at :: time
  pw_activated_at :: "time option"
  pw_activated_by :: "string option"

record policy_tables =
  policy_versions :: "policy_versions_row list"
  policy_approvals :: "(uuid \<times> string) list"

definition pp_approvals :: "uuid \<Rightarrow> policy_tables \<Rightarrow> string list" where
  "pp_approvals version_id db = map snd (filter (\<lambda>a. fst a = version_id) (policy_approvals db))"

definition pp_row :: "uuid \<Rightarrow> policy_tables \<Rightarrow> policy_versions_row option" where
  "pp_row version_id db = find (\<lambda>row. pw_id row = version_id) (policy_versions db)"

text \<open>The document is validated again when it is read.\<close>

definition pp_get_opt :: "uuid \<Rightarrow> policy_tables \<Rightarrow> PolicyVersion option res" where
  "pp_get_opt version_id db =
     (case pp_row version_id db of
        None \<Rightarrow> Inr None
      | Some row \<Rightarrow>
          rbind (make_PolicyV1 (pw_document row)) (\<lambda>policy.
          Inr (Some \<lparr>pv_version_id = pw_id row, pv_policy = policy, pv_policy_hash = pw_policy_hash row,
            pv_status = pw_status row, pv_created_by = pw_created_by row, pv_created_at = pw_created_at row,
            pv_approvals = sort (pp_approvals version_id db), pv_activated_at = pw_activated_at row,
            pv_activated_by = pw_activated_by row\<rparr>)))"

definition pp_get :: "uuid \<Rightarrow> policy_tables \<Rightarrow> PolicyVersion res" where
  "pp_get version_id db =
     rbind (pp_get_opt version_id db)
       (of_option (KeyError (''unknown policy version '' @ uuid_str version_id)))"

text \<open>\<open>version = self._get(\<dots>)\<close> followed by \<open>assert version is not None\<close>.\<close>

definition pp_reread :: "uuid \<Rightarrow> policy_tables \<Rightarrow> (PolicyVersion \<times> policy_tables) res" where
  "pp_reread version_id db =
     rbind (pp_get_opt version_id db) (\<lambda>version.
     rbind (of_option AssertionError version) (\<lambda>version. Inr (version, db)))"

definition pp_create ::
  "primitives \<Rightarrow> uuid \<Rightarrow> time \<Rightarrow> PolicyV1 \<Rightarrow> string \<Rightarrow> policy_tables \<Rightarrow> (PolicyVersion \<times> policy_tables) res" where
  "pp_create P version_id now policy created_by db =
     rbind (policy_hash P policy) (\<lambda>h.
     if list_ex (\<lambda>row. pw_id row = version_id \<or> pw_policy_hash row = h) (policy_versions db)
     then Inl (UniqueViolation ''policy_versions'')
     else pp_reread version_id (db\<lparr>policy_versions := policy_versions db @
       [\<lparr>pw_id = version_id, pw_policy_hash = h, pw_document = policy, pw_status = DRAFT,
         pw_created_by = created_by, pw_created_at = now, pw_activated_at = None,
         pw_activated_by = None\<rparr>]\<rparr>))"

definition pp_approve :: "uuid \<Rightarrow> string \<Rightarrow> policy_tables \<Rightarrow> (PolicyVersion \<times> policy_tables) res" where
  "pp_approve version_id administrator_id db =
     rbind (pp_get version_id db) (\<lambda>version.
     if pv_status version \<in> {ACTIVE, RETIRED}
     then Inl (ValueError ''active or retired policies are immutable'')
     else
       let db = db\<lparr>policy_approvals := List.insert (version_id, administrator_id) (policy_approvals db)\<rparr>;
           db = (if length (pp_approvals version_id db) \<ge> 2
                 then db\<lparr>policy_versions := update_where (\<lambda>row. pw_id row = version_id)
                   (\<lambda>row. row\<lparr>pw_status := APPROVED\<rparr>) (policy_versions db)\<rparr>
                 else db)
       in pp_reread version_id db)"

definition pp_activate ::
  "time \<Rightarrow> uuid \<Rightarrow> string \<Rightarrow> policy_tables \<Rightarrow> (PolicyVersion \<times> policy_tables) res" where
  "pp_activate now version_id activated_by db =
     rbind (pp_get version_id db) (\<lambda>version.
     if length (pp_approvals version_id db) < 2
     then Inl (PermissionError ''policy activation requires two distinct administrator approvals'')
     else
       let rows = update_where (\<lambda>row. pw_status row = ACTIVE \<and> pw_id row \<noteq> version_id)
             (\<lambda>row. row\<lparr>pw_status := RETIRED\<rparr>) (policy_versions db);
           rows = update_where (\<lambda>row. pw_id row = version_id)
             (\<lambda>row. row\<lparr>pw_status := ACTIVE, pw_activated_at := Some now,
                pw_activated_by := Some activated_by\<rparr>) rows
       in pp_reread version_id (db\<lparr>policy_versions := rows\<rparr>))"

definition pp_active :: "policy_tables \<Rightarrow> PolicyVersion res" where
  "pp_active db =
     (case find (\<lambda>row. pw_status row = ACTIVE) (policy_versions db) of
        None \<Rightarrow> Inl (LookupError ''no active policy'')
      | Some row \<Rightarrow> rbind (pp_get_opt (pw_id row) db) (of_option AssertionError))"

definition pp_list :: "policy_tables \<Rightarrow> PolicyVersion list res" where
  "pp_list db =
     foldr (\<lambda>row acc. rbind (pp_get_opt (pw_id row) db) (\<lambda>v. rbind acc (\<lambda>vs.
       Inr ((case v of None \<Rightarrow> [] | Some version \<Rightarrow> [version]) @ vs))))
       (sort_key pw_created_at (policy_versions db)) (Inr [])"

section \<open>The contract\<close>

text \<open>The states a store reaches: created versions carry validated policies and new identifiers.\<close>

inductive policy_reachable ::
  "(primitives \<Rightarrow> uuid \<Rightarrow> time \<Rightarrow> PolicyV1 \<Rightarrow> string \<Rightarrow> 's \<Rightarrow> (PolicyVersion \<times> 's) res) \<Rightarrow>
   (uuid \<Rightarrow> string \<Rightarrow> 's \<Rightarrow> (PolicyVersion \<times> 's) res) \<Rightarrow>
   (time \<Rightarrow> uuid \<Rightarrow> string \<Rightarrow> 's \<Rightarrow> (PolicyVersion \<times> 's) res) \<Rightarrow>
   (uuid \<Rightarrow> 's \<Rightarrow> PolicyVersion res) \<Rightarrow> 's \<Rightarrow> 's \<Rightarrow> bool"
  for create approve activate get init
where
  initially: "policy_reachable create approve activate get init init"
| created: "policy_reachable create approve activate get init s \<Longrightarrow> make_PolicyV1 policy = Inr policy \<Longrightarrow>
    get vid s \<notin> range Inr \<Longrightarrow> create P vid now policy who s = Inr (v, s') \<Longrightarrow>
    policy_reachable create approve activate get init s'"
| approved: "policy_reachable create approve activate get init s \<Longrightarrow> approve vid admin s = Inr (v, s') \<Longrightarrow>
    policy_reachable create approve activate get init s'"
| activated: "policy_reachable create approve activate get init s \<Longrightarrow> activate now vid who s = Inr (v, s') \<Longrightarrow>
    policy_reachable create approve activate get init s'"

locale policy_store =
  fixes invar :: "'s \<Rightarrow> bool"
    and create :: "primitives \<Rightarrow> uuid \<Rightarrow> time \<Rightarrow> PolicyV1 \<Rightarrow> string \<Rightarrow> 's \<Rightarrow> (PolicyVersion \<times> 's) res"
    and approve :: "uuid \<Rightarrow> string \<Rightarrow> 's \<Rightarrow> (PolicyVersion \<times> 's) res"
    and activate :: "time \<Rightarrow> uuid \<Rightarrow> string \<Rightarrow> 's \<Rightarrow> (PolicyVersion \<times> 's) res"
    and get :: "uuid \<Rightarrow> 's \<Rightarrow> PolicyVersion res"
    and active :: "'s \<Rightarrow> PolicyVersion res"
  assumes create_contract: "invar s \<Longrightarrow> make_PolicyV1 policy = Inr policy \<Longrightarrow> get vid s \<notin> range Inr \<Longrightarrow>
      create P vid now policy by_whom s = Inr (v, s') \<Longrightarrow>
      invar s' \<and> get vid s' = Inr v \<and> pv_policy v = policy \<and> pv_status v = DRAFT \<and> set (pv_approvals v) = {}"
    and unknown: "invar s \<Longrightarrow> get vid s = Inl e \<Longrightarrow>
      approve vid admin s = Inl e \<and> activate now vid by_whom s = Inl e"
    and approve_contract: "invar s \<Longrightarrow> get vid s = Inr v \<Longrightarrow> pv_status v \<notin> {ACTIVE, RETIRED} \<Longrightarrow>
      \<exists>v' s'. approve vid admin s = Inr (v', s') \<and> invar s' \<and> get vid s' = Inr v' \<and>
        pv_policy v' = pv_policy v \<and> pv_status v' \<notin> {ACTIVE, RETIRED} \<and>
        set (pv_approvals v') = insert admin (set (pv_approvals v))"
    and immutable: "invar s \<Longrightarrow> get vid s = Inr v \<Longrightarrow> pv_status v \<in> {ACTIVE, RETIRED} \<Longrightarrow>
      approve vid admin s = Inl (ValueError ''active or retired policies are immutable'')"
    and activate_contract: "invar s \<Longrightarrow> get vid s = Inr v \<Longrightarrow> 2 \<le> card (set (pv_approvals v)) \<Longrightarrow>
      \<exists>v' s'. activate now vid by_whom s = Inr (v', s') \<and> invar s' \<and> active s' = Inr v' \<and>
        pv_version_id v' = vid \<and> pv_policy v' = pv_policy v"
    and activate_refused: "invar s \<Longrightarrow> get vid s = Inr v \<Longrightarrow> card (set (pv_approvals v)) < 2 \<Longrightarrow>
      activate now vid by_whom s =
        Inl (PermissionError ''policy activation requires two distinct administrator approvals'')"
    and active_approved: "invar s \<Longrightarrow> active s = Inr v \<Longrightarrow> pv_status v = ACTIVE \<and> 2 \<le> card (set (pv_approvals v))"
    and active_unique: "invar s \<Longrightarrow> active s = Inr v \<Longrightarrow> get vid s = Inr u \<Longrightarrow> pv_status u = ACTIVE \<Longrightarrow> u = v"
begin

lemma approve_keeps: "invar s \<Longrightarrow> approve vid admin s = Inr (v, s') \<Longrightarrow> invar s'"
  using unknown [of s vid _ admin] immutable [of s vid _ admin] approve_contract [of s vid _ admin]
  by (cases "get vid s") (fastforce)+

lemma activate_keeps: "invar s \<Longrightarrow> activate now vid who s = Inr (v, s') \<Longrightarrow> invar s'"
  using unknown [of s vid _ _ now who] activate_refused [of s vid _ now who] activate_contract [of s vid _ now who]
  by (cases "get vid s") (fastforce simp: not_less)+

lemma reachable_invar:
  "policy_reachable create approve activate get init s \<Longrightarrow> invar init \<Longrightarrow> invar s"
proof (induction rule: policy_reachable.induct)
  case (created s policy vid P now who v s')
  then show ?case using create_contract by blast
qed (auto intro: approve_keeps activate_keeps)

lemma two_person_rule:
  assumes "policy_reachable create approve activate get init s" "invar init" "active s = Inr v"
  shows "\<exists>a b. a \<noteq> b \<and> a \<in> set (pv_approvals v) \<and> b \<in> set (pv_approvals v)"
proof -
  have "2 \<le> card (set (pv_approvals v))"
    using active_approved [OF reachable_invar [OF assms(1,2)] assms(3)] by simp
  then have "\<not> card (set (pv_approvals v)) \<le> Suc 0" by simp
  then show ?thesis unfolding card_le_Suc0_iff_eq [OF finite_set] by blast
qed

text \<open>The workflow of a new version: one approval is refused, two by different
  administrators activate it.\<close>

lemma workflow:
  assumes "invar s" "make_PolicyV1 policy = Inr policy" "get vid s \<notin> range Inr" "a \<noteq> b"
    and "create P vid now policy by_whom s = Inr (v, s1)"
  shows "\<exists>v2 s2 v3 s3 v4 s4. approve vid a s1 = Inr (v2, s2) \<and>
     activate t vid who s2 = Inl (PermissionError ''policy activation requires two distinct administrator approvals'') \<and>
     approve vid b s2 = Inr (v3, s3) \<and> activate t vid who s3 = Inr (v4, s4) \<and>
     active s4 = Inr v4 \<and> pv_policy v4 = policy"
proof -
  from create_contract [OF assms(1-3) assms(5)]
  have 1: "invar s1" "get vid s1 = Inr v" "pv_policy v = policy" "pv_status v = DRAFT" "set (pv_approvals v) = {}"
    by auto
  from approve_contract [OF 1(1,2), of a] 1(4) obtain v2 s2 where
    2: "approve vid a s1 = Inr (v2, s2)" "invar s2" "get vid s2 = Inr v2" "pv_policy v2 = policy"
      "pv_status v2 \<notin> {ACTIVE, RETIRED}" "set (pv_approvals v2) = {a}"
    using 1(3,5) by auto
  from approve_contract [OF 2(2,3,5), of b] obtain v3 s3 where
    3: "approve vid b s2 = Inr (v3, s3)" "invar s3" "get vid s3 = Inr v3" "pv_policy v3 = policy"
      "set (pv_approvals v3) = {a, b}"
    using 2(4,6) by (auto simp: insert_commute)
  have "2 \<le> card (set (pv_approvals v3))" using 3(5) assms(4) by simp
  from activate_contract [OF 3(2,3) this, of t who] obtain v4 s4 where
    "activate t vid who s3 = Inr (v4, s4)" "active s4 = Inr v4" "pv_policy v4 = policy"
    using 3(4) by auto
  moreover have "activate t vid who s2 =
      Inl (PermissionError ''policy activation requires two distinct administrator approvals'')"
    using 2(6) by (intro activate_refused [OF 2(2,3)]) simp
  ultimately show ?thesis using 2(1) 3(1) by blast
qed

end

section \<open>The registry keeps the contract\<close>

definition registry_ok :: "PolicyRegistry \<Rightarrow> bool" where
  "registry_ok s \<longleftrightarrow>
     (\<forall>vid v. dget (pg_versions s) vid = Some v \<longrightarrow> pv_version_id v = vid \<and> distinct (pv_approvals v) \<and>
        (pv_status v = ACTIVE \<longleftrightarrow> pg_active_id s = Some vid) \<and>
        (pv_status v = ACTIVE \<longrightarrow> 2 \<le> length (pv_approvals v))) \<and>
     (\<forall>vid. pg_active_id s = Some vid \<longrightarrow> dhas (pg_versions s) vid)"

lemma registry_ok_init: "registry_ok PolicyRegistry_init"
  by (simp add: registry_ok_def PolicyRegistry_init_def)

lemma pg_get_Inr [simp]: "pg_get vid s = Inr v \<longleftrightarrow> dget (pg_versions s) vid = Some v"
  by (simp add: pg_get_def)

lemma pg_get_not_Inr: "pg_get vid s \<notin> range Inr \<longleftrightarrow> dget (pg_versions s) vid = None"
  by (cases "dget (pg_versions s) vid") (auto simp: pg_get_def)

lemma pg_active_Inr:
  "pg_active s = Inr v \<longleftrightarrow> (\<exists>vid. pg_active_id s = Some vid \<and> dget (pg_versions s) vid = Some v)"
  by (auto simp: pg_active_def split: option.splits)

lemma registry_approve:
  assumes "registry_ok s" "dget (pg_versions s) vid = Some v" "pv_status v \<notin> {ACTIVE, RETIRED}"
  shows "\<exists>v' s'. pg_approve vid admin s = Inr (v', s') \<and> registry_ok s' \<and> dget (pg_versions s') vid = Some v' \<and>
    pv_policy v' = pv_policy v \<and> pv_status v' \<notin> {ACTIVE, RETIRED} \<and>
    set (pv_approvals v') = insert admin (set (pv_approvals v))"
  using assms by (auto simp: pg_approve_def pg_get_def Let_def registry_ok_def)

lemma registry_activate:
  assumes ok: "registry_ok s" and v: "dget (pg_versions s) vid = Some v" and two: "2 \<le> card (set (pv_approvals v))"
  shows "\<exists>v' s'. pg_activate now vid who s = Inr (v', s') \<and> registry_ok s' \<and> pg_active s' = Inr v' \<and>
    pv_version_id v' = vid \<and> pv_policy v' = pv_policy v"
proof -
  have len: "2 \<le> length (pv_approvals v)" using two card_length [of "pv_approvals v"] by linarith
  show ?thesis
  proof (cases "pg_active_id s = None \<or> pg_active_id s = Some vid")
    case True
    then have "pg_retire vid s = Inr s" by (auto simp: pg_retire_def)
    with ok v len True show ?thesis
      by (auto simp: pg_activate_def pg_get_def Let_def pg_active_def registry_ok_def)
  next
    case False
    then obtain aid where aid: "pg_active_id s = Some aid" "aid \<noteq> vid" by auto
    with ok obtain old where old: "dget (pg_versions s) aid = Some old" by (auto simp: registry_ok_def dhas_def)
    have "pg_retire vid s = Inr (s\<lparr>pg_versions := dset aid (old\<lparr>pv_status := RETIRED\<rparr>) (pg_versions s)\<rparr>)"
      using aid old by (simp add: pg_retire_def)
    with ok v len aid old show ?thesis
      by (auto simp: pg_activate_def pg_get_def Let_def pg_active_def registry_ok_def)
  qed
qed

interpretation registry: policy_store registry_ok pg_create pg_approve pg_activate pg_get pg_active
proof unfold_locales
  fix s policy vid P now by_whom v s'
  assume "registry_ok s" "pg_get vid s \<notin> range Inr" "pg_create P vid now policy by_whom s = Inr (v, s')"
  then show "registry_ok s' \<and> pg_get vid s' = Inr v \<and> pv_policy v = policy \<and> pv_status v = DRAFT \<and>
      set (pv_approvals v) = {}"
    unfolding pg_get_not_Inr
    by (auto simp: pg_create_def rbind_Inr_iff Let_def registry_ok_def dhas_def split: if_splits)
next
  fix s vid v admin
  assume "registry_ok s" "pg_get vid s = Inr v" "pv_status v \<notin> {ACTIVE, RETIRED}"
  with registry_approve show "\<exists>v' s'. pg_approve vid admin s = Inr (v', s') \<and> registry_ok s' \<and> pg_get vid s' = Inr v' \<and>
      pv_policy v' = pv_policy v \<and> pv_status v' \<notin> {ACTIVE, RETIRED} \<and>
      set (pv_approvals v') = insert admin (set (pv_approvals v))"
    by simp
next
  fix s vid v now by_whom
  assume "registry_ok s" "pg_get vid s = Inr v" "card (set (pv_approvals v)) < 2"
  then show "pg_activate now vid by_whom s =
      Inl (PermissionError ''policy activation requires two distinct administrator approvals'')"
    by (auto simp: pg_activate_def pg_get_def registry_ok_def distinct_card)
next
  fix s v
  assume "registry_ok s" "pg_active s = Inr v"
  then show "pv_status v = ACTIVE \<and> 2 \<le> card (set (pv_approvals v))"
    by (auto simp: pg_active_Inr registry_ok_def distinct_card)
next
  fix s v vid u
  assume "registry_ok s" "pg_active s = Inr v" "pg_get vid s = Inr u" "pv_status u = ACTIVE"
  then show "u = v" by (auto simp: pg_active_Inr registry_ok_def)
next
  fix s vid v admin
  assume "registry_ok s" "pg_get vid s = Inr v" "pv_status v \<in> {ACTIVE, RETIRED}"
  then show "pg_approve vid admin s = Inl (ValueError ''active or retired policies are immutable'')"
    by (auto simp: pg_approve_def pg_get_def)
next
  fix s vid e admin now by_whom
  assume "pg_get vid s = Inl e"
  then show "pg_approve vid admin s = Inl e \<and> pg_activate now vid by_whom s = Inl e"
    by (simp add: pg_approve_def pg_activate_def)
qed (simp add: registry_activate)

section \<open>The tables keep the contract\<close>

definition policy_tables_ok :: "policy_tables \<Rightarrow> bool" where
  "policy_tables_ok db \<longleftrightarrow> distinct (map pw_id (policy_versions db)) \<and> distinct (policy_approvals db) \<and>
     (\<forall>a \<in> set (policy_approvals db). fst a \<in> pw_id ` set (policy_versions db)) \<and>
     (\<forall>row \<in> set (policy_versions db). make_PolicyV1 (pw_document row) = Inr (pw_document row) \<and>
        (pw_status row = ACTIVE \<longrightarrow> 2 \<le> length (pp_approvals (pw_id row) db))) \<and>
     (\<forall>row \<in> set (policy_versions db). \<forall>row' \<in> set (policy_versions db).
        pw_status row = ACTIVE \<longrightarrow> pw_status row' = ACTIVE \<longrightarrow> row = row')"

definition to_version :: "policy_tables \<Rightarrow> policy_versions_row \<Rightarrow> PolicyVersion" where
  "to_version db row = \<lparr>pv_version_id = pw_id row, pv_policy = pw_document row, pv_policy_hash = pw_policy_hash row,
     pv_status = pw_status row, pv_created_by = pw_created_by row, pv_created_at = pw_created_at row,
     pv_approvals = sort (pp_approvals (pw_id row) db), pv_activated_at = pw_activated_at row,
     pv_activated_by = pw_activated_by row\<rparr>"

lemma pp_get_opt_Some:
  assumes "policy_tables_ok db" "row \<in> set (policy_versions db)" "pw_id row = vid"
  shows "pp_get_opt vid db = Inr (Some (to_version db row))"
  using assms find_unique [of pw_id "policy_versions db" vid row]
  by (simp add: policy_tables_ok_def pp_get_opt_def pp_row_def to_version_def)

lemma pp_get_Inr:
  assumes "policy_tables_ok db"
  shows "pp_get vid db = Inr v \<longleftrightarrow> (\<exists>row \<in> set (policy_versions db). pw_id row = vid \<and> v = to_version db row)"
proof (cases "pp_row vid db")
  case None
  then have "pw_id row \<noteq> vid" if "row \<in> set (policy_versions db)" for row
    using that by (auto simp: pp_row_def find_None_iff)
  with None show ?thesis by (auto simp: pp_get_def pp_get_opt_def)
next
  case (Some row)
  then have row: "row \<in> set (policy_versions db)" "pw_id row = vid"
    using assms by (auto simp: pp_row_def find_unique policy_tables_ok_def)
  have one: "r = row" if "r \<in> set (policy_versions db)" "pw_id r = vid" for r
    using that row assms by (auto simp: policy_tables_ok_def inj_on_def distinct_map)
  have "pp_get vid db = Inr (to_version db row)"
    using pp_get_opt_Some [OF assms row] by (simp add: pp_get_def)
  then show ?thesis using row one by (metis sum.inject(2))
qed

lemma pp_reread_eq:
  assumes "policy_tables_ok db" "row \<in> set (policy_versions db)" "pw_id row = vid"
  shows "pp_reread vid db = Inr (to_version db row, db)"
  using pp_get_opt_Some [OF assms] by (simp add: pp_reread_def)

lemma distinct_pp_approvals: "distinct (policy_approvals db) \<Longrightarrow> distinct (pp_approvals vid db)"
  unfolding pp_approvals_def distinct_map by (auto simp: inj_on_def)

lemma to_version_approvals:
  "policy_tables_ok db \<Longrightarrow> card (set (pv_approvals (to_version db row))) = length (pp_approvals (pw_id row) db)"
  using distinct_pp_approvals distinct_card by (fastforce simp: to_version_def policy_tables_ok_def)

lemma update_where_ids: "(\<And>row. pw_id (f row) = pw_id row) \<Longrightarrow> map pw_id (update_where Q f rows) = map pw_id rows"
  by (simp add: update_where_def)

lemma pp_approvals_update [simp]: "pp_approvals vid (db\<lparr>policy_versions := rows\<rparr>) = pp_approvals vid db"
  by (simp add: pp_approvals_def)

lemma pp_approvals_insert:
  "set (pp_approvals vid (db\<lparr>policy_approvals := List.insert (v, a) (policy_approvals db)\<rparr>)) =
     (if v = vid then insert a (set (pp_approvals vid db)) else set (pp_approvals vid db))"
  by (auto simp: pp_approvals_def image_iff)

lemma length_pp_approvals_insert:
  assumes "distinct (policy_approvals db)"
  shows "length (pp_approvals vid db) \<le>
    length (pp_approvals vid (db\<lparr>policy_approvals := List.insert x (policy_approvals db)\<rparr>))"
  by (auto simp: pp_approvals_def List.insert_def)

lemma tables_approve:
  assumes ok: "policy_tables_ok db" and row: "row \<in> set (policy_versions db)" "pw_id row = vid"
    and st: "pw_status row \<notin> {ACTIVE, RETIRED}"
  shows "\<exists>db' row'. pp_approve vid admin db = Inr (to_version db' row', db') \<and> policy_tables_ok db' \<and>
    row' \<in> set (policy_versions db') \<and> pw_id row' = vid \<and> pw_document row' = pw_document row \<and>
    pw_status row' \<notin> {ACTIVE, RETIRED} \<and>
    set (pp_approvals vid db') = insert admin (set (pp_approvals vid db))"
proof -
  define db1 where "db1 = db\<lparr>policy_approvals := List.insert (vid, admin) (policy_approvals db)\<rparr>"
  define f where "f = (\<lambda>r :: policy_versions_row. if length (pp_approvals vid db1) \<ge> 2 \<and> pw_id r = vid then r\<lparr>pw_status := APPROVED\<rparr> else r)"
  define db' where "db' = db1\<lparr>policy_versions := map f (policy_versions db)\<rparr>"
  have f: "pw_id (f r) = pw_id r" "pw_document (f r) = pw_document r"
    "pw_status (f r) = ACTIVE \<Longrightarrow> f r = r" for r
    by (auto simp: f_def)
  have len: "length (pp_approvals i db) \<le> length (pp_approvals i db')" for i
    using ok length_pp_approvals_insert by (auto simp: db'_def db1_def policy_tables_ok_def)
  have same: "db' = (if length (pp_approvals vid db1) \<ge> 2
      then db1\<lparr>policy_versions := update_where (\<lambda>row. pw_id row = vid) (\<lambda>row. row\<lparr>pw_status := APPROVED\<rparr>)
        (policy_versions db1)\<rparr> else db1)"
    by (auto simp: db'_def f_def update_where_def db1_def)
  have ids: "map pw_id (policy_versions db') = map pw_id (policy_versions db)"
    by (simp add: db'_def f(1) comp_def)
  have "policy_tables_ok db'"
    unfolding policy_tables_ok_def ids
  proof (intro conjI ballI impI)
    show "distinct (map pw_id (policy_versions db))" "distinct (policy_approvals db')"
      using ok by (simp_all add: policy_tables_ok_def db'_def db1_def)
    show "fst a \<in> pw_id ` set (policy_versions db')" if "a \<in> set (policy_approvals db')" for a
    proof -
      have "set (map pw_id (policy_versions db')) = set (map pw_id (policy_versions db))" by (simp only: ids)
      moreover have "a = (vid, admin) \<or> a \<in> set (policy_approvals db)"
        using that by (simp add: db'_def db1_def)
      ultimately show ?thesis using ok row by (auto simp: policy_tables_ok_def)
    qed
    fix r assume r: "r \<in> set (policy_versions db')"
    then obtain r0 where r0: "r0 \<in> set (policy_versions db)" "r = f r0" by (auto simp: db'_def)
    show "make_PolicyV1 (pw_document r) = Inr (pw_document r)"
      using ok r0 by (simp add: policy_tables_ok_def f(2))
    show "2 \<le> length (pp_approvals (pw_id r) db')" if act: "pw_status r = ACTIVE"
    proof -
      have "r = r0" using f(3) [of r0] act r0(2) by simp
      then have "2 \<le> length (pp_approvals (pw_id r) db)" using ok act r0(1) by (simp add: policy_tables_ok_def)
      then show ?thesis using len order_trans by blast
    qed
    fix r' assume r': "r' \<in> set (policy_versions db')" and act: "pw_status r = ACTIVE" "pw_status r' = ACTIVE"
    then obtain r1 where r1: "r1 \<in> set (policy_versions db)" "r' = f r1" by (auto simp: db'_def)
    have "r = r0" "r' = r1" using f(3) [of r0] f(3) [of r1] act r0(2) r1(2) by simp_all
    then show "r = r'" using ok r0(1) r1(1) act by (simp add: policy_tables_ok_def)
  qed
  moreover have "f row \<in> set (policy_versions db')" using row by (simp add: db'_def)
  moreover have "pp_approve vid admin db = pp_reread vid db'"
  proof -
    have "pp_get vid db = Inr (to_version db row)" using pp_get_Inr [OF ok] row by blast
    moreover have "pv_status (to_version db row) \<notin> {ACTIVE, RETIRED}" using st by (simp add: to_version_def)
    ultimately show ?thesis by (simp only: pp_approve_def rbind_simps if_False Let_def same db1_def)
  qed
  moreover have "set (pp_approvals vid db') = insert admin (set (pp_approvals vid db))"
    by (simp add: db'_def db1_def pp_approvals_insert)
  moreover have "pw_status (f row) \<notin> {ACTIVE, RETIRED}" using st by (auto simp: f_def)
  ultimately show ?thesis
    using pp_reread_eq [of db' "f row" vid] f(1,2) [of row] row(2) by auto
qed

lemma pp_active_Inr:
  assumes ok: "policy_tables_ok db"
  shows "pp_active db = Inr v \<longleftrightarrow> (\<exists>row \<in> set (policy_versions db). pw_status row = ACTIVE \<and> v = to_version db row)"
proof (cases "find (\<lambda>row. pw_status row = ACTIVE) (policy_versions db)")
  case None
  then have "pp_active db = Inl (LookupError ''no active policy'')" by (simp add: pp_active_def)
  with None show ?thesis by (auto simp: find_None_iff)
next
  case (Some row)
  then have row: "row \<in> set (policy_versions db)" "pw_status row = ACTIVE" by (auto simp: find_Some_iff)
  have one: "r = row" if "r \<in> set (policy_versions db)" "pw_status r = ACTIVE" for r
    using that row ok by (simp add: policy_tables_ok_def)
  have "pp_active db = Inr (to_version db row)"
    using Some pp_get_opt_Some [OF ok row(1) refl] by (simp add: pp_active_def)
  then show ?thesis using row one by (metis sum.inject(2))
qed

lemma tables_activate:
  assumes ok: "policy_tables_ok db" and row: "row \<in> set (policy_versions db)" "pw_id row = vid"
    and two: "2 \<le> length (pp_approvals vid db)"
  shows "\<exists>db' row'. pp_activate now vid who db = Inr (to_version db' row', db') \<and> policy_tables_ok db' \<and>
    row' \<in> set (policy_versions db') \<and> pw_id row' = vid \<and> pw_document row' = pw_document row \<and>
    pw_status row' = ACTIVE"
proof -
  define g where "g = (\<lambda>r :: policy_versions_row. if pw_id r = vid
     then r\<lparr>pw_status := ACTIVE, pw_activated_at := Some now, pw_activated_by := Some who\<rparr>
     else if pw_status r = ACTIVE then r\<lparr>pw_status := RETIRED\<rparr> else r)"
  define db' where "db' = db\<lparr>policy_versions := map g (policy_versions db)\<rparr>"
  have g: "pw_id (g r) = pw_id r" "pw_document (g r) = pw_document r"
    "pw_status (g r) = ACTIVE \<longleftrightarrow> pw_id r = vid" for r
    by (auto simp: g_def)
  have ids: "map pw_id (policy_versions db') = map pw_id (policy_versions db)"
    by (simp add: db'_def g(1) comp_def)
  have "policy_tables_ok db'"
    unfolding policy_tables_ok_def ids
  proof (intro conjI ballI impI)
    show "distinct (map pw_id (policy_versions db))" "distinct (policy_approvals db')"
      using ok by (simp_all add: policy_tables_ok_def db'_def)
    show "fst a \<in> pw_id ` set (policy_versions db')" if "a \<in> set (policy_approvals db')" for a
    proof -
      have "fst a \<in> set (map pw_id (policy_versions db'))"
        unfolding ids using ok that by (simp add: policy_tables_ok_def db'_def)
      then show ?thesis by simp
    qed
    fix r assume r: "r \<in> set (policy_versions db')"
    then obtain r0 where r0: "r0 \<in> set (policy_versions db)" "r = g r0" by (auto simp: db'_def)
    show "make_PolicyV1 (pw_document r) = Inr (pw_document r)"
      using ok r0 by (simp add: policy_tables_ok_def g(2))
    show "2 \<le> length (pp_approvals (pw_id r) db')" if "pw_status r = ACTIVE"
      using that two r0(2) by (simp add: g(1,3) db'_def)
    fix r' assume r': "r' \<in> set (policy_versions db')" and act: "pw_status r = ACTIVE" "pw_status r' = ACTIVE"
    then obtain r1 where r1: "r1 \<in> set (policy_versions db)" "r' = g r1" by (auto simp: db'_def)
    have "pw_id r0 = vid" "pw_id r1 = vid" using act r0(2) r1(2) by (simp_all add: g(3))
    then have "r0 = r1" using ok r0(1) r1(1) by (simp add: policy_tables_ok_def distinct_map inj_on_def)
    then show "r = r'" using r0(2) r1(2) by simp
  qed
  moreover have "g row \<in> set (policy_versions db')" using row by (simp add: db'_def)
  moreover have "pp_activate now vid who db = pp_reread vid db'"
  proof -
    have "pp_get vid db = Inr (to_version db row)" using pp_get_Inr [OF ok] row by blast
    moreover have "\<not> length (pp_approvals vid db) < 2" using two by simp
    moreover have "map g (policy_versions db) = update_where (\<lambda>row. pw_id row = vid)
        (\<lambda>row. row\<lparr>pw_status := ACTIVE, pw_activated_at := Some now, pw_activated_by := Some who\<rparr>)
        (update_where (\<lambda>row. pw_status row = ACTIVE \<and> pw_id row \<noteq> vid)
          (\<lambda>row. row\<lparr>pw_status := RETIRED\<rparr>) (policy_versions db))"
      by (simp add: update_where_def g_def)
    ultimately show ?thesis by (simp only: pp_activate_def rbind_simps if_False Let_def db'_def)
  qed
  ultimately show ?thesis
    using pp_reread_eq [of db' "g row" vid] g [of row] row(2) by auto
qed

lemma tables_create:
  assumes ok: "policy_tables_ok db" and valid: "make_PolicyV1 policy = Inr policy"
    and new: "vid \<notin> pw_id ` set (policy_versions db)"
    and eq: "pp_create P vid now policy who db = Inr (v, db')"
  shows "policy_tables_ok db' \<and> (\<exists>row \<in> set (policy_versions db'). pw_id row = vid \<and> v = to_version db' row \<and>
    pw_document row = policy \<and> pw_status row = DRAFT) \<and> pp_approvals vid db' = []"
proof -
  obtain h where h: "policy_hash P policy = Inr h" using eq by (auto simp: pp_create_def rbind_Inr_iff)
  define row where "row = \<lparr>pw_id = vid, pw_policy_hash = h, pw_document = policy, pw_status = DRAFT,
    pw_created_by = who, pw_created_at = now, pw_activated_at = None, pw_activated_by = None\<rparr>"
  define db1 where "db1 = db\<lparr>policy_versions := policy_versions db @ [row]\<rparr>"
  have row: "pw_id row = vid" "pw_document row = policy" "pw_status row = DRAFT" by (simp_all add: row_def)
  have ok1: "policy_tables_ok db1"
    using ok new valid row by (auto simp: policy_tables_ok_def db1_def)
  have "pp_reread vid db1 = Inr (v, db')"
    using eq unfolding pp_create_def h rbind_simps if_raise_iff row_def [symmetric] db1_def [symmetric] by simp
  then have "v = to_version db1 row" "db' = db1"
    using pp_reread_eq [OF ok1 _ row(1)] by (simp_all add: db1_def)
  moreover have "pp_approvals vid db1 = []"
    using ok new by (auto simp: pp_approvals_def policy_tables_ok_def db1_def filter_empty_conv)
  ultimately show ?thesis using ok1 row by (auto simp: db1_def)
qed

interpretation tables: policy_store policy_tables_ok pp_create pp_approve pp_activate pp_get pp_active
proof unfold_locales
  fix s policy vid P now by_whom v s'
  assume a: "policy_tables_ok s" "make_PolicyV1 policy = Inr policy" "pp_get vid s \<notin> range Inr"
    "pp_create P vid now policy by_whom s = Inr (v, s')"
  have "vid \<notin> pw_id ` set (policy_versions s)" using a(3) pp_get_Inr [OF a(1)] by (auto simp: image_iff)
  from tables_create [OF a(1,2) this a(4)] obtain row where
    row: "policy_tables_ok s'" "row \<in> set (policy_versions s')" "pw_id row = vid" "v = to_version s' row"
      "pw_document row = policy" "pw_status row = DRAFT" "pp_approvals vid s' = []" by blast
  have "pp_get vid s' = Inr v" using pp_get_Inr [OF row(1)] row(2-4) by blast
  then show "policy_tables_ok s' \<and> pp_get vid s' = Inr v \<and>
      pv_policy v = policy \<and> pv_status v = DRAFT \<and> set (pv_approvals v) = {}"
    using row by (simp add: to_version_def)
next
  fix s vid v admin
  assume a: "policy_tables_ok s" "pp_get vid s = Inr v" "pv_status v \<notin> {ACTIVE, RETIRED}"
  obtain row where row: "row \<in> set (policy_versions s)" "pw_id row = vid" "v = to_version s row"
    using a(1,2) pp_get_Inr by blast
  have "pw_status row \<notin> {ACTIVE, RETIRED}" using a(3) row(3) by (simp add: to_version_def)
  from tables_approve [OF a(1) row(1,2) this] obtain s' row' where
    new: "pp_approve vid admin s = Inr (to_version s' row', s')" "policy_tables_ok s'"
      "row' \<in> set (policy_versions s')" "pw_id row' = vid" "pw_document row' = pw_document row"
      "pw_status row' \<notin> {ACTIVE, RETIRED}" "set (pp_approvals vid s') = insert admin (set (pp_approvals vid s))"
    by blast
  have "pp_get vid s' = Inr (to_version s' row')" using pp_get_Inr [OF new(2)] new(3,4) by blast
  with new show "\<exists>v' s'. pp_approve vid admin s = Inr (v', s') \<and>
      policy_tables_ok s' \<and> pp_get vid s' = Inr v' \<and> pv_policy v' = pv_policy v \<and>
      pv_status v' \<notin> {ACTIVE, RETIRED} \<and> set (pv_approvals v') = insert admin (set (pv_approvals v))"
    using row(2,3) by (simp add: to_version_def)
next
  fix s vid v admin
  assume a: "policy_tables_ok s" "pp_get vid s = Inr v" "pv_status v \<in> {ACTIVE, RETIRED}"
  then show "pp_approve vid admin s = Inl (ValueError ''active or retired policies are immutable'')"
    by (simp add: pp_approve_def)
next
  fix s vid e admin now by_whom
  assume "pp_get vid s = Inl e"
  then show "pp_approve vid admin s = Inl e \<and> pp_activate now vid by_whom s = Inl e"
    by (simp add: pp_approve_def pp_activate_def)
next
  fix s vid v now by_whom
  assume a: "policy_tables_ok s" "pp_get vid s = Inr v" "2 \<le> card (set (pv_approvals v))"
  obtain row where row: "row \<in> set (policy_versions s)" "pw_id row = vid" "v = to_version s row"
    using a(1,2) pp_get_Inr by blast
  have "2 \<le> length (pp_approvals vid s)" using a(1,3) row(2,3) to_version_approvals by simp
  from tables_activate [OF a(1) row(1,2) this] obtain s' row' where
    new: "pp_activate now vid by_whom s = Inr (to_version s' row', s')" "policy_tables_ok s'"
      "row' \<in> set (policy_versions s')" "pw_id row' = vid" "pw_document row' = pw_document row"
      "pw_status row' = ACTIVE" by blast
  have "pp_active s' = Inr (to_version s' row')" using pp_active_Inr [OF new(2)] new(3,6) by blast
  with new show "\<exists>v' s'. pp_activate now vid by_whom s = Inr (v', s') \<and>
      policy_tables_ok s' \<and> pp_active s' = Inr v' \<and> pv_version_id v' = vid \<and> pv_policy v' = pv_policy v"
    using row(3) by (simp add: to_version_def)
next
  fix s vid v now by_whom
  assume a: "policy_tables_ok s" "pp_get vid s = Inr v" "card (set (pv_approvals v)) < 2"
  obtain row where row: "row \<in> set (policy_versions s)" "pw_id row = vid" "v = to_version s row"
    using a(1,2) pp_get_Inr by blast
  have "length (pp_approvals vid s) < 2" using a(1,3) row(2,3) to_version_approvals by simp
  then show "pp_activate now vid by_whom s =
      Inl (PermissionError ''policy activation requires two distinct administrator approvals'')"
    using a(2) by (simp add: pp_activate_def)
next
  fix s v
  assume a: "policy_tables_ok s" "pp_active s = Inr v"
  then obtain row where row: "row \<in> set (policy_versions s)" "pw_status row = ACTIVE" "v = to_version s row"
    using pp_active_Inr by blast
  then show "pv_status v = ACTIVE \<and> 2 \<le> card (set (pv_approvals v))"
    using a(1) to_version_approvals [OF a(1)] by (simp add: policy_tables_ok_def) (simp add: to_version_def)
next
  fix s v vid u
  assume a: "policy_tables_ok s" "pp_active s = Inr v" "pp_get vid s = Inr u" "pv_status u = ACTIVE"
  obtain r where r: "r \<in> set (policy_versions s)" "pw_status r = ACTIVE" "v = to_version s r"
    using a(1,2) pp_active_Inr by blast
  obtain q where q: "q \<in> set (policy_versions s)" "u = to_version s q" using a(1,3) pp_get_Inr by blast
  have "pw_status q = ACTIVE" using a(4) q(2) by (simp add: to_version_def)
  then have "q = r" using a(1) r(1,2) q(1) by (simp add: policy_tables_ok_def)
  then show "u = v" using r(3) q(2) by simp
qed

section \<open>Properties\<close>

definition policy_tables_init :: policy_tables where
  "policy_tables_init = \<lparr>policy_versions = [], policy_approvals = []\<rparr>"

lemma policy_tables_ok_init: "policy_tables_ok policy_tables_init"
  by (simp add: policy_tables_ok_def policy_tables_init_def)

abbreviation "registry_reaches \<equiv> policy_reachable pg_create pg_approve pg_activate pg_get PolicyRegistry_init"
abbreviation "tables_reach \<equiv> policy_reachable pp_create pp_approve pp_activate pp_get policy_tables_init"

lemma policy_hash_stdlib: "rfc8785 P = None \<Longrightarrow> \<exists>h. policy_hash P p = Inr h"
  by (simp add: policy_hash_def canonical_json_stdlib supported_policy_json json_dumps_def)

lemma sample_created:
  "\<exists>v s. pg_create prims 1 0 sample_policy ''carol'' PolicyRegistry_init = Inr (v, s)"
  "\<exists>v db. pp_create prims 1 0 sample_policy ''carol'' policy_tables_init = Inr (v, db)"
proof -
  obtain h where h: "policy_hash prims sample_policy = Inr h"
    using policy_hash_stdlib [of prims sample_policy] by (auto simp: prims_def)
  then show "\<exists>v s. pg_create prims 1 0 sample_policy ''carol'' PolicyRegistry_init = Inr (v, s)"
    by (simp add: pg_create_def Let_def)
  show "\<exists>v db. pp_create prims 1 0 sample_policy ''carol'' policy_tables_init = Inr (v, db)"
    using h sample_policy_valid
    by (simp add: pp_create_def policy_tables_init_def pp_reread_def pp_get_opt_def pp_row_def)
qed

lemma sample_unknown: "pg_get vid PolicyRegistry_init \<notin> range Inr" "pp_get vid policy_tables_init \<notin> range Inr"
  by (auto simp: pg_get_def PolicyRegistry_init_def pp_get_def pp_get_opt_def pp_row_def policy_tables_init_def)

text \<open>C29. Two-person activation, for the in-memory registry and for the tables: whatever sequence
  of creations, approvals and activations ran, the active policy has approvals of two different
  administrators, and no other version has the status \<open>ACTIVE\<close>.\<close>

theorem active_policy_two_person:
  "(registry_reaches s \<longrightarrow> pg_active s = Inr v \<longrightarrow>
     (\<exists>a b. a \<noteq> b \<and> a \<in> set (pv_approvals v) \<and> b \<in> set (pv_approvals v)) \<and>
     (\<forall>vid u. pg_get vid s = Inr u \<longrightarrow> pv_status u = ACTIVE \<longrightarrow> u = v)) \<and>
   (tables_reach db \<longrightarrow> pp_active db = Inr w \<longrightarrow>
     (\<exists>a b. a \<noteq> b \<and> a \<in> set (pv_approvals w) \<and> b \<in> set (pv_approvals w)) \<and>
     (\<forall>vid u. pp_get vid db = Inr u \<longrightarrow> pv_status u = ACTIVE \<longrightarrow> u = w))"
  using registry.two_person_rule registry.active_unique registry.reachable_invar registry_ok_init
    tables.two_person_rule tables.active_unique tables.reachable_invar policy_tables_ok_init
  by blast

theorem active_policy_two_person_witness:
  "\<exists>v db. pp_active db = Inr v \<and> pv_policy v = sample_policy \<and>
     (\<exists>a b. a \<noteq> b \<and> a \<in> set (pv_approvals v) \<and> b \<in> set (pv_approvals v))"
proof -
  obtain v db where c: "pp_create prims 1 0 sample_policy ''carol'' policy_tables_init = Inr (v, db)"
    using sample_created(2) by blast
  have "''alice'' \<noteq> ''bob''" by simp
  from tables.workflow [OF policy_tables_ok_init sample_policy_valid sample_unknown(2) this c, of 5 "''alice''"]
  obtain v2 s2 v3 s3 v4 s4 where w: "pp_approve 1 ''alice'' db = Inr (v2, s2)"
      "pp_approve 1 ''bob'' s2 = Inr (v3, s3)" "pp_activate 5 1 ''alice'' s3 = Inr (v4, s4)"
      "pp_active s4 = Inr v4" "pv_policy v4 = sample_policy"
    by (elim exE conjE) (rule that)
  have r0: "tables_reach policy_tables_init" by (rule policy_reachable.initially)
  have r1: "tables_reach db" by (rule policy_reachable.created [OF r0 sample_policy_valid sample_unknown(2) c])
  have r2: "tables_reach s2" by (rule policy_reachable.approved [OF r1 w(1)])
  have r3: "tables_reach s3" by (rule policy_reachable.approved [OF r2 w(2)])
  have "tables_reach s4" by (rule policy_reachable.activated [OF r3 w(3)])
  then have "\<exists>a b. a \<noteq> b \<and> a \<in> set (pv_approvals v4) \<and> b \<in> set (pv_approvals v4)"
    using active_policy_two_person [of undefined undefined s4 v4] w(4) by simp
  with w(4,5) show ?thesis by blast
qed

text \<open>In both stores a created version is refused activation after the approval of one
  administrator and becomes the active policy, with the policy it was created with, once a
  second one approved it, whatever ran before its creation.\<close>

theorem policy_activation_workflow:
  assumes "a \<noteq> b" "make_PolicyV1 policy = Inr policy"
  shows "(registry_reaches s \<and> pg_get vid s \<notin> range Inr \<and> pg_create P vid now policy who s = Inr (v, s1) \<longrightarrow>
     (\<exists>v2 s2 v3 s3 v4 s4. pg_approve vid a s1 = Inr (v2, s2) \<and>
       pg_activate t vid c s2 = Inl (PermissionError ''policy activation requires two distinct administrator approvals'') \<and>
       pg_approve vid b s2 = Inr (v3, s3) \<and> pg_activate t vid c s3 = Inr (v4, s4) \<and>
       pg_active s4 = Inr v4 \<and> pv_policy v4 = policy)) \<and>
   (tables_reach db \<and> pp_get vid db \<notin> range Inr \<and> pp_create P vid now policy who db = Inr (w, db1) \<longrightarrow>
     (\<exists>v2 s2 v3 s3 v4 s4. pp_approve vid a db1 = Inr (v2, s2) \<and>
       pp_activate t vid c s2 = Inl (PermissionError ''policy activation requires two distinct administrator approvals'') \<and>
       pp_approve vid b s2 = Inr (v3, s3) \<and> pp_activate t vid c s3 = Inr (v4, s4) \<and>
       pp_active s4 = Inr v4 \<and> pv_policy v4 = policy))"
proof (intro conjI impI; elim conjE)
  assume "registry_reaches s" "pg_get vid s \<notin> range Inr" "pg_create P vid now policy who s = Inr (v, s1)"
  then show "\<exists>v2 s2 v3 s3 v4 s4. pg_approve vid a s1 = Inr (v2, s2) \<and>
       pg_activate t vid c s2 = Inl (PermissionError ''policy activation requires two distinct administrator approvals'') \<and>
       pg_approve vid b s2 = Inr (v3, s3) \<and> pg_activate t vid c s3 = Inr (v4, s4) \<and>
       pg_active s4 = Inr v4 \<and> pv_policy v4 = policy"
    by (intro registry.workflow [OF registry.reachable_invar [OF _ registry_ok_init] assms(2) _ assms(1)])
next
  assume "tables_reach db" "pp_get vid db \<notin> range Inr" "pp_create P vid now policy who db = Inr (w, db1)"
  then show "\<exists>v2 s2 v3 s3 v4 s4. pp_approve vid a db1 = Inr (v2, s2) \<and>
       pp_activate t vid c s2 = Inl (PermissionError ''policy activation requires two distinct administrator approvals'') \<and>
       pp_approve vid b s2 = Inr (v3, s3) \<and> pp_activate t vid c s3 = Inr (v4, s4) \<and>
       pp_active s4 = Inr v4 \<and> pv_policy v4 = policy"
    by (intro tables.workflow [OF tables.reachable_invar [OF _ policy_tables_ok_init] assms(2) _ assms(1)])
qed

theorem policy_activation_workflow_witness:
  "\<exists>s1 s4 v4 v. pg_create prims 1 0 sample_policy ''carol'' PolicyRegistry_init = Inr (v, s1) \<and>
     pg_active s4 = Inr v4 \<and> pv_policy v4 = sample_policy"
proof -
  obtain v s1 where c: "pg_create prims 1 0 sample_policy ''carol'' PolicyRegistry_init = Inr (v, s1)"
    using sample_created(1) by blast
  have "''alice'' \<noteq> ''bob''" by simp
  note run = policy_activation_workflow [OF this sample_policy_valid, THEN conjunct1, THEN mp]
  have "registry_reaches PolicyRegistry_init" by (rule policy_reachable.initially)
  with c show ?thesis using run [OF conjI [OF _ conjI [OF sample_unknown(1) c]]] by blast
qed

end
