(* ===== verification/PostgresState.thy ===== *)
theory PostgresState
  imports StateStore PolicyVersions
begin

text \<open>
  \<open>PostgresStateStore\<close> of \<open>src/aegisledger/postgres.py\<close> on the tables of migration
  \<open>0001_core.py\<close>. A transaction is serializable, so it is one step on the tables; one that
  raises is rolled back and returns the exception with no state. Whether PostgreSQL aborts
  an attempt, the transaction's \<open>now()\<close>, the reading of the local clock and the fresh
  identifier are arguments of each attempt.

  The \<open>body\<close> column holds the validated proposal; reading it validates it again.
\<close>

section \<open>Tables\<close>

record proposals_row =
  pq_id :: uuid
  pq_principal_id :: string
  pq_idempotency_key :: string
  pq_wallet :: string
  pq_chain_id :: int
  pq_asset :: string
  pq_amount :: int
  pq_proposal_hash :: string
  pq_body :: ProposalV1
  pq_state :: LifecycleState
  pq_state_version :: int
  pq_reason_codes :: "string list"
  pq_deadline :: time
  pq_created_at :: time
  pq_updated_at :: time

datatype reservation_status = ResActive | ResReleased | ResSettled

record reservations_row =
  rr_id :: uuid
  rr_proposal_id :: uuid
  rr_amount :: int
  rr_status :: reservation_status
  rr_created_at :: time
  rr_released_at :: "time option"
  rr_settled_at :: "time option"

record state_tables =
  proposals :: "proposals_row list"
  reservations :: "reservations_row list"
  decision_nonce_uses :: "uuid list"
  wallet_nonce_uses :: "(string \<times> int \<times> int) list"

definition state_tables_init :: state_tables where
  "state_tables_init = \<lparr>proposals = [], reservations = [], decision_nonce_uses = [], wallet_nonce_uses = []\<rparr>"

section \<open>Queries\<close>

definition row_scope :: "proposals_row \<Rightarrow> scope" where
  "row_scope row = (pq_principal_id row, pq_wallet row, pq_chain_id row, pq_asset row)"

text \<open>\<open>FROM reservations r JOIN proposals p ON p.id=r.proposal_id WHERE\<close> the scope.\<close>

definition scope_join :: "scope \<Rightarrow> state_tables \<Rightarrow> reservations_row list" where
  "scope_join sc db =
     filter (\<lambda>r. list_ex (\<lambda>p. pq_id p = rr_proposal_id r \<and> row_scope p = sc) (proposals db)) (reservations db)"

definition pgs_record :: "uuid \<Rightarrow> state_tables \<Rightarrow> ProposalRecord option res" where
  "pgs_record proposal_id db =
     (case find (\<lambda>p. pq_id p = proposal_id) (proposals db) of
        None \<Rightarrow> Inr None
      | Some row \<Rightarrow>
          rbind (make_ProposalV1 (pq_body row)) (\<lambda>proposal.
          Inr (Some \<lparr>rec_proposal = proposal, rec_state = pq_state row,
            rec_state_version = pq_state_version row, rec_reason_codes = pq_reason_codes row,
            rec_reservation_id = map_option rr_id (find (\<lambda>r. rr_proposal_id r = proposal_id) (reservations db)),
            rec_created_at = pq_created_at row, rec_updated_at = pq_updated_at row\<rparr>)))"

definition pgs_get :: "uuid \<Rightarrow> state_tables \<Rightarrow> ProposalRecord option res" where
  "pgs_get = pgs_record"

text \<open>\<open>record = self._record(\<dots>)\<close> followed by \<open>assert record is not None\<close>.\<close>

definition reread :: "uuid \<Rightarrow> state_tables \<Rightarrow> ProposalRecord res" where
  "reread proposal_id db = rbind (pgs_record proposal_id db) (of_option AssertionError)"

definition counted_row :: "reservations_row \<Rightarrow> bool" where
  "counted_row r \<longleftrightarrow> rr_status r \<in> {ResActive, ResSettled}"

definition pg_window :: "time \<Rightarrow> int \<Rightarrow> scope \<Rightarrow> state_tables \<Rightarrow> reservations_row list" where
  "pg_window now secs sc db =
     filter (\<lambda>r. counted_row r \<and> rr_created_at r \<ge> now - seconds secs) (scope_join sc db)"

definition scope_reasons :: "time \<Rightarrow> time \<Rightarrow> ProposalV1 \<Rightarrow> PolicyV1 \<Rightarrow> state_tables \<Rightarrow> string list" where
  "scope_reasons clock now proposal policy db =
     (let reasons = static_policy_reasons clock proposal policy in
      if reasons = [''EMERGENCY_STOP''] then reasons
      else reasons
        @ (if list_ex (\<lambda>cap. sum_list (map rr_amount (pg_window now (cap_window_seconds cap) (prop_scope proposal) db))
                + pr_amount proposal > cap_amount cap) (po_rolling_caps policy)
           then [''ROLLING_CAP_EXCEEDED''] else [])
        @ (if int (length (pg_window now 3600 (prop_scope proposal) db)) + 1 > po_maximum_transactions_per_hour policy
           then [''VELOCITY_EXCEEDED''] else []))"

section \<open>Operations\<close>

record attempt =
  pa_abort :: "exn option"
  pa_clock :: time
  pa_now :: time
  pa_uuid :: uuid

text \<open>The constraints of the \<open>proposals\<close> table: the ranges of \<open>bigint\<close> and \<open>numeric(78,0)\<close>, the
  primary key and the unique keys.\<close>

definition insert_proposal :: "proposals_row \<Rightarrow> state_tables \<Rightarrow> state_tables res" where
  "insert_proposal row db =
     rbind (raise_first
       [(pq_chain_id row \<ge> 2 ^ 63, NumericValueOutOfRange ''chain_id''),
        (pq_amount row \<ge> 10 ^ 78, NumericValueOutOfRange ''amount''),
        (list_ex (\<lambda>p. pq_id p = pq_id row \<or> pq_proposal_hash p = pq_proposal_hash row \<or>
           (pq_principal_id p = pq_principal_id row \<and> pq_idempotency_key p = pq_idempotency_key row)) (proposals db),
         UniqueViolation ''proposals'')]) (\<lambda>_.
     Inr (db\<lparr>proposals := proposals db @ [row]\<rparr>))"

definition insert_reservation :: "reservations_row \<Rightarrow> state_tables \<Rightarrow> state_tables res" where
  "insert_reservation row db =
     (if list_ex (\<lambda>r. rr_id r = rr_id row \<or> rr_proposal_id r = rr_proposal_id row) (reservations db)
      then Inl (UniqueViolation ''reservations'')
      else Inr (db\<lparr>reservations := reservations db @ [row]\<rparr>))"

definition proposal_row :: "time \<Rightarrow> string \<Rightarrow> ProposalV1 \<Rightarrow> string list \<Rightarrow> proposals_row" where
  "proposal_row now h proposal reasons =
     \<lparr>pq_id = pr_proposal_id proposal, pq_principal_id = pr_principal_id proposal,
      pq_idempotency_key = pr_idempotency_key proposal, pq_wallet = pr_wallet proposal,
      pq_chain_id = pr_chain_id proposal, pq_asset = pr_asset proposal, pq_amount = pr_amount proposal,
      pq_proposal_hash = h, pq_body = proposal,
      pq_state = (if reasons \<noteq> [] then DENIED else RESERVED), pq_state_version = 1,
      pq_reason_codes = reasons, pq_deadline = pr_deadline proposal, pq_created_at = now, pq_updated_at = now\<rparr>"

definition active_row :: "time \<Rightarrow> uuid \<Rightarrow> ProposalV1 \<Rightarrow> reservations_row" where
  "active_row now rid proposal =
     \<lparr>rr_id = rid, rr_proposal_id = pr_proposal_id proposal, rr_amount = pr_amount proposal,
      rr_status = ResActive, rr_created_at = now, rr_released_at = None, rr_settled_at = None\<rparr>"

definition reserve_once ::
  "primitives \<Rightarrow> attempt \<Rightarrow> ProposalV1 \<Rightarrow> PolicyV1 \<Rightarrow> state_tables \<Rightarrow> ((ProposalRecord \<times> bool) \<times> state_tables) res" where
  "reserve_once P a proposal policy db =
     (case find (\<lambda>p. pq_principal_id p = pr_principal_id proposal \<and>
             pq_idempotency_key p = pr_idempotency_key proposal) (proposals db) of
        Some duplicate \<Rightarrow> rbind (reread (pq_id duplicate) db) (\<lambda>record. Inr ((record, False), db))
      | None \<Rightarrow>
          let reasons = scope_reasons (pa_clock a) (pa_now a) proposal policy db in
          rbind (proposal_hash P proposal) (\<lambda>h.
          rbind (insert_proposal (proposal_row (pa_now a) h proposal reasons) db) (\<lambda>db.
          rbind (if reasons = [] then insert_reservation (active_row (pa_now a) (pa_uuid a) proposal) db
                 else Inr db) (\<lambda>db.
          rbind (reread (pr_proposal_id proposal) db) (\<lambda>record.
          Inr ((record, True), db))))))"

fun reserve_attempts ::
  "primitives \<Rightarrow> attempt list \<Rightarrow> ProposalV1 \<Rightarrow> PolicyV1 \<Rightarrow> state_tables \<Rightarrow> ((ProposalRecord \<times> bool) \<times> state_tables) res" where
  "reserve_attempts P [] proposal policy db = Inl (RuntimeError ''unreachable serialization retry state'')"
| "reserve_attempts P (a # attempts) proposal policy db =
     (case pa_abort a of
        None \<Rightarrow> reserve_once P a proposal policy db
      | Some e \<Rightarrow>
          if e \<notin> {SerializationFailure, DeadlockDetected} \<or> attempts = [] then Inl e
          else reserve_attempts P attempts proposal policy db)"

definition pgs_reserve ::
  "primitives \<Rightarrow> nat \<Rightarrow> (nat \<Rightarrow> attempt) \<Rightarrow> ProposalV1 \<Rightarrow> PolicyV1 \<Rightarrow> state_tables
     \<Rightarrow> ((ProposalRecord \<times> bool) \<times> state_tables) res" where
  "pgs_reserve P serialization_retries env proposal policy db =
     reserve_attempts P (map env [0..<serialization_retries]) proposal policy db"

definition pgs_simulate :: "time \<Rightarrow> time \<Rightarrow> ProposalV1 \<Rightarrow> PolicyV1 \<Rightarrow> state_tables \<Rightarrow> string list" where
  "pgs_simulate = scope_reasons"

definition pgs_transition ::
  "time \<Rightarrow> uuid \<Rightarrow> LifecycleState \<Rightarrow> state_tables \<Rightarrow> (ProposalRecord \<times> state_tables) res" where
  "pgs_transition now proposal_id target db =
     rbind (pgs_record proposal_id db) (\<lambda>record.
     rbind (of_option (KeyError (''unknown proposal '' @ uuid_str proposal_id)) record) (\<lambda>record.
     rbind (require_transition (rec_state record) target) (\<lambda>_.
     let held = (\<lambda>r. rr_proposal_id r = proposal_id \<and> rr_status r = ResActive) in
     rbind (if target \<in> {EXPIRED, REVERTED}
            then Inr (db\<lparr>reservations := update_where held
              (\<lambda>r. r\<lparr>rr_status := ResReleased, rr_released_at := Some now\<rparr>) (reservations db)\<rparr>)
            else if target = SETTLED
            then if \<not> list_ex held (reservations db)
                 then Inl (ValueError ''settlement requires an active reservation'')
                 else Inr (db\<lparr>reservations := update_where held
                   (\<lambda>r. r\<lparr>rr_status := ResSettled, rr_settled_at := Some now\<rparr>) (reservations db)\<rparr>)
            else Inr db) (\<lambda>db.
     let db = db\<lparr>proposals := update_where (\<lambda>p. pq_id p = proposal_id)
       (\<lambda>p. p\<lparr>pq_state := target, pq_state_version := pq_state_version p + 1, pq_updated_at := now\<rparr>) (proposals db)\<rparr>
     in rbind (reread proposal_id db) (\<lambda>record. Inr (record, db))))))"

definition pgs_register_decision_nonce :: "uuid \<Rightarrow> state_tables \<Rightarrow> state_tables res" where
  "pgs_register_decision_nonce nonce db =
     (if nonce \<in> set (decision_nonce_uses db) then Inl (ValueError ''decision nonce already used'')
      else Inr (db\<lparr>decision_nonce_uses := nonce # decision_nonce_uses db\<rparr>))"

definition pgs_register_wallet_nonce :: "string \<Rightarrow> int \<Rightarrow> int \<Rightarrow> state_tables \<Rightarrow> state_tables res" where
  "pgs_register_wallet_nonce wallet chain_id nonce db =
     rbind (raise_first
       [(chain_id \<ge> 2 ^ 63, NumericValueOutOfRange ''chain_id''), (nonce \<ge> 10 ^ 78, NumericValueOutOfRange ''nonce''),
        ((lower wallet, chain_id, nonce) \<in> set (wallet_nonce_uses db), ValueError ''wallet nonce already used'')]) (\<lambda>_.
     Inr (db\<lparr>wallet_nonce_uses := (lower wallet, chain_id, nonce) # wallet_nonce_uses db\<rparr>))"

definition pgs_budget_totals :: "string \<Rightarrow> string \<Rightarrow> int \<Rightarrow> string \<Rightarrow> state_tables \<Rightarrow> int \<times> int" where
  "pgs_budget_totals principal_id wallet chain_id asset db =
     (let rows = scope_join (principal_id, lower wallet, chain_id, asset) db
      in (sum_list (map rr_amount (filter (\<lambda>r. rr_status r = ResActive) rows)),
          sum_list (map rr_amount (filter (\<lambda>r. rr_status r = ResSettled) rows))))"

section \<open>The invariant of the tables\<close>

definition row_linked :: "reservations_row list \<Rightarrow> proposals_row \<Rightarrow> bool" where
  "row_linked rs p \<longleftrightarrow>
     (case find (\<lambda>r. rr_proposal_id r = pq_id p) rs of
        None \<Rightarrow> pq_state p = DENIED
      | Some r \<Rightarrow> rr_amount r = pq_amount p \<and> pq_state p \<notin> {PROPOSED, DENIED} \<and>
          (rr_status r = ResActive \<longleftrightarrow> pq_state p \<in> {RESERVED, SIGNED, SUBMITTED}) \<and>
          (rr_status r = ResSettled \<longleftrightarrow> pq_state p = SETTLED))"

definition row_ok :: "proposals_row \<Rightarrow> bool" where
  "row_ok p \<longleftrightarrow> valid_proposal (pq_body p) \<and> pq_id p = pr_proposal_id (pq_body p) \<and>
     row_scope p = prop_scope (pq_body p) \<and> pq_amount p = pr_amount (pq_body p)"

definition state_tables_ok :: "state_tables \<Rightarrow> bool" where
  "state_tables_ok db \<longleftrightarrow> distinct (map pq_id (proposals db)) \<and> distinct (map rr_proposal_id (reservations db)) \<and>
     (\<forall>p \<in> set (proposals db). row_ok p \<and> row_linked (reservations db) p) \<and>
     (\<forall>r \<in> set (reservations db). rr_proposal_id r \<in> pq_id ` set (proposals db) \<and> 0 < rr_amount r)"

lemma state_tables_ok_init: "state_tables_ok state_tables_init"
  by (simp add: state_tables_ok_def state_tables_init_def)

definition row_record :: "state_tables \<Rightarrow> proposals_row \<Rightarrow> ProposalRecord" where
  "row_record db row = \<lparr>rec_proposal = pq_body row, rec_state = pq_state row,
     rec_state_version = pq_state_version row, rec_reason_codes = pq_reason_codes row,
     rec_reservation_id = map_option rr_id (find (\<lambda>r. rr_proposal_id r = pq_id row) (reservations db)),
     rec_created_at = pq_created_at row, rec_updated_at = pq_updated_at row\<rparr>"

lemma pgs_record_row:
  assumes "distinct (map pq_id (proposals db))" "p \<in> set (proposals db)" "row_ok p" "pq_id p = pid"
  shows "pgs_record pid db = Inr (Some (row_record db p))"
  using assms find_unique [of pq_id "proposals db" pid p]
  by (simp add: pgs_record_def row_record_def row_ok_def valid_proposal_def)

lemma reserve_attempts_Inr:
  "reserve_attempts P attempts p policy db = Inr x \<Longrightarrow>
     \<exists>a \<in> set attempts. pa_abort a = None \<and> reserve_once P a p policy db = Inr x"
proof (induction attempts)
  case (Cons a attempts)
  then show ?case by (cases "pa_abort a") (auto split: if_splits)
qed simp

lemma reserve_once_replay:
  "reserve_once P a p policy db = Inr ((r, False), db') \<Longrightarrow> db' = db"
  by (auto simp: reserve_once_def rbind_Inr_iff Let_def split: option.splits)

lemma reserve_once_created:
  assumes "reserve_once P a p policy db = Inr ((r, True), db')"
  obtains h reasons where "reasons = scope_reasons (pa_clock a) (pa_now a) p policy db"
    "\<forall>q \<in> set (proposals db). pq_id q \<noteq> pr_proposal_id p"
    "proposals db' = proposals db @ [proposal_row (pa_now a) h p reasons]"
    "reasons = [] \<longrightarrow> reservations db' = reservations db @ [active_row (pa_now a) (pa_uuid a) p]"
    "reasons \<noteq> [] \<longrightarrow> reservations db' = reservations db"
    "reread (pr_proposal_id p) db' = Inr r"
proof -
  define reasons where "reasons = scope_reasons (pa_clock a) (pa_now a) p policy db"
  note eq = assms [unfolded reserve_once_def, folded reasons_def]
  obtain h db1 db2 where 1: "insert_proposal (proposal_row (pa_now a) h p reasons) db = Inr db1"
    and 2: "(if reasons = [] then insert_reservation (active_row (pa_now a) (pa_uuid a) p) db1 else Inr db1) = Inr db2"
    and 3: "reread (pr_proposal_id p) db2 = Inr r" "db' = db2"
    using eq by (auto simp: rbind_Inr_iff Let_def reasons_def split: option.splits)
  have "db1 = db\<lparr>proposals := proposals db @ [proposal_row (pa_now a) h p reasons]\<rparr>"
    "\<forall>q \<in> set (proposals db). pq_id q \<noteq> pr_proposal_id p"
    using 1 by (auto simp: insert_proposal_def rbind_Inr_iff raise_first_Inr_iff list_ex_iff proposal_row_def)
  moreover have "proposals db2 = proposals db1" "reasons \<noteq> [] \<longrightarrow> reservations db2 = reservations db1"
    "reasons = [] \<longrightarrow> reservations db2 = reservations db1 @ [active_row (pa_now a) (pa_uuid a) p]"
    using 2 by (auto simp: insert_reservation_def split: if_splits)
  ultimately show ?thesis using that [OF reasons_def, of h] 3 by simp
qed

text \<open>The effect of a transition on a reservation and on a proposal.\<close>

definition retire_row :: "time \<Rightarrow> uuid \<Rightarrow> LifecycleState \<Rightarrow> reservations_row \<Rightarrow> reservations_row" where
  "retire_row now pid target r =
     (if rr_proposal_id r = pid \<and> rr_status r = ResActive then
        if target \<in> {EXPIRED, REVERTED} then r\<lparr>rr_status := ResReleased, rr_released_at := Some now\<rparr>
        else if target = SETTLED then r\<lparr>rr_status := ResSettled, rr_settled_at := Some now\<rparr> else r
      else r)"

definition move_row :: "time \<Rightarrow> uuid \<Rightarrow> LifecycleState \<Rightarrow> proposals_row \<Rightarrow> proposals_row" where
  "move_row now pid target p =
     (if pq_id p = pid
      then p\<lparr>pq_state := target, pq_state_version := pq_state_version p + 1, pq_updated_at := now\<rparr> else p)"

lemma retire_row_simps [simp]:
  "rr_id (retire_row now pid t r) = rr_id r" "rr_proposal_id (retire_row now pid t r) = rr_proposal_id r"
  "rr_amount (retire_row now pid t r) = rr_amount r" "rr_created_at (retire_row now pid t r) = rr_created_at r"
  by (simp_all add: retire_row_def)

lemma move_row_simps [simp]:
  "pq_id (move_row now pid t p) = pq_id p" "row_scope (move_row now pid t p) = row_scope p"
  "pq_amount (move_row now pid t p) = pq_amount p" "row_ok (move_row now pid t p) = row_ok p"
  "pq_state (move_row now pid t p) = (if pq_id p = pid then t else pq_state p)"
  by (simp_all add: move_row_def row_scope_def row_ok_def)

lemma retire_row_other:
  "target \<notin> {EXPIRED, REVERTED, SETTLED} \<Longrightarrow> map (retire_row now pid target) rs = rs"
  by (rule map_idI) (simp add: retire_row_def)

lemma pgs_transition_Inr:
  assumes "pgs_transition now pid target db = Inr (r, db')" "state_tables_ok db"
  obtains p where "p \<in> set (proposals db)" "pq_id p = pid" "target \<in> set (ALLOWED_TRANSITIONS (pq_state p))"
    "proposals db' = map (move_row now pid target) (proposals db)"
    "reservations db' = map (retire_row now pid target) (reservations db)"
proof -
  obtain rc where rc: "pgs_record pid db = Inr (Some rc)"
    using assms(1) by (auto simp: pgs_transition_def rbind_Inr_iff of_option_def split: option.splits)
  then obtain p where p: "p \<in> set (proposals db)" "pq_id p = pid"
    by (auto simp: pgs_record_def dest: find_Some_mem split: option.splits)
  have "row_ok p" "distinct (map pq_id (proposals db))" using assms(2) p(1) by (auto simp: state_tables_ok_def)
  from pgs_record_row [OF this(2) p(1) this(1) p(2)] rc have st: "rec_state rc = pq_state p"
    by (simp add: row_record_def)
  note eq = assms(1) [unfolded pgs_transition_def rc rbind_simps of_option_simps st]
  have t: "target \<in> set (ALLOWED_TRANSITIONS (pq_state p))"
    using eq by (auto simp: rbind_Inr_iff require_transition_def)
  then have "require_transition (pq_state p) target = Inr ()" by (simp add: require_transition_def)
  note eq = eq [unfolded this rbind_simps Let_def]
  have "proposals db' = map (move_row now pid target) (proposals db)"
    using eq by (auto simp: rbind_Inr_iff update_where_def move_row_def split: if_splits)
  moreover have "reservations db' = map (retire_row now pid target) (reservations db)"
  proof (cases "target \<in> {EXPIRED, REVERTED, SETTLED}")
    case True
    then show ?thesis using eq by (auto simp: rbind_Inr_iff update_where_def retire_row_def split: if_splits)
  next
    case False
    then show ?thesis using eq retire_row_other [OF False] by (auto simp: rbind_Inr_iff)
  qed
  ultimately show ?thesis using that [OF p t] by blast
qed

section \<open>The store implements the specification\<close>

definition pgs_state :: "uuid \<Rightarrow> state_tables \<Rightarrow> LifecycleState option" where
  "pgs_state pid db = map_option pq_state (find (\<lambda>p. pq_id p = pid) (proposals db))"

definition pgs_amount :: "uuid \<Rightarrow> state_tables \<Rightarrow> int" where
  "pgs_amount pid db = (case find (\<lambda>p. pq_id p = pid) (proposals db) of None \<Rightarrow> 0 | Some p \<Rightarrow> pq_amount p)"

definition pgs_held :: "uuid \<Rightarrow> state_tables \<Rightarrow> bool" where
  "pgs_held pid db \<longleftrightarrow> list_ex (\<lambda>r. rr_proposal_id r = pid \<and> rr_status r = ResActive) (reservations db)"

definition pgs_spend :: "state_tables \<Rightarrow> int" where
  "pgs_spend db = (\<Sum>r\<leftarrow>filter (\<lambda>r. rr_status r = ResSettled) (reservations db). rr_amount r)"

lemma state_tables_ok_rows:
  assumes "state_tables_ok db" "p \<in> set (proposals db)" "pq_id p = pid"
  shows "find (\<lambda>p. pq_id p = pid) (proposals db) = Some p" "row_ok p" "row_linked (reservations db) p"
  using assms find_unique [of pq_id "proposals db" pid p] by (auto simp: state_tables_ok_def)

lemma reservation_unique:
  "state_tables_ok db \<Longrightarrow> r \<in> set (reservations db) \<Longrightarrow> rr_proposal_id r = pid \<Longrightarrow>
     find (\<lambda>r. rr_proposal_id r = pid) (reservations db) = Some r"
  using find_unique [of rr_proposal_id "reservations db" pid r] by (simp add: state_tables_ok_def)

lemma reservation_fk:
  "state_tables_ok db \<Longrightarrow> r \<in> set (reservations db) \<Longrightarrow> \<exists>p \<in> set (proposals db). pq_id p = rr_proposal_id r"
  unfolding state_tables_ok_def by (metis imageE)

lemma pgs_held_iff:
  assumes ok: "state_tables_ok db"
  shows "pgs_held pid db \<longleftrightarrow> pgs_state pid db \<in> {Some RESERVED, Some SIGNED, Some SUBMITTED}"
proof (cases "find (\<lambda>p. pq_id p = pid) (proposals db)")
  case None
  then have "\<forall>p \<in> set (proposals db). pq_id p \<noteq> pid" by (auto simp: find_None_iff)
  then have "\<not> pgs_held pid db" using reservation_fk [OF ok] by (auto simp: pgs_held_def list_ex_iff)
  with None show ?thesis by (simp add: pgs_state_def)
next
  case (Some p)
  then have p: "p \<in> set (proposals db)" "pq_id p = pid" by (auto dest: find_Some_mem)
  note linked = state_tables_ok_rows(3) [OF ok p]
  show ?thesis
  proof (cases "find (\<lambda>r. rr_proposal_id r = pid) (reservations db)")
    case None
    then have "\<not> pgs_held pid db" by (auto simp: pgs_held_def list_ex_iff find_None_iff)
    with None Some linked p(2) show ?thesis by (simp add: pgs_state_def row_linked_def)
  next
    case (Some r)
    then have r: "r \<in> set (reservations db)" "rr_proposal_id r = pid" by (auto dest: find_Some_mem)
    have one: "q = r" if "q \<in> set (reservations db)" "rr_proposal_id q = pid" for q
      using reservation_unique [OF ok that] Some by simp
    have "pgs_held pid db \<longleftrightarrow> rr_status r = ResActive"
      unfolding pgs_held_def list_ex_iff using r one by blast
    with Some linked p(2) \<open>find _ (proposals db) = Some p\<close> show ?thesis
      by (auto simp: pgs_state_def row_linked_def)
  qed
qed

lemma row_linked_append:
  "row_linked (rs @ [r]) p = row_linked rs p" if "rr_proposal_id r \<noteq> pq_id p"
  using that by (simp add: row_linked_def find_append split: option.split)

lemma pgs_ok_created:
  assumes ok: "state_tables_ok db" and valid: "valid_proposal p"
    and new: "\<forall>q \<in> set (proposals db). pq_id q \<noteq> pr_proposal_id p"
    and ps: "proposals db' = proposals db @ [proposal_row now h p reasons]"
    and rs: "reasons = [] \<longrightarrow> reservations db' = reservations db @ [active_row now rid p]"
      "reasons \<noteq> [] \<longrightarrow> reservations db' = reservations db"
  shows "state_tables_ok db'"
proof -
  have none: "find (\<lambda>r. rr_proposal_id r = pr_proposal_id p) (reservations db) = None"
    using reservation_fk [OF ok] new by (fastforce simp: find_None_iff)
  have row: "row_ok (proposal_row now h p reasons)"
    using valid by (simp add: row_ok_def proposal_row_def row_scope_def prop_scope_def)
  have amount: "0 < pr_amount p" using valid_proposalD [OF valid] by simp
  have linked: "row_linked (reservations db') q" if "q \<in> set (proposals db)" for q
  proof (cases "reasons = []")
    case True
    then show ?thesis using rs ok that new by (auto simp: row_linked_append active_row_def state_tables_ok_def)
  qed (use rs ok that in \<open>simp add: state_tables_ok_def\<close>)
  have "row_linked (reservations db') (proposal_row now h p reasons)"
    using rs none by (cases "reasons = []") (simp_all add: row_linked_def find_append proposal_row_def active_row_def)
  moreover have "rr_proposal_id r \<noteq> pr_proposal_id p" if "r \<in> set (reservations db)" for r
    using reservation_fk [OF ok that] new by auto
  moreover have "pq_id (proposal_row now h p reasons) = pr_proposal_id p" by (simp add: proposal_row_def)
  moreover have "rr_proposal_id (active_row now rid p) = pr_proposal_id p" "rr_amount (active_row now rid p) = pr_amount p"
    by (simp_all add: active_row_def)
  ultimately show ?thesis
    using ok new row linked rs amount unfolding state_tables_ok_def ps
    by (cases "reasons = []") auto
qed

lemma sum_list_update_one:
  fixes g :: "'a \<Rightarrow> int"
  assumes "distinct (map k xs)" "x \<in> set xs" "\<And>y. y \<in> set xs \<Longrightarrow> k y \<noteq> k x \<Longrightarrow> g (u y) = g y"
  shows "(\<Sum>y\<leftarrow>map u xs. g y) = (\<Sum>y\<leftarrow>xs. g y) - g x + g (u x)"
  using assms
proof (induction xs)
  case (Cons y ys)
  show ?case
  proof (cases "y = x")
    case True
    have "g (u z) = g z" if "z \<in> set ys" for z using Cons.prems that True by (auto simp: image_iff)
    then have "(\<Sum>z\<leftarrow>map u ys. g z) = (\<Sum>z\<leftarrow>ys. g z)" by (simp cong: map_cong)
    with True show ?thesis by simp
  next
    case False
    with Cons.prems have "x \<in> set ys" "k y \<noteq> k x" by (auto simp: image_iff)
    with Cons show ?thesis by simp
  qed
qed simp

lemma row_linked_transition:
  assumes ok: "state_tables_ok db" and p: "p \<in> set (proposals db)" "pq_id p = pid"
    and target: "target \<in> set (ALLOWED_TRANSITIONS (pq_state p))" and q: "q \<in> set (proposals db)"
  shows "row_linked (map (retire_row now pid target) (reservations db)) (move_row now pid target q)"
proof -
  note linked = state_tables_ok_rows(3) [OF ok q refl]
  have find: "find (\<lambda>r. rr_proposal_id r = pq_id q) (map (retire_row now pid target) (reservations db)) =
      map_option (retire_row now pid target) (find (\<lambda>r. rr_proposal_id r = pq_id q) (reservations db))"
    by (rule find_map_keep) simp
  show ?thesis
  proof (cases "pq_id q = pid")
    case False
    have "retire_row now pid target r = r" if "rr_proposal_id r = pq_id q" for r
      using that False by (simp add: retire_row_def)
    then show ?thesis using linked False unfolding row_linked_def move_row_simps find
      by (auto split: option.splits dest: find_Some_mem)
  next
    case True
    then have "q = p" using state_tables_ok_rows(1) [OF ok p] state_tables_ok_rows(1) [OF ok q True] by simp
    then show ?thesis
    proof (cases "find (\<lambda>r. rr_proposal_id r = pq_id q) (reservations db)")
      case None
      with linked target \<open>q = p\<close> show ?thesis by (simp add: row_linked_def)
    next
      case (Some r)
      then have "rr_proposal_id r = pid" using True by (auto dest: find_Some_mem)
      with Some linked target True \<open>q = p\<close> show ?thesis
        unfolding row_linked_def move_row_simps find Some
        by (cases "pq_state p"; cases "rr_status r"; cases target) (simp_all add: retire_row_def)
    qed
  qed
qed

lemma pgs_transition_law:
  assumes ok: "state_tables_ok db" and tr: "pgs_transition now pid target db = Inr (r, db')"
  shows "\<exists>st. state_tables_ok db' \<and> pgs_state pid db = Some st \<and> st \<noteq> PROPOSED \<and> target \<in> set (ALLOWED_TRANSITIONS st) \<and>
    pgs_state pid db' = Some target \<and> pgs_amount pid db' = pgs_amount pid db \<and>
    pgs_spend db' = pgs_spend db + (if target = SETTLED then pgs_amount pid db else 0) \<and>
    (\<forall>q. q \<noteq> pid \<longrightarrow> pgs_state q db' = pgs_state q db \<and> pgs_amount q db' = pgs_amount q db)"
proof -
  obtain p where p: "p \<in> set (proposals db)" "pq_id p = pid" "target \<in> set (ALLOWED_TRANSITIONS (pq_state p))"
    and ps: "proposals db' = map (move_row now pid target) (proposals db)"
    and rs: "reservations db' = map (retire_row now pid target) (reservations db)"
    using pgs_transition_Inr [OF tr ok] by blast
  note p' = state_tables_ok_rows [OF ok p(1,2)]
  have st: "pq_state p \<noteq> PROPOSED" using p'(3) by (auto simp: row_linked_def split: option.splits)
  have "\<exists>r \<in> set (reservations db). rr_proposal_id r = pid \<and> rr_status r = ResActive \<and> rr_amount r = pq_amount p"
    using p'(3) p(2,3) st
    by (cases "pq_state p") (auto simp: row_linked_def split: option.splits dest: find_Some_mem)
  then obtain r where r: "r \<in> set (reservations db)" "rr_proposal_id r = pid" "rr_status r = ResActive"
    "rr_amount r = pq_amount p" by blast
  have "(\<Sum>y\<leftarrow>reservations db'. if rr_status y = ResSettled then rr_amount y else 0) =
      (\<Sum>y\<leftarrow>reservations db. if rr_status y = ResSettled then rr_amount y else 0)
      - (if rr_status r = ResSettled then rr_amount r else 0)
      + (if rr_status (retire_row now pid target r) = ResSettled then rr_amount (retire_row now pid target r) else 0)"
    unfolding rs by (rule sum_list_update_one [of rr_proposal_id])
      (use ok r in \<open>auto simp: state_tables_ok_def retire_row_def\<close>)
  then have spend: "pgs_spend db' = pgs_spend db + (if target = SETTLED then pq_amount p else 0)"
    using r by (simp add: pgs_spend_def sum_filter_if) (simp add: retire_row_def)
  have find: "find (\<lambda>x. pq_id x = q) (proposals db') = map_option (move_row now pid target)
      (find (\<lambda>x. pq_id x = q) (proposals db))" for q
    unfolding ps by (rule find_map_keep) simp
  have others: "pgs_state q db' = pgs_state q db" "pgs_amount q db' = pgs_amount q db" if "q \<noteq> pid" for q
  proof -
    have "pq_id x \<noteq> pid" if "find (\<lambda>x. pq_id x = q) (proposals db) = Some x" for x
      using find_Some_mem [OF that] \<open>q \<noteq> pid\<close> by simp
    then show "pgs_state q db' = pgs_state q db" "pgs_amount q db' = pgs_amount q db"
      unfolding pgs_state_def pgs_amount_def find
      by (cases "find (\<lambda>x. pq_id x = q) (proposals db)"; simp)+
  qed
  have "state_tables_ok db'"
    using ok row_linked_transition [OF ok p] unfolding state_tables_ok_def ps rs
    by (auto simp: comp_def image_image)
  with spend others p(3) p'(1) st find show ?thesis
    using p(2) by (simp add: pgs_state_def pgs_amount_def)
qed

abbreviation "pg_reserve e \<equiv> pgs_reserve (fst e) (fst (snd e)) (snd (snd e))"
abbreviation "pg_admits e (p :: ProposalV1) (db :: state_tables) \<equiv> True"

lemma pg_reserve_Inr:
  assumes "pg_reserve e p policy db = Inr x"
  obtains P a where "reserve_once P a p policy db = Inr x"
  using assms reserve_attempts_Inr unfolding pgs_reserve_def by blast

lemma pg_reserve_law:
  assumes ok: "state_tables_ok db" and valid: "valid_proposal p" and res: "pg_reserve e p policy db = Inr ((r, True), db')"
  shows "state_tables_ok db' \<and> pgs_state (pr_proposal_id p) db = None \<and>
      pgs_state (pr_proposal_id p) db' \<in> {Some RESERVED, Some DENIED} \<and>
      pgs_amount (pr_proposal_id p) db' = pr_amount p \<and> pgs_spend db' = pgs_spend db \<and>
      (\<forall>q. q \<noteq> pr_proposal_id p \<longrightarrow> pgs_state q db' = pgs_state q db \<and> pgs_amount q db' = pgs_amount q db)"
proof -
  from res obtain P a where "reserve_once P a p policy db = Inr ((r, True), db')" by (rule pg_reserve_Inr)
  then obtain h reasons where new: "\<forall>q \<in> set (proposals db). pq_id q \<noteq> pr_proposal_id p"
    and ps: "proposals db' = proposals db @ [proposal_row (pa_now a) h p reasons]"
    and rs: "reasons = [] \<longrightarrow> reservations db' = reservations db @ [active_row (pa_now a) (pa_uuid a) p]"
      "reasons \<noteq> [] \<longrightarrow> reservations db' = reservations db"
    by (rule reserve_once_created)
  have none: "find (\<lambda>q. pq_id q = pr_proposal_id p) (proposals db) = None" using new by (simp add: find_None_iff)
  have find: "find (\<lambda>x. pq_id x = q) (proposals db') = (if q = pr_proposal_id p
      then Some (proposal_row (pa_now a) h p reasons) else find (\<lambda>x. pq_id x = q) (proposals db))" for q
    unfolding ps find_append using none by (auto simp: proposal_row_def split: option.split)
  have "pgs_spend db' = pgs_spend db"
    using rs by (cases "reasons = []") (simp_all add: pgs_spend_def active_row_def)
  with pgs_ok_created [OF ok valid new ps rs] none find show ?thesis
    by (simp add: pgs_state_def pgs_amount_def proposal_row_def)
qed

interpretation postgres: lifecycle_store state_tables_ok pgs_state pgs_amount pgs_held pgs_spend
  pg_reserve pgs_transition pg_admits state_tables_init
proof unfold_locales
  fix db e p policy r db'
  assume "pg_reserve e p policy db = Inr ((r, False), db')"
  then show "db' = db" by (elim pg_reserve_Inr) (rule reserve_once_replay)
next
  show "state_tables_ok state_tables_init \<and> (\<forall>p. pgs_state p state_tables_init = None) \<and> pgs_spend state_tables_init = 0"
    using state_tables_ok_init by (simp add: pgs_state_def pgs_spend_def state_tables_init_def)
qed (rule pg_reserve_law pgs_transition_law pgs_held_iff; assumption)+

section \<open>Sliding windows\<close>

definition in_pg_window :: "int \<Rightarrow> time \<Rightarrow> reservations_row \<Rightarrow> bool" where
  "in_pg_window w \<tau> r \<longleftrightarrow> counted_row r \<and> \<tau> - seconds w \<le> rr_created_at r \<and> rr_created_at r \<le> \<tau>"

definition pg_total :: "(reservations_row \<Rightarrow> int) \<Rightarrow> scope \<Rightarrow> int \<Rightarrow> time \<Rightarrow> state_tables \<Rightarrow> int" where
  "pg_total f sc w \<tau> db = (\<Sum>r\<leftarrow>filter (in_pg_window w \<tau>) (scope_join sc db). f r)"

lemma scope_join_created:
  assumes ok: "state_tables_ok db" and new: "\<forall>q \<in> set (proposals db). pq_id q \<noteq> pr_proposal_id p"
    and ps: "proposals db' = proposals db @ [proposal_row now h p reasons]"
    and rs: "reasons = [] \<longrightarrow> reservations db' = reservations db @ [active_row now rid p]"
      "reasons \<noteq> [] \<longrightarrow> reservations db' = reservations db"
  shows "scope_join sc db' = scope_join sc db @
    (if reasons = [] \<and> prop_scope p = sc then [active_row now rid p] else [])"
proof -
  have row: "pq_id (proposal_row now h p reasons) = pr_proposal_id p"
    "row_scope (proposal_row now h p reasons) = prop_scope p"
    "rr_proposal_id (active_row now rid p) = pr_proposal_id p"
    by (simp_all add: proposal_row_def row_scope_def prop_scope_def active_row_def)
  have "filter (\<lambda>r. list_ex (\<lambda>q. pq_id q = rr_proposal_id r \<and> row_scope q = sc) (proposals db')) (reservations db) =
      scope_join sc db"
    unfolding scope_join_def ps
    by (rule filter_cong) (use reservation_fk [OF ok] new row in \<open>fastforce simp: list_ex_iff\<close>)+
  with rs row new show ?thesis
    unfolding scope_join_def ps by (cases "reasons = []") (auto simp: list_ex_iff)
qed

lemma scope_join_transition:
  assumes "proposals db' = map (move_row now pid target) (proposals db)"
    "reservations db' = map (retire_row now pid target) (reservations db)"
  shows "scope_join sc db' = map (retire_row now pid target) (scope_join sc db)"
  by (simp add: scope_join_def assms filter_map comp_def list_ex_iff)

lemma scope_join_rows: "state_tables_ok db \<Longrightarrow> r \<in> set (scope_join sc db) \<Longrightarrow> 0 < rr_amount r"
  by (auto simp: scope_join_def state_tables_ok_def)

lemma counted_retire_row: "counted_row (retire_row now pid t r) \<Longrightarrow> counted_row r"
  by (auto simp: counted_row_def retire_row_def split: if_splits)

lemma pg_total_transition:
  assumes "state_tables_ok db" "pgs_transition now pid target db = Inr (r, db')"
    and "\<And>r. f (retire_row now pid target r) = f r" "\<And>r. 0 < rr_amount r \<Longrightarrow> 0 \<le> f r"
  shows "pg_total f sc w \<tau> db' \<le> pg_total f sc w \<tau> db"
proof -
  obtain p where eqs: "proposals db' = map (move_row now pid target) (proposals db)"
    "reservations db' = map (retire_row now pid target) (reservations db)"
    using pgs_transition_Inr [OF assms(2,1)] by blast
  have "in_pg_window w \<tau> r" if "in_pg_window w \<tau> (retire_row now pid target r)" for r
    using that counted_retire_row by (auto simp: in_pg_window_def)
  then show ?thesis
    unfolding pg_total_def sum_filter_if scope_join_transition [OF eqs] map_map comp_def
    using scope_join_rows [OF assms(1), of _ sc] assms(3,4) by (intro sum_list_le) auto
qed

lemma pg_total_reserve:
  assumes ok: "state_tables_ok db" and res: "reserve_once P a p policy db = Inr ((r, True), db')"
    and pos: "\<And>r. 0 < rr_amount r \<Longrightarrow> 0 \<le> f r" and old: "pg_total f sc w \<tau> db \<le> A"
    and guard: "scope_reasons (pa_clock a) (pa_now a) p policy db = [] \<Longrightarrow>
      (\<Sum>r\<leftarrow>pg_window (pa_now a) w (prop_scope p) db. f r) + f (active_row (pa_now a) (pa_uuid a) p) \<le> A"
  shows "pg_total f sc w \<tau> db' \<le> A"
proof -
  from res obtain h reasons where reasons: "reasons = scope_reasons (pa_clock a) (pa_now a) p policy db"
    and new: "\<forall>q \<in> set (proposals db). pq_id q \<noteq> pr_proposal_id p"
    and ps: "proposals db' = proposals db @ [proposal_row (pa_now a) h p reasons]"
    and rs: "reasons = [] \<longrightarrow> reservations db' = reservations db @ [active_row (pa_now a) (pa_uuid a) p]"
      "reasons \<noteq> [] \<longrightarrow> reservations db' = reservations db"
    by (rule reserve_once_created)
  let ?new = "active_row (pa_now a) (pa_uuid a) p"
  note join = scope_join_created [OF ok new ps rs, of sc]
  show ?thesis
  proof (cases "reasons = [] \<and> prop_scope p = sc \<and> in_pg_window w \<tau> ?new")
    case True
    then have late: "pa_now a \<le> \<tau>" by (simp add: in_pg_window_def active_row_def)
    have "pg_total f sc w \<tau> db \<le> (\<Sum>r\<leftarrow>pg_window (pa_now a) w sc db. f r)"
      unfolding pg_total_def pg_window_def sum_filter_if
      using scope_join_rows [OF ok, of _ sc] pos late by (intro sum_list_le) (auto simp: in_pg_window_def)
    moreover have "pg_total f sc w \<tau> db' = pg_total f sc w \<tau> db + f ?new"
      using True join by (simp add: pg_total_def)
    ultimately show ?thesis using guard True reasons by simp
  next
    case False
    then have "pg_total f sc w \<tau> db' = pg_total f sc w \<tau> db" using join by (auto simp: pg_total_def)
    with old show ?thesis by simp
  qed
qed

abbreviation "pg_reaches Q \<equiv> lifecycle_reachable Q pg_reserve pgs_transition pg_admits state_tables_init"

lemma pg_reaches_ok: "pg_reaches Q db \<Longrightarrow> state_tables_ok db"
  using postgres.refines by blast

lemma pg_reaches_total:
  assumes "pg_reaches Q db" "0 \<le> A"
    and f: "\<And>now pid t r. f (retire_row now pid t r) = f r" "\<And>r. 0 < rr_amount r \<Longrightarrow> 0 \<le> f r"
    and guard: "\<And>(a :: attempt) (p :: ProposalV1) policy (db :: state_tables). Q policy \<Longrightarrow> scope_reasons (pa_clock a) (pa_now a) p policy db = [] \<Longrightarrow>
      (\<Sum>r\<leftarrow>pg_window (pa_now a) w (prop_scope p) db. f r) + f (active_row (pa_now a) (pa_uuid a) p) \<le> A"
  shows "pg_total f sc w \<tau> db \<le> A"
  using assms(1)
proof (induction rule: lifecycle_reachable.induct)
  case starting
  then show ?case using assms(2) by (simp add: pg_total_def scope_join_def state_tables_init_def)
next
  case (reserving db e p policy r db')
  obtain rec created where r: "r = (rec, created)" by (cases r)
  obtain P a where once: "reserve_once P a p policy db = Inr ((rec, created), db')"
    using reserving.hyps(5) pg_reserve_Inr unfolding r by blast
  note ok = pg_reaches_ok [OF reserving.hyps(1)]
  show ?case
  proof (cases created)
    case True
    with once have created: "reserve_once P a p policy db = Inr ((rec, True), db')" by simp
    show ?thesis
    proof (rule pg_total_reserve [OF ok created f(2) reserving.IH])
      assume "scope_reasons (pa_clock a) (pa_now a) p policy db = []"
      from guard [OF reserving.hyps(4) this] show "(\<Sum>r\<leftarrow>pg_window (pa_now a) w (prop_scope p) db. f r) +
        f (active_row (pa_now a) (pa_uuid a) p) \<le> A" .
    qed
  next
    case False
    with once have "reserve_once P a p policy db = Inr ((rec, False), db')" by simp
    then have "db' = db" by (rule reserve_once_replay)
    with reserving.IH show ?thesis by simp
  qed
next
  case (moving db now pid target r db')
  have "pg_total f sc w \<tau> db' \<le> pg_total f sc w \<tau> db"
    using pg_total_transition [OF pg_reaches_ok [OF moving.hyps(1)] moving.hyps(2), of f] f by simp
  with moving.IH show ?case by simp
qed

lemma scope_reasons_Nil:
  assumes "scope_reasons clk now p policy db = []"
  shows "cap \<in> set (po_rolling_caps policy) \<Longrightarrow>
      sum_list (map rr_amount (pg_window now (cap_window_seconds cap) (prop_scope p) db)) + pr_amount p \<le> cap_amount cap"
    and "int (length (pg_window now 3600 (prop_scope p) db)) + 1 \<le> po_maximum_transactions_per_hour policy"
  using assms by (auto simp: scope_reasons_def Let_def list_ex_iff not_less split: if_splits)

lemma reserve_attempts_skip:
  "\<forall>a \<in> set xs. pa_abort a \<in> {Some SerializationFailure, Some DeadlockDetected} \<Longrightarrow> ys \<noteq> [] \<Longrightarrow>
     reserve_attempts P (xs @ ys) p policy db = reserve_attempts P ys p policy db"
  by (induction xs) auto

section \<open>A reservation\<close>

definition sample_attempt :: attempt where
  "sample_attempt = \<lparr>pa_abort = None, pa_clock = seconds 10, pa_now = seconds 10, pa_uuid = 7\<rparr>"

lemma sample_scope_reasons:
  "scope_reasons (seconds 10) (seconds 10) sample_transfer sample_policy state_tables_init = []"
  by code_simp

lemma sample_pg_reserve:
  "\<exists>r db. reserve_once prims sample_attempt sample_transfer sample_policy state_tables_init = Inr ((r, True), db) \<and>
     reservations db = [active_row (seconds 10) 7 sample_transfer] \<and> pgs_state (pr_proposal_id sample_transfer) db = Some RESERVED"
proof -
  obtain h where h: "proposal_hash prims sample_transfer = Inr h"
    using proposal_hash_stdlib [of prims sample_transfer] by (auto simp: prims_def)
  have small: "pr_chain_id sample_transfer < 2 ^ 63" "pr_amount sample_transfer < 10 ^ 78" by code_simp+
  show ?thesis
    using h small sample_scope_reasons sample_transfer_valid
    by (simp add: reserve_once_def sample_attempt_def valid_proposal_def)
      (simp add: state_tables_init_def insert_proposal_def insert_reservation_def reread_def
        pgs_record_def pgs_state_def proposal_row_def)
qed

lemma sample_pg_reaches:
  assumes "Q sample_policy"
  shows "\<exists>db. pg_reaches Q db \<and> reservations db = [active_row (seconds 10) 7 sample_transfer] \<and>
    pgs_state (pr_proposal_id sample_transfer) db = Some RESERVED"
proof -
  obtain r db where db: "reserve_once prims sample_attempt sample_transfer sample_policy state_tables_init = Inr ((r, True), db)"
    "reservations db = [active_row (seconds 10) 7 sample_transfer]"
    "pgs_state (pr_proposal_id sample_transfer) db = Some RESERVED"
    using sample_pg_reserve by blast
  have step: "pg_reserve (prims, 1, \<lambda>_. sample_attempt) sample_transfer sample_policy state_tables_init = Inr ((r, True), db)"
    using db(1) by (simp add: pgs_reserve_def) (simp add: sample_attempt_def)
  have start: "pg_reaches Q state_tables_init" by (rule lifecycle_reachable.starting)
  have "pg_reaches Q db" by (rule lifecycle_reachable.reserving [OF start TrueI sample_transfer_valid assms step])
  with db show ?thesis by blast
qed

section \<open>Properties\<close>



text \<open>C24. In PostgreSQL the active and settled reservations of a scope made within any closed
  interval as long as a rolling cap's window never exceed the cap's amount, when every policy
  that reservations were made under has that cap. Nothing is assumed of the order of the
  transactions' clocks.\<close>

theorem postgres_rolling_cap:
  assumes "pg_reaches (\<lambda>policy. cap \<in> set (po_rolling_caps policy)) db" "0 \<le> cap_amount cap"
  shows "(\<Sum>r\<leftarrow>filter (\<lambda>r. counted_row r \<and> \<tau> - seconds (cap_window_seconds cap) \<le> rr_created_at r \<and> rr_created_at r \<le> \<tau>)
      (scope_join sc db). rr_amount r) \<le> cap_amount cap"
proof -
  have "pg_total rr_amount sc (cap_window_seconds cap) \<tau> db \<le> cap_amount cap"
    by (rule pg_reaches_total [OF assms])
      (use scope_reasons_Nil(1) in \<open>simp_all add: active_row_def\<close>)
  then show ?thesis by (simp add: pg_total_def in_pg_window_def [abs_def])
qed

theorem postgres_rolling_cap_witness:
  "\<exists>db. reservations db = [active_row (seconds 10) 7 sample_transfer] \<and>
     (\<Sum>r\<leftarrow>filter (\<lambda>r. counted_row r \<and> seconds 20 - seconds 3600 \<le> rr_created_at r \<and> rr_created_at r \<le> seconds 20)
       (scope_join (prop_scope sample_transfer) db). rr_amount r) \<le> 100"
proof -
  let ?cap = "\<lparr>cap_window_seconds = 3600, cap_amount = 100\<rparr>"
  have "?cap \<in> set (po_rolling_caps sample_policy)" by (simp add: sample_policy_def)
  from sample_pg_reaches [of "\<lambda>policy. ?cap \<in> set (po_rolling_caps policy)", OF this] obtain db where
    db: "pg_reaches (\<lambda>policy. ?cap \<in> set (po_rolling_caps policy)) db"
      "reservations db = [active_row (seconds 10) 7 sample_transfer]"
    by (elim exE conjE)
  have "0 \<le> cap_amount ?cap" by simp
  from postgres_rolling_cap [OF db(1) this, of "seconds 20" "prop_scope sample_transfer"]
  show ?thesis by (intro exI [of _ db] conjI db(2)) simp
qed

text \<open>Retries. \<open>reserve\<close> returns what the first attempt that PostgreSQL does not abort returns,
  when the aborts before it are serialization failures and deadlocks and it is among the first
  \<open>serialization_retries\<close> attempts; when all of them are aborted it raises the last abort.\<close>

theorem postgres_reserve_retries:
  assumes "\<forall>i < k. pa_abort (env i) \<in> {Some SerializationFailure, Some DeadlockDetected}"
  shows "(k < retries \<and> pa_abort (env k) = None \<longrightarrow>
      pgs_reserve P retries env p policy db = reserve_once P (env k) p policy db) \<and>
    (retries = Suc k \<and> pa_abort (env k) = Some e \<longrightarrow> pgs_reserve P retries env p policy db = Inl e)"
proof -
  have split: "map env [0..<n] = map env [0..<k] @ env k # map env [Suc k..<n]" if "k < n" for n
    using that by (metis upt_conv_Cons upt_add_eq_append zero_le le_add_diff_inverse less_imp_le_nat list.simps(9) map_append)
  have skip: "pgs_reserve P n env p policy db = reserve_attempts P (env k # map env [Suc k..<n]) p policy db"
    if "k < n" for n
    unfolding pgs_reserve_def split [OF that] by (rule reserve_attempts_skip) (use assms in auto)
  show ?thesis using skip [of retries] by auto
qed

theorem postgres_reserve_retries_witness:
  "pgs_reserve prims 3 (\<lambda>i. sample_attempt\<lparr>pa_abort := if i = 0 then Some DeadlockDetected else None\<rparr>)
     sample_transfer sample_policy state_tables_init =
   reserve_once prims sample_attempt sample_transfer sample_policy state_tables_init"
  using postgres_reserve_retries [of 1 "\<lambda>i. sample_attempt\<lparr>pa_abort := if i = 0 then Some DeadlockDetected else None\<rparr>" 3]
  by (simp add: sample_attempt_def)

end
