(* ===== verification/Eip1559.thy ===== *)
theory Eip1559
  imports Prelude
begin

text \<open>
  The codec of \<open>src/aegisledger/eip1559.py\<close>: the RLP decoder \<open>_decode_rlp\<close> with its
  helpers, the decoder and encoder of unsigned type-2 transactions. Byte offsets are
  natural numbers into the whole input, as in the source. The decoder's \<open>while\<close> loop over
  the items of a list is a fuelled function whose fuel is the length of the input:
  every item takes at least one byte, so it never runs out (\<open>decode_rlp_fuel\<close>).

  Shown here: what the decoder accepts is exactly the canonical encoding of what it
  returns, the encoder's output decodes to its input, and therefore two payloads that
  decode to the same transaction are the same bytes.
\<close>

section \<open>The code\<close>

definition MAX_TRANSACTION_BYTES :: nat where
  "MAX_TRANSACTION_BYTES = 128 * 1024"

definition MAX_RLP_DEPTH :: nat where
  "MAX_RLP_DEPTH = 4"

record UnsignedEip1559 =
  raw_chain_id :: int
  raw_nonce :: int
  raw_max_priority_fee_per_gas :: int
  raw_max_fee_per_gas :: int
  raw_gas_limit :: int
  raw_to :: string
  raw_value :: int
  raw_calldata :: string

datatype rlp = RBytes bytes | RList "rlp list"

text \<open>\<open>data[start:stop]\<close>\<close>

definition slice :: "'a list \<Rightarrow> nat \<Rightarrow> nat \<Rightarrow> 'a list" where
  "slice xs i j = take (j - i) (drop i xs)"

definition read_length :: "bytes \<Rightarrow> nat \<Rightarrow> nat \<Rightarrow> (nat \<times> nat) res" where
  "read_length data offset length_size =
     (let stop = offset + length_size in
      if length_size = 0 \<or> stop > length data \<or> data ! offset = 0
      then Inl (Eip1559DecodeError ''invalid RLP length'')
      else Inr (be_nat (slice data offset stop), stop))"

fun rlp_items ::
  "(nat \<Rightarrow> (rlp \<times> nat) res) \<Rightarrow> nat \<Rightarrow> nat \<Rightarrow> nat \<Rightarrow> rlp list \<Rightarrow> (rlp list \<times> nat) res" where
  "rlp_items item 0 cursor stop items =
     (if cursor < stop then Inl OutOfFuel else Inr (items, cursor))"
| "rlp_items item (Suc fuel) cursor stop items =
     (if cursor < stop then
        rbind (item cursor) (\<lambda>(v, cursor').
          if cursor' > stop then Inl (Eip1559DecodeError ''RLP child exceeds its list'')
          else rlp_items item fuel cursor' stop (items @ [v]))
      else Inr (items, cursor))"

function decode_rlp :: "bytes \<Rightarrow> nat \<Rightarrow> nat \<Rightarrow> (rlp \<times> nat) res" where
  "decode_rlp data offset depth =
     (if offset \<ge> length data then Inl (Eip1559DecodeError ''truncated RLP item'')
      else if depth > MAX_RLP_DEPTH then Inl (Eip1559DecodeError ''RLP nesting is too deep'')
      else let prefix = unat (data ! offset) in
      if prefix \<le> 0x7F then Inr (RBytes [data ! offset], offset + 1)
      else if prefix \<le> 0xB7 then
        (let len = prefix - 0x80; start = offset + 1; stop = start + len in
         if stop > length data then Inl (Eip1559DecodeError ''truncated RLP string'')
         else if len = 1 \<and> data ! start < 0x80 then
           Inl (Eip1559DecodeError ''non-canonical RLP string'')
         else Inr (RBytes (slice data start stop), stop))
      else if prefix \<le> 0xBF then
        rbind (read_length data (offset + 1) (prefix - 0xB7)) (\<lambda>(len, start).
          if len < 56 then Inl (Eip1559DecodeError ''non-canonical long RLP string'')
          else let stop = start + len in
            if stop > length data then Inl (Eip1559DecodeError ''truncated long RLP string'')
            else Inr (RBytes (slice data start stop), stop))
      else
        rbind
          (if prefix \<le> 0xF7 then Inr (prefix - 0xC0, offset + 1)
           else rbind (read_length data (offset + 1) (prefix - 0xF7)) (\<lambda>(len, start).
             if len < 56 then Inl (Eip1559DecodeError ''non-canonical long RLP list'')
             else Inr (len, start)))
          (\<lambda>(len, start).
            let stop = start + len in
            if stop > length data then Inl (Eip1559DecodeError ''truncated RLP list'')
            else rbind
              (rlp_items (\<lambda>cursor. decode_rlp data cursor (depth + 1)) (length data) start stop [])
              (\<lambda>(items, cursor).
                if cursor \<noteq> stop then Inl (Eip1559DecodeError ''invalid RLP list length'')
                else Inr (RList items, stop))))"
  by pat_completeness auto
termination
  by (relation "measure (\<lambda>(data, offset, depth). Suc MAX_RLP_DEPTH - depth)") auto

declare decode_rlp.simps [simp del]

definition rlp_integer :: "rlp \<Rightarrow> string \<Rightarrow> int res" where
  "rlp_integer v name =
     (case v of
        RList _ \<Rightarrow> Inl (Eip1559DecodeError (name @ '' must be an RLP byte string''))
      | RBytes bs \<Rightarrow>
          if bs \<noteq> [] \<and> hd bs = 0
          then Inl (Eip1559DecodeError (name @ '' has a non-canonical leading zero''))
          else Inr (int (be_nat bs)))"

definition decode_fields :: "rlp list \<Rightarrow> UnsignedEip1559 res" where
  "decode_fields transaction =
     (case transaction of
        [chain_id, nonce, priority_fee, max_fee, gas_limit, to, value, calldata, access_list] \<Rightarrow>
          (case to of
             RList _ \<Rightarrow>
               Inl (Eip1559DecodeError ''contract creation and malformed targets are not authorized'')
           | RBytes to_bytes \<Rightarrow>
               if length to_bytes \<noteq> 20 then
                 Inl (Eip1559DecodeError ''contract creation and malformed targets are not authorized'')
               else (case calldata of
                 RList _ \<Rightarrow> Inl (Eip1559DecodeError ''calldata must be an RLP byte string'')
               | RBytes calldata_bytes \<Rightarrow>
                   if access_list \<noteq> RList [] then
                     Inl (Eip1559DecodeError ''access lists are not authorized'')
                   else
                     rbind (rlp_integer chain_id ''chain_id'') (\<lambda>c.
                     rbind (rlp_integer nonce ''nonce'') (\<lambda>n.
                     rbind (rlp_integer priority_fee ''max_priority_fee_per_gas'') (\<lambda>p.
                     rbind (rlp_integer max_fee ''max_fee_per_gas'') (\<lambda>m.
                     rbind (rlp_integer gas_limit ''gas_limit'') (\<lambda>g.
                     rbind (rlp_integer value ''value'') (\<lambda>v.
                     if c \<le> 0 \<or> g \<le> 0 \<or> m \<le> 0 then
                       Inl (Eip1559DecodeError ''chain, gas limit, and maximum fee must be positive'')
                     else if p > m then Inl (Eip1559DecodeError ''priority fee exceeds maximum fee'')
                     else Inr \<lparr>raw_chain_id = c, raw_nonce = n,
                       raw_max_priority_fee_per_gas = p, raw_max_fee_per_gas = m,
                       raw_gas_limit = g, raw_to = ''0x'' @ bytes_hex to_bytes,
                       raw_value = v, raw_calldata = ''0x'' @ bytes_hex calldata_bytes\<rparr>))))))))
      | _ \<Rightarrow> Inl (Eip1559DecodeError ''type-2 transaction must contain exactly nine fields''))"

definition decode_unsigned_eip1559 :: "string \<Rightarrow> UnsignedEip1559 res" where
  "decode_unsigned_eip1559 payload =
     (if \<not> startswith payload ''0x02'' \<or> odd (length payload)
      then Inl (Eip1559DecodeError ''payload must be an even-length 0x02 hex value'')
      else case bytes_fromhex (drop 2 payload) of
        None \<Rightarrow> Inl (Eip1559DecodeError ''payload contains invalid hexadecimal data'')
      | Some encoded \<Rightarrow>
          if length encoded > MAX_TRANSACTION_BYTES
          then Inl (Eip1559DecodeError ''payload exceeds the transaction size limit'')
          else rbind (decode_rlp encoded 1 0) (\<lambda>(transaction, cursor).
            if cursor \<noteq> length encoded
            then Inl (Eip1559DecodeError ''payload contains trailing bytes'')
            else case transaction of
              RBytes _ \<Rightarrow>
                Inl (Eip1559DecodeError ''type-2 transaction must contain exactly nine fields'')
            | RList items \<Rightarrow> decode_fields items))"

text \<open>\<open>bytes([n])\<close> raises \<open>ValueError\<close> unless \<open>n\<close> is a byte.\<close>

definition one_byte :: "nat \<Rightarrow> bytes res" where
  "one_byte n = (if n < 256 then Inr [word_of_nat n]
                 else Inl (ValueError ''bytes must be in range(0, 256)''))"

definition encode_bytes :: "bytes \<Rightarrow> bytes res" where
  "encode_bytes value =
     (if length value = 1 \<and> hd value < 0x80 then Inr value
      else if length value < 56 then
        rbind (one_byte (0x80 + length value)) (\<lambda>h. Inr (h @ value))
      else let len = nat_be (length value) in
        rbind (one_byte (0xB7 + length len)) (\<lambda>h. Inr (h @ len @ value)))"

definition encode_integer :: "int \<Rightarrow> bytes res" where
  "encode_integer value =
     (if value < 0 then Inl (ValueError ''EIP-1559 integers cannot be negative'')
      else encode_bytes (nat_be (nat value)))"

definition encode_list :: "bytes list \<Rightarrow> bytes res" where
  "encode_list items =
     (let payload = concat items in
      if length payload < 56 then
        rbind (one_byte (0xC0 + length payload)) (\<lambda>h. Inr (h @ payload))
      else let len = nat_be (length payload) in
        rbind (one_byte (0xF7 + length len)) (\<lambda>h. Inr (h @ len @ payload)))"

definition encode_unsigned_eip1559 ::
  "int \<Rightarrow> int \<Rightarrow> int \<Rightarrow> int \<Rightarrow> int \<Rightarrow> string \<Rightarrow> int \<Rightarrow> string \<Rightarrow> string res" where
  "encode_unsigned_eip1559 chain_id nonce max_priority_fee_per_gas max_fee_per_gas gas_limit
       to value calldata =
     (if \<not> startswith to ''0x'' \<or> length to \<noteq> 42
      then Inl (ValueError ''EIP-1559 target must be a 20-byte 0x-prefixed address'')
      else if \<not> startswith calldata ''0x'' \<or> odd (length calldata)
      then Inl (ValueError ''EIP-1559 calldata must be even-length 0x-prefixed hexadecimal data'')
      else case (bytes_fromhex (drop 2 to), bytes_fromhex (drop 2 calldata)) of
        (Some target_bytes, Some calldata_bytes) \<Rightarrow>
          if chain_id \<le> 0 \<or> gas_limit \<le> 0 \<or> max_fee_per_gas \<le> 0
          then Inl (ValueError ''chain, gas limit, and maximum fee must be positive'')
          else if max_priority_fee_per_gas > max_fee_per_gas
          then Inl (ValueError ''priority fee exceeds maximum fee'')
          else
            rbind (encode_integer chain_id) (\<lambda>e1.
            rbind (encode_integer nonce) (\<lambda>e2.
            rbind (encode_integer max_priority_fee_per_gas) (\<lambda>e3.
            rbind (encode_integer max_fee_per_gas) (\<lambda>e4.
            rbind (encode_integer gas_limit) (\<lambda>e5.
            rbind (encode_bytes target_bytes) (\<lambda>e6.
            rbind (encode_integer value) (\<lambda>e7.
            rbind (encode_bytes calldata_bytes) (\<lambda>e8.
            rbind (encode_list []) (\<lambda>e9.
            rbind (encode_list [e1, e2, e3, e4, e5, e6, e7, e8, e9]) (\<lambda>body.
            let encoded = 0x02 # body in
            if length encoded > MAX_TRANSACTION_BYTES
            then Inl (ValueError ''encoded EIP-1559 transaction exceeds the size limit'')
            else Inr (''0x'' @ bytes_hex encoded)))))))))))
      | _ \<Rightarrow> Inl (ValueError ''EIP-1559 target or calldata contains invalid hex''))"

text \<open>The encoder applied to the fields of a decoded transaction.\<close>

definition encode_tx :: "UnsignedEip1559 \<Rightarrow> string res" where
  "encode_tx t = encode_unsigned_eip1559 (raw_chain_id t) (raw_nonce t)
     (raw_max_priority_fee_per_gas t) (raw_max_fee_per_gas t) (raw_gas_limit t)
     (raw_to t) (raw_value t) (raw_calldata t)"

section \<open>The canonical encoding as a total function\<close>

text \<open>
  The reference the codec is compared with: the header of an item from the length of its
  payload, and the encoding of a value by recursion on it.
\<close>

definition rlp_header :: "nat \<Rightarrow> nat \<Rightarrow> bytes" where
  "rlp_header base n = (if n < 56 then [word_of_nat (base + n)]
     else word_of_nat (base + 55 + length (nat_be n)) # nat_be n)"

definition rlp_string :: "bytes \<Rightarrow> bytes" where
  "rlp_string v = (if length v = 1 \<and> hd v < 0x80 then v else rlp_header 0x80 (length v) @ v)"

fun rlp_encode :: "rlp \<Rightarrow> bytes" where
  "rlp_encode (RBytes v) = rlp_string v"
| "rlp_encode (RList vs) =
     rlp_header 0xC0 (length (concat (map rlp_encode vs))) @ concat (map rlp_encode vs)"

text \<open>The length of every string and payload inside a value fits in the eight bytes of a
  long header.\<close>

fun rlp_small :: "rlp \<Rightarrow> bool" where
  "rlp_small (RBytes v) \<longleftrightarrow> length v < 256 ^ 8"
| "rlp_small (RList vs) \<longleftrightarrow>
     length (concat (map rlp_encode vs)) < 256 ^ 8 \<and> list_all rlp_small vs"

fun rlp_depth :: "rlp \<Rightarrow> nat" where
  "rlp_depth (RBytes v) = 0"
| "rlp_depth (RList vs) = Suc (fold max (map rlp_depth vs) 0)"

lemma encode_bytes_eq: "length v < 256 ^ 8 \<Longrightarrow> encode_bytes v = Inr (rlp_string v)"
  using length_nat_be_le [of "length v" 8]
  by (auto simp: encode_bytes_def rlp_string_def rlp_header_def one_byte_def Let_def)

lemma encode_list_eq:
  "length (concat es) < 256 ^ 8 \<Longrightarrow>
     encode_list es = Inr (rlp_header 0xC0 (length (concat es)) @ concat es)"
  using length_nat_be_le [of "length (concat es)" 8]
  by (auto simp: encode_list_def rlp_header_def one_byte_def Let_def)

lemma rlp_header_nonempty [simp]: "rlp_header b n \<noteq> []"
  by (simp add: rlp_header_def)

lemma rlp_encode_nonempty [simp]: "rlp_encode v \<noteq> []"
  by (cases v) (auto simp: rlp_string_def)

section \<open>The decoder accepts canonical encodings only\<close>

text \<open>At \<open>offset\<close> the input holds the canonical encoding of \<open>v\<close>, which ends at \<open>stop\<close>.\<close>

definition reads :: "bytes \<Rightarrow> nat \<Rightarrow> rlp \<Rightarrow> nat \<Rightarrow> bool" where
  "reads data offset v stop \<longleftrightarrow> offset < stop \<and> stop \<le> length data \<and>
     drop offset data = rlp_encode v @ drop stop data"

lemma drop_slice:
  assumes "i \<le> j" "j \<le> length xs"
  shows "drop i xs = slice xs i j @ drop j xs"
proof -
  have "drop (j - i) (drop i xs) = drop j xs" using assms(1) by simp
  then show ?thesis unfolding slice_def by (metis append_take_drop_id)
qed

lemma length_slice: "j \<le> length xs \<Longrightarrow> length (slice xs i j) = j - i"
  by (simp add: slice_def)

lemma word_of_nat_unat_byte: "n = unat (b :: byte) \<Longrightarrow> word_of_nat n = b"
  by simp

lemma read_length_sound:
  assumes "read_length data off k = Inr (len, start)"
  shows "start = off + k" "start \<le> length data" "length (nat_be len) = k"
    "drop off data = nat_be len @ drop start data"
proof -
  from assms show s: "start = off + k" and le: "start \<le> length data"
    by (auto simp: read_length_def Let_def split: if_splits)
  from assms have k: "0 < k" and z: "data ! off \<noteq> 0" and len: "len = be_nat (slice data off start)"
    by (auto simp: read_length_def Let_def split: if_splits)
  have l: "length (slice data off start) = k" using s le by (simp add: length_slice)
  have "hd (slice data off start) = data ! off"
    using k s le by (simp add: slice_def hd_drop_conv_nth)
  then have "nat_be len = slice data off start"
    using z by (simp add: len nat_be_be_nat)
  with l show "length (nat_be len) = k" by simp
  show "drop off data = nat_be len @ drop start data"
    using drop_slice [of off start data] \<open>nat_be len = slice data off start\<close> s le by simp
qed

lemma short_header:
  assumes "off < length data" "unat (data ! off) = base + n" "n < 56"
  shows "drop off data = rlp_header base n @ drop (off + 1) data"
proof -
  have "word_of_nat (base + n) = data ! off" using assms(2) by (intro word_of_nat_unat_byte) simp
  then show ?thesis using assms(1,3) by (simp add: rlp_header_def Cons_nth_drop_Suc del: of_nat_add)
qed

lemma long_header:
  assumes "off < length data" "unat (data ! off) = base + 55 + k"
    and "read_length data (off + 1) k = Inr (n, start)" "\<not> n < 56"
  shows "drop off data = rlp_header base n @ drop start data"
proof -
  note r = read_length_sound [OF assms(3)]
  have "rlp_header base n = data ! off # nat_be n"
    using assms(2,4) r(3) word_of_nat_unat_byte [of "base + 55 + k" "data ! off"]
    by (simp add: rlp_header_def del: of_nat_add)
  moreover have "drop off data = data ! off # drop (off + 1) data"
    using assms(1) by (simp add: Cons_nth_drop_Suc)
  ultimately show ?thesis using r(4) by simp
qed

lemma rlp_items_sound:
  assumes "rlp_items item fuel cursor stop acc = Inr (items, cursor')"
    and "cursor \<le> stop"
    and "\<And>c v c'. item c = Inr (v, c') \<Longrightarrow> reads data c v c'"
  shows "cursor' = stop \<and> (\<exists>vs. items = acc @ vs \<and>
     drop cursor data = concat (map rlp_encode vs) @ drop stop data)"
  using assms(1,2)
proof (induction fuel arbitrary: cursor acc)
  case 0
  then show ?case by (auto split: if_splits)
next
  case (Suc fuel)
  show ?case
  proof (cases "cursor < stop")
    case True
    with Suc.prems obtain v c where v: "item cursor = Inr (v, c)" and c: "c \<le> stop"
      and r: "rlp_items item fuel c stop (acc @ [v]) = Inr (items, cursor')"
      by (auto simp: rbind_Inr_iff split: if_splits)
    from Suc.IH [OF r c] obtain vs where
      "cursor' = stop" "items = acc @ v # vs"
      "drop c data = concat (map rlp_encode vs) @ drop stop data"
      by auto
    moreover have "drop cursor data = rlp_encode v @ drop c data"
      using assms(3) [OF v] by (simp add: reads_def)
    ultimately show ?thesis by (intro conjI exI [of _ "v # vs"]) simp_all
  qed (use Suc.prems in auto)
qed

lemma decode_rlp_guard:
  "length data \<le> off \<or> depth > MAX_RLP_DEPTH \<Longrightarrow> decode_rlp data off depth \<noteq> Inr r"
  by (subst decode_rlp.simps) auto

text \<open>The decoder by the class of the first byte.\<close>

lemma decode_rlp_byte:
  assumes "off < length data" "depth \<le> MAX_RLP_DEPTH" "unat (data ! off) = p" and "p \<le> 0x7F"
  shows "decode_rlp data off depth = Inr (RBytes [data ! off], off + 1)"
  using assms unfolding decode_rlp.simps [of data off depth] Let_def by simp

lemma decode_rlp_string:
  assumes "off < length data" "depth \<le> MAX_RLP_DEPTH" "unat (data ! off) = p"
    and "0x7F < p" "p \<le> 0xB7"
  shows "decode_rlp data off depth =
     (let stop = off + 1 + (p - 0x80) in
      if stop > length data then Inl (Eip1559DecodeError ''truncated RLP string'')
      else if p - 0x80 = 1 \<and> data ! (off + 1) < 0x80 then
        Inl (Eip1559DecodeError ''non-canonical RLP string'')
      else Inr (RBytes (slice data (off + 1) stop), stop))"
  using assms unfolding decode_rlp.simps [of data off depth] Let_def by simp

lemma decode_rlp_long_string:
  assumes "off < length data" "depth \<le> MAX_RLP_DEPTH" "unat (data ! off) = p"
    and "0xB7 < p" "p \<le> 0xBF"
  shows "decode_rlp data off depth =
     rbind (read_length data (off + 1) (p - 0xB7)) (\<lambda>(len, start).
       if len < 56 then Inl (Eip1559DecodeError ''non-canonical long RLP string'')
       else if start + len > length data
       then Inl (Eip1559DecodeError ''truncated long RLP string'')
       else Inr (RBytes (slice data start (start + len)), start + len))"
  using assms unfolding decode_rlp.simps [of data off depth] Let_def by simp

lemma decode_rlp_list:
  assumes "off < length data" "depth \<le> MAX_RLP_DEPTH" "unat (data ! off) = p"
    and "0xBF < p"
  shows "decode_rlp data off depth =
     rbind
       (if p \<le> 0xF7 then Inr (p - 0xC0, off + 1)
        else rbind (read_length data (off + 1) (p - 0xF7)) (\<lambda>(len, start).
          if len < 56 then Inl (Eip1559DecodeError ''non-canonical long RLP list'')
          else Inr (len, start)))
       (\<lambda>(len, start).
         if start + len > length data then Inl (Eip1559DecodeError ''truncated RLP list'')
         else rbind
           (rlp_items (\<lambda>cursor. decode_rlp data cursor (depth + 1)) (length data) start
              (start + len) [])
           (\<lambda>(items, cursor).
             if cursor \<noteq> start + len then Inl (Eip1559DecodeError ''invalid RLP list length'')
             else Inr (RList items, start + len)))"
  using assms unfolding decode_rlp.simps [of data off depth] Let_def by simp

lemma reads_list:
  assumes h: "drop off data = rlp_header 0xC0 len @ drop start data" "off < start"
    and le: "start + len \<le> length data"
    and r: "rbind (rlp_items item (length data) start (start + len) []) (\<lambda>(items, cursor).
        if cursor \<noteq> start + len then Inl (Eip1559DecodeError ''invalid RLP list length'')
        else Inr (RList items, start + len)) = Inr (v, stop)"
    and IH: "\<And>c w c'. item c = Inr (w, c') \<Longrightarrow> reads data c w c'"
  shows "reads data off v stop"
proof -
  from r obtain items cursor where
    i': "rlp_items item (length data) start (start + len) [] = Inr (items, cursor)"
    and c: "cursor = start + len" and v: "v = RList items" "stop = start + len"
    by (auto simp: rbind_Inr_iff)
  note i = i' [unfolded c]
  have e: "drop start data = concat (map rlp_encode items) @ drop (start + len) data"
    using rlp_items_sound [OF i _ IH] by auto
  have "length (drop start data) = length (concat (map rlp_encode items)) + length (drop (start + len) data)"
    by (subst e) (rule length_append)
  then have l: "length (concat (map rlp_encode items)) = len" using le by (simp only: length_drop)
  have "drop off data = rlp_encode v @ drop stop data"
    unfolding h(1) e v by (simp only: rlp_encode.simps l append_assoc)
  with h(2) le v(2) show ?thesis unfolding reads_def
    by (metis add_leD1 less_le_trans le_add1)
qed

lemma decode_rlp_sound: "decode_rlp data offset depth = Inr (v, stop) \<Longrightarrow> reads data offset v stop"
proof (induction "Suc MAX_RLP_DEPTH - depth" arbitrary: offset depth v stop rule: less_induct)
  case (less depth off)
  define p where "p = unat (data ! off)"
  have p256: "p < 256" by (simp add: p_def)
  from less.prems have off: "off < length data" and depth: "depth \<le> MAX_RLP_DEPTH"
    using decode_rlp_guard [of data off depth "(v, stop)"] by (metis not_le)+
  note unf = decode_rlp_byte decode_rlp_string decode_rlp_long_string decode_rlp_list
  note unf = unf [OF off depth p_def [symmetric]]
  have IH: "decode_rlp data c (depth + 1) = Inr (w, c') \<Longrightarrow> reads data c w c'" for c w c'
    using depth by (intro less.hyps) simp_all
  consider "p \<le> 0x7F" | "0x7F < p" "p \<le> 0xB7" | "0xB7 < p" "p \<le> 0xBF" | "0xBF < p" "p \<le> 0xF7"
    | "0xF7 < p"
    by linarith
  then show ?case
  proof cases
    case 1
    then have "data ! off < 0x80" by (simp add: p_def word_less_nat_alt)
    moreover have "v = RBytes [data ! off]" "stop = off + 1"
      using 1 less.prems by (simp_all add: unf(1))
    ultimately show ?thesis using off by (simp add: reads_def rlp_string_def Cons_nth_drop_Suc)
  next
    case 2
    from less.prems have c: "\<not> off + 1 + (p - 0x80) > length data \<and>
        \<not> (p - 0x80 = 1 \<and> data ! (off + 1) < 0x80) \<and>
        RBytes (slice data (off + 1) (off + 1 + (p - 0x80))) = v \<and> off + 1 + (p - 0x80) = stop"
      unfolding unf(2) [OF 2] Let_def if_raise_iff sum.inject prod.inject .
    then have stop: "stop = off + 1 + (p - 0x80)" and le: "stop \<le> length data"
      and nc: "\<not> (p - 0x80 = 1 \<and> data ! (off + 1) < 0x80)"
      by (auto simp only: not_less)
    have v: "v = RBytes (slice data (off + 1) stop)" using c unfolding stop by blast
    have l: "length (slice data (off + 1) stop) = p - 0x80"
      using le stop by (simp add: length_slice)
    have "\<not> (length (slice data (off + 1) stop) = 1 \<and> hd (slice data (off + 1) stop) < 0x80)"
      using nc l le stop by (auto simp: slice_def hd_drop_conv_nth)
    moreover have "drop off data = rlp_header 0x80 (p - 0x80) @ drop (off + 1) data"
      using 2 off by (intro short_header) (auto simp: p_def)
    ultimately have "drop off data = rlp_encode v @ drop stop data"
      using l le stop drop_slice [of "off + 1" stop data] by (auto simp: v rlp_string_def)
    with le stop show ?thesis by (simp add: reads_def)
  next
    case 3
    from less.prems obtain len start where
      r: "read_length data (off + 1) (p - 0xB7) = Inr (len, start)" and len: "\<not> len < 56"
      and v: "v = RBytes (slice data start stop)" and stop: "stop = start + len"
      and le: "stop \<le> length data"
      unfolding unf(3) [OF 3] by (auto simp: rbind_Inr_iff)
    have l: "length (slice data start stop) = len" using le stop by (simp add: length_slice)
    have "drop off data = rlp_header 0x80 len @ drop start data"
      using 3 off r len by (intro long_header [where k = "p - 0xB7"]) (auto simp: p_def)
    then have "drop off data = rlp_encode v @ drop stop data"
      using l le stop len drop_slice [of start stop data] by (auto simp: v rlp_string_def)
    with le stop read_length_sound(1) [OF r] show ?thesis by (simp add: reads_def)
  next
    case 4
    have "drop off data = rlp_header 0xC0 (p - 0xC0) @ drop (off + 1) data"
      using 4 off by (intro short_header) (auto simp: p_def)
    moreover from less.prems 4(2)
    have "\<not> off + 1 + (p - 0xC0) > length data \<and>
        rbind (rlp_items (\<lambda>cursor. decode_rlp data cursor (depth + 1)) (length data)
          (off + 1) (off + 1 + (p - 0xC0)) []) (\<lambda>(items, cursor).
          if cursor \<noteq> off + 1 + (p - 0xC0)
          then Inl (Eip1559DecodeError ''invalid RLP list length'')
          else Inr (RList items, off + 1 + (p - 0xC0))) = Inr (v, stop)"
      unfolding unf(4) [OF 4(1)] by (simp only: if_True rbind_simps prod.case if_raise_iff simp_thms)
    ultimately show ?thesis using reads_list IH by (meson less_add_one not_le)
  next
    case 5
    then have "0xBF < p" by simp
    with less.prems 5 obtain len start where
      r: "read_length data (off + 1) (p - 0xF7) = Inr (len, start)" and len: "\<not> len < 56"
      and le: "start + len \<le> length data"
      and rest: "rbind (rlp_items (\<lambda>cursor. decode_rlp data cursor (depth + 1)) (length data)
          start (start + len) []) (\<lambda>(items, cursor).
          if cursor \<noteq> start + len then Inl (Eip1559DecodeError ''invalid RLP list length'')
          else Inr (RList items, start + len)) = Inr (v, stop)"
      unfolding unf(4) [OF \<open>0xBF < p\<close>] rbind_Inr_iff
      by (simp only: if_False not_le [symmetric] rbind_Inr_iff split_paired_Ex prod.case if_raise_iff
        sum.inject prod.inject) blast
    have h: "drop off data = rlp_header 0xC0 len @ drop start data"
      using 5 off r len by (intro long_header [where k = "p - 0xF7"]) (auto simp: p_def)
    have "off < start" using read_length_sound(1) [OF r] by simp
    from reads_list [OF h this le rest IH] show ?thesis .
  qed
qed

section \<open>The decoder accepts every canonical encoding\<close>

lemma nth_at_drop: "drop off data = b # rest \<Longrightarrow> off < length data \<and> data ! off = b"
  using hd_drop_conv_nth [of off data] by (cases "off < length data") auto

lemma drop_after: "drop off data = xs @ rest \<Longrightarrow> drop (off + length xs) data = rest"
  using drop_drop [of "length xs" off data] by (simp add: add.commute)

lemma slice_at: "drop off data = xs @ rest \<Longrightarrow> slice data off (off + length xs) = xs"
  by (simp add: slice_def)

lemma length_at: "drop off data = xs @ rest \<Longrightarrow> off + length xs \<le> length data \<or> xs = []"
  using length_drop [of off data] by (cases xs) auto

lemma unat_prefix: "n < 256 \<Longrightarrow> unat (word_of_nat n :: byte) = n"
  by (simp add: unat_byte_of_nat del: of_nat_add)

lemma read_length_complete:
  assumes "drop off data = nat_be n @ rest" "0 < n"
  shows "read_length data off (length (nat_be n)) = Inr (n, off + length (nat_be n))"
proof -
  have ne: "nat_be n \<noteq> []" using assms(2) by simp
  then obtain b bs where b: "nat_be n = b # bs" by (cases "nat_be n") auto
  then have "data ! off = b" using assms(1) nth_at_drop by fastforce
  then have "data ! off \<noteq> 0" using hd_nat_be [OF assms(2)] b by simp
  then show ?thesis
    using length_at [OF assms(1)] slice_at [OF assms(1)] ne by (auto simp: read_length_def Let_def)
qed

text \<open>What the two kinds of header make the decoder see.\<close>

lemma header_short:
  assumes "drop off data = rlp_header base n @ rest" "n < 56" "base + n < 256"
  shows "off < length data" "unat (data ! off) = base + n" "drop (off + 1) data = rest"
  using assms nth_at_drop [of off data] drop_after [of off data "rlp_header base n" rest]
  by (auto simp: rlp_header_def unat_prefix simp del: of_nat_add)

lemma header_long:
  assumes "drop off data = rlp_header base n @ rest" "\<not> n < 56" "n < 256 ^ 8" "base \<le> 0xC0"
  shows "off < length data" "unat (data ! off) = base + 55 + length (nat_be n)"
    "1 \<le> length (nat_be n)" "length (nat_be n) \<le> 8"
    "read_length data (off + 1) (length (nat_be n)) = Inr (n, off + 1 + length (nat_be n))"
    "drop (off + 1 + length (nat_be n)) data = rest"
proof -
  from assms(1,2) have d: "drop off data =
    word_of_nat (base + 55 + length (nat_be n)) # nat_be n @ rest"
    by (simp add: rlp_header_def del: of_nat_add)
  show l: "1 \<le> length (nat_be n)" using assms(2) by (simp add: Suc_le_eq)
  show u: "length (nat_be n) \<le> 8" using assms(3) by (rule length_nat_be_le)
  note at = nth_at_drop [OF d]
  from at show "off < length data" by (rule conjunct1)
  have "base + 55 + length (nat_be n) < 256" using u assms(4) by linarith
  then show "unat (data ! off) = base + 55 + length (nat_be n)"
    unfolding conjunct2 [OF at] by (rule unat_prefix)
  have d1: "drop (off + 1) data = nat_be n @ rest"
    using drop_after [of off data "[word_of_nat (base + 55 + length (nat_be n))]" "nat_be n @ rest"] d
    by (simp del: of_nat_add)
  then show "read_length data (off + 1) (length (nat_be n)) = Inr (n, off + 1 + length (nat_be n))"
    using assms(2) by (intro read_length_complete) auto
  show "drop (off + 1 + length (nat_be n)) data = rest" using drop_after [OF d1] .
qed

lemma rlp_items_complete:
  assumes "\<And>c v r. v \<in> set vs \<Longrightarrow> drop c data = rlp_encode v @ r \<Longrightarrow>
      item c = Inr (v, c + length (rlp_encode v))"
    and "drop cursor data = concat (map rlp_encode vs) @ rest"
    and "stop = cursor + length (concat (map rlp_encode vs))" "length vs \<le> fuel"
  shows "rlp_items item fuel cursor stop acc = Inr (acc @ vs, stop)"
  using assms
proof (induction vs arbitrary: cursor acc fuel)
  case Nil
  then show ?case by (cases fuel) auto
next
  case (Cons v vs)
  from Cons.prems(4) obtain fuel' where f: "fuel = Suc fuel'" "length vs \<le> fuel'"
    by (cases fuel) auto
  have d: "drop cursor data = rlp_encode v @ concat (map rlp_encode vs) @ rest"
    using Cons.prems(2) by simp
  have "item cursor = Inr (v, cursor + length (rlp_encode v))"
    using Cons.prems(1) [OF _ d] by simp
  moreover have "cursor < stop" using Cons.prems(3) by simp
  moreover have "rlp_items item fuel' (cursor + length (rlp_encode v)) stop (acc @ [v])
      = Inr ((acc @ [v]) @ vs, stop)"
    using Cons.prems f drop_after [OF d] by (intro Cons.IH) auto
  ultimately show ?case using Cons.prems(3) f by simp
qed

lemma rlp_encode_length_ge: "length vs \<le> length (concat (map rlp_encode vs))"
proof (induction vs)
  case (Cons v vs)
  have "0 < length (rlp_encode v)" by simp
  with Cons show ?case by (simp add: Suc_le_eq del: length_greater_0_conv)
qed simp

lemma rlp_depth_item: "v \<in> set vs \<Longrightarrow> rlp_depth v < rlp_depth (RList vs)"
proof -
  assume v: "v \<in> set vs"
  have "x \<le> fold max xs a \<longleftrightarrow> x \<le> a \<or> (\<exists>y \<in> set xs. x \<le> y)" for x a :: nat and xs
    by (induction xs arbitrary: a) (auto simp: le_max_iff_disj)
  with v show ?thesis by (auto simp: less_Suc_eq_le)
qed

lemma decode_rlp_string_complete:
  assumes d: "drop off data = rlp_string v @ rest" and small: "length v < 256 ^ 8"
    and depth: "depth \<le> MAX_RLP_DEPTH"
  shows "decode_rlp data off depth = Inr (RBytes v, off + length (rlp_string v))"
proof -
  consider "length v = 1 \<and> hd v < 0x80"
    | "\<not> (length v = 1 \<and> hd v < 0x80)" "length v < 56" | "\<not> length v < 56"
    by blast
  then show ?thesis
  proof cases
    case 1
    then obtain b where b: "v = [b]" "b < 0x80" by (cases v) auto
    then have at: "off < length data" "data ! off = b" using d nth_at_drop [of off data b rest]
      by (simp_all add: rlp_string_def)
    moreover have "unat b \<le> 0x7F" using b by (simp add: word_less_nat_alt)
    ultimately show ?thesis using b decode_rlp_byte [OF at(1) depth refl]
      by (simp add: rlp_string_def)
  next
    case 2
    then have d': "drop off data = rlp_header 0x80 (length v) @ v @ rest"
      using d by (simp add: rlp_string_def split: if_splits)
    note h = header_short [OF d' 2(2)]
    have h: "off < length data" "unat (data ! off) = 0x80 + length v" "drop (off + 1) data = v @ rest"
      using h 2(2) by simp_all
    have "data ! (off + 1) = hd v" if "length v = 1"
      using that h(3) nth_at_drop [of "off + 1" data] by (cases v) auto
    then show ?thesis
      using decode_rlp_string [OF h(1) depth h(2)] 2 slice_at [OF h(3)] length_at [OF h(3)] h(1)
      by (auto simp: rlp_string_def rlp_header_def Let_def)
  next
    case 3
    then have s: "rlp_string v = rlp_header 0x80 (length v) @ v" by (auto simp: rlp_string_def)
    note h = header_long [OF d [unfolded s append_assoc] 3 small]
    have "v \<noteq> []" using 3 by auto
    then show ?thesis
      using decode_rlp_long_string [OF h(1) depth h(2)] h(3-5) 3 slice_at [OF h(6)] length_at [OF h(6)]
      by (auto simp: s rlp_header_def add.assoc)
  qed
qed

lemma rlp_items_of_list:
  assumes d: "drop start data = concat (map rlp_encode vs) @ rest"
    and items: "\<And>c v r. v \<in> set vs \<Longrightarrow> drop c data = rlp_encode v @ r \<Longrightarrow>
      item c = Inr (v, c + length (rlp_encode v))"
    and n: "n = length (concat (map rlp_encode vs))"
  shows "rlp_items item (length data) start (start + n) [] = Inr (vs, start + n)"
proof -
  have "length (concat (map rlp_encode vs)) \<le> length (drop start data)" by (subst d) simp
  with rlp_encode_length_ge [of vs] have "length vs \<le> length data" by (simp only: length_drop)
  with rlp_items_complete [of vs data item, OF items d] n show ?thesis by simp
qed

lemma decode_rlp_complete:
  assumes "drop off data = rlp_encode v @ rest" "rlp_small v" "depth + rlp_depth v \<le> MAX_RLP_DEPTH"
  shows "decode_rlp data off depth = Inr (v, off + length (rlp_encode v))"
  using assms
proof (induction v arbitrary: off depth rest)
  case (RBytes v)
  then show ?case using decode_rlp_string_complete by simp
next
  case (RList vs)
  define n where "n = length (concat (map rlp_encode vs))"
  have d: "drop off data = rlp_header 0xC0 n @ concat (map rlp_encode vs) @ rest"
    and small: "n < 256 ^ 8" and depth: "depth \<le> MAX_RLP_DEPTH"
    using RList.prems by (simp_all add: n_def)
  have item: "decode_rlp data c (depth + 1) = Inr (v, c + length (rlp_encode v))"
    if "v \<in> set vs" "drop c data = rlp_encode v @ r" for c v r
    using that RList.prems(2,3) rlp_depth_item [OF that(1)]
    by (intro RList.IH) (auto simp: list_all_iff)
  show ?case
  proof (cases "n < 56")
    case True
    note h = header_short [OF d True]
    have h: "off < length data" "unat (data ! off) = 0xC0 + n"
      "drop (off + 1) data = concat (map rlp_encode vs) @ rest"
      using h True by simp_all
    have r: "rlp_items (\<lambda>c. decode_rlp data c (depth + 1)) (length data) (off + 1) (off + 1 + n) []
        = Inr (vs, off + 1 + n)"
      by (rule rlp_items_of_list [OF h(3) _ n_def]) (erule (1) item)
    have le: "off + 1 + n \<le> length data" using length_at [OF h(3)] h(1) by (auto simp: n_def)
    have "rlp_encode (RList vs) = rlp_header 0xC0 n @ concat (map rlp_encode vs)" by (simp add: n_def)
    then have "length (rlp_encode (RList vs)) = 1 + n" using True
      by (simp add: rlp_header_def n_def del: rlp_encode.simps)
    then show ?thesis
      using decode_rlp_list [OF h(1) depth h(2)] r le True by (simp del: rlp_encode.simps)
  next
    case False
    note h = header_long [OF d False small order.refl]
    have r: "rlp_items (\<lambda>c. decode_rlp data c (depth + 1)) (length data) (off + 1 + length (nat_be n))
        (off + 1 + length (nat_be n) + n) [] = Inr (vs, off + 1 + length (nat_be n) + n)"
      by (rule rlp_items_of_list [OF h(6) _ n_def]) (erule (1) item)
    have le: "off + 1 + length (nat_be n) + n \<le> length data"
      using length_at [OF h(6)] False by (auto simp: n_def)
    have "rlp_encode (RList vs) = rlp_header 0xC0 n @ concat (map rlp_encode vs)" by (simp add: n_def)
    then have "length (rlp_encode (RList vs)) = 1 + length (nat_be n) + n" using False
      by (simp add: rlp_header_def n_def del: rlp_encode.simps)
    with decode_rlp_list [OF h(1) depth h(2)] r le h(3,4,5) False show ?thesis
      by (simp add: add.assoc del: rlp_encode.simps)
  qed
qed

section \<open>The decoder raises nothing but its own error\<close>

text \<open>In particular the fuel of the item loop is never used up.\<close>

definition decode_safe :: "'a res \<Rightarrow> bool" where
  "decode_safe r \<longleftrightarrow> (\<forall>e. r = Inl e \<longrightarrow> e \<in> range Eip1559DecodeError)"

lemma decode_safe_simps [simp]:
  "decode_safe (Inr x)" "decode_safe (Inl (Eip1559DecodeError m))" "\<not> decode_safe (Inl OutOfFuel)"
  by (auto simp: decode_safe_def)

lemma decode_safe_if [intro]: "decode_safe x \<Longrightarrow> decode_safe y \<Longrightarrow> decode_safe (if b then x else y)"
  by simp

lemma decode_safe_rbind [intro]:
  "decode_safe m \<Longrightarrow> (\<And>x. m = Inr x \<Longrightarrow> decode_safe (f x)) \<Longrightarrow> decode_safe (rbind m f)"
  by (cases m) (auto simp: decode_safe_def)

lemma read_length_safe: "decode_safe (read_length data off k)"
  by (simp add: read_length_def Let_def)

lemma rlp_items_safe:
  assumes "\<And>c. decode_safe (item c)" "\<And>c v c'. item c = Inr (v, c') \<Longrightarrow> c < c'"
    and "stop \<le> cursor + fuel"
  shows "decode_safe (rlp_items item fuel cursor stop acc)"
  using assms(3)
proof (induction fuel arbitrary: cursor acc)
  case (Suc fuel)
  have "decode_safe (rlp_items item fuel c' stop (acc @ [v]))" if "item cursor = Inr (v, c')" for v c'
    using assms(2) [OF that] Suc.prems by (intro Suc.IH) simp
  then show ?case using assms(1) [of cursor] by (cases "item cursor") (auto simp: decode_safe_def split: if_splits)
qed auto

lemma decode_rlp_safe: "decode_safe (decode_rlp data off depth)"
proof (induction "Suc MAX_RLP_DEPTH - depth" arbitrary: off depth rule: less_induct)
  case less
  show ?case
  proof (cases "off < length data \<and> depth \<le> MAX_RLP_DEPTH")
    case False
    then show ?thesis by (subst decode_rlp.simps) auto
  next
    case True
    have items: "decode_safe
        (rlp_items (\<lambda>c. decode_rlp data c (depth + 1)) (length data) start (start + len) [])"
      if "\<not> start + len > length data" for start len
    proof (rule rlp_items_safe)
      show "decode_safe (decode_rlp data c (depth + 1))" for c using True by (intro less.hyps) auto
      show "c < c'" if "decode_rlp data c (depth + 1) = Inr (v, c')" for c v c'
        using decode_rlp_sound [OF that] by (simp add: reads_def)
    qed (use that in simp)
    note p = conjunct1 [OF True] conjunct2 [OF True] refl
    consider "unat (data ! off) \<le> 0x7F" | "0x7F < unat (data ! off)" "unat (data ! off) \<le> 0xB7"
      | "0xB7 < unat (data ! off)" "unat (data ! off) \<le> 0xBF" | "0xBF < unat (data ! off)"
      by linarith
    then show ?thesis
    proof cases
      case 1
      then show ?thesis unfolding decode_rlp_byte [OF p 1] by simp
    next
      case 2
      then show ?thesis unfolding decode_rlp_string [OF p 2] by (simp add: Let_def)
    next
      case 3
      show ?thesis unfolding decode_rlp_long_string [OF p 3]
        by (rule decode_safe_rbind) (simp_all add: read_length_safe split: prod.split)
    next
      case 4
      show ?thesis
        unfolding decode_rlp_list [OF p 4]
        by (intro decode_safe_rbind decode_safe_if)
          (auto simp: read_length_safe items [simplified] split: prod.split intro!: decode_safe_rbind)
    qed
  qed
qed

section \<open>Transactions\<close>

text \<open>The nine fields of a transaction, as the value that is encoded.\<close>

definition tx_items ::
  "nat \<Rightarrow> nat \<Rightarrow> nat \<Rightarrow> nat \<Rightarrow> nat \<Rightarrow> bytes \<Rightarrow> nat \<Rightarrow> bytes \<Rightarrow> rlp list" where
  "tx_items c n p m g to v d =
     [RBytes (nat_be c), RBytes (nat_be n), RBytes (nat_be p), RBytes (nat_be m),
      RBytes (nat_be g), RBytes to, RBytes (nat_be v), RBytes d, RList []]"

lemma rlp_integer_Inr:
  "rlp_integer x name = Inr i \<longleftrightarrow> 0 \<le> i \<and> x = RBytes (nat_be (nat i))"
proof -
  have "rlp_integer (RBytes bs) name = Inr i \<longleftrightarrow> 0 \<le> i \<and> bs = nat_be (nat i)" for bs
    using nat_be_be_nat [of bs] hd_nat_be [of "nat i"] by (auto simp: rlp_integer_def)
  then show ?thesis by (cases x) (auto simp: rlp_integer_def)
qed

lemma decode_fields_Inr:
  "decode_fields xs = Inr t \<longleftrightarrow>
     (\<exists>to d. length to = 20 \<and> raw_to t = ''0x'' @ bytes_hex to \<and> raw_calldata t = ''0x'' @ bytes_hex d \<and>
       0 < raw_chain_id t \<and> 0 \<le> raw_nonce t \<and> 0 \<le> raw_max_priority_fee_per_gas t \<and>
       raw_max_priority_fee_per_gas t \<le> raw_max_fee_per_gas t \<and> 0 < raw_max_fee_per_gas t \<and>
       0 < raw_gas_limit t \<and> 0 \<le> raw_value t \<and>
       xs = tx_items (nat (raw_chain_id t)) (nat (raw_nonce t))
         (nat (raw_max_priority_fee_per_gas t)) (nat (raw_max_fee_per_gas t))
         (nat (raw_gas_limit t)) to (nat (raw_value t)) d)"
  (is "?lhs \<longleftrightarrow> ?rhs")
proof
  assume ?lhs
  then obtain x1 x2 x3 x4 x5 x6 x7 x8 x9 where xs: "xs = [x1, x2, x3, x4, x5, x6, x7, x8, x9]"
    by (auto simp: decode_fields_def split: list.splits)
  from \<open>?lhs\<close> obtain to d where "x6 = RBytes to" "x8 = RBytes d"
    unfolding xs by (auto simp: decode_fields_def split: rlp.splits)
  with \<open>?lhs\<close> show ?rhs
    unfolding xs
    by (auto simp: decode_fields_def rbind_Inr_iff rlp_integer_Inr tx_items_def)
next
  have int: "rlp_integer (RBytes (nat_be n)) name = Inr (int n)" for n name
    by (simp add: rlp_integer_Inr)
  assume ?rhs
  then show ?lhs by (cases t) (auto simp: decode_fields_def int tx_items_def)
qed

lemma one_byte_Inr: "one_byte n = Inr h \<longleftrightarrow> n < 256 \<and> h = [word_of_nat n]"
  by (auto simp: one_byte_def)

lemma encode_bytes_Inr: "encode_bytes v = Inr e \<Longrightarrow> e = rlp_encode (RBytes v)"
  by (auto simp: encode_bytes_def rlp_string_def rlp_header_def rbind_Inr_iff one_byte_Inr Let_def
      split: if_splits)

lemma encode_integer_Inr: "encode_integer i = Inr e \<Longrightarrow> 0 \<le> i \<and> e = rlp_encode (RBytes (nat_be (nat i)))"
  by (auto simp: encode_integer_def dest: encode_bytes_Inr)

lemma encode_list_Inr:
  "encode_list (map rlp_encode vs) = Inr e \<Longrightarrow> e = rlp_encode (RList vs)"
  by (auto simp: encode_list_def rlp_header_def rbind_Inr_iff one_byte_Inr Let_def
      split: if_splits)

lemma length_rlp_encode_item: "v \<in> set vs \<Longrightarrow> length (rlp_encode v) < length (rlp_encode (RList vs))"
proof -
  assume "v \<in> set vs"
  then have "length (rlp_encode v) \<le> length (concat (map rlp_encode vs))"
    by (induction vs) auto
  moreover have "0 < length (rlp_header 0xC0 (length (concat (map rlp_encode vs))))" by simp
  ultimately show ?thesis by (simp del: length_greater_0_conv)
qed

lemma rlp_small_of_length: "length (rlp_encode v) < 256 ^ 8 \<Longrightarrow> rlp_small v"
proof (induction v)
  case (RBytes v)
  then show ?case by (auto simp: rlp_string_def split: if_splits)
next
  case (RList vs)
  have "rlp_small v" if "v \<in> set vs" for v
    using RList.IH [OF that] length_rlp_encode_item [OF that] RList.prems by linarith
  moreover have "length (concat (map rlp_encode vs)) < 256 ^ 8" using RList.prems by simp
  ultimately show ?case by (simp add: list_all_iff)
qed

lemma MAX_TRANSACTION_BYTES_small: "n \<le> MAX_TRANSACTION_BYTES \<Longrightarrow> n < 256 ^ 8"
  by (simp add: MAX_TRANSACTION_BYTES_def)

text \<open>The encoder's success and its output, in terms of the canonical encoding.\<close>

lemma encode_unsigned_Inr:
  assumes "encode_unsigned_eip1559 c n p m g to v d = Inr s"
  obtains tb db where "bytes_fromhex (drop 2 to) = Some tb" "bytes_fromhex (drop 2 d) = Some db"
    "startswith to ''0x''" "length to = 42" "startswith d ''0x''" "even (length d)"
    "0 < c" "0 \<le> n" "0 \<le> p" "p \<le> m" "0 < m" "0 < g" "0 \<le> v"
    "s = ''0x'' @ bytes_hex (2 # rlp_encode (RList
       (tx_items (nat c) (nat n) (nat p) (nat m) (nat g) tb (nat v) db)))"
    "Suc (length (rlp_encode (RList
       (tx_items (nat c) (nat n) (nat p) (nat m) (nat g) tb (nat v) db)))) \<le> MAX_TRANSACTION_BYTES"
proof -
  from assms obtain tb db e1 e2 e3 e4 e5 e6 e7 e8 e9 body where
    h: "bytes_fromhex (drop 2 to) = Some tb" "bytes_fromhex (drop 2 d) = Some db"
      "startswith to ''0x''" "length to = 42" "startswith d ''0x''" "even (length d)"
      "0 < c" "0 < g" "0 < m" "p \<le> m"
    and i: "encode_integer c = Inr e1" "encode_integer n = Inr e2" "encode_integer p = Inr e3"
      "encode_integer m = Inr e4" "encode_integer g = Inr e5" "encode_bytes tb = Inr e6"
      "encode_integer v = Inr e7" "encode_bytes db = Inr e8" "encode_list [] = Inr e9"
      "encode_list [e1, e2, e3, e4, e5, e6, e7, e8, e9] = Inr body"
    and o: "Suc (length body) \<le> MAX_TRANSACTION_BYTES" "s = ''0x'' @ bytes_hex (2 # body)"
    unfolding encode_unsigned_eip1559_def
    by (auto simp: rbind_Inr_iff Let_def split: option.splits)
  have e: "e1 = rlp_encode (RBytes (nat_be (nat c)))" "e2 = rlp_encode (RBytes (nat_be (nat n)))"
      "e3 = rlp_encode (RBytes (nat_be (nat p)))" "e4 = rlp_encode (RBytes (nat_be (nat m)))"
      "e5 = rlp_encode (RBytes (nat_be (nat g)))" "e6 = rlp_encode (RBytes tb)"
      "e7 = rlp_encode (RBytes (nat_be (nat v)))" "e8 = rlp_encode (RBytes db)"
    and nn: "0 \<le> n" "0 \<le> p" "0 \<le> v"
    using i(1-8) by (auto dest: encode_integer_Inr encode_bytes_Inr)
  have "e9 = rlp_encode (RList [])" using encode_list_Inr [of "[]" e9] i(9) by simp
  then have "encode_list (map rlp_encode
      (tx_items (nat c) (nat n) (nat p) (nat m) (nat g) tb (nat v) db)) = Inr body"
    using i(10) by (simp only: e tx_items_def list.map)
  then have "body = rlp_encode (RList (tx_items (nat c) (nat n) (nat p) (nat m) (nat g) tb (nat v) db))"
    by (rule encode_list_Inr)
  with h nn o that show ?thesis by (simp del: rlp_encode.simps)
qed

lemma rlp_depth_tx_items [simp]: "rlp_depth (RList (tx_items c n p m g to v d)) = 2"
  by (simp add: tx_items_def)

lemma bytes_fromhex_0x_hex [simp]: "bytes_fromhex (drop 2 (''0x'' @ bytes_hex bs)) = Some bs"
  by (simp only: append_Cons append_Nil numeral_2_eq_2 drop_Suc_Cons drop0 bytes_fromhex_hex)

lemma decode_of_encoding:
  assumes "length to = 20" "0 < c" "0 < m" "p \<le> m" "0 < g"
    and "Suc (length (rlp_encode (RList (tx_items c n p m g to v d)))) \<le> MAX_TRANSACTION_BYTES"
  shows "decode_unsigned_eip1559
      (''0x'' @ bytes_hex (2 # rlp_encode (RList (tx_items c n p m g to v d)))) =
    Inr \<lparr>raw_chain_id = int c, raw_nonce = int n, raw_max_priority_fee_per_gas = int p,
      raw_max_fee_per_gas = int m, raw_gas_limit = int g, raw_to = ''0x'' @ bytes_hex to,
      raw_value = int v, raw_calldata = ''0x'' @ bytes_hex d\<rparr>"
proof -
  define e where "e = rlp_encode (RList (tx_items c n p m g to v d))"
  have small: "rlp_small (RList (tx_items c n p m g to v d))"
    using assms(6) MAX_TRANSACTION_BYTES_small by (intro rlp_small_of_length) (meson Suc_leD)
  have "decode_rlp (2 # e) 1 0 = Inr (RList (tx_items c n p m g to v d), 1 + length e)"
    unfolding e_def
    by (rule decode_rlp_complete [where rest = "[]"])
      (simp_all only: small rlp_depth_tx_items MAX_RLP_DEPTH_def One_nat_def drop_Suc_Cons drop0, simp_all)
  moreover have "startswith (''0x'' @ bytes_hex (2 # e)) ''0x02''"
    by (simp add: startswith_def)
  moreover have "even (length (''0x'' @ bytes_hex (2 # e)))" by simp
  moreover have "length (2 # e) \<le> MAX_TRANSACTION_BYTES" using assms(6) by (simp only: e_def length_Cons)
  moreover have "decode_fields (tx_items c n p m g to v d) =
    Inr \<lparr>raw_chain_id = int c, raw_nonce = int n, raw_max_priority_fee_per_gas = int p,
      raw_max_fee_per_gas = int m, raw_gas_limit = int g, raw_to = ''0x'' @ bytes_hex to,
      raw_value = int v, raw_calldata = ''0x'' @ bytes_hex d\<rparr>"
    using assms(1-5) by (auto simp: decode_fields_Inr)
  ultimately show ?thesis
    unfolding e_def [symmetric] decode_unsigned_eip1559_def
    by (simp only: bytes_fromhex_0x_hex) simp
qed

text \<open>
  The round trip holds for targets and calldata of hexadecimal digits, with or without
  capitals: the decoder returns the lower-case text.
\<close>

lemma encode_decode_hex:
  assumes "encode_unsigned_eip1559 c n p m g to v d = Inr s"
    and "list_all is_hex (drop 2 to)" "list_all is_hex (drop 2 d)"
  shows "decode_unsigned_eip1559 s =
    Inr \<lparr>raw_chain_id = c, raw_nonce = n, raw_max_priority_fee_per_gas = p,
      raw_max_fee_per_gas = m, raw_gas_limit = g, raw_to = lower to,
      raw_value = v, raw_calldata = lower d\<rparr>"
  using assms(1)
proof (rule encode_unsigned_Inr)
  fix tb db
  assume h: "bytes_fromhex (drop 2 to) = Some tb" "bytes_fromhex (drop 2 d) = Some db"
    "startswith to ''0x''" "length to = 42" "startswith d ''0x''" "even (length d)"
    and pos: "0 < c" "0 \<le> n" "0 \<le> p" "p \<le> m" "0 < m" "0 < g" "0 \<le> v"
    and s: "s = ''0x'' @ bytes_hex (2 # rlp_encode (RList
       (tx_items (nat c) (nat n) (nat p) (nat m) (nat g) tb (nat v) db)))"
    and l: "Suc (length (rlp_encode (RList
       (tx_items (nat c) (nat n) (nat p) (nat m) (nat g) tb (nat v) db)))) \<le> MAX_TRANSACTION_BYTES"
  have t: "bytes_hex tb = lower (drop 2 to)" "bytes_hex db = lower (drop 2 d)"
    using bytes_hex_fromhex [OF h(1)] bytes_hex_fromhex [OF h(2)] assms(2,3)
    by (simp_all add: filter_hex_text)
  have low: "lower to = ''0x'' @ bytes_hex tb" "lower d = ''0x'' @ bytes_hex db"
    using startswith_0x_drop [OF h(3)] startswith_0x_drop [OF h(5)] unfolding t
    by (metis lower_append lower_0x)+
  have "length tb = 20"
    using arg_cong [OF t(1), of length] h(4) by simp
  from decode_of_encoding [OF this _ _ _ _ l] pos show ?thesis
    by (simp add: s low del: rlp_encode.simps append_Cons append_Nil)
qed

lemma encode_bytes_ok: "length (rlp_encode (RBytes v)) < 256 ^ 8 \<Longrightarrow> encode_bytes v = Inr (rlp_encode (RBytes v))"
  using rlp_small_of_length [of "RBytes v"] encode_bytes_eq by simp

lemma encode_integer_ok:
  "0 \<le> i \<Longrightarrow> length (rlp_encode (RBytes (nat_be (nat i)))) < 256 ^ 8 \<Longrightarrow>
     encode_integer i = Inr (rlp_encode (RBytes (nat_be (nat i))))"
  using encode_bytes_ok by (simp add: encode_integer_def)

lemma encode_list_ok:
  "length (rlp_encode (RList vs)) < 256 ^ 8 \<Longrightarrow>
     encode_list (map rlp_encode vs) = Inr (rlp_encode (RList vs))"
  using rlp_small_of_length [of "RList vs"] encode_list_eq [of "map rlp_encode vs"] by simp

lemma encode_tx_eq:
  assumes "length to = 20" "0 < raw_chain_id t" "0 \<le> raw_nonce t"
    and "0 \<le> raw_max_priority_fee_per_gas t"
    and "raw_max_priority_fee_per_gas t \<le> raw_max_fee_per_gas t" "0 < raw_max_fee_per_gas t"
    and "0 < raw_gas_limit t" "0 \<le> raw_value t"
    and t: "raw_to t = ''0x'' @ bytes_hex to" "raw_calldata t = ''0x'' @ bytes_hex d"
    and items: "items = tx_items (nat (raw_chain_id t)) (nat (raw_nonce t))
         (nat (raw_max_priority_fee_per_gas t)) (nat (raw_max_fee_per_gas t))
         (nat (raw_gas_limit t)) to (nat (raw_value t)) d"
    and len: "Suc (length (rlp_encode (RList items))) \<le> MAX_TRANSACTION_BYTES"
  shows "encode_tx t = Inr (''0x'' @ bytes_hex (2 # rlp_encode (RList items)))"
proof -
  have small: "length (rlp_encode (RList items)) < 256 ^ 8"
    using len MAX_TRANSACTION_BYTES_small by (meson Suc_leD)
  have item: "length (rlp_encode v) < 256 ^ 8" if "v \<in> set items" for v
    using length_rlp_encode_item [OF that] small by linarith
  have e: "encode_integer (raw_chain_id t) = Inr (rlp_encode (items ! 0))"
    "encode_integer (raw_nonce t) = Inr (rlp_encode (items ! 1))"
    "encode_integer (raw_max_priority_fee_per_gas t) = Inr (rlp_encode (items ! 2))"
    "encode_integer (raw_max_fee_per_gas t) = Inr (rlp_encode (items ! 3))"
    "encode_integer (raw_gas_limit t) = Inr (rlp_encode (items ! 4))"
    "encode_bytes to = Inr (rlp_encode (items ! 5))"
    "encode_integer (raw_value t) = Inr (rlp_encode (items ! 6))"
    "encode_bytes d = Inr (rlp_encode (items ! 7))"
    using assms(2-8) item unfolding items tx_items_def
    by (simp_all add: encode_integer_ok encode_bytes_ok del: rlp_encode.simps)
  have "encode_list [] = Inr (rlp_encode (items ! 8))"
    using encode_list_ok [of "[]"] by (simp add: items tx_items_def rlp_header_def)
  moreover have "encode_list (map rlp_encode items) = Inr (rlp_encode (RList items))"
    using small by (rule encode_list_ok)
  moreover have "map rlp_encode items = [rlp_encode (items ! 0), rlp_encode (items ! 1),
      rlp_encode (items ! 2), rlp_encode (items ! 3), rlp_encode (items ! 4), rlp_encode (items ! 5),
      rlp_encode (items ! 6), rlp_encode (items ! 7), rlp_encode (items ! 8)]"
    by (simp add: items tx_items_def del: rlp_encode.simps)
  ultimately show ?thesis
    using assms(1-8) e len unfolding encode_tx_def encode_unsigned_eip1559_def t bytes_fromhex_0x_hex
    by (simp add: startswith_def Let_def del: rlp_encode.simps)
qed

lemma decode_unsigned_canonical:
  assumes "decode_unsigned_eip1559 payload = Inr t"
  shows "encode_tx t = Inr (lower (filter (\<lambda>c. \<not> is_space c) payload))"
proof -
  from assms obtain encoded v where
    start: "startswith payload ''0x02''" and hex: "bytes_fromhex (drop 2 payload) = Some encoded"
    and len: "length encoded \<le> MAX_TRANSACTION_BYTES"
    and v: "decode_rlp encoded 1 0 = Inr (v, length encoded)"
      "(case v of RBytes _ \<Rightarrow>
          Inl (Eip1559DecodeError ''type-2 transaction must contain exactly nine fields'')
        | RList items \<Rightarrow> decode_fields items) = Inr t"
    by (auto simp: decode_unsigned_eip1559_def rbind_Inr_iff split: option.splits)
  from v obtain items where dec: "decode_rlp encoded 1 0 = Inr (RList items, length encoded)"
    and fields: "decode_fields items = Inr t"
    by (cases v) auto
  from start obtain rest where p: "payload = ''0x02'' @ rest"
    unfolding startswith_def by (metis append_take_drop_id)
  then obtain es where enc: "encoded = 2 # es"
    using hex by (auto simp: is_space_def hexval_def ascii_def)
  have "reads encoded 1 (RList items) (length encoded)" by (rule decode_rlp_sound [OF dec])
  then have es: "es = rlp_encode (RList items)" by (simp add: reads_def enc del: rlp_encode.simps)
  have "filter (\<lambda>c. \<not> is_space c) payload = ''0x'' @ filter (\<lambda>c. \<not> is_space c) (drop 2 payload)"
    by (simp add: p is_space_def ascii_def)
  then have "lower (filter (\<lambda>c. \<not> is_space c) payload) = ''0x'' @ bytes_hex encoded"
    using bytes_hex_fromhex [OF hex] by (simp only: lower_append lower_0x)
  moreover from fields obtain to d where f: "length to = 20" "0 < raw_chain_id t" "0 \<le> raw_nonce t"
      "0 \<le> raw_max_priority_fee_per_gas t"
      "raw_max_priority_fee_per_gas t \<le> raw_max_fee_per_gas t" "0 < raw_max_fee_per_gas t"
      "0 < raw_gas_limit t" "0 \<le> raw_value t"
      "raw_to t = ''0x'' @ bytes_hex to" "raw_calldata t = ''0x'' @ bytes_hex d"
      "items = tx_items (nat (raw_chain_id t)) (nat (raw_nonce t))
         (nat (raw_max_priority_fee_per_gas t)) (nat (raw_max_fee_per_gas t))
         (nat (raw_gas_limit t)) to (nat (raw_value t)) d"
    unfolding decode_fields_Inr by blast
  moreover have "Suc (length (rlp_encode (RList items))) \<le> MAX_TRANSACTION_BYTES"
    using len by (simp only: enc es length_Cons)
  ultimately show ?thesis using encode_tx_eq [OF f] by (simp only: enc es)
qed

section \<open>Sample data\<close>

definition sample_target :: string where
  "sample_target = ''0x00112233445566778899AABBCCDDEEFF00112233''"

definition sample_payload :: string where
  "sample_payload = ''0x02e1010280018252089400112233445566778899aabbccddeeff001122330582abcdc0''"

definition sample_tx :: UnsignedEip1559 where
  "sample_tx =
     \<lparr>raw_chain_id = 1, raw_nonce = 2, raw_max_priority_fee_per_gas = 0, raw_max_fee_per_gas = 1,
      raw_gas_limit = 21000, raw_to = lower sample_target, raw_value = 5, raw_calldata = ''0xabcd''\<rparr>"

lemma sample_payload_decodes: "decode_unsigned_eip1559 sample_payload = Inr sample_tx"
  by code_simp

lemma sample_target_encodes:
  "encode_unsigned_eip1559 1 2 0 1 21000 sample_target 5 ''0xABcd'' = Inr sample_payload"
  by code_simp

section \<open>Properties\<close>

text \<open>
  C16. Every payload the decoder accepts is the canonical encoding of the transaction it
  returns: encoding that transaction again gives the payload, up to the letter case and
  the white space that \<open>bytes.fromhex\<close> ignores. Hence no transaction has two accepted
  byte encodings.
\<close>

theorem eip1559_decode_canonical:
  assumes "decode_unsigned_eip1559 payload = Inr t"
  shows "encode_tx t = Inr (lower (filter (\<lambda>c. \<not> is_space c) payload))"
  using assms by (rule decode_unsigned_canonical)

theorem eip1559_decode_canonical_witness:
  "encode_tx sample_tx = Inr (lower (filter (\<lambda>c. \<not> is_space c) sample_payload))"
  by (rule eip1559_decode_canonical [OF sample_payload_decodes])

text \<open>
  C21. What the encoder produces from a target and calldata of hexadecimal digits decodes to
  exactly the fields it was given, the two hexadecimal texts in lower case.
\<close>

theorem eip1559_roundtrip:
  assumes "encode_unsigned_eip1559 chain_id nonce priority_fee max_fee gas_limit to value calldata = Inr s"
    and "list_all is_hex (drop 2 to)" "list_all is_hex (drop 2 calldata)"
  shows "decode_unsigned_eip1559 s =
    Inr \<lparr>raw_chain_id = chain_id, raw_nonce = nonce, raw_max_priority_fee_per_gas = priority_fee,
      raw_max_fee_per_gas = max_fee, raw_gas_limit = gas_limit, raw_to = lower to,
      raw_value = value, raw_calldata = lower calldata\<rparr>"
  using assms by (rule encode_decode_hex)

theorem eip1559_roundtrip_witness:
  "decode_unsigned_eip1559 sample_payload =
    Inr \<lparr>raw_chain_id = 1, raw_nonce = 2, raw_max_priority_fee_per_gas = 0,
      raw_max_fee_per_gas = 1, raw_gas_limit = 21000, raw_to = lower sample_target,
      raw_value = 5, raw_calldata = lower ''0xABcd''\<rparr>"
proof (rule eip1559_roundtrip [OF sample_target_encodes])
  show "list_all is_hex (drop 2 sample_target)" by code_simp
  show "list_all is_hex (drop 2 ''0xABcd'')" by code_simp
qed

text \<open>
  On every string the decoder terminates, and the only exception it raises is
  \<open>Eip1559DecodeError\<close>, the one the signing gate turns into a refusal.
\<close>

theorem eip1559_decode_errors:
  "decode_unsigned_eip1559 payload \<in> range Inr \<union> (Inl ` range Eip1559DecodeError)"
proof -
  have integer: "decode_safe (rlp_integer v name)" for v name
    by (cases v) (auto simp: rlp_integer_def)
  have fields: "decode_safe (decode_fields xs)" for xs
    unfolding decode_fields_def
    by (auto intro!: decode_safe_rbind decode_safe_if integer split: list.split rlp.split)
  have "decode_safe (decode_unsigned_eip1559 payload)"
    unfolding decode_unsigned_eip1559_def
    by (auto intro!: decode_safe_rbind decode_rlp_safe fields split: option.split rlp.split)
  then show ?thesis by (cases "decode_unsigned_eip1559 payload") (auto simp: decode_safe_def)
qed

text \<open>
  The encoder checks the length of the target's text and not of its bytes: a target of
  forty blanks is accepted and encoded with an empty target field, the form of a contract
  creation, which the decoder refuses.
\<close>

theorem eip1559_encode_blank_target:
  "\<exists>s. encode_unsigned_eip1559 1 0 0 1 21000 (''0x'' @ replicate 40 CHR '' '') 5 ''0x'' = Inr s \<and>
     decode_unsigned_eip1559 s =
       Inl (Eip1559DecodeError ''contract creation and malformed targets are not authorized'')"
proof -
  have "encode_unsigned_eip1559 1 0 0 1 21000 (''0x'' @ replicate 40 CHR '' '') 5 ''0x''
      = Inr ''0x02cb01808001825208800580c0''"
    by code_simp
  moreover have "decode_unsigned_eip1559 ''0x02cb01808001825208800580c0'' =
      Inl (Eip1559DecodeError ''contract creation and malformed targets are not authorized'')"
    by code_simp
  ultimately show ?thesis by blast
qed

end
