(* ===== verification/Signing.thy ===== *)
theory Signing
  imports PostgresState Eip1559
begin

text \<open>
  Decision tokens (\<open>src/aegisledger/decisions.py\<close>) and the signer's authorization gate
  (\<open>signing.py\<close>). The time and the identifiers that \<open>uuid7()\<close> returns are arguments; the
  keccak hash and Ed25519 are primitives. \<open>validate\<close> is split where the code changes subject:
  the decision, the payloads, the transaction against the proposal, the raw transaction.

  Shown: a request that passes the gate signs the canonical encoding of a transaction that
  does what the authorized proposal says; no decision and no wallet nonce is used twice,
  over any sequence of requests; issued tokens verify until they expire; a token's signed
  bytes determine it.
\<close>

section \<open>Decision tokens\<close>

text \<open>\<open>token.model_dump(mode="json", exclude={"signature"})\<close>\<close>

definition token_fields :: "primitives \<Rightarrow> DecisionTokenV1 \<Rightarrow> (string \<times> json) list" where
  "token_fields P t =
     [(''schema_version'', JStr ''aegisledger.decision.v1''),
      (''decision_id'', JStr (uuid_str (dt_decision_id t))),
      (''proposal_hash'', JStr (dt_proposal_hash t)),
      (''policy_version_id'', JStr (uuid_str (dt_policy_version_id t))),
      (''policy_hash'', JStr (dt_policy_hash t)),
      (''state_version'', JInt (dt_state_version t)),
      (''reservation_id'', (case dt_reservation_id t of None \<Rightarrow> JNull | Some r \<Rightarrow> JStr (uuid_str r))),
      (''verdict'', JStr (verdict_name (dt_verdict t))),
      (''reason_codes'', JList (map JStr (dt_reason_codes t))),
      (''expires_at'', JStr (iso8601 P (dt_expires_at t))),
      (''decision_nonce'', JStr (uuid_str (dt_decision_nonce t))),
      (''policy_signer'', JStr (dt_policy_signer t))]"

definition decision_signature_payload :: "primitives \<Rightarrow> DecisionTokenV1 \<Rightarrow> bytes res" where
  "decision_signature_payload P t = canonical_json (rfc8785 P) (obj (token_fields P t))"

record DecisionIssuer =
  di_keys :: KeyPair
  di_lifetime_seconds :: int

definition issuer_from_seed :: "primitives \<Rightarrow> string \<Rightarrow> int \<Rightarrow> DecisionIssuer" where
  "issuer_from_seed P seed lifetime_seconds =
     \<lparr>di_keys = from_seed P (''policy-service::'' @ seed), di_lifetime_seconds = lifetime_seconds\<rparr>"

definition issuer_public_key :: "DecisionIssuer \<Rightarrow> bytes" where
  "issuer_public_key i = kp_pub (di_keys i)"

definition issuer_identity :: "DecisionIssuer \<Rightarrow> string" where
  "issuer_identity i = kp_address (di_keys i)"

definition placeholder_token ::
  "time \<Rightarrow> uuid \<Rightarrow> uuid \<Rightarrow> DecisionIssuer \<Rightarrow> string \<Rightarrow> ProposalRecord \<Rightarrow> PolicyVersion \<Rightarrow> DecisionTokenV1" where
  "placeholder_token now decision_id nonce i h r policy_version =
     \<lparr>dt_decision_id = decision_id, dt_proposal_hash = h,
      dt_policy_version_id = pv_version_id policy_version, dt_policy_hash = pv_policy_hash policy_version,
      dt_state_version = rec_state_version r, dt_reservation_id = rec_reservation_id r,
      dt_verdict = (if rec_state r = RESERVED then ALLOW else DENY), dt_reason_codes = rec_reason_codes r,
      dt_expires_at = min (pr_deadline (rec_proposal r)) (now + seconds (di_lifetime_seconds i)),
      dt_decision_nonce = nonce, dt_policy_signer = issuer_identity i,
      dt_signature = replicate 128 (CHR ''0'')\<rparr>"

definition issue ::
  "primitives \<Rightarrow> time \<Rightarrow> uuid \<Rightarrow> uuid \<Rightarrow> DecisionIssuer \<Rightarrow> ProposalRecord \<Rightarrow> PolicyVersion \<Rightarrow> DecisionTokenV1 res" where
  "issue P now decision_id nonce i r policy_version =
     (if rec_state r \<notin> {RESERVED, DENIED}
      then Inl (ValueError (''cannot issue a decision for lifecycle state '' @ lifecycle_name (rec_state r)))
      else
        rbind (proposal_hash P (rec_proposal r)) (\<lambda>h.
        rbind (make_DecisionTokenV1 (placeholder_token now decision_id nonce i h r policy_version)) (\<lambda>placeholder.
        rbind (decision_signature_payload P placeholder) (\<lambda>payload.
        make_DecisionTokenV1 (placeholder\<lparr>dt_signature := bytes_hex (key_sign P (di_keys i) payload)\<rparr>)))))"

definition verify_decision_token :: "primitives \<Rightarrow> DecisionTokenV1 \<Rightarrow> bytes \<Rightarrow> time \<Rightarrow> bool res" where
  "verify_decision_token P token public_key now =
     (if dt_expires_at token \<le> now then Inr False
      else case bytes_fromhex (dt_signature token) of
        None \<Rightarrow> Inr False
      | Some sig \<Rightarrow>
          rbind (decision_signature_payload P token) (\<lambda>payload. Inr (ed25519_verify P public_key sig payload)))"

section \<open>Sign requests\<close>

text \<open>\<open>bytes.fromhex(value[2:])\<close> raises on text that is not hexadecimal.\<close>

definition fromhex :: "string \<Rightarrow> bytes res" where
  "fromhex s = of_option (ValueError ''non-hexadecimal number found in fromhex() arg'') (bytes_fromhex s)"

definition keccak_hex :: "primitives \<Rightarrow> string \<Rightarrow> string res" where
  "keccak_hex P v = rbind (fromhex (drop 2 v)) (\<lambda>b. Inr (''0x'' @ bytes_hex (keccak P b)))"

datatype operation = Op_transfer | Op_swap

definition operation_name :: "operation \<Rightarrow> string" where
  "operation_name o' = (case o' of Op_transfer \<Rightarrow> ''transfer'' | Op_swap \<Rightarrow> ''swap'')"

record TransactionBindingV1 =
  tb_operation :: operation
  tb_wallet :: string
  tb_chain_id :: int
  tb_wallet_nonce :: int
  tb_asset :: string
  tb_amount :: int
  tb_recipient :: "string option"
  tb_contract :: "string option"
  tb_selector :: "string option"
  tb_calldata :: string
  tb_value :: int
  tb_gas_limit :: int
  tb_max_fee_per_gas :: int
  tb_max_priority_fee_per_gas :: int

definition binding_fields_ok :: "TransactionBindingV1 \<Rightarrow> bool" where
  "binding_fields_ok t \<longleftrightarrow> Address (tb_wallet t) \<and> 0 < tb_chain_id t \<and> 0 \<le> tb_wallet_nonce t \<and> AssetId (tb_asset t) \<and>
     0 < tb_amount t \<and> pred_option Address (tb_recipient t) \<and> pred_option Address (tb_contract t) \<and>
     pred_option Selector (tb_selector t) \<and> CallData (tb_calldata t) \<and> 0 \<le> tb_value t \<and> 0 < tb_gas_limit t \<and>
     0 < tb_max_fee_per_gas t \<and> 0 \<le> tb_max_priority_fee_per_gas t"

definition normalize_binding :: "TransactionBindingV1 \<Rightarrow> TransactionBindingV1" where
  "normalize_binding t = t\<lparr>tb_wallet := lower (tb_wallet t), tb_recipient := map_option lower (tb_recipient t),
     tb_contract := map_option lower (tb_contract t), tb_selector := map_option lower (tb_selector t),
     tb_calldata := lower (tb_calldata t)\<rparr>"

definition validate_operation_shape :: "TransactionBindingV1 \<Rightarrow> unit res" where
  "validate_operation_shape t =
     raise_first
       ((if tb_operation t = Op_transfer then
          [(tb_recipient t = None \<or> tb_contract t \<noteq> None \<or> tb_selector t \<noteq> None,
            ValueError ''transfer binding requires only a recipient''),
           (tb_asset t \<noteq> ''NATIVE:'' @ show_int (tb_chain_id t),
            ValueError ''transfer binding supports only the chain native asset''),
           (tb_value t \<noteq> tb_amount t \<or> tb_calldata t \<noteq> ''0x'',
            ValueError ''native transfer value must equal amount with empty calldata'')]
         else
          [(tb_contract t = None \<or> tb_selector t = None \<or> tb_recipient t \<noteq> None,
            ValueError ''swap binding requires a contract and selector'')])
        @ [(tb_max_priority_fee_per_gas t > tb_max_fee_per_gas t,
            ValueError ''priority fee cannot exceed maximum fee'')])"

definition make_TransactionBindingV1 :: "TransactionBindingV1 \<Rightarrow> TransactionBindingV1 res" where
  "make_TransactionBindingV1 t =
     (if \<not> binding_fields_ok t then Inl (ValueError ''TransactionBindingV1'')
      else let t = normalize_binding t in rbind (validate_operation_shape t) (\<lambda>_. Inr t))"

record TransactionSignRequestV1 =
  sr_proposal :: ProposalV1
  sr_decision :: DecisionTokenV1
  sr_reservation_id :: uuid
  sr_wallet_nonce :: int
  sr_chain_id :: int
  sr_transaction :: TransactionBindingV1
  sr_eip712_payload :: string
  sr_eip1559_unsigned_payload :: string
  sr_eip712_hash :: string
  sr_eip1559_hash :: string
  sr_expires_at :: time

definition make_TransactionSignRequestV1 :: "TransactionSignRequestV1 \<Rightarrow> TransactionSignRequestV1 res" where
  "make_TransactionSignRequestV1 r =
     rbind (make_ProposalV1 (sr_proposal r)) (\<lambda>proposal.
     rbind (make_DecisionTokenV1 (sr_decision r)) (\<lambda>decision.
     rbind (make_TransactionBindingV1 (sr_transaction r)) (\<lambda>transaction.
     if 0 \<le> sr_wallet_nonce r \<and> 0 < sr_chain_id r \<and> HexData (sr_eip712_payload r) \<and>
        HexData (sr_eip1559_unsigned_payload r) \<and> Hex32 (sr_eip712_hash r) \<and> Hex32 (sr_eip1559_hash r)
     then Inr (r\<lparr>sr_proposal := proposal, sr_decision := decision, sr_transaction := transaction,
       sr_eip712_payload := lower (sr_eip712_payload r),
       sr_eip1559_unsigned_payload := lower (sr_eip1559_unsigned_payload r)\<rparr>)
     else Inl (ValueError ''TransactionSignRequestV1''))))"

section \<open>The gate\<close>

record SignerAuthorizationGate =
  gate_policy_public_key :: bytes
  gate_allowed_chain_ids :: "int list"
  gate_allowed_policy_hashes :: "string list option"
  gate_used_decisions :: "uuid list"
  gate_next_wallet_nonce :: "(string \<times> int, int) dict"

definition SignerAuthorizationGate_init :: "bytes \<Rightarrow> int list \<Rightarrow> string list option \<Rightarrow> SignerAuthorizationGate" where
  "SignerAuthorizationGate_init policy_public_key allowed_chain_ids allowed_policy_hashes =
     \<lparr>gate_policy_public_key = policy_public_key, gate_allowed_chain_ids = allowed_chain_ids,
      gate_allowed_policy_hashes = map_option (map lower) allowed_policy_hashes,
      gate_used_decisions = [], gate_next_wallet_nonce = []\<rparr>"

abbreviation "denied m \<equiv> SignerAuthorizationError m"

definition validate_decision ::
  "primitives \<Rightarrow> time \<Rightarrow> TransactionSignRequestV1 \<Rightarrow> SignerAuthorizationGate \<Rightarrow> unit res" where
  "validate_decision P current_time r g =
     (let decision = sr_decision r; proposal = sr_proposal r; transaction = sr_transaction r;
          expected_nonce = dget_or (gate_next_wallet_nonce g) (pr_wallet proposal, sr_chain_id r) 0 in
      if sr_expires_at r \<le> current_time then Inl (denied ''sign request expired'') else
      rbind (verify_decision_token P decision (gate_policy_public_key g) current_time) (\<lambda>verified.
      rbind (raise_first
        [(\<not> verified, denied ''decision signature invalid or expired''),
         (lower (dt_policy_signer decision) \<noteq> lower (address_of P (gate_policy_public_key g)),
          denied ''decision signer identity mismatch''),
         (dt_verdict decision \<noteq> ALLOW, denied ''decision does not authorize signing''),
         ((case gate_allowed_policy_hashes g of None \<Rightarrow> False
           | Some hashes \<Rightarrow> lower (dt_policy_hash decision) \<notin> set hashes),
          denied ''policy version is not approved by signer'')]) (\<lambda>_.
      rbind (proposal_hash P proposal) (\<lambda>h.
      raise_first
        [(h \<noteq> dt_proposal_hash decision, denied ''proposal hash does not match decision''),
         (Some (sr_reservation_id r) \<noteq> dt_reservation_id decision, denied ''reservation does not match decision''),
         (sr_chain_id r \<notin> set (gate_allowed_chain_ids g), denied ''chain is not enabled in signer''),
         (sr_chain_id r \<noteq> pr_chain_id proposal \<or> tb_chain_id transaction \<noteq> sr_chain_id r,
          denied ''chain binding mismatch''),
         (tb_wallet transaction \<noteq> pr_wallet proposal, denied ''wallet binding mismatch''),
         (tb_wallet_nonce transaction \<noteq> sr_wallet_nonce r, denied ''wallet nonce binding mismatch''),
         (sr_expires_at r > dt_expires_at decision \<or> sr_expires_at r > pr_deadline proposal,
          denied ''sign request outlives authorization''),
         (dt_decision_nonce decision \<in> set (gate_used_decisions g), denied ''decision replay detected''),
         (sr_wallet_nonce r \<noteq> expected_nonce,
          denied (''wallet nonce must be '' @ show_int expected_nonce @ '', received '' @ show_int (sr_wallet_nonce r)))]))))"

definition validate_payloads :: "primitives \<Rightarrow> TransactionSignRequestV1 \<Rightarrow> unit res" where
  "validate_payloads P r =
     rbind (raise_first
       [(\<not> startswith (sr_eip712_payload r) ''0x1901'', denied ''EIP-712 payload must start with 0x1901''),
        (\<not> startswith (sr_eip1559_unsigned_payload r) ''0x02'', denied ''EIP-1559 payload must be a typed transaction'')]) (\<lambda>_.
     rbind (keccak_hex P (sr_eip712_payload r)) (\<lambda>h712.
     if h712 \<noteq> sr_eip712_hash r then Inl (denied ''EIP-712 hash does not match exact payload'') else
     rbind (keccak_hex P (sr_eip1559_unsigned_payload r)) (\<lambda>h1559.
     if h1559 \<noteq> sr_eip1559_hash r then Inl (denied ''EIP-1559 hash does not match exact payload'') else
     rbind (fromhex (drop 2 (dt_proposal_hash (sr_decision r)))) (\<lambda>proposal_hash_bytes.
     rbind (fromhex (drop 2 (sr_eip712_payload r))) (\<lambda>eip712_bytes.
     if length eip712_bytes \<noteq> 66 \<or> drop 34 eip712_bytes \<noteq> proposal_hash_bytes
     then Inl (denied ''EIP-712 payload is not bound to authorized proposal'') else Inr ())))))"

definition validate_binding :: "ProposalV1 \<Rightarrow> TransactionBindingV1 \<Rightarrow> unit res" where
  "validate_binding proposal transaction =
     raise_first
       ([(operation_name (tb_operation transaction) \<noteq> intent_kind (pr_intent proposal),
          denied ''transaction operation does not match proposal''),
         (tb_asset transaction \<noteq> pr_asset proposal, denied ''transaction asset does not match proposal''),
         (tb_amount transaction \<noteq> pr_amount proposal, denied ''transaction amount does not match proposal'')]
        @ (case pr_intent proposal of
             TransferIntentV1 recipient \<Rightarrow>
               [(tb_recipient transaction \<noteq> Some recipient, denied ''transaction recipient does not match proposal'')]
           | SwapIntentV1 contract selector calldata _ _ \<Rightarrow>
               [(tb_contract transaction \<noteq> Some contract, denied ''transaction contract does not match proposal''),
                (tb_selector transaction \<noteq> Some selector, denied ''transaction selector does not match proposal''),
                (tb_calldata transaction \<noteq> calldata, denied ''transaction calldata does not match proposal'')]))"

definition validate_raw :: "string \<Rightarrow> TransactionBindingV1 \<Rightarrow> unit res" where
  "validate_raw payload transaction =
     (case decode_unsigned_eip1559 payload of
        Inl (Eip1559DecodeError m) \<Rightarrow> Inl (denied (''invalid EIP-1559 payload: '' @ m))
      | Inl e \<Rightarrow> Inl e
      | Inr raw \<Rightarrow>
          let expected_target =
            (if tb_operation transaction = Op_transfer then tb_recipient transaction else tb_contract transaction) in
          raise_first
            [(raw_chain_id raw \<noteq> tb_chain_id transaction \<or> raw_nonce raw \<noteq> tb_wallet_nonce transaction,
              denied ''raw transaction chain or nonce binding mismatch''),
             (Some (raw_to raw) \<noteq> expected_target, denied ''raw transaction recipient or contract binding mismatch''),
             (raw_value raw \<noteq> tb_value transaction, denied ''raw transaction value binding mismatch''),
             (raw_calldata raw \<noteq> tb_calldata transaction, denied ''raw transaction calldata binding mismatch''),
             (raw_gas_limit raw \<noteq> tb_gas_limit transaction, denied ''raw transaction gas limit binding mismatch''),
             (raw_max_fee_per_gas raw \<noteq> tb_max_fee_per_gas transaction \<or>
              raw_max_priority_fee_per_gas raw \<noteq> tb_max_priority_fee_per_gas transaction,
              denied ''raw transaction fee binding mismatch'')])"

definition validate ::
  "primitives \<Rightarrow> time \<Rightarrow> TransactionSignRequestV1 \<Rightarrow> SignerAuthorizationGate \<Rightarrow> unit res" where
  "validate P current_time r g =
     rbind (validate_decision P current_time r g) (\<lambda>_.
     rbind (validate_payloads P r) (\<lambda>_.
     rbind (validate_binding (sr_proposal r) (sr_transaction r)) (\<lambda>_.
     validate_raw (sr_eip1559_unsigned_payload r) (sr_transaction r))))"

definition validate_and_consume ::
  "primitives \<Rightarrow> time \<Rightarrow> TransactionSignRequestV1 \<Rightarrow> SignerAuthorizationGate \<Rightarrow> SignerAuthorizationGate res" where
  "validate_and_consume P current_time r g =
     rbind (validate P current_time r g) (\<lambda>_.
     Inr (g\<lparr>gate_used_decisions := List.insert (dt_decision_nonce (sr_decision r)) (gate_used_decisions g),
       gate_next_wallet_nonce := dset (pr_wallet (sr_proposal r), sr_chain_id r) (sr_wallet_nonce r + 1)
         (gate_next_wallet_nonce g)\<rparr>))"

section \<open>Tokens and their signed bytes\<close>

lemma token_json_inject:
  assumes "sort_keys (obj (token_fields P t)) = sort_keys (obj (token_fields P u))" "inj (iso8601 P)"
  shows "t = u\<lparr>dt_signature := dt_signature t\<rparr>"
proof -
  have distinct: "distinct (map fst (token_fields P v))" for v by (simp add: token_fields_def)
  have field: "map_option sort_keys (map_of (token_fields P t) k) = map_option sort_keys (map_of (token_fields P u) k)" for k
    using assms(1) by (rule obj_fields_eq) (rule distinct)+
  note field = field [unfolded token_fields_def, simplified]
  have "dt_reservation_id t = dt_reservation_id u"
    using field [of "''reservation_id''"] by (auto split: option.splits)
  moreover have "dt_verdict t = dt_verdict u"
    using field [of "''verdict''"] by (auto simp: verdict_name_def split: DecisionVerdict.splits)
  moreover have "dt_reason_codes t = dt_reason_codes u"
    using field [of "''reason_codes''"] by (simp add: comp_def inj_map_eq_map inj_def)
  moreover have "dt_expires_at t = dt_expires_at u"
    using field [of "''expires_at''"] assms(2) by (simp add: inj_eq)
  moreover have "dt_decision_id t = dt_decision_id u" "dt_proposal_hash t = dt_proposal_hash u"
    "dt_policy_version_id t = dt_policy_version_id u" "dt_policy_hash t = dt_policy_hash u"
    "dt_state_version t = dt_state_version u" "dt_decision_nonce t = dt_decision_nonce u"
    "dt_policy_signer t = dt_policy_signer u"
    using field [of "''decision_id''"] field [of "''proposal_hash''"] field [of "''policy_version_id''"]
      field [of "''policy_hash''"] field [of "''state_version''"] field [of "''decision_nonce''"]
      field [of "''policy_signer''"] by simp_all
  ultimately show ?thesis by simp
qed

lemma decision_payload_inject:
  assumes "iso_ok P" "decision_signature_payload P t = Inr b" "decision_signature_payload P u = Inr b"
  shows "t = u\<lparr>dt_signature := dt_signature t\<rparr>"
  using assms canonical_json_document [of "rfc8785 P"] token_json_inject
  unfolding iso_ok_def decision_signature_payload_def by blast

lemma decision_payload_stdlib: "rfc8785 P = None \<Longrightarrow> \<exists>b. decision_signature_payload P t = Inr b"
proof -
  assume "rfc8785 P = None"
  moreover have "supported (obj (token_fields P t))"
    by (simp add: token_fields_def supported_obj list_all_iff split: option.split)
  ultimately show ?thesis by (simp add: decision_signature_payload_def canonical_json_stdlib json_dumps_def)
qed

lemma payload_ignores_signature [simp]:
  "decision_signature_payload P (t\<lparr>dt_signature := x\<rparr>) = decision_signature_payload P t"
  by (simp add: decision_signature_payload_def token_fields_def)

lemma make_DecisionTokenV1_Inr:
  "make_DecisionTokenV1 t = Inr u \<Longrightarrow> u = t"
  by (auto simp: make_DecisionTokenV1_def split: if_splits)

lemma issue_Inr:
  assumes "issue P now did nonce i r v = Inr t"
  obtains h payload where "rec_state r \<in> {RESERVED, DENIED}" "proposal_hash P (rec_proposal r) = Inr h"
    "decision_signature_payload P t = Inr payload"
    "t = (placeholder_token now did nonce i h r v)\<lparr>dt_signature := bytes_hex (key_sign P (di_keys i) payload)\<rparr>"
    "make_DecisionTokenV1 t = Inr t"
proof -
  obtain h where st: "rec_state r \<in> {RESERVED, DENIED}" and h: "proposal_hash P (rec_proposal r) = Inr h"
    using assms by (auto simp: issue_def rbind_Inr_iff)
  let ?p = "placeholder_token now did nonce i h r v"
  obtain payload where p: "make_DecisionTokenV1 ?p = Inr ?p" "decision_signature_payload P ?p = Inr payload"
    "make_DecisionTokenV1 (?p\<lparr>dt_signature := bytes_hex (key_sign P (di_keys i) payload)\<rparr>) = Inr t"
    using assms h by (auto simp: issue_def rbind_Inr_iff dest: make_DecisionTokenV1_Inr)
  have t: "t = ?p\<lparr>dt_signature := bytes_hex (key_sign P (di_keys i) payload)\<rparr>"
    using make_DecisionTokenV1_Inr [OF p(3)] .
  show ?thesis by (rule that [OF st h _ t]) (use p t in simp_all)
qed

lemma issued_verifies:
  assumes "keys_ok P" "issue P now did nonce (issuer_from_seed P seed n) r v = Inr t" "now' < dt_expires_at t"
  shows "verify_decision_token P t (issuer_public_key (issuer_from_seed P seed n)) now' = Inr True"
  using assms(2)
proof (cases rule: issue_Inr)
  case (1 h payload)
  then have sig: "bytes_fromhex (dt_signature t) = Some (key_sign P (di_keys (issuer_from_seed P seed n)) payload)" by simp
  show ?thesis
    using assms(1,3) 1(3) sig
    by (simp add: verify_decision_token_def issuer_public_key_def issuer_from_seed_def from_seed_def Let_def
        key_sign_def keys_ok_def)
qed

section \<open>What the gate checks\<close>

lemma validate_decisionD:
  assumes "validate_decision P now r g = Inr ()"
  shows "now < sr_expires_at r" "verify_decision_token P (sr_decision r) (gate_policy_public_key g) now = Inr True"
    "dt_verdict (sr_decision r) = ALLOW" "proposal_hash P (sr_proposal r) = Inr (dt_proposal_hash (sr_decision r))"
    "dt_reservation_id (sr_decision r) = Some (sr_reservation_id r)"
    "sr_chain_id r = pr_chain_id (sr_proposal r)" "tb_chain_id (sr_transaction r) = pr_chain_id (sr_proposal r)"
    "sr_chain_id r \<in> set (gate_allowed_chain_ids g)"
    "tb_wallet (sr_transaction r) = pr_wallet (sr_proposal r)"
    "tb_wallet_nonce (sr_transaction r) = sr_wallet_nonce r"
    "sr_expires_at r \<le> dt_expires_at (sr_decision r)" "sr_expires_at r \<le> pr_deadline (sr_proposal r)"
    "dt_decision_nonce (sr_decision r) \<notin> set (gate_used_decisions g)"
    "sr_wallet_nonce r = dget_or (gate_next_wallet_nonce g) (pr_wallet (sr_proposal r), sr_chain_id r) 0"
  using assms unfolding validate_decision_def Let_def if_raise_iff rbind_Inr_iff raise_first_Inr_iff by auto

lemma validate_bindingD:
  assumes "validate_binding p t = Inr ()"
  shows "tb_asset t = pr_asset p" "tb_amount t = pr_amount p"
    "\<And>a. pr_intent p = TransferIntentV1 a \<Longrightarrow> tb_operation t = Op_transfer \<and> tb_recipient t = Some a"
    "\<And>c sel cd m out. pr_intent p = SwapIntentV1 c sel cd m out \<Longrightarrow>
       tb_operation t = Op_swap \<and> tb_contract t = Some c \<and> tb_selector t = Some sel \<and> tb_calldata t = cd"
  using assms by (auto simp: validate_binding_def raise_first_Inr_iff intent_kind_def operation_name_def
      split: operation.splits IntentV1.splits)

lemma validate_rawD:
  assumes "validate_raw payload t = Inr ()"
  obtains raw where "decode_unsigned_eip1559 payload = Inr raw" "raw_chain_id raw = tb_chain_id t"
    "raw_nonce raw = tb_wallet_nonce t" "raw_value raw = tb_value t" "raw_calldata raw = tb_calldata t"
    "raw_gas_limit raw = tb_gas_limit t" "raw_max_fee_per_gas raw = tb_max_fee_per_gas t"
    "raw_max_priority_fee_per_gas raw = tb_max_priority_fee_per_gas t"
    "Some (raw_to raw) = (if tb_operation t = Op_transfer then tb_recipient t else tb_contract t)"
proof (cases "decode_unsigned_eip1559 payload")
  case (Inl e)
  with assms show ?thesis by (cases e) (simp_all add: validate_raw_def)
next
  case (Inr raw)
  note eq = assms [unfolded validate_raw_def Inr sum.case Let_def raise_first_Inr_iff]
  show ?thesis by (rule that [OF Inr]) (use eq in auto)
qed

lemma validate_and_consume_Inr:
  assumes "validate_and_consume P now r g = Inr g'"
  shows "validate_decision P now r g = Inr ()" "validate_payloads P r = Inr ()"
    "validate_binding (sr_proposal r) (sr_transaction r) = Inr ()"
    "validate_raw (sr_eip1559_unsigned_payload r) (sr_transaction r) = Inr ()"
    "g' = g\<lparr>gate_used_decisions := List.insert (dt_decision_nonce (sr_decision r)) (gate_used_decisions g),
       gate_next_wallet_nonce := dset (pr_wallet (sr_proposal r), sr_chain_id r) (sr_wallet_nonce r + 1)
         (gate_next_wallet_nonce g)\<rparr>"
  using assms by (auto simp: validate_and_consume_def validate_def rbind_Inr_iff)

lemma make_TransactionSignRequestV1_Inr:
  assumes "make_TransactionSignRequestV1 r0 = Inr r"
  shows "validate_operation_shape (sr_transaction r) = Inr ()"
    "HexData (sr_eip1559_unsigned_payload r)" "lower (sr_eip1559_unsigned_payload r) = sr_eip1559_unsigned_payload r"
    "valid_proposal (sr_proposal r)"
proof -
  obtain p d t where parts: "make_ProposalV1 (sr_proposal r0) = Inr p" "make_TransactionBindingV1 (sr_transaction r0) = Inr t"
    "HexData (sr_eip1559_unsigned_payload r0)"
    "sr_transaction r = t" "sr_proposal r = p" "sr_eip1559_unsigned_payload r = lower (sr_eip1559_unsigned_payload r0)"
    using assms by (auto simp: make_TransactionSignRequestV1_def rbind_Inr_iff split: if_splits)
  from parts(2,4) show "validate_operation_shape (sr_transaction r) = Inr ()"
    by (auto simp: make_TransactionBindingV1_def Let_def rbind_Inr_iff)
  show "HexData (sr_eip1559_unsigned_payload r)" "lower (sr_eip1559_unsigned_payload r) = sr_eip1559_unsigned_payload r"
    using parts(3,6) by (simp_all add: HexData_def)
  show "valid_proposal (sr_proposal r)" using parts(1,5) make_ProposalV1_fixed by simp
qed

lemma validate_operation_shapeD:
  assumes "validate_operation_shape t = Inr ()" "tb_operation t = Op_transfer"
  shows "tb_value t = tb_amount t" "tb_calldata t = ''0x''" "tb_asset t = ''NATIVE:'' @ show_int (tb_chain_id t)"
  using assms by (auto simp: validate_operation_shape_def raise_first_Inr_iff)

lemma HexData_no_space: "HexData s \<Longrightarrow> filter (\<lambda>c. \<not> is_space c) s = s"
proof -
  assume "HexData s"
  then have "s = ''0x'' @ drop 2 s" "list_all is_hex (drop 2 s)"
    by (auto simp: HexData_def CallData_def dest: startswith_0x_drop)
  moreover have "filter (\<lambda>c. \<not> is_space c) (''0x'' @ t) = ''0x'' @ filter (\<lambda>c. \<not> is_space c) t" for t
    by (simp add: is_space_def ascii_def)
  ultimately show ?thesis using filter_hex_text by metis
qed

section \<open>Sequences of requests\<close>

text \<open>The requests a gate accepts out of a sequence, and the gate afterwards.\<close>

fun gate_run ::
  "primitives \<Rightarrow> (time \<times> TransactionSignRequestV1) list \<Rightarrow> SignerAuthorizationGate
     \<Rightarrow> TransactionSignRequestV1 list \<times> SignerAuthorizationGate" where
  "gate_run P [] g = ([], g)"
| "gate_run P ((now, r) # rs) g =
     (case validate_and_consume P now r g of
        Inl _ \<Rightarrow> gate_run P rs g
      | Inr g' \<Rightarrow> (r # fst (gate_run P rs g'), snd (gate_run P rs g')))"

abbreviation "accepted P rs g \<equiv> fst (gate_run P rs g)"

abbreviation "request_key r \<equiv> (pr_wallet (sr_proposal r), sr_chain_id r)"

lemma accepted_nonces:
  "distinct (map (\<lambda>r. dt_decision_nonce (sr_decision r)) (accepted P rs g)) \<and>
   (\<forall>r \<in> set (accepted P rs g). dt_decision_nonce (sr_decision r) \<notin> set (gate_used_decisions g))"
proof (induction P rs g rule: gate_run.induct)
  case (2 P now r rs g)
  show ?case
  proof (cases "validate_and_consume P now r g")
    case (Inl e)
    with 2(1) [OF Inl] show ?thesis by simp
  next
    case (Inr g')
    note acc = validate_and_consume_Inr [OF Inr]
    from 2(2) [OF Inr] validate_decisionD(13) [OF acc(1)] show ?thesis
      unfolding acc(5) using Inr acc(5) by (auto simp: image_iff)
  qed
qed simp

lemma accepted_wallet_nonces:
  "map sr_wallet_nonce (filter (\<lambda>r. request_key r = key) (accepted P rs g)) =
     map (\<lambda>i. dget_or (gate_next_wallet_nonce g) key 0 + int i)
       [0..<length (filter (\<lambda>r. request_key r = key) (accepted P rs g))]"
proof (induction P rs g rule: gate_run.induct)
  case (2 P now r rs g)
  show ?case
  proof (cases "validate_and_consume P now r g")
    case (Inl e)
    with 2(1) [OF Inl] show ?thesis by simp
  next
    case (Inr g')
    note acc = validate_and_consume_Inr [OF Inr]
    note nonce = validate_decisionD(14) [OF acc(1)]
    have upt: "map (\<lambda>i. a + int i) [0..<Suc n] = a # map (\<lambda>i. a + 1 + int i) [0..<n]" for a n
      by (simp add: upt_conv_Cons map_Suc_upt [symmetric] comp_def algebra_simps del: upt_Suc)
    have next_nonce: "dget_or (gate_next_wallet_nonce g') key 0 =
        (if request_key r = key then sr_wallet_nonce r + 1 else dget_or (gate_next_wallet_nonce g) key 0)"
      unfolding acc(5) by (simp add: dget_or_def)
    from 2(2) [OF Inr] show ?thesis
      using Inr nonce next_nonce by (auto simp: upt simp del: upt_Suc)
  qed
qed simp

section \<open>A transfer that can be signed\<close>

definition keccak_ok :: "primitives \<Rightarrow> bool" where
  "keccak_ok P \<longleftrightarrow> (\<forall>b. length (keccak P b) = 32)"

definition transfer_binding :: "ProposalV1 \<Rightarrow> int \<Rightarrow> int \<Rightarrow> int \<Rightarrow> int \<Rightarrow> TransactionBindingV1" where
  "transfer_binding p nonce priority_fee max_fee gas_limit =
     \<lparr>tb_operation = Op_transfer, tb_wallet = pr_wallet p, tb_chain_id = pr_chain_id p, tb_wallet_nonce = nonce,
      tb_asset = pr_asset p, tb_amount = pr_amount p, tb_recipient = Some (intent_recipient (pr_intent p)),
      tb_contract = None, tb_selector = None, tb_calldata = ''0x'', tb_value = pr_amount p,
      tb_gas_limit = gas_limit, tb_max_fee_per_gas = max_fee, tb_max_priority_fee_per_gas = priority_fee\<rparr>"

definition eip712_text :: "bytes \<Rightarrow> DecisionTokenV1 \<Rightarrow> string" where
  "eip712_text domain token = ''0x1901'' @ bytes_hex domain @ drop 2 (dt_proposal_hash token)"

definition transfer_request ::
  "primitives \<Rightarrow> ProposalV1 \<Rightarrow> DecisionTokenV1 \<Rightarrow> uuid \<Rightarrow> bytes \<Rightarrow> string \<Rightarrow> TransactionBindingV1 \<Rightarrow> TransactionSignRequestV1" where
  "transfer_request P p token rid domain payload binding =
     \<lparr>sr_proposal = p, sr_decision = token, sr_reservation_id = rid, sr_wallet_nonce = tb_wallet_nonce binding,
      sr_chain_id = pr_chain_id p, sr_transaction = binding, sr_eip712_payload = eip712_text domain token,
      sr_eip1559_unsigned_payload = payload,
      sr_eip712_hash = projr (keccak_hex P (eip712_text domain token)),
      sr_eip1559_hash = projr (keccak_hex P payload), sr_expires_at = dt_expires_at token\<rparr>"

lemma hex_prefix: "''1901'' = bytes_hex [0x19, 0x01]" "''02'' = bytes_hex [2]"
  by code_simp+

lemma lower_hex_text: "list_all is_lower_hex s \<longleftrightarrow> list_all is_hex s \<and> lower s = s"
  by (induction s) (auto simp: is_lower_hex_def lower_def)

lemma Hex32_digest: "length b = 32 \<Longrightarrow> Hex32 (''0x'' @ bytes_hex b)"
  by (simp add: Hex32_def lower_hex_text startswith_def)

lemma keccak_hex_bytes: "keccak_hex P (''0x'' @ bytes_hex b) = Inr (''0x'' @ bytes_hex (keccak P b))"
  by (simp add: keccak_hex_def fromhex_def)

lemma transfer_binding_valid:
  assumes p: "valid_proposal p" "pr_intent p = TransferIntentV1 a" "pr_asset p = ''NATIVE:'' @ show_int (pr_chain_id p)"
    and enc: "encode_unsigned_eip1559 (pr_chain_id p) n prio fee gas a (pr_amount p) ''0x'' = Inr s"
  shows "make_TransactionBindingV1 (transfer_binding p n prio fee gas) = Inr (transfer_binding p n prio fee gas)"
proof -
  note v = valid_proposalD [OF p(1)]
  have a: "Address a" "lower a = a" using v(5) make_IntentV1_self(1) by (simp_all add: p(2) split: if_splits)
  have asset: "AssetId (pr_asset p)" using p(1) by (simp add: valid_proposal_def make_ProposalV1_Inr)
  from enc obtain "0 \<le> n" "0 \<le> prio" "prio \<le> fee" "0 < fee" "0 < gas" by (rule encode_unsigned_Inr)
  then show ?thesis
    using v a asset p(3)
    by (simp add: make_TransactionBindingV1_def binding_fields_ok_def transfer_binding_def p(2) Let_def
        normalize_binding_def validate_operation_shape_def)
      (simp add: CallData_def startswith_def)
qed

lemma hex_text:
  "b \<noteq> [] \<Longrightarrow> HexData (''0x'' @ bytes_hex b)" "lower (''0x'' @ bytes_hex b) = ''0x'' @ bytes_hex b"
  "fromhex (drop 2 (''0x'' @ bytes_hex b)) = Inr b"
  unfolding lower_append by (cases b; simp add: HexData_def CallData_def startswith_def fromhex_def del: bytes_hex.simps)+

lemma encoded_payload:
  assumes "encode_unsigned_eip1559 c n prio fee gas a v d = Inr s"
  obtains b where "s = ''0x'' @ bytes_hex b" "startswith s ''0x02''" "HexData s" "lower s = s"
proof -
  from assms obtain b where s: "s = ''0x'' @ bytes_hex (2 # b)" by (rule encode_unsigned_Inr)
  have "bytes_hex ([2] @ b) = ''02'' @ bytes_hex b" by (simp only: bytes_hex_append hex_prefix(2))
  then have "s = ''0x02'' @ bytes_hex b" using s by (simp del: bytes_hex.simps)
  then have "startswith s ''0x02''" by (simp only: startswith_append)
  moreover have "HexData s" "lower s = s" unfolding s by (rule hex_text, simp, rule hex_text)
  ultimately show ?thesis using that s by blast
qed

lemma eip712_text_bytes:
  assumes "dt_proposal_hash token = ''0x'' @ bytes_hex d"
  shows "eip712_text domain token = ''0x'' @ bytes_hex ([0x19, 0x01] @ domain @ d)"
  using assms hex_prefix(1) by (simp add: eip712_text_def)

lemma transfer_request_valid:
  assumes p: "valid_proposal p" "pr_intent p = TransferIntentV1 a" "pr_asset p = ''NATIVE:'' @ show_int (pr_chain_id p)"
    and enc: "encode_unsigned_eip1559 (pr_chain_id p) n prio fee gas a (pr_amount p) ''0x'' = Inr s"
    and token: "make_DecisionTokenV1 token = Inr token" "dt_proposal_hash token = ''0x'' @ bytes_hex d"
    and P: "keccak_ok P"
  shows "make_TransactionSignRequestV1 (transfer_request P p token rid domain s (transfer_binding p n prio fee gas)) =
    Inr (transfer_request P p token rid domain s (transfer_binding p n prio fee gas))"
proof -
  from enc obtain b where s: "s = ''0x'' @ bytes_hex b" "HexData s" "lower s = s" by (rule encoded_payload)
  from enc have n: "0 \<le> n" by (rule encode_unsigned_Inr)
  have words: "HexData (eip712_text domain token)" "lower (eip712_text domain token) = eip712_text domain token"
    unfolding eip712_text_bytes [OF token(2)] by (rule hex_text, simp, rule hex_text)
  have "Hex32 (projr (keccak_hex P s))" "Hex32 (projr (keccak_hex P (eip712_text domain token)))"
    using P Hex32_digest unfolding s(1) eip712_text_bytes [OF token(2)] keccak_hex_bytes by (simp_all add: keccak_ok_def)
  then show ?thesis
    using p(1) valid_proposalD(2) [OF p(1)] transfer_binding_valid [OF p enc] token(1) words s(2,3) n
    by (simp add: make_TransactionSignRequestV1_def transfer_request_def valid_proposal_def)
      (simp add: transfer_binding_def)
qed

lemma transfer_payloads:
  assumes enc: "encode_unsigned_eip1559 c n prio fee gas a v ''0x'' = Inr s"
    and token: "dt_proposal_hash token = ''0x'' @ bytes_hex d" "length d = 32" "length domain = 32"
  shows "validate_payloads P (transfer_request P p token rid domain s t) = Inr ()"
proof -
  from enc obtain b where s: "s = ''0x'' @ bytes_hex b" "startswith s ''0x02''" by (rule encoded_payload)
  note words = eip712_text_bytes [OF token(1), of domain]
  have "startswith (eip712_text domain token) ''0x1901''" by (simp add: eip712_text_def startswith_def)
  moreover obtain k where "keccak_hex P s = Inr k" unfolding s(1) keccak_hex_bytes by blast
  moreover obtain k' where "keccak_hex P (eip712_text domain token) = Inr k'" unfolding words keccak_hex_bytes by blast
  moreover have "fromhex (drop 2 (eip712_text domain token)) = Inr ([0x19, 0x01] @ domain @ d)"
    unfolding words by (rule hex_text)
  moreover have "fromhex (drop 2 (dt_proposal_hash token)) = Inr d" unfolding token(1) by (rule hex_text)
  ultimately show ?thesis
    using s(2) token(2,3) by (simp add: validate_payloads_def transfer_request_def)
qed

lemma transfer_accepted:
  assumes p: "valid_proposal p" "pr_intent p = TransferIntentV1 a" "pr_asset p = ''NATIVE:'' @ show_int (pr_chain_id p)"
    and enc: "encode_unsigned_eip1559 (pr_chain_id p) n prio fee gas a (pr_amount p) ''0x'' = Inr s"
    and token: "proposal_hash P p = Inr (dt_proposal_hash token)" "dt_proposal_hash token = ''0x'' @ bytes_hex d"
      "length d = 32" "length domain = 32" "dt_verdict token = ALLOW" "dt_reservation_id token = Some rid"
      "dt_expires_at token \<le> pr_deadline p" "now < dt_expires_at token"
    and gate: "verify_decision_token P token (gate_policy_public_key g) now = Inr True"
      "dt_policy_signer token = address_of P (gate_policy_public_key g)"
      "gate_allowed_policy_hashes g = None" "pr_chain_id p \<in> set (gate_allowed_chain_ids g)"
      "dt_decision_nonce token \<notin> set (gate_used_decisions g)"
      "n = dget_or (gate_next_wallet_nonce g) (pr_wallet p, pr_chain_id p) 0"
  shows "\<exists>g'. validate_and_consume P now (transfer_request P p token rid domain s (transfer_binding p n prio fee gas)) g = Inr g'"
proof -
  let ?t = "transfer_binding p n prio fee gas"
  let ?r = "transfer_request P p token rid domain s ?t"
  have a: "list_all is_hex (drop 2 a)" "lower a = a"
    using valid_proposalD(5) [OF p(1)] make_IntentV1_self(1) by (simp_all add: p(2) Address_def split: if_splits)
  have "validate_decision P now ?r g = Inr ()"
    using token gate
    by (simp add: validate_decision_def Let_def transfer_request_def) (simp add: transfer_binding_def)
  moreover have "validate_payloads P ?r = Inr ()" by (rule transfer_payloads [OF enc token(2-4)])
  moreover have "validate_binding p ?t = Inr ()"
    by (simp add: validate_binding_def p(2) transfer_binding_def operation_name_def intent_kind_def)
  moreover have "validate_raw s ?t = Inr ()"
    using encode_decode_hex [OF enc a(1)] a(2)
    by (simp add: validate_raw_def transfer_binding_def p(2))
  ultimately show ?thesis
    by (simp add: validate_and_consume_def validate_def transfer_request_def)
qed

section \<open>An example\<close>

definition sample_issuer :: DecisionIssuer where
  "sample_issuer = issuer_from_seed prims ''policy'' 30"

definition sample_version :: PolicyVersion where
  "sample_version = \<lparr>pv_version_id = 3, pv_policy = sample_policy, pv_policy_hash = ''0x'' @ replicate 64 (CHR ''a''),
     pv_status = ACTIVE, pv_created_by = ''carol'', pv_created_at = 0, pv_approvals = [''alice'', ''bob''],
     pv_activated_at = None, pv_activated_by = None\<rparr>"

lemma proposal_hash_hex:
  assumes "hash_ok P" "proposal_hash P p = Inr h"
  obtains d where "h = ''0x'' @ bytes_hex d" "length d = 32"
  using assms by (auto simp: proposal_hash_def rbind_Inr_iff sha256_hex_def hash_ok_def)

lemma SignatureHex_bytes: "length b = 64 \<Longrightarrow> SignatureHex (bytes_hex b)"
  by (simp add: SignatureHex_def lower_hex_text)

lemma sample_issue:
  "\<exists>t. issue prims (seconds 10) 1 2 sample_issuer sample_record sample_version = Inr t \<and> dt_expires_at t = seconds 40"
proof -
  obtain h where h: "proposal_hash prims (rec_proposal sample_record) = Inr h"
    using proposal_hash_stdlib [of prims] by (auto simp: prims_def)
  then obtain d where d: "h = ''0x'' @ bytes_hex d" "length d = 32" using proposal_hash_hex prims_ok(1) by blast
  let ?p = "placeholder_token (seconds 10) 1 2 sample_issuer h sample_record sample_version"
  obtain payload where payload: "decision_signature_payload prims ?p = Inr payload"
    using decision_payload_stdlib [of prims] by (auto simp: prims_def)
  have r: "rec_state sample_record = RESERVED" "0 \<le> rec_state_version sample_record" "rec_reason_codes sample_record = []"
    "rec_reservation_id sample_record = Some 7" by code_simp+
  have "len_between 1 256 (issuer_identity sample_issuer)" "Hex32 (pv_policy_hash sample_version)"
    "SignatureHex (replicate 128 (CHR ''0''))" by code_simp+
  moreover have "SignatureHex (bytes_hex (key_sign prims (di_keys sample_issuer) payload))"
    using prims_ok(2) by (intro SignatureHex_bytes) (simp add: key_sign_def keys_ok_def)
  moreover have "Hex32 h" using Hex32_digest [OF d(2)] d(1) by simp
  moreover have "min (pr_deadline (rec_proposal sample_record)) (seconds 10 + seconds (di_lifetime_seconds sample_issuer)) = seconds 40"
    by code_simp
  ultimately show ?thesis
    using h payload r by (simp add: issue_def make_DecisionTokenV1_def) (simp add: placeholder_token_def)
qed

lemma issued_transfer_accepted:
  assumes P: "hash_ok P" "keys_ok P" "keccak_ok P"
    and r: "rec_state r = RESERVED" "rec_reservation_id r = Some rid" "valid_proposal (rec_proposal r)"
      "pr_intent (rec_proposal r) = TransferIntentV1 a"
      "pr_asset (rec_proposal r) = ''NATIVE:'' @ show_int (pr_chain_id (rec_proposal r))"
    and token: "issue P t0 did nonce (issuer_from_seed P seed secs) r v = Inr token" "now < dt_expires_at token"
    and enc: "encode_unsigned_eip1559 (pr_chain_id (rec_proposal r)) 0 prio fee gas a (pr_amount (rec_proposal r)) ''0x'' = Inr s"
    and chain: "pr_chain_id (rec_proposal r) \<in> set chain_ids"
  shows "\<exists>req g'. make_TransactionSignRequestV1 req = Inr req \<and> sr_proposal req = rec_proposal r \<and> sr_decision req = token \<and>
    sr_eip1559_unsigned_payload req = s \<and> validate_and_consume P now req (SignerAuthorizationGate_init
      (issuer_public_key (issuer_from_seed P seed secs)) chain_ids None) = Inr g'"
proof -
  let ?i = "issuer_from_seed P seed secs" and ?p = "rec_proposal r"
  from token(1) obtain h payload where t: "proposal_hash P ?p = Inr h" "make_DecisionTokenV1 token = Inr token"
    "token = (placeholder_token t0 did nonce ?i h r v)\<lparr>dt_signature := bytes_hex (key_sign P (di_keys ?i) payload)\<rparr>"
    by (rule issue_Inr)
  have tf: "dt_proposal_hash token = h" "dt_verdict token = ALLOW" "dt_reservation_id token = Some rid"
    "dt_expires_at token \<le> pr_deadline ?p" "dt_policy_signer token = issuer_identity ?i"
    using r(1,2) unfolding t(3) by (simp_all add: placeholder_token_def)
  obtain d where d: "h = ''0x'' @ bytes_hex d" "length d = 32" using proposal_hash_hex [OF P(1) t(1)] .
  let ?g = "SignerAuthorizationGate_init (issuer_public_key ?i) chain_ids None"
  have sig: "verify_decision_token P token (gate_policy_public_key ?g) now = Inr True"
    using issued_verifies [OF P(2) token] by (simp add: SignerAuthorizationGate_init_def)
  have "\<exists>g'. validate_and_consume P now (transfer_request P ?p token rid (replicate 32 0) s
      (transfer_binding ?p 0 prio fee gas)) ?g = Inr g'"
    by (rule transfer_accepted [OF r(3-5) enc])
      (use t(1) tf d sig token(2) chain in \<open>simp_all add: SignerAuthorizationGate_init_def issuer_public_key_def
         issuer_identity_def issuer_from_seed_def from_seed_def Let_def dget_or_def\<close>)
  moreover have "make_TransactionSignRequestV1 (transfer_request P ?p token rid (replicate 32 0) s
      (transfer_binding ?p 0 prio fee gas)) = Inr (transfer_request P ?p token rid (replicate 32 0) s
      (transfer_binding ?p 0 prio fee gas))"
    by (rule transfer_request_valid [OF r(3-5) enc t(2) _ P(3)]) (use tf(1) d(1) in simp)
  ultimately show ?thesis by (force simp: transfer_request_def)
qed

lemma sample_signable:
  "\<exists>token payload. issue prims (seconds 10) 1 2 (issuer_from_seed prims ''policy'' 30) sample_record sample_version = Inr token \<and>
     seconds 20 < dt_expires_at token \<and>
     encode_unsigned_eip1559 (pr_chain_id (rec_proposal sample_record)) 0 1 2 21000 bob
       (pr_amount (rec_proposal sample_record)) ''0x'' = Inr payload"
proof -
  obtain token where "issue prims (seconds 10) 1 2 sample_issuer sample_record sample_version = Inr token"
    "dt_expires_at token = seconds 40" using sample_issue by blast
  moreover have "encode_unsigned_eip1559 (pr_chain_id (rec_proposal sample_record)) 0 1 2 21000 bob
      (pr_amount (rec_proposal sample_record)) ''0x'' =
    Inr (projr (encode_unsigned_eip1559 (pr_chain_id (rec_proposal sample_record)) 0 1 2 21000 bob
      (pr_amount (rec_proposal sample_record)) ''0x''))" by code_simp
  ultimately show ?thesis unfolding sample_issuer_def by (force simp: seconds_def)
qed

lemma sample_record_facts:
  "keccak_ok prims" "rec_state sample_record = RESERVED" "rec_reservation_id sample_record = Some 7"
  "valid_proposal (rec_proposal sample_record)" "pr_intent (rec_proposal sample_record) = TransferIntentV1 bob"
  "pr_asset (rec_proposal sample_record) = ''NATIVE:'' @ show_int (pr_chain_id (rec_proposal sample_record))"
  "pr_chain_id (rec_proposal sample_record) \<in> set [1]" "rec_proposal sample_record = sample_transfer"
proof -
  show "pr_asset (rec_proposal sample_record) = ''NATIVE:'' @ show_int (pr_chain_id (rec_proposal sample_record))"
    "pr_chain_id (rec_proposal sample_record) \<in> set [1]" by code_simp+
  show "keccak_ok prims" by (simp add: keccak_ok_def prims_def)
qed (use sample_transfer_valid in \<open>simp_all add: sample_record_def\<close>, simp add: sample_transfer_def)

lemma sample_accepted:
  "\<exists>r g g'. make_TransactionSignRequestV1 r = Inr r \<and> sr_proposal r = sample_transfer \<and>
     g = SignerAuthorizationGate_init (issuer_public_key sample_issuer) [1] None \<and>
     validate_and_consume prims (seconds 20) r g = Inr g'"
proof -
  obtain token payload where
    token: "issue prims (seconds 10) 1 2 (issuer_from_seed prims ''policy'' 30) sample_record sample_version = Inr token"
      "seconds 20 < dt_expires_at token" and
    payload: "encode_unsigned_eip1559 (pr_chain_id (rec_proposal sample_record)) 0 1 2 21000 bob
       (pr_amount (rec_proposal sample_record)) ''0x'' = Inr payload" using sample_signable by blast
  from issued_transfer_accepted [OF prims_ok(1,2) sample_record_facts(1-6) token payload sample_record_facts(7)]
  show ?thesis unfolding sample_issuer_def sample_record_facts(8) by blast
qed

section \<open>Properties\<close>



text \<open>C10. No replay: out of any sequence of requests, at any times, the gate accepts at most one
  for each decision nonce, and those it accepts for a wallet and chain carry the wallet nonces
  0, 1, 2 and so on in that order.\<close>

theorem gate_no_replay:
  "distinct (map (\<lambda>r. dt_decision_nonce (sr_decision r)) (accepted P requests g)) \<and>
   (g = SignerAuthorizationGate_init key chain_ids hashes \<longrightarrow>
    map sr_wallet_nonce (filter (\<lambda>r. request_key r = wallet_chain) (accepted P requests g)) =
      map int [0..<length (filter (\<lambda>r. request_key r = wallet_chain) (accepted P requests g))])"
proof -
  have "map sr_wallet_nonce (filter (\<lambda>r. request_key r = wallet_chain) (accepted P requests g)) =
      map int [0..<length (filter (\<lambda>r. request_key r = wallet_chain) (accepted P requests g))]"
    if "g = SignerAuthorizationGate_init key chain_ids hashes"
    using accepted_wallet_nonces [of wallet_chain P requests g]
    unfolding that by (simp add: SignerAuthorizationGate_init_def dget_or_def)
  then show ?thesis using accepted_nonces by blast
qed

theorem gate_no_replay_witness:
  "\<exists>r g. accepted prims [(seconds 20, r), (seconds 20, r)] g = [r]"
proof -
  obtain r g g' where g: "g = SignerAuthorizationGate_init (issuer_public_key sample_issuer) [1] None"
    and acc: "validate_and_consume prims (seconds 20) r g = Inr g'" using sample_accepted by blast
  have "length (accepted prims [(seconds 20, r), (seconds 20, r)] g) \<le> 1"
    using gate_no_replay [of prims "[(seconds 20, r), (seconds 20, r)]" g] acc
    by (auto split: sum.splits)
  with acc have "accepted prims [(seconds 20, r), (seconds 20, r)] g = [r]" by (auto split: sum.splits)
  then show ?thesis by blast
qed

text \<open>C31. A reserved native transfer can be signed. For the token that the policy service issues,
  at any time before the token expires, and for any encodable gas and fee fields, there is a
  validated request that carries the proposal, the token and exactly that encoding, and a fresh
  gate that trusts the policy key and the chain accepts it.\<close>

theorem issued_transfer_signable:
  assumes P: "hash_ok P" "keys_ok P" "keccak_ok P"
    and r: "rec_state r = RESERVED" "rec_reservation_id r = Some rid" "valid_proposal (rec_proposal r)"
      "pr_intent (rec_proposal r) = TransferIntentV1 a"
      "pr_asset (rec_proposal r) = ''NATIVE:'' @ show_int (pr_chain_id (rec_proposal r))"
    and token: "issue P t0 did nonce (issuer_from_seed P seed secs) r v = Inr token" "now < dt_expires_at token"
    and enc: "encode_unsigned_eip1559 (pr_chain_id (rec_proposal r)) 0 prio fee gas a (pr_amount (rec_proposal r)) ''0x'' = Inr s"
    and chain: "pr_chain_id (rec_proposal r) \<in> set chain_ids"
  shows "\<exists>req g'. make_TransactionSignRequestV1 req = Inr req \<and> sr_proposal req = rec_proposal r \<and> sr_decision req = token \<and>
    sr_eip1559_unsigned_payload req = s \<and> validate_and_consume P now req (SignerAuthorizationGate_init
      (issuer_public_key (issuer_from_seed P seed secs)) chain_ids None) = Inr g'"
  using assms by (rule issued_transfer_accepted)

theorem issued_transfer_signable_witness:
  "\<exists>token req g'. issue prims (seconds 10) 1 2 (issuer_from_seed prims ''policy'' 30) sample_record sample_version = Inr token \<and>
     sr_decision req = token \<and> validate_and_consume prims (seconds 20) req
       (SignerAuthorizationGate_init (issuer_public_key (issuer_from_seed prims ''policy'' 30)) [1] None) = Inr g'"
proof -
  obtain token payload where
    token: "issue prims (seconds 10) 1 2 (issuer_from_seed prims ''policy'' 30) sample_record sample_version = Inr token"
      "seconds 20 < dt_expires_at token" and
    payload: "encode_unsigned_eip1559 (pr_chain_id (rec_proposal sample_record)) 0 1 2 21000 bob
       (pr_amount (rec_proposal sample_record)) ''0x'' = Inr payload" using sample_signable by blast
  from issued_transfer_signable [OF prims_ok(1,2) sample_record_facts(1-6) token payload sample_record_facts(7)] token(1)
  show ?thesis by blast
qed

text \<open>The signed bytes of a decision token determine every field of it except the signature:
  a signature cannot be carried over to another proposal, policy, reservation, verdict or
  expiry. The tokens the policy service issues verify under its key until they expire, allow
  exactly the reserved proposals and never outlive the proposal.\<close>

theorem decision_token_binding:
  assumes "iso_ok P" "keys_ok P"
  shows "(decision_signature_payload P t = Inr b \<and> decision_signature_payload P u = Inr b \<longrightarrow>
      t = u\<lparr>dt_signature := dt_signature t\<rparr>) \<and>
    (issue P now did nonce (issuer_from_seed P seed n) r v = Inr t \<longrightarrow>
      proposal_hash P (rec_proposal r) = Inr (dt_proposal_hash t) \<and>
      (dt_verdict t = ALLOW \<longleftrightarrow> rec_state r = RESERVED) \<and> dt_reservation_id t = rec_reservation_id r \<and>
      dt_expires_at t \<le> pr_deadline (rec_proposal r) \<and>
      (\<forall>time. verify_decision_token P t (issuer_public_key (issuer_from_seed P seed n)) time = Inr (time < dt_expires_at t)))"
proof (intro conjI impI)
  assume "decision_signature_payload P t = Inr b \<and> decision_signature_payload P u = Inr b"
  then show "t = u\<lparr>dt_signature := dt_signature t\<rparr>" using decision_payload_inject [OF assms(1)] by blast
next
  assume t: "issue P now did nonce (issuer_from_seed P seed n) r v = Inr t"
  then obtain h payload where eq: "proposal_hash P (rec_proposal r) = Inr h"
    "t = (placeholder_token now did nonce (issuer_from_seed P seed n) h r v)
      \<lparr>dt_signature := bytes_hex (key_sign P (di_keys (issuer_from_seed P seed n)) payload)\<rparr>" by (rule issue_Inr)
  show "proposal_hash P (rec_proposal r) = Inr (dt_proposal_hash t)" "dt_verdict t = ALLOW \<longleftrightarrow> rec_state r = RESERVED"
    "dt_reservation_id t = rec_reservation_id r" "dt_expires_at t \<le> pr_deadline (rec_proposal r)"
    unfolding eq by (simp_all add: placeholder_token_def)
  show "\<forall>time. verify_decision_token P t (issuer_public_key (issuer_from_seed P seed n)) time = Inr (time < dt_expires_at t)"
  proof
    fix time
    show "verify_decision_token P t (issuer_public_key (issuer_from_seed P seed n)) time = Inr (time < dt_expires_at t)"
      using issued_verifies [OF assms(2) t] by (cases "time < dt_expires_at t") (simp_all add: verify_decision_token_def)
  qed
qed

theorem decision_token_binding_witness:
  "\<exists>t. issue prims (seconds 10) 1 2 sample_issuer sample_record sample_version = Inr t \<and>
     dt_verdict t = ALLOW \<and> verify_decision_token prims t (issuer_public_key sample_issuer) (seconds 39) = Inr True"
proof -
  obtain t where t: "issue prims (seconds 10) 1 2 sample_issuer sample_record sample_version = Inr t"
    "dt_expires_at t = seconds 40" using sample_issue by blast
  have "rec_state sample_record = RESERVED" "seconds 39 < seconds 40" by (simp_all add: sample_record_def seconds_def)
  with decision_token_binding [OF prims_ok(3,2), THEN conjunct2, THEN mp, OF t(1) [unfolded sample_issuer_def]] t
  show ?thesis unfolding sample_issuer_def by auto
qed

end
