(* ===== verification/Mandates.thy ===== *)
theory Mandates
  imports Signing
begin

text \<open>
  Mandates (\<open>src/aegisledger/mandates.py\<close>): the signed intent and cart mandates, their signer
  and the \<open>MandateLedger\<close>. Each method runs under the ledger's lock and is one step. The
  readings of the clock are arguments; \<open>_active\<close> reads it once per level of delegation, and
  the bound on Python's recursion is the argument \<open>depth\<close>, so that a cycle of parents is a
  \<open>RecursionError\<close> as in the source.

  Shown: the amounts consumed under a mandate never exceed it, delegation only narrows what a
  mandate permits, over all ancestors, and a cart is consumed once.
\<close>

section \<open>Mandates\<close>

definition OptionalSignatureHex :: "string \<Rightarrow> bool" where
  "OptionalSignatureHex s \<longleftrightarrow> s = [] \<or> SignatureHex s"

record IntentMandateV1 =
  im_mandate_id :: "uuid option"
  im_issuer :: string
  im_delegate :: string
  im_audience :: string
  im_chain_ids :: "int list"
  im_assets :: "string list"
  im_recipients :: "string list"
  im_maximum_amount :: int
  im_expires_at :: time
  im_nonce :: string
  im_parent_mandate_id :: "uuid option"
  im_signature :: string

definition make_IntentMandateV1 :: "IntentMandateV1 \<Rightarrow> IntentMandateV1 res" where
  "make_IntentMandateV1 m =
     (if Address (im_issuer m) \<and> len_between 1 256 (im_delegate m) \<and> len_between 1 256 (im_audience m) \<and>
         list_all (\<lambda>c. 0 < c) (im_chain_ids m) \<and> list_all AssetId (im_assets m) \<and>
         list_all Address (im_recipients m) \<and> 0 < im_maximum_amount m \<and> len_between 6 128 (im_nonce m) \<and>
         OptionalSignatureHex (im_signature m)
      then Inr (m\<lparr>im_issuer := lower (im_issuer m), im_recipients := sorted_set (map lower (im_recipients m)),
        im_chain_ids := sorted_set (im_chain_ids m), im_assets := sorted_set (im_assets m)\<rparr>)
      else Inl (ValueError ''IntentMandateV1''))"

definition opt_uuid_json :: "uuid option \<Rightarrow> json" where
  "opt_uuid_json u = (case u of None \<Rightarrow> JNull | Some x \<Rightarrow> JStr (uuid_str x))"

definition intent_mandate_fields :: "primitives \<Rightarrow> IntentMandateV1 \<Rightarrow> (string \<times> json) list" where
  "intent_mandate_fields P m =
     [(''schema_version'', JStr ''aegisledger.intent_mandate.v1''),
      (''mandate_id'', opt_uuid_json (im_mandate_id m)), (''issuer'', JStr (im_issuer m)),
      (''delegate'', JStr (im_delegate m)), (''audience'', JStr (im_audience m)),
      (''chain_ids'', JList (map JInt (im_chain_ids m))), (''assets'', JList (map JStr (im_assets m))),
      (''recipients'', JList (map JStr (im_recipients m))), (''maximum_amount'', JInt (im_maximum_amount m)),
      (''expires_at'', JStr (iso8601 P (im_expires_at m))), (''nonce'', JStr (im_nonce m)),
      (''parent_mandate_id'', opt_uuid_json (im_parent_mandate_id m))]"

definition intent_signing_payload :: "primitives \<Rightarrow> IntentMandateV1 \<Rightarrow> bytes res" where
  "intent_signing_payload P m = canonical_json (rfc8785 P) (obj (intent_mandate_fields P m))"

definition intent_hash :: "primitives \<Rightarrow> IntentMandateV1 \<Rightarrow> string res" where
  "intent_hash P m = rbind (intent_signing_payload P m) (\<lambda>b. Inr (''0x'' @ sha256_hex P b))"

record CartMandateV1 =
  cm_cart_id :: "uuid option"
  cm_merchant :: string
  cm_mandate_id :: uuid
  cm_intent_hash :: string
  cm_proposal_hash :: string
  cm_chain_id :: int
  cm_asset :: string
  cm_amount :: int
  cm_expires_at :: time
  cm_nonce :: string
  cm_signature :: string

definition make_CartMandateV1 :: "CartMandateV1 \<Rightarrow> CartMandateV1 res" where
  "make_CartMandateV1 c =
     (if Address (cm_merchant c) \<and> Hex32 (cm_intent_hash c) \<and> Hex32 (cm_proposal_hash c) \<and> 0 < cm_chain_id c \<and>
         AssetId (cm_asset c) \<and> 0 < cm_amount c \<and> len_between 6 128 (cm_nonce c) \<and> OptionalSignatureHex (cm_signature c)
      then Inr (c\<lparr>cm_merchant := lower (cm_merchant c)\<rparr>) else Inl (ValueError ''CartMandateV1''))"

definition cart_mandate_fields :: "primitives \<Rightarrow> CartMandateV1 \<Rightarrow> (string \<times> json) list" where
  "cart_mandate_fields P c =
     [(''schema_version'', JStr ''aegisledger.cart_mandate.v1''),
      (''cart_id'', opt_uuid_json (cm_cart_id c)), (''merchant'', JStr (cm_merchant c)),
      (''mandate_id'', JStr (uuid_str (cm_mandate_id c))), (''intent_hash'', JStr (cm_intent_hash c)),
      (''proposal_hash'', JStr (cm_proposal_hash c)), (''chain_id'', JInt (cm_chain_id c)),
      (''asset'', JStr (cm_asset c)), (''amount'', JInt (cm_amount c)),
      (''expires_at'', JStr (iso8601 P (cm_expires_at c))), (''nonce'', JStr (cm_nonce c))]"

definition cart_signing_payload :: "primitives \<Rightarrow> CartMandateV1 \<Rightarrow> bytes res" where
  "cart_signing_payload P c = canonical_json (rfc8785 P) (obj (cart_mandate_fields P c))"

definition cart_hash :: "primitives \<Rightarrow> CartMandateV1 \<Rightarrow> string res" where
  "cart_hash P c = rbind (cart_signing_payload P c) (\<lambda>b. Inr (''0x'' @ sha256_hex P b))"

section \<open>Signing\<close>

definition sign_intent :: "primitives \<Rightarrow> KeyPair \<Rightarrow> uuid \<Rightarrow> IntentMandateV1 \<Rightarrow> IntentMandateV1 res" where
  "sign_intent P keys fresh_id mandate =
     (if im_issuer mandate \<noteq> lower (kp_address keys) then Inl (ValueError ''intent issuer does not match signing key'')
      else
        let values = mandate\<lparr>im_mandate_id := (case im_mandate_id mandate of None \<Rightarrow> Some fresh_id | Some i \<Rightarrow> Some i),
              im_signature := []\<rparr> in
        rbind (make_IntentMandateV1 values) (\<lambda>unsigned.
        rbind (intent_signing_payload P unsigned) (\<lambda>payload.
        make_IntentMandateV1 (values\<lparr>im_signature := bytes_hex (key_sign P keys payload)\<rparr>))))"

definition sign_cart :: "primitives \<Rightarrow> KeyPair \<Rightarrow> uuid \<Rightarrow> CartMandateV1 \<Rightarrow> CartMandateV1 res" where
  "sign_cart P keys fresh_id cart =
     (if cm_merchant cart \<noteq> lower (kp_address keys) then Inl (ValueError ''cart merchant does not match signing key'')
      else
        let values = cart\<lparr>cm_cart_id := (case cm_cart_id cart of None \<Rightarrow> Some fresh_id | Some i \<Rightarrow> Some i),
              cm_signature := []\<rparr> in
        rbind (make_CartMandateV1 values) (\<lambda>unsigned.
        rbind (cart_signing_payload P unsigned) (\<lambda>payload.
        make_CartMandateV1 (values\<lparr>cm_signature := bytes_hex (key_sign P keys payload)\<rparr>))))"

section \<open>The ledger\<close>

record MandateLedger =
  ml_mandates :: "(uuid, IntentMandateV1) dict"
  ml_spent :: "(uuid, int) dict"
  ml_revoked :: "uuid list"
  ml_intent_nonces :: "(string \<times> string) list"
  ml_used_cart_hashes :: "string list"
  ml_used_cart_nonces :: "(string \<times> string) list"

definition MandateLedger_init :: MandateLedger where
  "MandateLedger_init = \<lparr>ml_mandates = [], ml_spent = [], ml_revoked = [], ml_intent_nonces = [],
     ml_used_cart_hashes = [], ml_used_cart_nonces = []\<rparr>"

fun active_mandate :: "nat \<Rightarrow> (nat \<Rightarrow> time) \<Rightarrow> uuid \<Rightarrow> MandateLedger \<Rightarrow> IntentMandateV1 res" where
  "active_mandate 0 clock mandate_id s = Inl RecursionError"
| "active_mandate (Suc depth) clock mandate_id s =
     (case dget (ml_mandates s) mandate_id of
        None \<Rightarrow> Inl (MandateError ''unknown mandate'')
      | Some mandate \<Rightarrow>
          if mandate_id \<in> set (ml_revoked s) then Inl (MandateError ''mandate revoked'')
          else if im_expires_at mandate \<le> clock depth then Inl (MandateError ''mandate expired'')
          else case im_parent_mandate_id mandate of
            None \<Rightarrow> Inr mandate
          | Some parent \<Rightarrow> rbind (active_mandate depth clock parent s) (\<lambda>_. Inr mandate))"

definition is_subset :: "IntentMandateV1 \<Rightarrow> int \<Rightarrow> IntentMandateV1 \<Rightarrow> bool" where
  "is_subset parent remaining child \<longleftrightarrow>
     im_issuer child = lower (im_delegate parent) \<and> im_audience child = im_audience parent \<and>
     set (im_chain_ids child) \<subseteq> set (im_chain_ids parent) \<and> set (im_assets child) \<subseteq> set (im_assets parent) \<and>
     set (im_recipients child) \<subseteq> set (im_recipients parent) \<and> im_maximum_amount child \<le> remaining \<and>
     im_expires_at child \<le> im_expires_at parent"

definition require_attenuation :: "IntentMandateV1 \<Rightarrow> IntentMandateV1 \<Rightarrow> MandateLedger \<Rightarrow> unit res" where
  "require_attenuation parent child s =
     rbind (of_option AssertionError (im_mandate_id parent)) (\<lambda>parent_id.
     rbind (of_option (KeyError (uuid_str parent_id)) (dget (ml_spent s) parent_id)) (\<lambda>spent.
     if \<not> is_subset parent (im_maximum_amount parent - spent) child
     then Inl (MandateError ''delegation must attenuate every parent permission'') else Inr ()))"

definition verify_signature :: "primitives \<Rightarrow> bytes \<Rightarrow> bytes \<Rightarrow> string \<Rightarrow> bool" where
  "verify_signature P public_key payload sig =
     (case bytes_fromhex sig of None \<Rightarrow> False | Some b \<Rightarrow> ed25519_verify P public_key b payload)"

definition ml_register ::
  "primitives \<Rightarrow> nat \<Rightarrow> time \<Rightarrow> (nat \<Rightarrow> time) \<Rightarrow> IntentMandateV1 \<Rightarrow> bytes \<Rightarrow> MandateLedger \<Rightarrow> MandateLedger res" where
  "ml_register P depth now clock mandate public_key s =
     rbind (of_option (MandateError ''mandate ID is required'') (im_mandate_id mandate)) (\<lambda>mandate_id.
     if lower (address_of P public_key) \<noteq> im_issuer mandate then Inl (MandateError ''intent signer does not match issuer'') else
     rbind (intent_signing_payload P mandate) (\<lambda>payload.
     rbind (raise_first
       [(\<not> verify_signature P public_key payload (im_signature mandate), MandateError ''invalid intent signature''),
        (im_expires_at mandate \<le> now, MandateError ''mandate expired''),
        ((im_issuer mandate, im_nonce mandate) \<in> set (ml_intent_nonces s), MandateError ''intent nonce replay'')]) (\<lambda>_.
     rbind (case im_parent_mandate_id mandate of
              None \<Rightarrow> Inr ()
            | Some parent_id \<Rightarrow>
                rbind (active_mandate depth clock parent_id s) (\<lambda>parent. require_attenuation parent mandate s)) (\<lambda>_.
     Inr (s\<lparr>ml_mandates := dset mandate_id mandate (ml_mandates s), ml_spent := dset mandate_id 0 (ml_spent s),
       ml_intent_nonces := List.insert (im_issuer mandate, im_nonce mandate) (ml_intent_nonces s)\<rparr>)))))"

definition ml_revoke :: "uuid \<Rightarrow> string \<Rightarrow> MandateLedger \<Rightarrow> MandateLedger res" where
  "ml_revoke mandate_id actor s =
     rbind (of_option (MandateError ''unknown mandate'') (dget (ml_mandates s) mandate_id)) (\<lambda>mandate.
     if lower actor \<noteq> im_issuer mandate then Inl (MandateError ''only the mandate issuer can revoke'')
     else Inr (s\<lparr>ml_revoked := List.insert mandate_id (ml_revoked s)\<rparr>))"

definition ml_consumed :: "uuid \<Rightarrow> MandateLedger \<Rightarrow> int" where
  "ml_consumed mandate_id s = dget_or (ml_spent s) mandate_id 0"

text \<open>The checks of a proposal and its cart against a mandate, after the signatures.\<close>

definition cart_scope_checks :: "string \<Rightarrow> IntentMandateV1 \<Rightarrow> CartMandateV1 \<Rightarrow> ProposalV1 \<Rightarrow> unit res" where
  "cart_scope_checks audience mandate cart proposal =
     raise_first
       [(pr_mandate_id proposal \<noteq> None \<and> pr_mandate_id proposal \<noteq> im_mandate_id mandate,
         MandateError ''proposal references a different mandate''),
        (audience \<noteq> im_audience mandate, MandateError ''mandate audience mismatch''),
        (pr_principal_id proposal \<noteq> im_delegate mandate, MandateError ''mandate delegate mismatch''),
        (pr_chain_id proposal \<notin> set (im_chain_ids mandate) \<or> cm_chain_id cart \<noteq> pr_chain_id proposal,
         MandateError ''mandate chain mismatch''),
        (pr_asset proposal \<notin> set (im_assets mandate) \<or> cm_asset cart \<noteq> pr_asset proposal,
         MandateError ''mandate asset mismatch''),
        (intent_kind (pr_intent proposal) \<noteq> ''transfer'',
         MandateError ''cart mandates currently authorize transfers only''),
        (intent_recipient (pr_intent proposal) \<noteq> cm_merchant cart \<or>
         intent_recipient (pr_intent proposal) \<notin> set (im_recipients mandate), MandateError ''mandate recipient mismatch''),
        (cm_amount cart \<noteq> pr_amount proposal, MandateError ''cart amount does not match proposal'')]"

definition ml_consume ::
  "primitives \<Rightarrow> nat \<Rightarrow> (nat \<Rightarrow> time) \<Rightarrow> time \<Rightarrow> ProposalV1 \<Rightarrow> CartMandateV1 \<Rightarrow> bytes \<Rightarrow> string \<Rightarrow> MandateLedger \<Rightarrow> MandateLedger res" where
  "ml_consume P depth clock now proposal cart merchant_public_key audience s =
     rbind (active_mandate depth clock (cm_mandate_id cart) s) (\<lambda>mandate.
     rbind (raise_first
       [(cm_expires_at cart \<le> now, MandateError ''cart expired''),
        (lower (address_of P merchant_public_key) \<noteq> cm_merchant cart,
         MandateError ''cart signer does not match merchant'')]) (\<lambda>_.
     rbind (cart_signing_payload P cart) (\<lambda>payload.
     if \<not> verify_signature P merchant_public_key payload (cm_signature cart)
     then Inl (MandateError ''invalid cart signature'') else
     rbind (cart_hash P cart) (\<lambda>h.
     if h \<in> set (ml_used_cart_hashes s) \<or> (cm_merchant cart, cm_nonce cart) \<in> set (ml_used_cart_nonces s)
     then Inl (MandateError ''cart replay detected'') else
     rbind (intent_hash P mandate) (\<lambda>ih.
     if cm_intent_hash cart \<noteq> ih then Inl (MandateError ''cart is bound to a different intent'') else
     rbind (proposal_hash P proposal) (\<lambda>ph.
     if cm_proposal_hash cart \<noteq> ph then Inl (MandateError ''cart is bound to a different proposal'') else
     rbind (cart_scope_checks audience mandate cart proposal) (\<lambda>_.
     rbind (of_option AssertionError (im_mandate_id mandate)) (\<lambda>mandate_id.
     rbind (of_option (KeyError (uuid_str mandate_id)) (dget (ml_spent s) mandate_id)) (\<lambda>spent.
     if spent + pr_amount proposal > im_maximum_amount mandate then Inl (MandateError ''mandate budget exceeded'') else
     Inr (s\<lparr>ml_spent := dset mandate_id (spent + pr_amount proposal) (ml_spent s),
       ml_used_cart_hashes := List.insert h (ml_used_cart_hashes s),
       ml_used_cart_nonces := List.insert (cm_merchant cart, cm_nonce cart) (ml_used_cart_nonces s)\<rparr>))))))))))"

section \<open>The ledger's invariant\<close>

text \<open>A mandate permits no more than another in any of its scopes.\<close>

definition narrows :: "IntentMandateV1 \<Rightarrow> IntentMandateV1 \<Rightarrow> bool" where
  "narrows child parent \<longleftrightarrow> im_audience child = im_audience parent \<and>
     set (im_chain_ids child) \<subseteq> set (im_chain_ids parent) \<and> set (im_assets child) \<subseteq> set (im_assets parent) \<and>
     set (im_recipients child) \<subseteq> set (im_recipients parent) \<and> im_maximum_amount child \<le> im_maximum_amount parent \<and>
     im_expires_at child \<le> im_expires_at parent"

definition ledger_ok :: "MandateLedger \<Rightarrow> bool" where
  "ledger_ok s \<longleftrightarrow> (\<forall>i m. dget (ml_mandates s) i = Some m \<longrightarrow>
     im_mandate_id m = Some i \<and>
     (\<exists>x. dget (ml_spent s) i = Some x \<and> 0 \<le> x \<and> x \<le> im_maximum_amount m) \<and>
     (\<forall>j. im_parent_mandate_id m = Some j \<longrightarrow> (\<exists>p. dget (ml_mandates s) j = Some p \<and> narrows m p)))"

lemma ledger_okD:
  assumes "ledger_ok s" "dget (ml_mandates s) i = Some m"
  shows "im_mandate_id m = Some i" "dget (ml_spent s) i = Some x \<Longrightarrow> 0 \<le> x \<and> x \<le> im_maximum_amount m"
    "im_parent_mandate_id m = Some j \<Longrightarrow> \<exists>p. dget (ml_mandates s) j = Some p \<and> narrows m p"
  using assms(1) [unfolded ledger_ok_def, rule_format, OF assms(2)] by auto

inductive ledger_reachable :: "primitives \<Rightarrow> MandateLedger \<Rightarrow> bool" for P where
  init: "ledger_reachable P MandateLedger_init"
| register: "ledger_reachable P s \<Longrightarrow> make_IntentMandateV1 m = Inr m \<Longrightarrow> im_mandate_id m = Some i \<Longrightarrow>
    dget (ml_mandates s) i = None \<Longrightarrow> ml_register P depth now clock m key s = Inr s' \<Longrightarrow> ledger_reachable P s'"
| revoke: "ledger_reachable P s \<Longrightarrow> ml_revoke i actor s = Inr s' \<Longrightarrow> ledger_reachable P s'"
| consume: "ledger_reachable P s \<Longrightarrow> valid_proposal p \<Longrightarrow>
    ml_consume P depth clock now p cart key audience s = Inr s' \<Longrightarrow> ledger_reachable P s'"

lemma narrows_trans: "narrows a b \<Longrightarrow> narrows b c \<Longrightarrow> narrows a c"
  by (auto simp: narrows_def)

lemma narrows_refl: "narrows a a"
  by (simp add: narrows_def)

lemma active_mandate_Inr:
  assumes "active_mandate depth clock i s = Inr m"
  shows "dget (ml_mandates s) i = Some m \<and> i \<notin> set (ml_revoked s) \<and>
    (\<forall>j. im_parent_mandate_id m = Some j \<longrightarrow> (\<exists>depth' m'. active_mandate depth' clock j s = Inr m'))"
  using assms
  by (cases depth) (auto simp: rbind_Inr_iff split: option.splits if_splits)

lemma ml_register_Inr:
  assumes "ml_register P depth now clock m key s = Inr s'"
  obtains i where "im_mandate_id m = Some i"
    "s' = s\<lparr>ml_mandates := dset i m (ml_mandates s), ml_spent := dset i 0 (ml_spent s),
       ml_intent_nonces := List.insert (im_issuer m, im_nonce m) (ml_intent_nonces s)\<rparr>"
    "\<And>j. im_parent_mandate_id m = Some j \<Longrightarrow> \<exists>p. active_mandate depth clock j s = Inr p \<and>
       require_attenuation p m s = Inr ()"
proof -
  obtain i where i: "im_mandate_id m = Some i" "s' = s\<lparr>ml_mandates := dset i m (ml_mandates s), ml_spent := dset i 0 (ml_spent s),
       ml_intent_nonces := List.insert (im_issuer m, im_nonce m) (ml_intent_nonces s)\<rparr>"
    and par: "(case im_parent_mandate_id m of None \<Rightarrow> Inr () | Some parent_id \<Rightarrow>
        rbind (active_mandate depth clock parent_id s) (\<lambda>parent. require_attenuation parent m s)) = Inr ()"
    using assms unfolding ml_register_def
    by (auto simp: rbind_Inr_iff of_option_def split: option.splits)
  show ?thesis by (rule that [OF i]) (use par in \<open>auto simp: rbind_Inr_iff\<close>)
qed

lemma ledger_ok_register:
  assumes "ledger_ok s" "make_IntentMandateV1 m = Inr m" "im_mandate_id m = Some i" "dget (ml_mandates s) i = None"
    "ml_register P depth now clock m key s = Inr s'"
  shows "ledger_ok s'"
  using assms(5)
proof (rule ml_register_Inr)
  fix j
  assume "im_mandate_id m = Some j" and s': "s' = s\<lparr>ml_mandates := dset j m (ml_mandates s), ml_spent := dset j 0 (ml_spent s),
       ml_intent_nonces := List.insert (im_issuer m, im_nonce m) (ml_intent_nonces s)\<rparr>"
    and par: "\<And>j. im_parent_mandate_id m = Some j \<Longrightarrow> \<exists>p. active_mandate depth clock j s = Inr p \<and>
       require_attenuation p m s = Inr ()"
  with assms(3) have j: "j = i" by simp
  have pos: "0 < im_maximum_amount m" using assms(2) by (simp add: make_IntentMandateV1_def split: if_splits)
  have parent: "\<exists>p. dget (ml_mandates s) k = Some p \<and> narrows m p" if k: "im_parent_mandate_id m = Some k" for k
  proof -
    obtain p where p: "active_mandate depth clock k s = Inr p" "require_attenuation p m s = Inr ()" using par [OF k] by blast
    from p(1) have found: "dget (ml_mandates s) k = Some p" by (rule active_mandate_Inr [THEN conjunct1])
    from p(2) ledger_okD(1) [OF assms(1) found] obtain x where x: "dget (ml_spent s) k = Some x"
      "is_subset p (im_maximum_amount p - x) m"
      by (auto simp: require_attenuation_def rbind_Inr_iff of_option_def split: option.splits)
    with ledger_okD(2) [OF assms(1) found x(1)] have "narrows m p" by (simp add: is_subset_def narrows_def)
    with found show ?thesis by blast
  qed
  have other: "k \<noteq> i" if "im_parent_mandate_id q = Some k" "dget (ml_mandates s) l = Some q" for k l q
    using assms(1,4) that by (force simp: ledger_ok_def)
  show ?thesis
    unfolding ledger_ok_def
  proof (intro allI impI)
    fix l q
    assume "dget (ml_mandates s') l = Some q"
    then consider "l = i" "q = m" | "l \<noteq> i" "dget (ml_mandates s) l = Some q" by (auto simp: s' j split: if_splits)
    then show "im_mandate_id q = Some l \<and> (\<exists>x. dget (ml_spent s') l = Some x \<and> 0 \<le> x \<and> x \<le> im_maximum_amount q) \<and>
        (\<forall>j. im_parent_mandate_id q = Some j \<longrightarrow> (\<exists>p. dget (ml_mandates s') j = Some p \<and> narrows q p))"
    proof cases
      case 1
      then show ?thesis using assms(3,4) pos parent by (fastforce simp: s' j)
    next
      case 2
      then show ?thesis using assms(1) other [OF _ 2(2)] by (auto simp: s' j ledger_ok_def)
    qed
  qed
qed

lemma ml_consume_Inr:
  assumes "ml_consume P depth clock now p cart key audience s = Inr s'"
  obtains m i spent h where "active_mandate depth clock (cm_mandate_id cart) s = Inr m"
    "now < cm_expires_at cart" "cart_hash P cart = Inr h" "h \<notin> set (ml_used_cart_hashes s)"
    "(cm_merchant cart, cm_nonce cart) \<notin> set (ml_used_cart_nonces s)"
    "intent_hash P m = Inr (cm_intent_hash cart)" "proposal_hash P p = Inr (cm_proposal_hash cart)"
    "cart_scope_checks audience m cart p = Inr ()" "im_mandate_id m = Some i" "dget (ml_spent s) i = Some spent"
    "spent + pr_amount p \<le> im_maximum_amount m"
    "s' = s\<lparr>ml_spent := dset i (spent + pr_amount p) (ml_spent s),
       ml_used_cart_hashes := List.insert h (ml_used_cart_hashes s),
       ml_used_cart_nonces := List.insert (cm_merchant cart, cm_nonce cart) (ml_used_cart_nonces s)\<rparr>"
proof -
  have opt: "of_option e x = Inr y \<longleftrightarrow> x = Some y" for e :: exn and x and y :: 'z by (cases x) simp_all
  show ?thesis
    using assms that unfolding ml_consume_def rbind_Inr_iff if_raise_iff raise_first_Inr_iff opt by (fastforce simp: not_le)
qed

lemma ledger_ok_consume:
  assumes "ledger_ok s" "valid_proposal p" "ml_consume P depth clock now p cart key audience s = Inr s'"
  shows "ledger_ok s'"
  using assms(3)
proof (cases rule: ml_consume_Inr)
  case (1 m i spent h)
  have found: "dget (ml_mandates s) i = Some m"
    using active_mandate_Inr [OF 1(1)] assms(1) 1(9) by (auto simp: ledger_ok_def)
  have "0 < pr_amount p" using valid_proposalD [OF assms(2)] by simp
  moreover have "0 \<le> spent" using ledger_okD(2) [OF assms(1) found 1(10)] by simp
  ultimately show ?thesis
    using assms(1) found 1(10-12) by (auto simp: ledger_ok_def)
qed

lemma ledger_ok_revoke: "ledger_ok s \<Longrightarrow> ml_revoke i actor s = Inr s' \<Longrightarrow> ledger_ok s'"
  by (auto simp: ml_revoke_def rbind_Inr_iff ledger_ok_def)

lemma ledger_reachable_ok: "ledger_reachable P s \<Longrightarrow> ledger_ok s"
proof (induction rule: ledger_reachable.induct)
  case init
  show ?case by (simp add: ledger_ok_def MandateLedger_init_def)
qed (blast intro: ledger_ok_register ledger_ok_consume ledger_ok_revoke)+

text \<open>The mandates above a mandate, itself included.\<close>

inductive above :: "MandateLedger \<Rightarrow> uuid \<Rightarrow> uuid \<Rightarrow> bool" for s where
  self: "above s i i"
| parent: "above s i j \<Longrightarrow> dget (ml_mandates s) j = Some m \<Longrightarrow> im_parent_mandate_id m = Some k \<Longrightarrow> above s i k"

lemma above_narrows:
  "above s i j \<Longrightarrow> ledger_ok s \<Longrightarrow> dget (ml_mandates s) i = Some m \<Longrightarrow>
     \<exists>a. dget (ml_mandates s) j = Some a \<and> narrows m a"
proof (induction rule: above.induct)
  case (self i)
  then show ?case using narrows_refl by blast
next
  case (parent i j q k)
  then obtain a where a: "dget (ml_mandates s) j = Some a" "narrows m a" by blast
  with parent.hyps(2) have "q = a" by simp
  with ledger_okD(3) [OF parent.prems(1) a(1)] parent.hyps(3) obtain p where
    "dget (ml_mandates s) k = Some p" "narrows a p" by blast
  with narrows_trans [OF a(2)] show ?case by blast
qed

lemma above_active:
  "above s i j \<Longrightarrow> active_mandate depth clock i s = Inr m \<Longrightarrow> \<exists>depth' a. active_mandate depth' clock j s = Inr a"
proof (induction rule: above.induct)
  case (parent i j q k)
  then obtain depth' a where "active_mandate depth' clock j s = Inr a" by blast
  with active_mandate_Inr [OF this] parent.hyps(2,3) show ?case by auto
qed blast

text \<open>What is used stays used.\<close>

lemma ledger_run_keeps:
  assumes "ml_register P depth now clock m key s = Inr s' \<or> ml_revoke i actor s = Inr s' \<or>
     ml_consume P depth clock now p cart key audience s = Inr s'"
  shows "set (ml_used_cart_hashes s) \<subseteq> set (ml_used_cart_hashes s')" "set (ml_used_cart_nonces s) \<subseteq> set (ml_used_cart_nonces s')"
    "set (ml_revoked s) \<subseteq> set (ml_revoked s')"
  using assms by (auto elim!: ml_register_Inr ml_consume_Inr simp: ml_revoke_def rbind_Inr_iff)

section \<open>Signed mandates are accepted\<close>

lemma intent_payload_signature [simp]:
  "intent_signing_payload P (m\<lparr>im_signature := x\<rparr>) = intent_signing_payload P m"
  "intent_hash P (m\<lparr>im_signature := x\<rparr>) = intent_hash P m"
  by (simp_all add: intent_signing_payload_def intent_hash_def intent_mandate_fields_def)

lemma cart_payload_signature [simp]:
  "cart_signing_payload P (c\<lparr>cm_signature := x\<rparr>) = cart_signing_payload P c"
  "cart_hash P (c\<lparr>cm_signature := x\<rparr>) = cart_hash P c"
  by (simp_all add: cart_signing_payload_def cart_hash_def cart_mandate_fields_def)

lemma mandate_payloads_stdlib:
  assumes "rfc8785 P = None"
  shows "\<exists>b. intent_signing_payload P m = Inr b" "\<exists>b. cart_signing_payload P c = Inr b"
    "\<exists>h. intent_hash P m = Inr h" "\<exists>h. cart_hash P c = Inr h"
proof -
  have "supported (obj (intent_mandate_fields P m))" "supported (obj (cart_mandate_fields P c))"
    by (simp_all add: intent_mandate_fields_def cart_mandate_fields_def supported_obj list_all_iff opt_uuid_json_def
        split: option.split)
  then show "\<exists>b. intent_signing_payload P m = Inr b" "\<exists>b. cart_signing_payload P c = Inr b"
    "\<exists>h. intent_hash P m = Inr h" "\<exists>h. cart_hash P c = Inr h"
    using assms by (simp_all add: intent_hash_def cart_hash_def intent_signing_payload_def cart_signing_payload_def
        canonical_json_stdlib json_dumps_def)
qed

lemma signed_verifies:
  "keys_ok P \<Longrightarrow> verify_signature P (kp_pub (from_seed P seed)) b (bytes_hex (key_sign P (from_seed P seed) b))"
  by (simp add: verify_signature_def key_sign_def from_seed_def Let_def keys_ok_def)

lemma signed_intent_registers:
  assumes "keys_ok P" "intent_signing_payload P m = Inr b" "im_mandate_id m = Some i"
    and "im_issuer m = kp_address (from_seed P seed)" "now < im_expires_at m" "im_parent_mandate_id m = None"
    and "(im_issuer m, im_nonce m) \<notin> set (ml_intent_nonces s)"
  shows "\<exists>s'. ml_register P depth now clock (m\<lparr>im_signature := bytes_hex (key_sign P (from_seed P seed) b)\<rparr>)
      (kp_pub (from_seed P seed)) s = Inr s' \<and>
    ml_mandates s' = dset i (m\<lparr>im_signature := bytes_hex (key_sign P (from_seed P seed) b)\<rparr>) (ml_mandates s) \<and>
    ml_spent s' = dset i 0 (ml_spent s) \<and> ml_revoked s' = ml_revoked s \<and>
    ml_used_cart_hashes s' = ml_used_cart_hashes s \<and> ml_used_cart_nonces s' = ml_used_cart_nonces s"
proof -
  have "kp_address (from_seed P seed) = address_of P (kp_pub (from_seed P seed))" by (simp add: from_seed_def Let_def)
  with assms signed_verifies [OF assms(1)] show ?thesis by (simp add: ml_register_def lower_address_of not_le)
qed

lemma make_intent_signed:
  "make_IntentMandateV1 m = Inr m \<Longrightarrow> SignatureHex x \<Longrightarrow> make_IntentMandateV1 (m\<lparr>im_signature := x\<rparr>) = Inr (m\<lparr>im_signature := x\<rparr>)"
  by (cases m) (auto simp: make_IntentMandateV1_def OptionalSignatureHex_def split: if_splits)

section \<open>An example\<close>

definition shop :: string where
  "shop = kp_address (from_seed prims ''shop'')"

definition sample_purchase :: ProposalV1 where
  "sample_purchase = sample_transfer\<lparr>pr_intent := TransferIntentV1 shop\<rparr>"

definition sample_mandate :: IntentMandateV1 where
  "sample_mandate = \<lparr>im_mandate_id = Some 5, im_issuer = kp_address (from_seed prims ''owner''), im_delegate = ''agent-1'',
     im_audience = ''aegis'', im_chain_ids = [1], im_assets = [''NATIVE:1''], im_recipients = [shop],
     im_maximum_amount = 100, im_expires_at = seconds 1000, im_nonce = ''nonce-1'', im_parent_mandate_id = None,
     im_signature = []\<rparr>"

definition sample_cart :: "string \<Rightarrow> string \<Rightarrow> CartMandateV1" where
  "sample_cart ih ph = \<lparr>cm_cart_id = Some 6, cm_merchant = shop, cm_mandate_id = 5, cm_intent_hash = ih, cm_proposal_hash = ph,
     cm_chain_id = 1, cm_asset = ''NATIVE:1'', cm_amount = 60, cm_expires_at = seconds 1000, cm_nonce = ''cart-1'',
     cm_signature = []\<rparr>"

lemma sample_purchase_valid: "valid_proposal sample_purchase"
  unfolding valid_proposal_def by code_simp

lemma sample_mandate_valid: "make_IntentMandateV1 sample_mandate = Inr sample_mandate"
  by code_simp

lemma sample_ledger:
  "\<exists>s cart s'. ledger_reachable prims s \<and> ml_consumed 5 s = 0 \<and> cm_mandate_id cart = 5 \<and>
     ml_consume prims 10 (\<lambda>_. seconds 10) (seconds 10) sample_purchase cart (kp_pub (from_seed prims ''shop'')) ''aegis'' s = Inr s'"
proof -
  have std: "rfc8785 prims = None" by (simp add: prims_def)
  obtain b where b: "intent_signing_payload prims sample_mandate = Inr b" using mandate_payloads_stdlib(1) [OF std] by blast
  define m where "m = sample_mandate\<lparr>im_signature := bytes_hex (key_sign prims (from_seed prims ''owner'') b)\<rparr>"
  have sig: "SignatureHex (bytes_hex (key_sign prims k b))" for k b
    using prims_ok(2) by (intro SignatureHex_bytes) (simp add: key_sign_def keys_ok_def)
  have m: "make_IntentMandateV1 m = Inr m"
    unfolding m_def by (rule make_intent_signed [OF sample_mandate_valid sig])
  obtain s where s: "ml_register prims 10 0 (\<lambda>_. 0) m (kp_pub (from_seed prims ''owner'')) MandateLedger_init = Inr s"
    "ml_mandates s = dset 5 m []" "ml_spent s = dset 5 0 []" "ml_revoked s = []"
    "ml_used_cart_hashes s = []" "ml_used_cart_nonces s = []"
    using signed_intent_registers [OF prims_ok(2) b, of 5 "''owner''" 0 MandateLedger_init 10 "\<lambda>_. 0"]
    by (auto simp: m_def) (auto simp: sample_mandate_def MandateLedger_init_def seconds_def)
  have "im_mandate_id m = Some 5" "dget (ml_mandates MandateLedger_init) 5 = None"
    by (simp_all add: m_def sample_mandate_def MandateLedger_init_def)
  from ledger_reachable.register [OF ledger_reachable.init m this s(1)] have r: "ledger_reachable prims s" .
  obtain ih where ih: "intent_hash prims m = Inr ih" using mandate_payloads_stdlib(3) [OF std] by blast
  obtain ph where ph: "proposal_hash prims sample_purchase = Inr ph" using proposal_hash_stdlib [OF std] by blast
  let ?c = "sample_cart ih ph"
  obtain cb where cb: "cart_signing_payload prims ?c = Inr cb" using mandate_payloads_stdlib(2) [OF std] by blast
  obtain ch where ch: "cart_hash prims ?c = Inr ch" using mandate_payloads_stdlib(4) [OF std] by blast
  define cart where "cart = ?c\<lparr>cm_signature := bytes_hex (key_sign prims (from_seed prims ''shop'') cb)\<rparr>"
  have fields: "cm_mandate_id cart = 5" "cm_expires_at cart = seconds 1000" "cm_merchant cart = shop" "cm_intent_hash cart = ih"
    "cm_proposal_hash cart = ph" "cm_nonce cart = ''cart-1''" "cm_signature cart = bytes_hex (key_sign prims (from_seed prims ''shop'') cb)"
    "cart_signing_payload prims cart = Inr cb" "cart_hash prims cart = Inr ch"
    using cb ch by (simp_all add: cart_def) (simp_all add: sample_cart_def)
  have active: "active_mandate 10 (\<lambda>_. seconds 10) 5 s = Inr m"
    using s by (simp add: eval_nat_numeral m_def sample_mandate_def seconds_def)
  have addr: "lower (address_of prims (kp_pub (from_seed prims ''shop''))) = shop"
    by (simp add: lower_address_of shop_def from_seed_def Let_def)
  have scope: "cart_scope_checks ''aegis'' m cart sample_purchase = Inr ()"
    by (simp add: cart_scope_checks_def m_def sample_mandate_def cart_def sample_cart_def sample_purchase_def
        sample_transfer_def intent_kind_def)
  have small: "im_mandate_id m = Some 5" "im_maximum_amount m = 100" "pr_amount sample_purchase = 60"
    by (simp_all add: m_def sample_mandate_def sample_purchase_def sample_transfer_def)
  have "\<exists>s'. ml_consume prims 10 (\<lambda>_. seconds 10) (seconds 10) sample_purchase cart (kp_pub (from_seed prims ''shop'')) ''aegis'' s = Inr s'"
    using s small active addr scope fields ih ph signed_verifies [OF prims_ok(2), of "''shop''" cb]
    by (simp add: ml_consume_def seconds_def)
  moreover have "ml_consumed 5 s = 0" by (simp add: ml_consumed_def dget_or_def s(3))
  ultimately show ?thesis using r fields(1) by blast
qed

section \<open>Properties\<close>



text \<open>Consuming a cart. When the ledger accepts a cart for a proposal, the mandate it names and
  every mandate above it is registered and not revoked and covers the proposal's chain, asset
  and recipient; the consumed amount of the mandate, and of no other, grows by the proposal's
  amount and stays within its maximum; and the same ledger state refuses the cart, or any cart
  of that merchant with that nonce, from then on.\<close>

theorem cart_consumption:
  assumes "ledger_reachable P s" "ml_consume P depth clock now p cart key audience s = Inr s'"
  shows "\<exists>m. dget (ml_mandates s) (cm_mandate_id cart) = Some m \<and> im_delegate m = pr_principal_id p \<and> im_audience m = audience \<and>
      (\<forall>j. above s (cm_mandate_id cart) j \<longrightarrow> (\<exists>a. dget (ml_mandates s) j = Some a \<and> j \<notin> set (ml_revoked s) \<and>
         pr_chain_id p \<in> set (im_chain_ids a) \<and> pr_asset p \<in> set (im_assets a) \<and>
         intent_recipient (pr_intent p) \<in> set (im_recipients a))) \<and>
      (\<forall>j. ml_consumed j s' = ml_consumed j s + (if j = cm_mandate_id cart then pr_amount p else 0)) \<and>
      ml_consumed (cm_mandate_id cart) s' \<le> im_maximum_amount m \<and>
      (\<forall>depth' clock' now' p' cart' key' audience'. cm_merchant cart' = cm_merchant cart \<and> cm_nonce cart' = cm_nonce cart \<or>
         cart_hash P cart' = cart_hash P cart \<longrightarrow>
         ml_consume P depth' clock' now' p' cart' key' audience' s' \<notin> range Inr)"
proof -
  note ok = ledger_reachable_ok [OF assms(1)]
  from assms(2) show ?thesis
  proof (cases rule: ml_consume_Inr)
    case (1 m i spent h)
    note found = active_mandate_Inr [OF 1(1), THEN conjunct1]
    have i: "i = cm_mandate_id cart" using ledger_okD(1) [OF ok found] 1(9) by simp
    have scope: "im_delegate m = pr_principal_id p" "im_audience m = audience" "pr_chain_id p \<in> set (im_chain_ids m)"
      "pr_asset p \<in> set (im_assets m)" "intent_recipient (pr_intent p) \<in> set (im_recipients m)"
      using 1(8) by (auto simp: cart_scope_checks_def raise_first_Inr_iff)
    have up: "\<exists>a. dget (ml_mandates s) j = Some a \<and> j \<notin> set (ml_revoked s) \<and>
         pr_chain_id p \<in> set (im_chain_ids a) \<and> pr_asset p \<in> set (im_assets a) \<and>
         intent_recipient (pr_intent p) \<in> set (im_recipients a)" if j: "above s (cm_mandate_id cart) j" for j
    proof -
      obtain a where a: "dget (ml_mandates s) j = Some a" "narrows m a" using above_narrows [OF j ok found] by blast
      moreover have "j \<notin> set (ml_revoked s)" using above_active [OF j 1(1)] active_mandate_Inr by blast
      ultimately show ?thesis using scope by (auto simp: narrows_def)
    qed
    have "ml_consumed j s' = ml_consumed j s + (if j = cm_mandate_id cart then pr_amount p else 0)" for j
      using 1(10) by (simp add: 1(12) i ml_consumed_def dget_or_def)
    moreover have "ml_consumed (cm_mandate_id cart) s' \<le> im_maximum_amount m"
      using 1(11) by (simp add: 1(12) i ml_consumed_def dget_or_def)
    moreover have "ml_consume P depth' clock' now' p' cart' key' audience' s' \<notin> range Inr"
      if same: "cm_merchant cart' = cm_merchant cart \<and> cm_nonce cart' = cm_nonce cart \<or> cart_hash P cart' = cart_hash P cart"
      for depth' clock' now' p' cart' key' audience'
    proof
      assume "ml_consume P depth' clock' now' p' cart' key' audience' s' \<in> range Inr"
      then obtain s'' where "ml_consume P depth' clock' now' p' cart' key' audience' s' = Inr s''" by blast
      then show False by (rule ml_consume_Inr) (use same 1(3,12) in auto)
    qed
    ultimately show ?thesis using found scope(1,2) up by blast
  qed
qed

theorem cart_consumption_witness:
  "\<exists>s s' cart. ledger_reachable prims s \<and> ml_consumed 5 s = 0 \<and> ml_consumed 5 s' = 60 \<and>
     ml_consume prims 10 (\<lambda>_. seconds 10) (seconds 10) sample_purchase cart (kp_pub (from_seed prims ''shop'')) ''aegis'' s = Inr s'"
proof -
  obtain s cart s' where s: "ledger_reachable prims s" "ml_consumed 5 s = 0" "cm_mandate_id cart = 5"
    "ml_consume prims 10 (\<lambda>_. seconds 10) (seconds 10) sample_purchase cart (kp_pub (from_seed prims ''shop'')) ''aegis'' s = Inr s'"
    using sample_ledger by blast
  have "ml_consumed 5 s' = 0 + pr_amount sample_purchase"
    using cart_consumption [OF s(1,4)] s(2,3) by (elim exE conjE) simp
  then have "ml_consumed 5 s' = 60" by (simp add: sample_purchase_def sample_transfer_def)
  with s show ?thesis by blast
qed

end
