(* ===== verification/RateLimit.thy ===== *)
theory RateLimit
  imports Prelude
begin

text \<open>
  The fixed-window rate limiters of \<open>src/aegisledger/rate_limit.py\<close>: the in-memory one and the
  one on the table of migration \<open>0005_rate_limits.py\<close>. Both interpret the locale
  \<open>window_limiter\<close>, in which the bound on the requests allowed within any interval is proved
  from what one call does; the two return the same answers when their clocks agree.
\<close>

section \<open>The limiters\<close>

definition validate_limit :: "int \<Rightarrow> int \<Rightarrow> unit res" where
  "validate_limit limit window_seconds =
     (if limit < 1 \<or> window_seconds < 1 then Inl (ValueError ''rate limit and window must be positive'') else Inr ())"

type_synonym windows = "(string, time \<times> int) dict"

definition mr_consume :: "time \<Rightarrow> string \<Rightarrow> int \<Rightarrow> int \<Rightarrow> windows \<Rightarrow> (bool \<times> windows) res" where
  "mr_consume now subject limit window_seconds s =
     rbind (validate_limit limit window_seconds) (\<lambda>_.
     let (started_at, count) = dget_or s subject (now, 0);
         (started_at, count) = (if now - started_at \<ge> seconds window_seconds then (now, 0) else (started_at, count))
     in if count \<ge> limit then Inr (False, s) else Inr (True, dset subject (started_at, count + 1) s))"

text \<open>The row of \<open>rate_limit_windows\<close>; \<open>request_count\<close> is a 32-bit integer. \<open>db_now\<close> is the
  transaction's \<open>now()\<close> and \<open>now\<close> the clock of the process.\<close>

record rate_limit_windows_row =
  rl_subject :: string
  rl_window_started_at :: time
  rl_request_count :: int
  rl_updated_at :: time

definition rl_ensure :: "time \<Rightarrow> string \<Rightarrow> rate_limit_windows_row list \<Rightarrow> rate_limit_windows_row list" where
  "rl_ensure db_now subject rows =
     (if list_ex (\<lambda>row. rl_subject row = subject) rows then rows
      else rows @ [\<lparr>rl_subject = subject, rl_window_started_at = db_now, rl_request_count = 0, rl_updated_at = db_now\<rparr>])"

definition pr_consume ::
  "time \<Rightarrow> time \<Rightarrow> string \<Rightarrow> int \<Rightarrow> int \<Rightarrow> rate_limit_windows_row list \<Rightarrow> (bool \<times> rate_limit_windows_row list) res" where
  "pr_consume db_now now subject limit window_seconds rows =
     rbind (validate_limit limit window_seconds) (\<lambda>_.
     let rows = rl_ensure db_now subject rows in
     rbind (of_option AssertionError (find (\<lambda>row. rl_subject row = subject) rows)) (\<lambda>row.
     let reset = (rl_window_started_at row \<le> now - seconds window_seconds);
         count = (if reset then 0 else rl_request_count row) in
     if count \<ge> limit then Inr (False, rows)
     else if reset then Inr (True, map (\<lambda>row. if rl_subject row = subject
       then row\<lparr>rl_window_started_at := db_now, rl_request_count := 1, rl_updated_at := db_now\<rparr> else row) rows)
     else if rl_request_count row + 1 \<ge> 2 ^ 31 then Inl (NumericValueOutOfRange ''request_count'')
     else Inr (True, map (\<lambda>row. if rl_subject row = subject
       then row\<lparr>rl_request_count := rl_request_count row + 1, rl_updated_at := db_now\<rparr> else row) rows)))"

section \<open>The contract of a fixed-window limiter\<close>

text \<open>The times at which requests of a subject were allowed, latest first, and the state, after
  requests of this and other subjects at times that do not decrease.\<close>

inductive limiter_runs ::
  "(time \<Rightarrow> string \<Rightarrow> int \<Rightarrow> int \<Rightarrow> 's \<Rightarrow> (bool \<times> 's) res) \<Rightarrow> int \<Rightarrow> int \<Rightarrow> 's \<Rightarrow> string \<Rightarrow> time \<Rightarrow> time list \<Rightarrow> 's \<Rightarrow> bool"
  for consume limit window_seconds init subject where
  start: "limiter_runs consume limit window_seconds init subject now [] init"
| allow: "limiter_runs consume limit window_seconds init subject t acc s \<Longrightarrow> t \<le> now \<Longrightarrow>
    consume now subject limit window_seconds s = Inr (True, s') \<Longrightarrow>
    limiter_runs consume limit window_seconds init subject now (now # acc) s'"
| refuse: "limiter_runs consume limit window_seconds init subject t acc s \<Longrightarrow> t \<le> now \<Longrightarrow>
    consume now subject limit window_seconds s = Inr (False, s') \<Longrightarrow>
    limiter_runs consume limit window_seconds init subject now acc s'"
| other: "limiter_runs consume limit window_seconds init subject t acc s \<Longrightarrow> t \<le> now \<Longrightarrow> subject' \<noteq> subject \<Longrightarrow>
    consume now subject' limit window_seconds s = Inr (b, s') \<Longrightarrow>
    limiter_runs consume limit window_seconds init subject now acc s'"

definition between :: "time \<Rightarrow> time \<Rightarrow> time list \<Rightarrow> int" where
  "between a b acc = int (length (filter (\<lambda>x. a \<le> x \<and> x < b) acc))"

text \<open>The invariant of a run: the window's count is that of the allowed requests in it, the window
  before it held at most \<open>limit\<close>.\<close>

definition good :: "int \<Rightarrow> time \<Rightarrow> time \<Rightarrow> (time \<times> int) option \<Rightarrow> time list \<Rightarrow> bool" where
  "good limit span now w acc \<longleftrightarrow> (\<forall>x \<in> set acc. x \<le> now) \<and>
     (\<forall>t. between t (t + span) acc \<le> 2 * limit) \<and>
     (case w of
        None \<Rightarrow> acc = []
      | Some (started, count) \<Rightarrow> started \<le> now \<and> count \<le> limit \<and> (\<forall>x \<in> set acc. x < started + span) \<and>
          int (length (filter (\<lambda>x. started \<le> x) acc)) = count \<and>
          (\<forall>t > started - span. between t started acc \<le> limit))"

lemma between_Cons: "between a b (x # acc) = (if a \<le> x \<and> x < b then 1 else 0) + between a b acc"
  by (simp add: between_def)

lemma filter_le: "(\<And>x. x \<in> set xs \<Longrightarrow> P x \<Longrightarrow> Q x) \<Longrightarrow> length (filter P xs) \<le> length (filter Q xs)"
  by (induction xs) auto

lemma good_first: "0 < limit \<Longrightarrow> 0 < span \<Longrightarrow> good limit span now (Some (now, 1)) [now]"
  by (auto simp: good_def between_def)

lemma good_reset:
  assumes "good limit span t (Some (started, count)) acc" "t \<le> now" "started + span \<le> now" "0 < limit" "0 < span"
  shows "good limit span now (Some (now, 1)) (now # acc)"
proof -
  from assms have old: "\<forall>x \<in> set acc. x \<le> t" "count \<le> limit" "\<forall>x \<in> set acc. x < started + span"
    "int (length (filter (\<lambda>x. started \<le> x) acc)) = count" "\<And>u. between u (u + span) acc \<le> 2 * limit"
    by (auto simp: good_def)
  have late: "between u v acc \<le> limit" if "u > now - span" for u v
  proof -
    have "length (filter (\<lambda>x. u \<le> x \<and> x < v) acc) \<le> length (filter (\<lambda>x. started \<le> x) acc)"
      by (rule filter_le) (use that assms(3) in auto)
    then show ?thesis using old(2,4) by (simp add: between_def)
  qed
  have none: "filter (\<lambda>x. now \<le> x) acc = []"
    using old(3) assms(3) by (auto simp: filter_empty_conv)
  have "between u (u + span) (now # acc) \<le> 2 * limit" for u
    using old(5) [of u] late [of u "u + span"] assms(4) by (cases "now < u + span") (auto simp: between_Cons)
  moreover have "between u now (now # acc) \<le> limit" if "u > now - span" for u
    using late [OF that] by (simp add: between_Cons)
  ultimately show ?thesis
    using old(1,3) assms(2,3,5) none assms(4) by (fastforce simp: good_def)
qed

lemma good_count:
  assumes "good limit span t (Some (started, count)) acc" "t \<le> now" "now < started + span" "count < limit"
  shows "good limit span now (Some (started, count + 1)) (now # acc)"
proof -
  from assms have old: "\<forall>x \<in> set acc. x \<le> t" "started \<le> t" "\<forall>x \<in> set acc. x < started + span"
    "int (length (filter (\<lambda>x. started \<le> x) acc)) = count" "\<And>u. between u (u + span) acc \<le> 2 * limit"
    "\<And>u. u > started - span \<Longrightarrow> between u started acc \<le> limit"
    by (auto simp: good_def)
  have split: "between u v acc \<le> between u started acc + count" for u v
  proof -
    have "length (filter (\<lambda>x. u \<le> x \<and> x < v) acc) \<le>
        length (filter (\<lambda>x. u \<le> x \<and> x < started) acc) + length (filter (\<lambda>x. started \<le> x) acc)"
      by (induction acc) auto
    then show ?thesis using old(4) by (simp add: between_def)
  qed
  have "between u (u + span) (now # acc) \<le> 2 * limit" for u
  proof (cases "u \<le> now \<and> now < u + span")
    case True
    then have "u > started - span" using old(2) assms(2) by linarith
    with split [of u "u + span"] old(6) [of u] assms(4) True show ?thesis by (simp add: between_Cons)
  qed (use old(5) in \<open>auto simp: between_Cons\<close>)
  moreover have "between u started (now # acc) = between u started acc" for u
    using old(2) assms(2) by (simp add: between_Cons)
  ultimately show ?thesis using old assms(2-4) by (auto simp: good_def)
qed

lemma good_later: "good limit span t w acc \<Longrightarrow> t \<le> now \<Longrightarrow> good limit span now w acc"
  by (fastforce simp: good_def split: option.splits)

text \<open>\<open>window_of s subject\<close> is the start of the subject's window and the requests counted in it.\<close>

locale window_limiter =
  fixes invar :: "'s \<Rightarrow> bool"
    and window_of :: "'s \<Rightarrow> string \<Rightarrow> (time \<times> int) option"
    and consume :: "time \<Rightarrow> string \<Rightarrow> int \<Rightarrow> int \<Rightarrow> 's \<Rightarrow> (bool \<times> 's) res"
  assumes positive: "consume now subject limit window_seconds s = Inr r \<Longrightarrow> 0 < limit \<and> 0 < window_seconds"
    and allowed: "invar s \<Longrightarrow> consume now subject limit window_seconds s = Inr (True, s') \<Longrightarrow>
      invar s' \<and>
      (case window_of s subject of
         None \<Rightarrow> window_of s' subject = Some (now, 1)
       | Some (started, count) \<Rightarrow>
           if started + seconds window_seconds \<le> now then window_of s' subject = Some (now, 1)
           else count < limit \<and> window_of s' subject = Some (started, count + 1)) \<and>
      (\<forall>other. other \<noteq> subject \<longrightarrow> window_of s' other = window_of s other)"
    and refused: "invar s \<Longrightarrow> consume now subject limit window_seconds s = Inr (False, s') \<Longrightarrow>
      invar s' \<and> window_of s' subject = window_of s subject \<and>
      (\<forall>other. other \<noteq> subject \<longrightarrow> window_of s' other = window_of s other)"
begin

lemma runs_good:
  "limiter_runs consume limit window_seconds init subject now acc s \<Longrightarrow> 0 < limit \<Longrightarrow> 0 < window_seconds \<Longrightarrow>
     invar init \<Longrightarrow> window_of init subject = None \<Longrightarrow> invar s \<and> good limit (seconds window_seconds) now (window_of s subject) acc"
proof (induction rule: limiter_runs.induct)
  case (start now)
  then show ?case by (simp add: good_def between_def)
next
  case (allow t acc s now s')
  then have s: "invar s" "good limit (seconds window_seconds) t (window_of s subject) acc" by simp_all
  note step = allowed [OF s(1) allow.hyps(3)]
  show ?case
  proof (cases "window_of s subject")
    case None
    with s(2) have "acc = []" by (simp add: good_def)
    with step None good_first [OF allow.prems(1), of "seconds window_seconds" now] allow.prems(2)
    show ?thesis by (simp add: seconds_def)
  next
    case (Some w)
    obtain started count where w: "w = (started, count)" by (cases w)
    with Some s(2) have g: "good limit (seconds window_seconds) t (Some (started, count)) acc" by simp
    show ?thesis
    proof (cases "started + seconds window_seconds \<le> now")
      case True
      with step Some w good_reset [OF g allow.hyps(2) True allow.prems(1)] allow.prems(2)
      show ?thesis by (simp add: seconds_def)
    next
      case False
      with step Some w good_count [OF g allow.hyps(2)] show ?thesis by simp
    qed
  qed
next
  case (refuse t acc s now s')
  then have "invar s" "good limit (seconds window_seconds) t (window_of s subject) acc" by simp_all
  with refused [OF _ refuse.hyps(3)] good_later [OF _ refuse.hyps(2)] show ?case by simp
next
  case (other t acc s now subject' b s')
  then have s: "invar s" "good limit (seconds window_seconds) t (window_of s subject) acc" by simp_all
  have "invar s' \<and> window_of s' subject = window_of s subject"
  proof (cases b)
    case True
    then have "consume now subject' limit window_seconds s = Inr (True, s')" using other.hyps(4) by simp
    from allowed [OF s(1) this] other.hyps(3) show ?thesis by auto
  next
    case False
    then have "consume now subject' limit window_seconds s = Inr (False, s')" using other.hyps(4) by simp
    from refused [OF s(1) this] other.hyps(3) show ?thesis by auto
  qed
  with s(2) good_later [OF _ other.hyps(2)] show ?case by simp
qed

lemma within_bound:
  assumes "limiter_runs consume limit window_seconds init subject now acc s" "0 < limit" "0 < window_seconds"
    "invar init" "window_of init subject = None"
  shows "between t (t + seconds window_seconds) acc \<le> 2 * limit"
  using runs_good [OF assms] by (simp add: good_def)

end

section \<open>Both limiters keep it\<close>

lemma validate_limit_Inr: "validate_limit limit window_seconds = Inr () \<longleftrightarrow> 0 < limit \<and> 0 < window_seconds"
  by (auto simp: validate_limit_def)

interpretation memory_limiter: window_limiter "\<lambda>_. True" dget mr_consume
  by unfold_locales
    (auto simp: mr_consume_def rbind_Inr_iff validate_limit_Inr dget_or_def seconds_def split: option.splits if_splits)

definition rl_window :: "rate_limit_windows_row list \<Rightarrow> string \<Rightarrow> (time \<times> int) option" where
  "rl_window rows subject =
     map_option (\<lambda>row. (rl_window_started_at row, rl_request_count row)) (find (\<lambda>row. rl_subject row = subject) rows)"

definition rl_ok :: "rate_limit_windows_row list \<Rightarrow> bool" where
  "rl_ok rows \<longleftrightarrow> distinct (map rl_subject rows)"

abbreviation "table_consume now \<equiv> pr_consume now now"

lemma rl_window_update:
  assumes "\<And>row. rl_subject (f row) = rl_subject row"
  shows "rl_window (map (\<lambda>row. if rl_subject row = subject then f row else row) rows) other =
    (if other = subject then map_option (\<lambda>row. (rl_window_started_at (f row), rl_request_count (f row)))
       (find (\<lambda>row. rl_subject row = subject) rows) else rl_window rows other)"
proof -
  have "find (\<lambda>row. rl_subject row = other) (map (\<lambda>row. if rl_subject row = subject then f row else row) rows) =
      map_option (\<lambda>row. if rl_subject row = subject then f row else row) (find (\<lambda>row. rl_subject row = other) rows)"
    by (rule find_map_keep) (simp add: assms)
  then show ?thesis
    by (cases "find (\<lambda>row. rl_subject row = other) rows") (auto simp: rl_window_def dest: find_Some_mem)
qed

lemma rl_ensure_facts:
  assumes ok: "rl_ok rows" and same: "\<And>x. rl_window rows x = dget s x"
  shows "\<exists>row. find (\<lambda>row. rl_subject row = subject) (rl_ensure now subject rows) = Some row \<and>
      (rl_window_started_at row, rl_request_count row) = dget_or s subject (now, 0)"
    and "other \<noteq> subject \<Longrightarrow> rl_window (rl_ensure now subject rows) other = dget s other"
    and "rl_ok (rl_ensure now subject rows)"
    and "dget s subject \<noteq> None \<Longrightarrow> rl_ensure now subject rows = rows"
proof -
  have present: "list_ex (\<lambda>row. rl_subject row = subject) rows \<longleftrightarrow> find (\<lambda>row. rl_subject row = subject) rows \<noteq> None"
    by (auto simp: list_ex_iff find_None_iff)
  show "\<exists>row. find (\<lambda>row. rl_subject row = subject) (rl_ensure now subject rows) = Some row \<and>
      (rl_window_started_at row, rl_request_count row) = dget_or s subject (now, 0)"
  proof (cases "find (\<lambda>row. rl_subject row = subject) rows")
    case None
    then have "dget s subject = None" using same [of subject] by (simp add: rl_window_def)
    with None present show ?thesis by (simp add: rl_ensure_def find_append dget_or_def)
  next
    case (Some row)
    then have "dget s subject = Some (rl_window_started_at row, rl_request_count row)"
      using same [of subject] by (simp add: rl_window_def)
    with Some present show ?thesis by (simp add: rl_ensure_def dget_or_def)
  qed
  show "rl_window (rl_ensure now subject rows) other = dget s other" if "other \<noteq> subject"
    using that same [of other] by (cases "find (\<lambda>row. rl_subject row = other) rows")
      (simp_all add: rl_ensure_def rl_window_def find_append)
  show "rl_ok (rl_ensure now subject rows)"
    using ok by (auto simp: rl_ok_def rl_ensure_def list_ex_iff)
  show "rl_ensure now subject rows = rows" if "dget s subject \<noteq> None"
    using that same [of subject] present by (cases "find (\<lambda>row. rl_subject row = subject) rows")
      (simp_all add: rl_ensure_def rl_window_def)
qed

text \<open>One call on the table, when the two clocks agree: the answer and the windows are those of a
  call in memory.\<close>

definition same_windows :: "rate_limit_windows_row list \<Rightarrow> windows \<Rightarrow> bool" where
  "same_windows rows s \<longleftrightarrow> rl_ok rows \<and> (\<forall>x. rl_window rows x = dget s x)"

lemma rl_ok_update [simp]:
  "(\<And>row. rl_subject (f row) = rl_subject row) \<Longrightarrow>
     rl_ok (map (\<lambda>row. if rl_subject row = subject then f row else row) rows) = rl_ok rows"
  by (simp add: rl_ok_def comp_def if_distrib cong: if_cong)

lemma pr_consume_simulates:
  assumes same: "same_windows rows s"
  shows "case table_consume now subject limit window_seconds rows of
      Inl e \<Rightarrow> mr_consume now subject limit window_seconds s = Inl e \<or> 2 ^ 31 \<le> limit
    | Inr (b, rows') \<Rightarrow> \<exists>s'. mr_consume now subject limit window_seconds s = Inr (b, s') \<and> same_windows rows' s'"
proof (cases "validate_limit limit window_seconds")
  case (Inl e)
  then show ?thesis by (simp add: pr_consume_def mr_consume_def)
next
  case (Inr u)
  then have v: "0 < limit" "0 < window_seconds" using validate_limit_Inr by simp_all
  have ok: "rl_ok rows" and eq: "\<And>x. rl_window rows x = dget s x" using same by (auto simp: same_windows_def)
  let ?r = "rl_ensure now subject rows"
  note ens = rl_ensure_facts [OF ok eq, where subject = subject and now = now]
  obtain row where row: "find (\<lambda>row. rl_subject row = subject) ?r = Some row"
    "(rl_window_started_at row, rl_request_count row) = dget_or s subject (now, 0)" using ens(1) by blast
  let ?st = "rl_window_started_at row" and ?c = "rl_request_count row"
  have get: "dget_or s subject (now, 0) = (?st, ?c)" using row(2) by simp
  consider (reset) "?st + seconds window_seconds \<le> now"
    | (full) "\<not> ?st + seconds window_seconds \<le> now" "limit \<le> ?c"
    | (count) "\<not> ?st + seconds window_seconds \<le> now" "?c < limit" by linarith
  then show ?thesis
  proof cases
    case reset
    then show ?thesis
      using Inr v row(1) get ens(2,3)
      by (simp add: pr_consume_def mr_consume_def Let_def same_windows_def rl_window_update)
  next
    case full
    then have "dget s subject \<noteq> None" using get v by (auto simp: dget_or_def split: option.splits)
    with full show ?thesis
      using Inr v row(1) get same ens(4)
      by (simp add: pr_consume_def mr_consume_def Let_def)
  next
    case count
    show ?thesis
    proof (cases "2 ^ 31 \<le> ?c + 1")
      case True
      with count Inr v row(1) show ?thesis by (simp add: pr_consume_def Let_def)
    next
      case False
      with count Inr v row(1) get ens(2,3) show ?thesis
        by (simp add: pr_consume_def mr_consume_def Let_def same_windows_def rl_window_update)
    qed
  qed
qed

text \<open>The rows as a dictionary.\<close>

definition rl_dict :: "rate_limit_windows_row list \<Rightarrow> windows" where
  "rl_dict rows = map (\<lambda>row. (rl_subject row, rl_window_started_at row, rl_request_count row)) rows"

lemma same_rl_dict: "rl_ok rows \<Longrightarrow> same_windows rows (rl_dict rows)"
proof -
  have "rl_window rows x = dget (rl_dict rows) x" for x
    by (induction rows) (auto simp: rl_window_def rl_dict_def)
  then show "rl_ok rows \<Longrightarrow> ?thesis" by (simp add: same_windows_def)
qed

interpretation table_limiter: window_limiter rl_ok rl_window table_consume
proof unfold_locales
  fix now subject limit window_seconds s r
  assume "table_consume now subject limit window_seconds s = Inr r"
  then show "0 < limit \<and> 0 < window_seconds" by (auto simp: pr_consume_def rbind_Inr_iff validate_limit_Inr)
next
  fix s now subject limit window_seconds s'
  assume ok: "rl_ok s" and res: "table_consume now subject limit window_seconds s = Inr (True, s')"
  from pr_consume_simulates [OF same_rl_dict [OF ok], of now subject limit window_seconds] res
  obtain d where d: "mr_consume now subject limit window_seconds (rl_dict s) = Inr (True, d)" "same_windows s' d" by auto
  have eq: "dget (rl_dict s) = rl_window s" "dget d = rl_window s'" "rl_ok s'"
    using same_rl_dict [OF ok] d(2) by (auto simp: same_windows_def)
  from memory_limiter.allowed [OF TrueI d(1)] show "rl_ok s' \<and>
      (case rl_window s subject of None \<Rightarrow> rl_window s' subject = Some (now, 1)
       | Some (started, count) \<Rightarrow> if started + seconds window_seconds \<le> now then rl_window s' subject = Some (now, 1)
           else count < limit \<and> rl_window s' subject = Some (started, count + 1)) \<and>
      (\<forall>other. other \<noteq> subject \<longrightarrow> rl_window s' other = rl_window s other)"
    unfolding eq(1,2) using eq(3) by blast
next
  fix s now subject limit window_seconds s'
  assume ok: "rl_ok s" and res: "table_consume now subject limit window_seconds s = Inr (False, s')"
  from pr_consume_simulates [OF same_rl_dict [OF ok], of now subject limit window_seconds] res
  obtain d where d: "mr_consume now subject limit window_seconds (rl_dict s) = Inr (False, d)" "same_windows s' d" by auto
  have eq: "dget (rl_dict s) = rl_window s" "dget d = rl_window s'" "rl_ok s'"
    using same_rl_dict [OF ok] d(2) by (auto simp: same_windows_def)
  from memory_limiter.refused [OF TrueI d(1)] show "rl_ok s' \<and> rl_window s' subject = rl_window s subject \<and>
      (\<forall>other. other \<noteq> subject \<longrightarrow> rl_window s' other = rl_window s other)"
    unfolding eq(1,2) using eq(3) by blast
qed

text \<open>The answers to a sequence of calls.\<close>

fun limiter_answers ::
  "(time \<Rightarrow> string \<Rightarrow> int \<Rightarrow> int \<Rightarrow> 's \<Rightarrow> (bool \<times> 's) res) \<Rightarrow> (time \<times> string \<times> int \<times> int) list \<Rightarrow> 's \<Rightarrow> bool res list" where
  "limiter_answers consume [] s = []"
| "limiter_answers consume ((now, subject, limit, window_seconds) # calls) s =
     (case consume now subject limit window_seconds s of
        Inl e \<Rightarrow> Inl e # limiter_answers consume calls s
      | Inr (b, s') \<Rightarrow> Inr b # limiter_answers consume calls s')"

lemma limiter_answers_eq:
  "same_windows rows s \<Longrightarrow> \<forall>(now, subject, limit, window_seconds) \<in> set calls. limit < 2 ^ 31 \<Longrightarrow>
     limiter_answers table_consume calls rows = limiter_answers mr_consume calls s"
proof (induction calls arbitrary: rows s)
  case (Cons call calls)
  obtain now subject limit w where call: "call = (now, subject, limit, w)" by (cases call)
  with Cons.prems(2) have small: "limit < 2 ^ 31" by simp
  note sim = pr_consume_simulates [OF Cons.prems(1), of now subject limit w]
  show ?case
  proof (cases "table_consume now subject limit w rows")
    case (Inl e)
    with sim small have "mr_consume now subject limit w s = Inl e" by simp
    with Inl Cons call show ?thesis by simp
  next
    case (Inr r)
    obtain b rows' where r: "r = (b, rows')" by (cases r)
    with sim Inr obtain s' where "mr_consume now subject limit w s = Inr (b, s')" "same_windows rows' s'" by auto
    with Inr r Cons call show ?thesis by simp
  qed
qed simp

section \<open>Properties\<close>

text \<open>Both limiters: whatever requests were made, at times that do not decrease, at most twice
  the limit of a subject's requests are allowed within any interval as long as the window. (The
  factor is the fixed window's: one full window may end and another begin within the interval.)\<close>

theorem rate_limit_bound:
  assumes "0 < limit" "0 < window_seconds"
  shows "(limiter_runs mr_consume limit window_seconds [] subject now acc s \<longrightarrow>
      between t (t + seconds window_seconds) acc \<le> 2 * limit) \<and>
    (limiter_runs table_consume limit window_seconds [] subject now acc rows \<longrightarrow>
      between t (t + seconds window_seconds) acc \<le> 2 * limit)"
  using memory_limiter.within_bound [OF _ assms] table_limiter.within_bound [OF _ assms]
  by (auto simp: rl_ok_def rl_window_def)

theorem rate_limit_bound_witness:
  "\<exists>s. limiter_runs mr_consume 1 60 [] ''agent'' (seconds 60) [seconds 60, 0] s \<and>
     between (seconds 1) (seconds 1 + seconds 60) [seconds 60, 0] \<le> 2 * 1"
proof -
  have start: "limiter_runs mr_consume 1 60 [] ''agent'' 0 [] []" by (rule limiter_runs.start)
  have "mr_consume 0 ''agent'' 1 60 [] = Inr (True, [(''agent'', 0, 1)])"
    "mr_consume (seconds 60) ''agent'' 1 60 [(''agent'', 0, 1)] = Inr (True, [(''agent'', seconds 60, 1)])" by code_simp+
  note steps = this
  have first: "limiter_runs mr_consume 1 60 [] ''agent'' 0 [0] [(''agent'', 0, 1)]"
    by (rule limiter_runs.allow [OF start order_refl steps(1)])
  have "(0 :: time) \<le> seconds 60" by (simp add: seconds_def)
  then have "limiter_runs mr_consume 1 60 [] ''agent'' (seconds 60) [seconds 60, 0] [(''agent'', seconds 60, 1)]"
    by (rule limiter_runs.allow [OF first _ steps(2)])
  moreover from this have "between (seconds 1) (seconds 1 + seconds 60) [seconds 60, 0] \<le> 2 * 1"
    using rate_limit_bound [of 1 60] by simp
  ultimately show ?thesis by blast
qed

text \<open>The two limiters give the same answers to every sequence of requests, errors included,
  when the clocks of the process and of the database agree and the limits fit the column.\<close>

theorem rate_limiters_equivalent:
  assumes "\<forall>(now, subject, limit, window_seconds) \<in> set calls. limit < 2 ^ 31"
  shows "limiter_answers table_consume calls [] = limiter_answers mr_consume calls []"
  by (rule limiter_answers_eq [OF _ assms]) (simp add: same_windows_def rl_ok_def rl_window_def)

theorem rate_limiters_equivalent_witness:
  "limiter_answers table_consume [(1, ''agent'', 1, 60), (2, ''agent'', 1, 60), (2, ''agent'', 0, 60)] [] =
     [Inr True, Inr False, Inl (ValueError ''rate limit and window must be positive'')]"
proof -
  have "limiter_answers mr_consume [(1, ''agent'', 1, 60), (2, ''agent'', 1, 60), (2, ''agent'', 0, 60)] [] =
     [Inr True, Inr False, Inl (ValueError ''rate limit and window must be positive'')]" by code_simp
  then show ?thesis using rate_limiters_equivalent [of "[(1, ''agent'', 1, 60), (2, ''agent'', 1, 60), (2, ''agent'', 0, 60)]"]
    by simp
qed

end
