(* ===== verification/Journal.thy ===== *)
theory Journal
  imports Signing
begin

text \<open>
  \<open>src/aegisledger/audit.py\<close>: the hash-chained journal in memory and in PostgreSQL, its Merkle
  checkpoints, the write-once retention stores, the anchoring service and the verifier. The
  clock, fresh identifiers, the S3 client and the external anchor are arguments. A file of the
  retention store holds its envelope, the document that \<open>json.loads\<close> reads back; the resolution
  of symbolic links is not modelled.

  Shown: whoever holds a checkpoint can tell any other history from the one it was made of, up
  to a SHA-256 collision; the verifier accepts every history the journals produce; the Merkle
  root and the count determine the leaves; anchored histories are retained and verify.
\<close>

section \<open>Events and checkpoints\<close>

definition GENESIS_HASH :: string where
  "GENESIS_HASH = ''0x'' @ concat (replicate 32 ''00'')"

definition EventType :: "string \<Rightarrow> bool" where
  "EventType s \<longleftrightarrow> 2 \<le> length s \<and> length s \<le> 96 \<and> is_upper (hd s) \<and>
     list_all (\<lambda>c. is_upper c \<or> is_digit c \<or> c = CHR ''_'') (tl s)"

record AuditEventV1 =
  ae_schema_version :: string
  ae_sequence :: int
  ae_event_id :: uuid
  ae_event_type :: string
  ae_aggregate_id :: "uuid option"
  ae_occurred_at :: time
  ae_actor :: string
  ae_payload :: json
  ae_previous_hash :: string
  ae_event_hash :: string

definition make_AuditEventV1 :: "AuditEventV1 \<Rightarrow> AuditEventV1 res" where
  "make_AuditEventV1 e =
     (if 0 < ae_sequence e \<and> EventType (ae_event_type e) \<and> len_between 1 256 (ae_actor e) \<and> is_object (ae_payload e) \<and>
         Hex32 (ae_previous_hash e) \<and> Hex32 (ae_event_hash e)
      then Inr e else Inl (ValueError ''AuditEventV1''))"

record AuditCheckpointV1 =
  cp_checkpoint_id :: uuid
  cp_first_sequence :: int
  cp_last_sequence :: int
  cp_event_count :: int
  cp_merkle_root :: string
  cp_head_hash :: string
  cp_created_at :: time

definition make_AuditCheckpointV1 :: "AuditCheckpointV1 \<Rightarrow> AuditCheckpointV1 res" where
  "make_AuditCheckpointV1 c =
     (if 0 < cp_first_sequence c \<and> 0 < cp_last_sequence c \<and> 0 < cp_event_count c \<and> Hex32 (cp_merkle_root c) \<and> Hex32 (cp_head_hash c)
      then Inr c else Inl (ValueError ''AuditCheckpointV1''))"

record AnchorReceiptV1 =
  ar_checkpoint_id :: uuid
  ar_chain_id :: int
  ar_contract :: string
  ar_transaction_hash :: string
  ar_block_number :: int
  ar_merkle_root :: string
  ar_anchored_at :: time

definition make_AnchorReceiptV1 :: "AnchorReceiptV1 \<Rightarrow> AnchorReceiptV1 res" where
  "make_AnchorReceiptV1 r =
     (if 0 < ar_chain_id r \<and> Address (ar_contract r) \<and> Hex32 (ar_transaction_hash r) \<and> 0 \<le> ar_block_number r \<and> Hex32 (ar_merkle_root r)
      then Inr (r\<lparr>ar_contract := lower (ar_contract r)\<rparr>) else Inl (ValueError ''AnchorReceiptV1''))"

record JournalVerification =
  jv_valid :: bool
  jv_checked_events :: nat
  jv_errors :: "string list"

definition event_fields :: "primitives \<Rightarrow> AuditEventV1 \<Rightarrow> (string \<times> json) list" where
  "event_fields P e =
     [(''schema_version'', JStr (ae_schema_version e)), (''sequence'', JInt (ae_sequence e)),
      (''event_id'', JStr (uuid_str (ae_event_id e))), (''event_type'', JStr (ae_event_type e)),
      (''aggregate_id'', (case ae_aggregate_id e of None \<Rightarrow> JNull | Some a \<Rightarrow> JStr (uuid_str a))),
      (''occurred_at'', JStr (iso8601 P (ae_occurred_at e))), (''actor'', JStr (ae_actor e)),
      (''payload'', ae_payload e), (''previous_hash'', JStr (ae_previous_hash e))]"

definition event_payload :: "primitives \<Rightarrow> AuditEventV1 \<Rightarrow> bytes res" where
  "event_payload P e = canonical_json (rfc8785 P) (obj (event_fields P e))"

definition hash_payload :: "primitives \<Rightarrow> bytes \<Rightarrow> string" where
  "hash_payload P b = ''0x'' @ sha256_hex P b"

text \<open>One round of the Merkle loop, and the loop.\<close>

definition merkle_level :: "primitives \<Rightarrow> bytes list \<Rightarrow> bytes list" where
  "merkle_level P nodes =
     (let nodes = (if odd (length nodes) then nodes @ [last nodes] else nodes)
      in map (\<lambda>i. sha256 P (nodes ! (2 * i) @ nodes ! (2 * i + 1))) [0..<length nodes div 2])"

lemma length_merkle_level [simp]: "length (merkle_level P nodes) = (length nodes + 1) div 2"
  by (auto simp: merkle_level_def Let_def elim: oddE)

function merkle_loop :: "primitives \<Rightarrow> bytes list \<Rightarrow> bytes" where
  "merkle_loop P nodes = (if length nodes > 1 then merkle_loop P (merkle_level P nodes) else hd nodes)"
  by pat_completeness auto
termination by (relation "measure (\<lambda>(P, nodes). length nodes)") auto

declare merkle_loop.simps [simp del]

fun event_nodes :: "AuditEventV1 list \<Rightarrow> bytes list res" where
  "event_nodes [] = Inr []"
| "event_nodes (e # es) = rbind (fromhex (drop 2 (ae_event_hash e))) (\<lambda>b. rbind (event_nodes es) (\<lambda>bs. Inr (b # bs)))"

definition merkle_root :: "primitives \<Rightarrow> AuditEventV1 list \<Rightarrow> string res" where
  "merkle_root P events =
     rbind (event_nodes events) (\<lambda>nodes. Inr (if nodes = [] then GENESIS_HASH else ''0x'' @ bytes_hex (merkle_loop P nodes)))"

section \<open>The journal in memory\<close>

record AuditJournal =
  aj_events :: "AuditEventV1 list"
  aj_last_anchor_count :: nat
  aj_last_anchor_at :: time

definition AuditJournal_init :: "time \<Rightarrow> AuditJournal" where
  "AuditJournal_init now = \<lparr>aj_events = [], aj_last_anchor_count = 0, aj_last_anchor_at = now\<rparr>"

definition head_hash :: "AuditEventV1 list \<Rightarrow> string" where
  "head_hash events = (if events = [] then GENESIS_HASH else ae_event_hash (last events))"

definition new_event ::
  "time \<Rightarrow> uuid \<Rightarrow> int \<Rightarrow> string \<Rightarrow> string \<Rightarrow> string \<Rightarrow> json \<Rightarrow> uuid option \<Rightarrow> AuditEventV1" where
  "new_event now event_id sequence previous event_type actor payload aggregate_id =
     \<lparr>ae_schema_version = ''aegisledger.audit_event.v1'', ae_sequence = sequence, ae_event_id = event_id,
      ae_event_type = event_type, ae_aggregate_id = aggregate_id, ae_occurred_at = now, ae_actor = actor,
      ae_payload = payload, ae_previous_hash = previous, ae_event_hash = GENESIS_HASH\<rparr>"

definition aj_append ::
  "primitives \<Rightarrow> time \<Rightarrow> uuid \<Rightarrow> string \<Rightarrow> string \<Rightarrow> json \<Rightarrow> uuid option \<Rightarrow> AuditJournal \<Rightarrow> (AuditEventV1 \<times> AuditJournal) res" where
  "aj_append P now event_id event_type actor payload aggregate_id j =
     rbind (make_AuditEventV1 (new_event now event_id (int (length (aj_events j)) + 1) (head_hash (aj_events j))
       event_type actor payload aggregate_id)) (\<lambda>placeholder.
     rbind (event_payload P placeholder) (\<lambda>b.
     rbind (make_AuditEventV1 (placeholder\<lparr>ae_event_hash := hash_payload P b\<rparr>)) (\<lambda>event.
     Inr (event, j\<lparr>aj_events := aj_events j @ [event]\<rparr>))))"

definition anchor_due :: "time \<Rightarrow> AuditJournal \<Rightarrow> bool" where
  "anchor_due now j \<longleftrightarrow>
     (let unanchored = int (length (aj_events j)) - int (aj_last_anchor_count j)
      in unanchored \<ge> 100 \<or> (unanchored > 0 \<and> now - aj_last_anchor_at j \<ge> seconds 300))"

definition snapshot_checkpoint :: "primitives \<Rightarrow> time \<Rightarrow> uuid \<Rightarrow> AuditJournal \<Rightarrow> AuditCheckpointV1 res" where
  "snapshot_checkpoint P now checkpoint_id j =
     (if aj_events j = [] then Inl (ValueError ''cannot checkpoint an empty journal'')
      else rbind (merkle_root P (aj_events j)) (\<lambda>root.
        make_AuditCheckpointV1 \<lparr>cp_checkpoint_id = checkpoint_id, cp_first_sequence = 1,
          cp_last_sequence = int (length (aj_events j)), cp_event_count = int (length (aj_events j)), cp_merkle_root = root,
          cp_head_hash = ae_event_hash (last (aj_events j)), cp_created_at = now\<rparr>))"

definition mark_anchored :: "primitives \<Rightarrow> AuditCheckpointV1 \<Rightarrow> AuditJournal \<Rightarrow> AuditJournal res" where
  "mark_anchored P cp j =
     (if cp_event_count cp > int (length (aj_events j)) then Inl (ValueError ''checkpoint extends beyond current journal'')
      else
        let anchored = take (nat (cp_event_count cp)) (aj_events j) in
        rbind (merkle_root P anchored) (\<lambda>root.
        if anchored = [] \<or> cp_last_sequence cp \<noteq> ae_sequence (last anchored) \<or>
           cp_head_hash cp \<noteq> ae_event_hash (last anchored) \<or> cp_merkle_root cp \<noteq> root
        then Inl (ValueError ''checkpoint does not match journal history'')
        else Inr (j\<lparr>aj_last_anchor_count := max (aj_last_anchor_count j) (nat (cp_event_count cp)),
               aj_last_anchor_at := cp_created_at cp\<rparr>)))"

definition checkpoint :: "primitives \<Rightarrow> time \<Rightarrow> uuid \<Rightarrow> AuditJournal \<Rightarrow> (AuditCheckpointV1 \<times> AuditJournal) res" where
  "checkpoint P now checkpoint_id j =
     rbind (snapshot_checkpoint P now checkpoint_id j) (\<lambda>cp. rbind (mark_anchored P cp j) (\<lambda>j. Inr (cp, j)))"

section \<open>The journal in PostgreSQL\<close>

text \<open>The rows of \<open>audit_events\<close>, in the order of their sequence. The trigger of the migration
  refuses every update and deletion, so appending is the only change.\<close>

definition pj_append ::
  "primitives \<Rightarrow> time \<Rightarrow> uuid \<Rightarrow> string \<Rightarrow> string \<Rightarrow> json \<Rightarrow> uuid option \<Rightarrow> AuditEventV1 list \<Rightarrow> (AuditEventV1 \<times> AuditEventV1 list) res" where
  "pj_append P now event_id event_type actor payload aggregate_id rows =
     (let sequence = (if rows = [] then 1 else ae_sequence (last rows) + 1) in
      rbind (make_AuditEventV1 (new_event now event_id sequence (head_hash rows) event_type actor payload aggregate_id)) (\<lambda>placeholder.
      rbind (event_payload P placeholder) (\<lambda>b.
      let event = placeholder\<lparr>ae_event_hash := hash_payload P b\<rparr> in
      rbind (canonical_json (rfc8785 P) payload) (\<lambda>_.
      if list_ex (\<lambda>e. ae_sequence e = ae_sequence event \<or> ae_event_id e = ae_event_id event \<or>
           ae_event_hash e = ae_event_hash event) rows
      then Inl (UniqueViolation ''audit_events'')
      else Inr (event, rows @ [event])))))"

definition pj_event :: "AuditEventV1 \<Rightarrow> AuditEventV1 res" where
  "pj_event row = make_AuditEventV1 (row\<lparr>ae_schema_version := ''aegisledger.audit_event.v1''\<rparr>)"

fun pj_events :: "AuditEventV1 list \<Rightarrow> AuditEventV1 list res" where
  "pj_events [] = Inr []"
| "pj_events (row # rows) = rbind (pj_event row) (\<lambda>e. rbind (pj_events rows) (\<lambda>es. Inr (e # es)))"

section \<open>Verification\<close>

fun verify_chain :: "primitives \<Rightarrow> int \<Rightarrow> string \<Rightarrow> AuditEventV1 list \<Rightarrow> (string list \<times> string) res" where
  "verify_chain P expected_sequence previous [] = Inr ([], previous)"
| "verify_chain P expected_sequence previous (event # events) =
     rbind (event_payload P event) (\<lambda>b.
     rbind (verify_chain P (expected_sequence + 1) (ae_event_hash event) events) (\<lambda>(errors, head).
     Inr ((if ae_sequence event \<noteq> expected_sequence then [''unexpected sequence at position '' @ show_int expected_sequence] else [])
       @ (if ae_previous_hash event \<noteq> previous then [''previous hash mismatch at sequence '' @ show_int (ae_sequence event)] else [])
       @ (if ae_event_hash event \<noteq> hash_payload P b then [''event hash mismatch at sequence '' @ show_int (ae_sequence event)] else [])
       @ errors, head)))"

definition verify_journal :: "primitives \<Rightarrow> AuditEventV1 list \<Rightarrow> AuditCheckpointV1 \<Rightarrow> JournalVerification res" where
  "verify_journal P events cp =
     rbind (verify_chain P 1 GENESIS_HASH events) (\<lambda>(chain_errors, head).
     rbind (merkle_root P events) (\<lambda>root.
     let errors =
       (if int (length events) \<noteq> cp_event_count cp then [''event count does not match trusted checkpoint''] else [])
       @ (if events \<noteq> [] \<and> ae_sequence (hd events) \<noteq> cp_first_sequence cp
          then [''first sequence does not match trusted checkpoint''] else [])
       @ (if events \<noteq> [] \<and> ae_sequence (last events) \<noteq> cp_last_sequence cp
          then [''last sequence does not match trusted checkpoint''] else [])
       @ chain_errors
       @ (if head \<noteq> cp_head_hash cp then [''journal head does not match trusted checkpoint''] else [])
       @ (if root \<noteq> cp_merkle_root cp then [''Merkle root does not match trusted checkpoint''] else [])
     in Inr \<lparr>jv_valid = (errors = []), jv_checked_events = length events, jv_errors = errors\<rparr>))"

definition verify_anchored_journal ::
  "primitives \<Rightarrow> AuditEventV1 list \<Rightarrow> AuditCheckpointV1 \<Rightarrow> AnchorReceiptV1 \<Rightarrow> JournalVerification res" where
  "verify_anchored_journal P events cp receipt =
     rbind (verify_journal P events cp) (\<lambda>report.
     let errors = jv_errors report
       @ (if ar_checkpoint_id receipt \<noteq> cp_checkpoint_id cp then [''external anchor references a different checkpoint''] else [])
       @ (if ar_merkle_root receipt \<noteq> cp_merkle_root cp then [''external anchor root does not match checkpoint''] else [])
     in Inr \<lparr>jv_valid = (errors = []), jv_checked_events = jv_checked_events report, jv_errors = errors\<rparr>)"

section \<open>Retention\<close>

record RetainedObject =
  ro_payload :: bytes
  ro_retain_until :: time
  ro_digest :: string

type_synonym MemoryRetentionStore = "(string, RetainedObject) dict"

definition mrs_put_once :: "primitives \<Rightarrow> string \<Rightarrow> bytes \<Rightarrow> time \<Rightarrow> MemoryRetentionStore \<Rightarrow> MemoryRetentionStore res" where
  "mrs_put_once P key payload retain_until s =
     (if dhas s key then Inl (FileExistsError (''retained object already exists: '' @ key))
      else Inr (dset key \<lparr>ro_payload = payload, ro_retain_until = retain_until, ro_digest = hash_payload P payload\<rparr> s))"

definition mrs_read :: "primitives \<Rightarrow> string \<Rightarrow> MemoryRetentionStore \<Rightarrow> bytes res" where
  "mrs_read P key s = rbind (of_option (KeyError key) (dget s key)) (\<lambda>r. Inr (ro_payload r))"

definition mrs_object_keys :: "MemoryRetentionStore \<Rightarrow> string list" where
  "mrs_object_keys s = sort (dkeys s)"

text \<open>The keys of the file store.\<close>

definition retention_key :: "string \<Rightarrow> bool" where
  "retention_key key \<longleftrightarrow> key \<noteq> [] \<and> length key \<le> 512 \<and> (is_lower (hd key) \<or> is_digit (hd key)) \<and>
     list_all (\<lambda>c. is_lower c \<or> is_digit c \<or> c \<in> {CHR ''.'', CHR ''_'', CHR ''/'', CHR ''-''}) (tl key)"

definition retention_path :: "string \<Rightarrow> string res" where
  "retention_path key =
     (if \<not> retention_key key \<or> ''..'' \<in> set (split_on (CHR ''/'') key)
      then Inl (ValueError ''invalid retention object key'') else Inr key)"

record envelope =
  en_retain_until :: string
  en_payload_sha256 :: string
  en_payload_hex :: string

definition envelope_json :: "envelope \<Rightarrow> json" where
  "envelope_json e = obj [(''schema_version'', JStr ''aegisledger.retained_object.v1''),
     (''retain_until'', JStr (en_retain_until e)), (''payload_sha256'', JStr (en_payload_sha256 e)),
     (''payload_hex'', JStr (en_payload_hex e))]"

definition frs_put_once :: "primitives \<Rightarrow> string \<Rightarrow> bytes \<Rightarrow> time \<Rightarrow> (string, envelope) dict \<Rightarrow> (string, envelope) dict res" where
  "frs_put_once P key payload retain_until files =
     rbind (retention_path key) (\<lambda>path.
     let e = \<lparr>en_retain_until = iso8601 P retain_until, en_payload_sha256 = hash_payload P payload,
           en_payload_hex = bytes_hex payload\<rparr> in
     rbind (canonical_json (rfc8785 P) (envelope_json e)) (\<lambda>_.
     if dhas files path then Inl (FileExistsError path) else Inr (dset path e files)))"

definition frs_read :: "primitives \<Rightarrow> string \<Rightarrow> (string, envelope) dict \<Rightarrow> bytes res" where
  "frs_read P key files =
     rbind (retention_path key) (\<lambda>path.
     rbind (of_option (OSError path) (dget files path)) (\<lambda>e.
     rbind (fromhex (en_payload_hex e)) (\<lambda>payload.
     if hash_payload P payload \<noteq> en_payload_sha256 e then Inl (ValueError ''retained object digest mismatch'')
     else Inr payload)))"

text \<open>The S3 client is a parameter: what \<open>head_object\<close> answers, and the two calls that store and
  fetch an object.\<close>

datatype s3_head = S3_found | S3_error "int option"

record 'c s3_client =
  s3_head_object :: "string \<Rightarrow> 'c \<Rightarrow> s3_head"
  s3_put_object :: "string \<Rightarrow> bytes \<Rightarrow> time \<Rightarrow> string \<Rightarrow> 'c \<Rightarrow> 'c res"
  s3_get_object :: "string \<Rightarrow> 'c \<Rightarrow> (bytes \<times> string option) res"

definition s3_put_once :: "primitives \<Rightarrow> 'c s3_client \<Rightarrow> string \<Rightarrow> string \<Rightarrow> bytes \<Rightarrow> time \<Rightarrow> 'c \<Rightarrow> 'c res" where
  "s3_put_once P client prefix' key payload retain_until c =
     (case s3_head_object client (prefix' @ key) c of
        S3_found \<Rightarrow> Inl (FileExistsError (''retained object already exists: '' @ key))
      | S3_error status \<Rightarrow>
          if status \<notin> {Some 404, None} then Inl (OSError ''head_object'')
          else s3_put_object client (prefix' @ key) payload retain_until (hash_payload P payload) c)"

definition s3_read :: "primitives \<Rightarrow> 'c s3_client \<Rightarrow> string \<Rightarrow> string \<Rightarrow> 'c \<Rightarrow> bytes res" where
  "s3_read P client prefix' key c =
     rbind (s3_get_object client (prefix' @ key) c) (\<lambda>(payload, digest).
     if digest \<noteq> None \<and> digest \<noteq> Some (hash_payload P payload) then Inl (ValueError ''retained object digest mismatch'')
     else Inr payload)"

section \<open>Anchoring\<close>

definition event_json :: "primitives \<Rightarrow> AuditEventV1 \<Rightarrow> json" where
  "event_json P e = obj (event_fields P e @ [(''event_hash'', JStr (ae_event_hash e))])"

definition history_json :: "primitives \<Rightarrow> AuditEventV1 list \<Rightarrow> json" where
  "history_json P events = obj [(''events'', JList (map (event_json P) events))]"

definition checkpoint_json :: "primitives \<Rightarrow> AuditCheckpointV1 \<Rightarrow> json" where
  "checkpoint_json P c = obj [(''schema_version'', JStr ''aegisledger.audit_checkpoint.v1''),
     (''checkpoint_id'', JStr (uuid_str (cp_checkpoint_id c))), (''first_sequence'', JInt (cp_first_sequence c)),
     (''last_sequence'', JInt (cp_last_sequence c)), (''event_count'', JInt (cp_event_count c)),
     (''merkle_root'', JStr (cp_merkle_root c)), (''head_hash'', JStr (cp_head_hash c)),
     (''created_at'', JStr (iso8601 P (cp_created_at c)))]"

definition receipt_json :: "primitives \<Rightarrow> AnchorReceiptV1 \<Rightarrow> json" where
  "receipt_json P r = obj [(''schema_version'', JStr ''aegisledger.anchor_receipt.v1''),
     (''checkpoint_id'', JStr (uuid_str (ar_checkpoint_id r))), (''chain_id'', JInt (ar_chain_id r)),
     (''contract'', JStr (ar_contract r)), (''transaction_hash'', JStr (ar_transaction_hash r)),
     (''block_number'', JInt (ar_block_number r)), (''merkle_root'', JStr (ar_merkle_root r)),
     (''anchored_at'', JStr (iso8601 P (ar_anchored_at r)))]"

record AnchoredCheckpoint =
  ac_checkpoint :: AuditCheckpointV1
  ac_receipt :: AnchorReceiptV1
  ac_history_key :: string
  ac_checkpoint_key :: string
  ac_receipt_key :: string

definition AnchoringService_init :: "time \<Rightarrow> time res" where
  "AnchoringService_init retention =
     (if retention \<le> 0 then Inl (ValueError ''retention duration must be positive'') else Inr retention)"

text \<open>\<open>put_once\<close> of the store and \<open>anchor\<close> of the external chain are arguments. A failure after the
  first \<open>put_once\<close> leaves the objects already written: the store is returned with the result.\<close>

definition anchor_service ::
  "primitives \<Rightarrow> (string \<Rightarrow> bytes \<Rightarrow> time \<Rightarrow> 's \<Rightarrow> 's res) \<Rightarrow> (AuditCheckpointV1 \<Rightarrow> AnchorReceiptV1 res) \<Rightarrow> time \<Rightarrow>
   time \<Rightarrow> time \<Rightarrow> uuid \<Rightarrow> AuditJournal \<Rightarrow> 's \<Rightarrow> (AnchoredCheckpoint \<times> AuditJournal) res \<times> 's" where
  "anchor_service P put_once anchor retention now t checkpoint_id j s =
     (case snapshot_checkpoint P t checkpoint_id j of
        Inl e \<Rightarrow> (Inl e, s)
      | Inr cp \<Rightarrow>
          let identifier = uuid_str (cp_checkpoint_id cp);
              history_key = ''history/'' @ identifier @ ''.json'';
              checkpoint_key = ''checkpoints/'' @ identifier @ ''.json'';
              receipt_key = ''anchors/'' @ identifier @ ''.json'';
              retain_until = now + retention;
              events = take (nat (cp_event_count cp)) (aj_events j) in
          case rbind (canonical_json (rfc8785 P) (history_json P events)) (\<lambda>b.
                 put_once history_key b retain_until s) of
            Inl e \<Rightarrow> (Inl e, s)
          | Inr s \<Rightarrow>
          case rbind (canonical_json (rfc8785 P) (checkpoint_json P cp)) (\<lambda>b. put_once checkpoint_key b retain_until s) of
            Inl e \<Rightarrow> (Inl e, s)
          | Inr s \<Rightarrow>
          case rbind (anchor cp) (\<lambda>receipt.
                 rbind (raise_first
                   [(ar_checkpoint_id receipt \<noteq> cp_checkpoint_id cp, ValueError ''anchor receipt references a different checkpoint''),
                    (ar_merkle_root receipt \<noteq> cp_merkle_root cp, ValueError ''anchor receipt root does not match checkpoint'')]) (\<lambda>_.
                 rbind (canonical_json (rfc8785 P) (receipt_json P receipt)) (\<lambda>b.
                 rbind (put_once receipt_key b retain_until s) (\<lambda>s. Inr (receipt, s))))) of
            Inl e \<Rightarrow> (Inl e, s)
          | Inr (receipt, s) \<Rightarrow>
              (rbind (mark_anchored P cp j) (\<lambda>j.
                 Inr (\<lparr>ac_checkpoint = cp, ac_receipt = receipt, ac_history_key = history_key,
                        ac_checkpoint_key = checkpoint_key, ac_receipt_key = receipt_key\<rparr>, j)), s))"

section \<open>The hash chain\<close>

definition linked :: "primitives \<Rightarrow> int \<Rightarrow> string \<Rightarrow> AuditEventV1 \<Rightarrow> bool" where
  "linked P n previous e \<longleftrightarrow> ae_sequence e = n \<and> ae_previous_hash e = previous \<and>
     rbind (event_payload P e) (\<lambda>b. Inr (hash_payload P b)) = Inr (ae_event_hash e)"

fun chained :: "primitives \<Rightarrow> int \<Rightarrow> string \<Rightarrow> AuditEventV1 list \<Rightarrow> bool" where
  "chained P n previous [] \<longleftrightarrow> True"
| "chained P n previous (e # es) \<longleftrightarrow> linked P n previous e \<and> chained P (n + 1) (ae_event_hash e) es"

definition chain_head :: "string \<Rightarrow> AuditEventV1 list \<Rightarrow> string" where
  "chain_head previous es = (if es = [] then previous else ae_event_hash (last es))"

lemma chain_head_simps [simp]:
  "chain_head previous [] = previous" "chain_head previous (es @ [e]) = ae_event_hash e"
  "chain_head previous (e # es) = chain_head (ae_event_hash e) es"
  by (simp_all add: chain_head_def)

lemma head_hash_chain: "head_hash es = chain_head GENESIS_HASH es"
  by (simp add: head_hash_def chain_head_def)

lemma chained_snoc:
  "chained P n previous (es @ [e]) \<longleftrightarrow> chained P n previous es \<and> linked P (n + int (length es)) (chain_head previous es) e"
  by (induction es arbitrary: n previous) (auto simp: add.assoc add.commute)

lemma verify_chain_iff:
  "verify_chain P n previous es = Inr ([], h) \<longleftrightarrow> chained P n previous es \<and> h = chain_head previous es"
proof (induction es arbitrary: n previous)
  case (Cons e es)
  show ?case
  proof (cases "event_payload P e")
    case (Inr b)
    then show ?thesis using Cons.IH [of "n + 1" "ae_event_hash e"] by (auto simp: rbind_Inr_iff linked_def)
  qed (simp add: linked_def)
qed auto

lemma event_payload_ignores_hash [simp]: "event_payload P (e\<lparr>ae_event_hash := h\<rparr>) = event_payload P e"
  by (simp add: event_payload_def event_fields_def)

text \<open>Two events with the same payload up to the order of its keys.\<close>

definition norm_event :: "AuditEventV1 \<Rightarrow> AuditEventV1" where
  "norm_event e = e\<lparr>ae_payload := sort_keys (ae_payload e)\<rparr>"

lemma event_fields_inject:
  assumes "sort_keys (obj (event_fields P e)) = sort_keys (obj (event_fields P f))" "inj (iso8601 P)"
  shows "norm_event e = (norm_event f)\<lparr>ae_event_hash := ae_event_hash e\<rparr>"
proof -
  have "map_option sort_keys (map_of (event_fields P e) k) = map_option sort_keys (map_of (event_fields P f) k)" for k
    using assms(1) by (rule obj_fields_eq) (simp_all add: event_fields_def)
  note field = this [unfolded event_fields_def, simplified]
  have "ae_aggregate_id e = ae_aggregate_id f"
    using field [of "''aggregate_id''"] by (auto split: option.splits)
  with field [of "''schema_version''"] field [of "''sequence''"] field [of "''event_id''"] field [of "''event_type''"]
    field [of "''occurred_at''"] field [of "''actor''"] field [of "''payload''"] field [of "''previous_hash''"]
  show ?thesis using injD [OF assms(2)] by (simp add: norm_event_def)
qed

text \<open>The bytes that are hashed for the events of a history.\<close>

definition event_inputs :: "primitives \<Rightarrow> AuditEventV1 list \<Rightarrow> bytes set" where
  "event_inputs P es = {b. \<exists>e\<in>set es. event_payload P e = Inr b}"

lemma linked_inject:
  assumes "iso_ok P" "linked P n p e" "linked P m q f" "ae_event_hash e = ae_event_hash f"
  shows "norm_event e = norm_event f \<or> collide (sha256 P) (event_inputs P [e]) (event_inputs P [f])"
proof -
  from assms(2,3) obtain b c where b: "event_payload P e = Inr b" "hash_payload P b = ae_event_hash e"
    and c: "event_payload P f = Inr c" "hash_payload P c = ae_event_hash f"
    by (auto simp: linked_def rbind_Inr_iff)
  then have "hash_payload P b = hash_payload P c" using assms(4) by simp
  then have h: "sha256 P b = sha256 P c" by (simp add: hash_payload_def sha256_hex_def)
  show ?thesis
  proof (cases "b = c")
    case True
    with b c assms(1) have "sort_keys (obj (event_fields P e)) = sort_keys (obj (event_fields P f))"
      unfolding event_payload_def iso_ok_def by (blast intro: canonical_json_document)
    then have "norm_event e = (norm_event f)\<lparr>ae_event_hash := ae_event_hash e\<rparr>"
      by (rule event_fields_inject) (use assms(1) in \<open>unfold iso_ok_def, blast\<close>)
    with assms(4) show ?thesis by (simp add: norm_event_def)
  next
    case False
    with h b(1) c(1) show ?thesis by (intro disjI2 collideI [of b _ c]) (simp_all add: event_inputs_def)
  qed
qed

lemma norm_event_keeps [simp]:
  "ae_previous_hash (norm_event e) = ae_previous_hash e" "ae_event_hash (norm_event e) = ae_event_hash e"
  by (simp_all add: norm_event_def)

lemma chained_inject:
  assumes "iso_ok P"
  shows "chained P n p es \<Longrightarrow> chained P n p fs \<Longrightarrow> length es = length fs \<Longrightarrow> chain_head p es = chain_head p fs \<Longrightarrow>
    map norm_event es = map norm_event fs \<or> collide (sha256 P) (event_inputs P es) (event_inputs P fs)"
proof (induction es arbitrary: fs rule: rev_induct)
  case (snoc e es)
  then obtain f gs where fs: "fs = gs @ [f]" by (cases fs rule: rev_exhaust) auto
  note hyps = snoc.prems [unfolded fs chained_snoc]
  have sub: "event_inputs P es \<subseteq> event_inputs P (es @ [e])" "event_inputs P [e] \<subseteq> event_inputs P (es @ [e])" for es e
    by (auto simp: event_inputs_def)
  have last: "norm_event e = norm_event f \<or> collide (sha256 P) (event_inputs P [e]) (event_inputs P [f])"
    using hyps by (intro linked_inject [OF assms]) auto
  have init: "map norm_event es = map norm_event gs \<or> collide (sha256 P) (event_inputs P es) (event_inputs P gs)"
    if "norm_event e = norm_event f"
  proof (rule snoc.IH)
    from that have "ae_previous_hash e = ae_previous_hash f" by (metis norm_event_keeps(1))
    with hyps show "chain_head p es = chain_head p gs" by (simp add: linked_def)
  qed (use hyps in auto)
  have "collide (sha256 P) (event_inputs P (es @ [e])) (event_inputs P (gs @ [f]))"
    if "collide (sha256 P) (event_inputs P [e]) (event_inputs P [f]) \<or> collide (sha256 P) (event_inputs P es) (event_inputs P gs)"
    using that collide_mono [OF _ sub(1) sub(1)] collide_mono [OF _ sub(2) sub(2)] by blast
  with last init show ?case unfolding fs by fastforce
qed simp

lemma verify_journal_valid:
  assumes "verify_journal P es cp = Inr r" "jv_valid r"
  shows "chained P 1 GENESIS_HASH es" "int (length es) = cp_event_count cp"
    "chain_head GENESIS_HASH es = cp_head_hash cp" "merkle_root P es = Inr (cp_merkle_root cp)"
proof -
  from assms obtain ce h root where c: "verify_chain P 1 GENESIS_HASH es = Inr (ce, h)" and m: "merkle_root P es = Inr root"
    and ok: "ce = []" "int (length es) = cp_event_count cp" "h = cp_head_hash cp" "root = cp_merkle_root cp"
    by (auto simp: verify_journal_def rbind_Inr_iff Let_def split: if_splits)
  from c m ok show "chained P 1 GENESIS_HASH es" "int (length es) = cp_event_count cp"
    "chain_head GENESIS_HASH es = cp_head_hash cp" "merkle_root P es = Inr (cp_merkle_root cp)"
    by (auto simp: verify_chain_iff)
qed

section \<open>The Merkle tree\<close>

definition padded :: "'a list \<Rightarrow> 'a list" where
  "padded xs = (if odd (length xs) then xs @ [last xs] else xs)"

lemma padded_nth: "i < length xs \<Longrightarrow> padded xs ! i = xs ! i"
  by (simp add: padded_def nth_append)

lemma length_padded: "length (padded xs) = 2 * ((length xs + 1) div 2)"
  by (auto simp: padded_def elim: oddE)

lemma padded_set: "set (padded xs) = set xs"
  by (cases xs) (auto simp: padded_def)

lemma merkle_level_padded:
  "merkle_level P xs = map (\<lambda>i. sha256 P (padded xs ! (2 * i) @ padded xs ! (2 * i + 1))) [0..<length (padded xs) div 2]"
  by (simp add: merkle_level_def padded_def Let_def)

text \<open>The bytes that are hashed for a level, and for the whole tree.\<close>

definition level_inputs :: "bytes list \<Rightarrow> bytes set" where
  "level_inputs xs = {padded xs ! (2 * i) @ padded xs ! (2 * i + 1) | i. 2 * i + 1 < length (padded xs)}"

function merkle_inputs :: "primitives \<Rightarrow> bytes list \<Rightarrow> bytes set" where
  "merkle_inputs P nodes = (if length nodes > 1 then level_inputs nodes \<union> merkle_inputs P (merkle_level P nodes) else {})"
  by pat_completeness auto
termination by (relation "measure (\<lambda>(P, nodes). length nodes)") auto

declare merkle_inputs.simps [simp del]

lemma merkle_level_inject:
  assumes "merkle_level P xs = merkle_level P ys" "length xs = length ys"
    and "\<forall>x\<in>set xs. length x = 32" "\<forall>y\<in>set ys. length y = 32"
  shows "xs = ys \<or> collide (sha256 P) (level_inputs xs) (level_inputs ys)"
proof (rule disjCI)
  assume nc: "\<not> collide (sha256 P) (level_inputs xs) (level_inputs ys)"
  show "xs = ys"
  proof (rule nth_equalityI [OF assms(2)])
    fix i assume i: "i < length xs"
    let ?k = "i div 2"
    have len: "length (padded xs) = length (padded ys)" by (simp add: length_padded assms(2))
    have k: "2 * ?k + 1 < length (padded xs)" using i by (simp add: length_padded) presburger
    then have "merkle_level P xs ! ?k = merkle_level P ys ! ?k" "?k < length (padded xs) div 2" using assms(1) by simp_all
    then have "sha256 P (padded xs ! (2 * ?k) @ padded xs ! (2 * ?k + 1)) = sha256 P (padded ys ! (2 * ?k) @ padded ys ! (2 * ?k + 1))"
      by (simp add: merkle_level_padded len)
    moreover have "padded xs ! (2 * ?k) @ padded xs ! (2 * ?k + 1) \<in> level_inputs xs"
      "padded ys ! (2 * ?k) @ padded ys ! (2 * ?k + 1) \<in> level_inputs ys" using k len by (auto simp: level_inputs_def)
    ultimately have "padded xs ! (2 * ?k) @ padded xs ! (2 * ?k + 1) = padded ys ! (2 * ?k) @ padded ys ! (2 * ?k + 1)"
      using nc by (meson collideI)
    moreover have "length (padded xs ! (2 * ?k)) = length (padded ys ! (2 * ?k))"
      using k len assms(3,4) padded_set [of xs] padded_set [of ys] nth_mem [of "2 * ?k" "padded xs"] nth_mem [of "2 * ?k" "padded ys"]
      by simp
    ultimately have "padded xs ! (2 * ?k) = padded ys ! (2 * ?k)" "padded xs ! (2 * ?k + 1) = padded ys ! (2 * ?k + 1)"
      by simp_all
    then have "padded xs ! i = padded ys ! i" by (cases "even i") (auto elim!: evenE oddE)
    with i assms(2) show "xs ! i = ys ! i" by (simp add: padded_nth)
  qed
qed

lemma merkle_loop_inject:
  assumes "hash_ok P"
  shows "merkle_loop P xs = merkle_loop P ys \<Longrightarrow> length xs = length ys \<Longrightarrow> xs \<noteq> [] \<Longrightarrow>
    \<forall>x\<in>set xs. length x = 32 \<Longrightarrow> \<forall>y\<in>set ys. length y = 32 \<Longrightarrow>
    xs = ys \<or> collide (sha256 P) (merkle_inputs P xs) (merkle_inputs P ys)"
proof (induction "length xs" arbitrary: xs ys rule: less_induct)
  case less
  show ?case
  proof (cases "length xs > 1")
    case True
    have nodes: "\<forall>x\<in>set (merkle_level P zs). length x = 32" for zs
      using assms by (auto simp: merkle_level_def Let_def hash_ok_def)
    have sub: "level_inputs zs \<subseteq> merkle_inputs P zs" "merkle_inputs P (merkle_level P zs) \<subseteq> merkle_inputs P zs"
      if "length zs > 1" for zs using that by (auto simp: merkle_inputs.simps [of P zs])
    have len: "length ys > 1" using True less.prems(2) by simp
    have "merkle_level P xs = merkle_level P ys \<or> collide (sha256 P) (merkle_inputs P (merkle_level P xs)) (merkle_inputs P (merkle_level P ys))"
    proof (rule less.hyps)
      show "merkle_loop P (merkle_level P xs) = merkle_loop P (merkle_level P ys)"
        using less.prems(1,2) True by (simp add: merkle_loop.simps [of P xs] merkle_loop.simps [of P ys])
      have "length (merkle_level P xs) > 0" using True by simp
      then show "merkle_level P xs \<noteq> []" by force
    qed (use True less.prems(2) nodes in simp_all)
    moreover have "xs = ys \<or> collide (sha256 P) (level_inputs xs) (level_inputs ys)" if "merkle_level P xs = merkle_level P ys"
      using merkle_level_inject [OF that] less.prems by blast
    ultimately show ?thesis
      using collide_mono [OF _ sub(1) [OF True] sub(1) [OF len]] collide_mono [OF _ sub(2) [OF True] sub(2) [OF len]] by blast
  next
    case False
    with less.prems(2,3) obtain x y where "xs = [x]" "ys = [y]" by (cases xs; cases ys) auto
    with less.prems(1) show ?thesis by (simp add: merkle_loop.simps)
  qed
qed

definition tree_inputs :: "primitives \<Rightarrow> AuditEventV1 list \<Rightarrow> bytes set" where
  "tree_inputs P es = (case event_nodes es of Inl _ \<Rightarrow> {} | Inr xs \<Rightarrow> merkle_inputs P xs)"

section \<open>The interface of a journal\<close>

text \<open>The histories of a journal: appended events, and other operations that leave the events alone.\<close>

type_synonym 's journal_append =
  "primitives \<Rightarrow> time \<Rightarrow> uuid \<Rightarrow> string \<Rightarrow> string \<Rightarrow> json \<Rightarrow> uuid option \<Rightarrow> 's \<Rightarrow> (AuditEventV1 \<times> 's) res"

inductive journal_run :: "'s journal_append \<Rightarrow> ('s \<Rightarrow> 's \<Rightarrow> bool) \<Rightarrow> primitives \<Rightarrow> 's \<Rightarrow> 's \<Rightarrow> bool"
  for append' touch P s0 where
  run_start: "journal_run append' touch P s0 s0"
| run_append: "journal_run append' touch P s0 s \<Longrightarrow> append' P now i ty actor payload agg s = Inr (e, s') \<Longrightarrow>
    journal_run append' touch P s0 s'"
| run_touch: "journal_run append' touch P s0 s \<Longrightarrow> touch s s' \<Longrightarrow> journal_run append' touch P s0 s'"

definition history_ok :: "primitives \<Rightarrow> AuditEventV1 list \<Rightarrow> bool" where
  "history_ok P es \<longleftrightarrow> chained P 1 GENESIS_HASH es \<and> (\<forall>e\<in>set es. make_AuditEventV1 e = Inr e) \<and>
     (\<forall>e\<in>set es. ae_schema_version e = ''aegisledger.audit_event.v1'')"

locale event_journal =
  fixes events :: "'s \<Rightarrow> AuditEventV1 list" and append' :: "'s journal_append" and touch :: "'s \<Rightarrow> 's \<Rightarrow> bool"
  assumes append_links: "hash_ok P \<Longrightarrow> history_ok P (events s) \<Longrightarrow> append' P now i ty actor payload agg s = Inr (e, s') \<Longrightarrow>
      events s' = events s @ [e] \<and> linked P (1 + int (length (events s))) (head_hash (events s)) e \<and> make_AuditEventV1 e = Inr e \<and>
      ae_schema_version e = ''aegisledger.audit_event.v1''"
    and touch_keeps: "touch s s' \<Longrightarrow> events s' = events s"
begin

lemma run_history:
  assumes "hash_ok P" "journal_run append' touch P s0 s" "events s0 = []"
  shows "history_ok P (events s)"
  using assms(2)
proof induction
  case run_start
  then show ?case using assms(3) by (simp add: history_ok_def)
next
  case (run_append s now i ty actor payload agg e s')
  from append_links [OF assms(1) run_append.IH run_append.hyps(2)] run_append.IH
  show ?case by (auto simp: history_ok_def chained_snoc head_hash_chain)
next
  case (run_touch s s')
  then show ?case by (simp add: touch_keeps)
qed

end

definition aj_touch :: "primitives \<Rightarrow> AuditJournal \<Rightarrow> AuditJournal \<Rightarrow> bool" where
  "aj_touch P j j' \<longleftrightarrow> (\<exists>cp. mark_anchored P cp j = Inr j')"

lemma mark_anchored_events: "mark_anchored P cp j = Inr j' \<Longrightarrow> aj_events j' = aj_events j"
  by (auto simp: mark_anchored_def Let_def rbind_Inr_iff split: if_splits)

lemma make_AuditEventV1_Inr: "make_AuditEventV1 e = Inr f \<Longrightarrow> f = e \<and> make_AuditEventV1 e = Inr e"
  by (auto simp: make_AuditEventV1_def split: if_splits)

lemma Hex32_hash_payload: "hash_ok P \<Longrightarrow> Hex32 (hash_payload P b)"
  unfolding hash_payload_def sha256_hex_def by (rule Hex32_digest) (simp add: hash_ok_def)

lemma rehashed_event:
  "hash_ok P \<Longrightarrow> make_AuditEventV1 e = Inr f \<Longrightarrow>
     make_AuditEventV1 (e\<lparr>ae_event_hash := hash_payload P b\<rparr>) = Inr (e\<lparr>ae_event_hash := hash_payload P b\<rparr>)"
  by (auto simp: make_AuditEventV1_def Hex32_hash_payload split: if_splits)

lemma new_event_linked:
  "event_payload P (new_event now i n p ty actor payload agg) = Inr b \<Longrightarrow>
     linked P n p ((new_event now i n p ty actor payload agg)\<lparr>ae_event_hash := hash_payload P b\<rparr>)"
  by (simp add: linked_def) (simp add: new_event_def)

lemma aj_append_Inr:
  assumes "aj_append P now i ty actor payload agg j = Inr (e, j')"
  obtains b where "e = (new_event now i (1 + int (length (aj_events j))) (head_hash (aj_events j)) ty actor payload agg)
      \<lparr>ae_event_hash := hash_payload P b\<rparr>"
    "event_payload P (new_event now i (1 + int (length (aj_events j))) (head_hash (aj_events j)) ty actor payload agg) = Inr b"
    "make_AuditEventV1 e = Inr e" "aj_events j' = aj_events j @ [e]"
proof -
  let ?p = "new_event now i (1 + int (length (aj_events j))) (head_hash (aj_events j)) ty actor payload agg"
  from assms obtain p b f where p: "make_AuditEventV1 ?p = Inr p" "event_payload P p = Inr b"
    "make_AuditEventV1 (p\<lparr>ae_event_hash := hash_payload P b\<rparr>) = Inr f" and e: "e = f" "j' = j\<lparr>aj_events := aj_events j @ [f]\<rparr>"
    by (auto simp: aj_append_def rbind_Inr_iff add.commute)
  with make_AuditEventV1_Inr [OF p(1)] make_AuditEventV1_Inr [OF p(3)] that [of b] show ?thesis by simp
qed

interpretation memory_journal: event_journal aj_events aj_append "aj_touch P" for P
proof unfold_locales
  fix Q s now i ty actor payload agg e s'
  assume "aj_append Q now i ty actor payload agg s = Inr (e, s')"
  then show "aj_events s' = aj_events s @ [e] \<and> linked Q (1 + int (length (aj_events s))) (head_hash (aj_events s)) e \<and>
      make_AuditEventV1 e = Inr e \<and> ae_schema_version e = ''aegisledger.audit_event.v1''"
    by (rule aj_append_Inr) (simp add: new_event_linked, simp add: new_event_def)
qed (auto simp: aj_touch_def mark_anchored_events)

lemma history_last:
  assumes "history_ok P es" "es \<noteq> []"
  shows "ae_sequence (last es) = int (length es)" "ae_sequence (hd es) = 1"
proof -
  from assms(2) obtain fs e where es: "es = fs @ [e]" by (cases es rule: rev_exhaust) auto
  with assms(1) show "ae_sequence (last es) = int (length es)"
    by (auto simp: history_ok_def chained_snoc linked_def)
  from assms show "ae_sequence (hd es) = 1" by (cases es) (auto simp: history_ok_def linked_def)
qed

lemma pj_append_Inr:
  assumes "history_ok P rows" "pj_append P now i ty actor payload agg rows = Inr (e, rows')"
  obtains b p where "e = (new_event now i (1 + int (length rows)) (head_hash rows) ty actor payload agg)
      \<lparr>ae_event_hash := hash_payload P b\<rparr>"
    "event_payload P (new_event now i (1 + int (length rows)) (head_hash rows) ty actor payload agg) = Inr b"
    "make_AuditEventV1 (new_event now i (1 + int (length rows)) (head_hash rows) ty actor payload agg) = Inr p"
    "rows' = rows @ [e]"
proof -
  have "(if rows = [] then 1 else ae_sequence (last rows) + 1) = 1 + int (length rows)"
    using history_last(1) [OF assms(1)] by auto
  with assms(2) obtain p b where p: "make_AuditEventV1 (new_event now i (1 + int (length rows)) (head_hash rows) ty actor payload agg) = Inr p"
    "event_payload P p = Inr b" "e = p\<lparr>ae_event_hash := hash_payload P b\<rparr>" "rows' = rows @ [e]"
    by (auto simp: pj_append_def Let_def rbind_Inr_iff split: if_splits)
  with make_AuditEventV1_Inr [OF p(1)] that show ?thesis by simp
qed

interpretation table_journal: event_journal "\<lambda>rows. rows" pj_append "\<lambda>_ _. False"
proof unfold_locales
  fix Q s now i ty actor payload agg e s'
  assume ok: "hash_ok Q" "history_ok Q s" "pj_append Q now i ty actor payload agg s = Inr (e, s')"
  from ok(2,3) show "s' = s @ [e] \<and> linked Q (1 + int (length s)) (head_hash s) e \<and> make_AuditEventV1 e = Inr e \<and>
      ae_schema_version e = ''aegisledger.audit_event.v1''"
    by (rule pj_append_Inr) (simp add: new_event_linked rehashed_event [OF ok(1)], simp add: new_event_def)
qed simp

text \<open>What the table journal appends, the memory journal appends too.\<close>

lemma pj_append_memory:
  assumes "hash_ok P" "history_ok P rows" "pj_append P now i ty actor payload agg rows = Inr (e, rows')" "aj_events j = rows"
  shows "\<exists>j'. aj_append P now i ty actor payload agg j = Inr (e, j') \<and> aj_events j' = rows'"
proof -
  from assms(2,3) obtain b p where e: "e = (new_event now i (1 + int (length rows)) (head_hash rows) ty actor payload agg)
      \<lparr>ae_event_hash := hash_payload P b\<rparr>" "rows' = rows @ [e]"
    and b: "event_payload P (new_event now i (1 + int (length rows)) (head_hash rows) ty actor payload agg) = Inr b"
    and p: "make_AuditEventV1 (new_event now i (1 + int (length rows)) (head_hash rows) ty actor payload agg) = Inr p"
    by (rule pj_append_Inr)
  then show ?thesis
    using assms(4) make_AuditEventV1_Inr [OF p] rehashed_event [OF assms(1) p]
    by (simp add: aj_append_def add.commute)
qed

lemma table_run_memory:
  assumes "hash_ok P" "journal_run pj_append (\<lambda>_ _. False) P [] rows"
  shows "\<exists>j. journal_run aj_append (aj_touch P) P (AuditJournal_init t0) j \<and> aj_events j = rows"
  using assms(2)
proof induction
  case run_start
  show ?case by (intro exI conjI, rule journal_run.run_start) (simp add: AuditJournal_init_def)
next
  case (run_append s now i ty actor payload agg e s')
  from run_append.IH obtain j where j: "journal_run aj_append (aj_touch P) P (AuditJournal_init t0) j" "aj_events j = s" by blast
  have "history_ok P s" using table_journal.run_history [OF assms(1) run_append.hyps(1)] by simp
  from pj_append_memory [OF assms(1) this run_append.hyps(2) j(2)] journal_run.run_append [OF j(1)]
  show ?case by blast
qed simp

section \<open>Checkpoints of a history\<close>

lemma Hex32_bytes:
  assumes "Hex32 h"
  obtains b where "bytes_fromhex (drop 2 h) = Some b" "length b = 32" "h = ''0x'' @ bytes_hex b"
proof -
  from assms have h: "h = ''0x'' @ drop 2 h" "length (drop 2 h) = 64" "list_all is_hex (drop 2 h)" "lower (drop 2 h) = drop 2 h"
    using startswith_0x_drop by (auto simp: Hex32_def lower_hex_text)
  have "even (length (drop 2 h))" unfolding h(2) by simp
  from hex_text_fromhex [OF h(3) this] obtain b where b: "bytes_fromhex (drop 2 h) = Some b" by auto
  from bytes_hex_fromhex [OF b] h(4) filter_hex_text [OF h(3)] have "bytes_hex b = drop 2 h" by simp
  moreover from this h(2) have "length b = 32" using length_bytes_hex [of b] by simp
  ultimately show ?thesis using b h(1) that by simp
qed

lemma event_nodes_Inr:
  "\<forall>e\<in>set es. Hex32 (ae_event_hash e) \<Longrightarrow> \<exists>nodes. event_nodes es = Inr nodes \<and> length nodes = length es \<and>
     (\<forall>b\<in>set nodes. length b = 32) \<and> map (\<lambda>b. ''0x'' @ bytes_hex b) nodes = map ae_event_hash es"
proof (induction es)
  case (Cons e es)
  then have hex: "Hex32 (ae_event_hash e)" by simp
  then obtain b where b: "bytes_fromhex (drop 2 (ae_event_hash e)) = Some b" "length b = 32" "ae_event_hash e = ''0x'' @ bytes_hex b"
    by (rule Hex32_bytes)
  from Cons obtain nodes where "event_nodes es = Inr nodes" "length nodes = length es" "\<forall>b\<in>set nodes. length b = 32"
    "map (\<lambda>b. ''0x'' @ bytes_hex b) nodes = map ae_event_hash es" by auto
  with b show ?case by (simp add: fromhex_def)
qed simp

lemma merkle_loop_length:
  assumes "hash_ok P"
  shows "nodes \<noteq> [] \<Longrightarrow> \<forall>b\<in>set nodes. length b = 32 \<Longrightarrow> length (merkle_loop P nodes) = 32"
proof (induction "length nodes" arbitrary: nodes rule: less_induct)
  case less
  show ?case
  proof (cases "length nodes > 1")
    case True
    have "length (merkle_level P nodes) > 0" using True by simp
    then have "merkle_level P nodes \<noteq> []" by force
    moreover have "\<forall>b\<in>set (merkle_level P nodes). length b = 32"
      using assms by (auto simp: merkle_level_def Let_def hash_ok_def)
    ultimately have "length (merkle_loop P (merkle_level P nodes)) = 32" using True by (intro less.hyps) simp_all
    then show ?thesis using True by (simp add: merkle_loop.simps [of P nodes])
  next
    case False
    with less.prems show ?thesis by (cases nodes) (auto simp: merkle_loop.simps)
  qed
qed

lemma merkle_root_Inr:
  assumes "hash_ok P" "es \<noteq> []" "\<forall>e\<in>set es. make_AuditEventV1 e = Inr e"
  shows "\<exists>root. merkle_root P es = Inr root \<and> Hex32 root"
proof -
  have "\<forall>e\<in>set es. Hex32 (ae_event_hash e)" using assms(3) by (auto simp: make_AuditEventV1_def split: if_splits)
  from event_nodes_Inr [OF this] obtain nodes where n: "event_nodes es = Inr nodes" "length nodes = length es" "\<forall>b\<in>set nodes. length b = 32"
    by blast
  with assms(2) have "nodes \<noteq> []" by auto
  with n Hex32_digest [OF merkle_loop_length [OF assms(1) this n(3)]] show ?thesis by (simp add: merkle_root_def)
qed

lemma snapshot_checkpoint_Inr:
  assumes "snapshot_checkpoint P now cid j = Inr cp"
  shows "aj_events j \<noteq> []" "merkle_root P (aj_events j) = Inr (cp_merkle_root cp)" "cp_event_count cp = int (length (aj_events j))"
    "cp_first_sequence cp = 1" "cp_last_sequence cp = int (length (aj_events j))" "cp_head_hash cp = head_hash (aj_events j)"
    "cp_checkpoint_id cp = cid" "cp_created_at cp = now"
  using assms
  by (auto simp: snapshot_checkpoint_def rbind_Inr_iff make_AuditCheckpointV1_def head_hash_def split: if_splits)

lemma snapshot_total:
  assumes "hash_ok P" "history_ok P (aj_events j)" "aj_events j \<noteq> []"
  shows "\<exists>cp. snapshot_checkpoint P now cid j = Inr cp"
proof -
  from assms obtain root where root: "merkle_root P (aj_events j) = Inr root" "Hex32 root"
    using merkle_root_Inr history_ok_def by blast
  have "make_AuditEventV1 (last (aj_events j)) = Inr (last (aj_events j))" using assms(2,3) by (simp add: history_ok_def)
  then have "Hex32 (ae_event_hash (last (aj_events j)))" by (auto simp: make_AuditEventV1_def split: if_splits)
  with root assms(3) show ?thesis by (simp add: snapshot_checkpoint_def make_AuditCheckpointV1_def)
qed

lemma history_verifies:
  assumes "history_ok P (aj_events j)" "snapshot_checkpoint P now cid j = Inr cp"
  shows "verify_journal P (aj_events j) cp = Inr \<lparr>jv_valid = True, jv_checked_events = length (aj_events j), jv_errors = []\<rparr>"
proof -
  note cp = snapshot_checkpoint_Inr [OF assms(2)]
  have "verify_chain P 1 GENESIS_HASH (aj_events j) = Inr ([], head_hash (aj_events j))"
    using assms(1) by (simp add: verify_chain_iff history_ok_def head_hash_chain)
  with cp history_last [OF assms(1) cp(1)] show ?thesis by (simp add: verify_journal_def)
qed

lemma snapshot_marks:
  assumes "history_ok P (aj_events j)" "snapshot_checkpoint P now cid j = Inr cp"
  shows "mark_anchored P cp j = Inr (j\<lparr>aj_last_anchor_count := max (aj_last_anchor_count j) (length (aj_events j)), aj_last_anchor_at := now\<rparr>)"
proof -
  note cp = snapshot_checkpoint_Inr [OF assms(2)]
  from cp history_last [OF assms(1) cp(1)] show ?thesis by (simp add: mark_anchored_def head_hash_def)
qed

section \<open>The interface of a retention store\<close>

locale retention_store =
  fixes put_once :: "primitives \<Rightarrow> string \<Rightarrow> bytes \<Rightarrow> time \<Rightarrow> 's \<Rightarrow> 's res" and read :: "primitives \<Rightarrow> string \<Rightarrow> 's \<Rightarrow> bytes res"
  assumes put_read: "put_once P k b t s = Inr s' \<Longrightarrow> read P k s' = Inr b"
    and put_keeps: "put_once P k b t s = Inr s' \<Longrightarrow> read P k' s = Inr c \<Longrightarrow> read P k' s' = Inr c"
begin

lemma anchor_service_retains:
  assumes "anchor_service P (put_once P) anchor retention now t cid j s = (Inr (ac, j'), s')"
  obtains h c r where "snapshot_checkpoint P t cid j = Inr (ac_checkpoint ac)"
    "canonical_json (rfc8785 P) (history_json P (aj_events j)) = Inr h" "read P (ac_history_key ac) s' = Inr h"
    "canonical_json (rfc8785 P) (checkpoint_json P (ac_checkpoint ac)) = Inr c" "read P (ac_checkpoint_key ac) s' = Inr c"
    "canonical_json (rfc8785 P) (receipt_json P (ac_receipt ac)) = Inr r" "read P (ac_receipt_key ac) s' = Inr r"
    "anchor (ac_checkpoint ac) = Inr (ac_receipt ac)" "ar_checkpoint_id (ac_receipt ac) = cid"
    "ar_merkle_root (ac_receipt ac) = cp_merkle_root (ac_checkpoint ac)" "mark_anchored P (ac_checkpoint ac) j = Inr j'"
    "\<And>k v. read P k s = Inr v \<Longrightarrow> read P k s' = Inr v"
proof -
  from assms obtain cp where cp: "snapshot_checkpoint P t cid j = Inr cp" by (auto simp: anchor_service_def split: sum.splits)
  have events: "take (nat (cp_event_count cp)) (aj_events j) = aj_events j" using snapshot_checkpoint_Inr(3) [OF cp] by simp
  note run = assms [unfolded anchor_service_def cp sum.case Let_def events]
  from run obtain s1 h where h: "canonical_json (rfc8785 P) (history_json P (aj_events j)) = Inr h"
    "put_once P (''history/'' @ uuid_str (cp_checkpoint_id cp) @ ''.json'') h (now + retention) s = Inr s1"
    by (auto simp: rbind_Inr_iff split: sum.splits)
  note run = run [unfolded h rbind_simps sum.case]
  from run obtain s2 c where c: "canonical_json (rfc8785 P) (checkpoint_json P cp) = Inr c"
    "put_once P (''checkpoints/'' @ uuid_str (cp_checkpoint_id cp) @ ''.json'') c (now + retention) s1 = Inr s2"
    by (auto simp: rbind_Inr_iff split: sum.splits)
  note run = run [unfolded c rbind_simps sum.case]
  from run obtain receipt r where r: "anchor cp = Inr receipt" "ar_checkpoint_id receipt = cp_checkpoint_id cp"
    "ar_merkle_root receipt = cp_merkle_root cp" "canonical_json (rfc8785 P) (receipt_json P receipt) = Inr r"
    "put_once P (''anchors/'' @ uuid_str (cp_checkpoint_id cp) @ ''.json'') r (now + retention) s2 = Inr s'"
    and ac: "mark_anchored P cp j = Inr j'" "ac = \<lparr>ac_checkpoint = cp, ac_receipt = receipt,
       ac_history_key = ''history/'' @ uuid_str (cp_checkpoint_id cp) @ ''.json'',
       ac_checkpoint_key = ''checkpoints/'' @ uuid_str (cp_checkpoint_id cp) @ ''.json'',
       ac_receipt_key = ''anchors/'' @ uuid_str (cp_checkpoint_id cp) @ ''.json''\<rparr>"
    by (auto simp: rbind_Inr_iff raise_first_Inr_iff split: sum.splits prod.splits)
  note keep = put_keeps [OF h(2)] put_keeps [OF c(2)] put_keeps [OF r(5)]
  from put_read [OF h(2)] put_read [OF c(2)] put_read [OF r(5)] keep
  show ?thesis using cp h(1) c(1) r ac snapshot_checkpoint_Inr(7) [OF cp] by (intro that) simp_all
qed

end

interpretation memory_retention: retention_store mrs_put_once mrs_read
  by unfold_locales (auto simp: mrs_put_once_def mrs_read_def rbind_Inr_iff of_option_def dhas_def split: if_splits option.splits)

interpretation file_retention: retention_store frs_put_once frs_read
proof unfold_locales
  fix P k b t s s' k' c
  assume "frs_put_once P k b t s = Inr s'"
  then obtain e where e: "retention_path k = Inr k" "dget s k = None" "s' = dset k e s" "en_payload_hex e = bytes_hex b"
    "en_payload_sha256 e = hash_payload P b"
    by (auto simp: frs_put_once_def rbind_Inr_iff Let_def retention_path_def dhas_def split: if_splits)
  then show "frs_read P k s' = Inr b" by (simp add: frs_read_def fromhex_def)
  assume read: "frs_read P k' s = Inr c"
  then have "k' \<noteq> k" using e(1,2) by (auto simp: frs_read_def)
  moreover have "retention_path k' = Inr k'" using read by (auto simp: frs_read_def retention_path_def split: if_splits)
  ultimately show "frs_read P k' s' = Inr c" using read e(3) by (simp add: frs_read_def)
qed

section \<open>A journal with one event\<close>

lemma event_payload_stdlib: "rfc8785 P = None \<Longrightarrow> supported (ae_payload e) \<Longrightarrow> \<exists>b. event_payload P e = Inr b"
  by (simp add: event_payload_def canonical_json_stdlib json_dumps_def supported_obj event_fields_def split: option.split)

definition sample_journal :: AuditJournal where
  "sample_journal = AuditJournal_init (seconds 0)"

lemma sample_append:
  obtains e j where "aj_append prims (seconds 1) 7 ''PROPOSED'' ''agent'' (JObj []) None sample_journal = Inr (e, j)"
    "pj_append prims (seconds 1) 7 ''PROPOSED'' ''agent'' (JObj []) None [] = Inr (e, [e])"
    "aj_events j = [e]" "aj_last_anchor_count j = 0" "supported (ae_payload e)"
proof -
  let ?p = "new_event (seconds 1) 7 1 GENESIS_HASH ''PROPOSED'' ''agent'' (JObj []) None"
  have std: "rfc8785 prims = None" by (simp add: prims_def)
  moreover have sup: "supported (ae_payload ?p)" by (simp add: new_event_def)
  ultimately obtain b where b: "event_payload prims ?p = Inr b" using event_payload_stdlib by blast
  have p: "make_AuditEventV1 ?p = Inr ?p" by code_simp
  let ?e = "?p\<lparr>ae_event_hash := hash_payload prims b\<rparr>"
  have e: "make_AuditEventV1 ?e = Inr ?e" by (rule rehashed_event [OF prims_ok(1) p])
  have "aj_append prims (seconds 1) 7 ''PROPOSED'' ''agent'' (JObj []) None sample_journal = Inr (?e, sample_journal\<lparr>aj_events := [?e]\<rparr>)"
    using b p e by (simp add: aj_append_def sample_journal_def AuditJournal_init_def head_hash_def)
  moreover have "pj_append prims (seconds 1) 7 ''PROPOSED'' ''agent'' (JObj []) None [] = Inr (?e, [?e])"
    using b p std by (simp add: pj_append_def head_hash_def canonical_json_stdlib json_dumps_def Let_def)
  moreover have "aj_events (sample_journal\<lparr>aj_events := [?e]\<rparr>) = [?e]" "aj_last_anchor_count (sample_journal\<lparr>aj_events := [?e]\<rparr>) = 0"
    by (simp_all add: sample_journal_def AuditJournal_init_def)
  moreover have "supported (ae_payload ?e)" using sup by simp
  ultimately show ?thesis by (rule that)
qed

lemma sample_history:
  obtains e j where "journal_run aj_append (aj_touch prims) prims (AuditJournal_init (seconds 0)) j" "aj_events j = [e]"
    "journal_run pj_append (\<lambda>_ _. False) prims [] [e]" "supported (ae_payload e)" "history_ok prims (aj_events j)"
proof -
  obtain e j where e: "aj_append prims (seconds 1) 7 ''PROPOSED'' ''agent'' (JObj []) None sample_journal = Inr (e, j)"
    "pj_append prims (seconds 1) 7 ''PROPOSED'' ''agent'' (JObj []) None [] = Inr (e, [e])" "aj_events j = [e]"
    "supported (ae_payload e)" by (rule sample_append)
  have run: "journal_run aj_append (aj_touch prims) prims (AuditJournal_init (seconds 0)) j"
    using e(1) unfolding sample_journal_def by (rule journal_run.run_append [OF journal_run.run_start])
  have "journal_run pj_append (\<lambda>_ _. False) prims [] [e]"
    using e(2) by (rule journal_run.run_append [OF journal_run.run_start])
  moreover have "history_ok prims (aj_events j)"
    using memory_journal.run_history [OF prims_ok(1) run] by (simp add: AuditJournal_init_def)
  ultimately show ?thesis using that run e(3,4) by blast
qed

definition sample_anchor :: "AuditCheckpointV1 \<Rightarrow> AnchorReceiptV1 res" where
  "sample_anchor cp = Inr \<lparr>ar_checkpoint_id = cp_checkpoint_id cp, ar_chain_id = 1,
     ar_contract = ''0x0000000000000000000000000000000000000001'', ar_transaction_hash = GENESIS_HASH, ar_block_number = 1,
     ar_merkle_root = cp_merkle_root cp, ar_anchored_at = cp_created_at cp\<rparr>"

lemma sample_keys:
  "retention_path (''history/'' @ uuid_str 1 @ ''.json'') = Inr (''history/'' @ uuid_str 1 @ ''.json'')"
  "retention_path (''checkpoints/'' @ uuid_str 1 @ ''.json'') = Inr (''checkpoints/'' @ uuid_str 1 @ ''.json'')"
  "retention_path (''anchors/'' @ uuid_str 1 @ ''.json'') = Inr (''anchors/'' @ uuid_str 1 @ ''.json'')"
  by code_simp+

lemma prims_canonical: "supported v \<Longrightarrow> \<exists>b. canonical_json (rfc8785 prims) v = Inr b"
  by (simp add: prims_def canonical_json_stdlib json_dumps_def)

lemma sample_anchored:
  assumes "aj_events j = [e]" "supported (ae_payload e)" "history_ok prims (aj_events j)"
  shows "\<exists>ac m' fc f'. anchor_service prims (mrs_put_once prims) sample_anchor 1 0 0 1 j [] = (Inr ac, m') \<and>
    anchor_service prims (frs_put_once prims) sample_anchor 1 0 0 1 j [] = (Inr fc, f')"
proof -
  obtain cp where cp: "snapshot_checkpoint prims 0 1 j = Inr cp"
    using snapshot_total [OF prims_ok(1) assms(3)] assms(1) by fastforce
  note cps = snapshot_checkpoint_Inr [OF cp]
  have "supported (history_json prims [e])" "supported (checkpoint_json prims cp)" "supported (receipt_json prims (projr (sample_anchor cp)))"
    "supported (envelope_json v)" for v
    using assms(2) by (simp_all add: history_json_def event_json_def event_fields_def checkpoint_json_def receipt_json_def
        envelope_json_def supported_obj split: option.split)
  then obtain h c r where docs: "canonical_json (rfc8785 prims) (history_json prims [e]) = Inr h"
    "canonical_json (rfc8785 prims) (checkpoint_json prims cp) = Inr c"
    "canonical_json (rfc8785 prims) (receipt_json prims (projr (sample_anchor cp))) = Inr r"
    and envelopes: "\<And>v. \<exists>b. canonical_json (rfc8785 prims) (envelope_json v) = Inr b"
    using prims_canonical by meson
  from envelopes obtain en where en: "\<And>v. canonical_json (rfc8785 prims) (envelope_json v) = Inr (en v)" by metis
  note run = cp cps(3,7) assms(1) docs [unfolded sample_anchor_def sum.sel cps(7)] snapshot_marks [OF assms(3) cp] sample_anchor_def
  show ?thesis
    by (simp add: anchor_service_def run mrs_put_once_def frs_put_once_def sample_keys [simplified] en Let_def dhas_def)
qed

section \<open>Properties\<close>

text \<open>C7. Tamper evidence: two histories that the verifier accepts for the same trusted checkpoint are
  the same events in the same order (up to the order of keys in a payload), or the payloads of two
  of their events are a collision of SHA-256. So no event of a checkpointed journal can be altered, dropped, added or reordered
  unnoticed.\<close>

theorem audit_tamper_evident:
  assumes "iso_ok P" "verify_journal P es cp = Inr r" "jv_valid r" "verify_journal P fs cp = Inr q" "jv_valid q"
  shows "map norm_event es = map norm_event fs \<or> collide (sha256 P) (event_inputs P es) (event_inputs P fs)"
proof (rule chained_inject [OF assms(1)])
  note e = verify_journal_valid [OF assms(2,3)] and f = verify_journal_valid [OF assms(4,5)]
  show "chained P 1 GENESIS_HASH es" "chained P 1 GENESIS_HASH fs" by (rule e, rule f)
  show "length es = length fs" using e(2) f(2) by simp
  show "chain_head GENESIS_HASH es = chain_head GENESIS_HASH fs" by (rule trans [OF e(3) f(3) [symmetric]])
qed

theorem audit_tamper_evident_witness:
  "\<exists>e cp r. verify_journal prims [e] cp = Inr r \<and> jv_valid r \<and> 
     (map norm_event [e] = map norm_event [e] \<or> collide (sha256 prims) (event_inputs prims [e]) (event_inputs prims [e]))"
proof -
  obtain e and j :: AuditJournal where j: "aj_events j = [e]" "history_ok prims (aj_events j)" by (rule sample_history) blast
  then obtain cp where cp: "snapshot_checkpoint prims 0 1 j = Inr cp" using snapshot_total [OF prims_ok(1) j(2)] by fastforce
  from history_verifies [OF j(2) cp] obtain r where "verify_journal prims [e] cp = Inr r" "jv_valid r" by (simp add: j(1))
  with audit_tamper_evident [OF prims_ok(3) this this] show ?thesis by blast
qed

text \<open>C34. Every journal the service can produce is verifiable: after any appends and anchor marks on a
  fresh journal with at least one event, a checkpoint is taken without an error, the verifier
  accepts the history for it, and the journal is then not due for anchoring.\<close>

theorem journal_checkpoint_verifies:
  assumes "hash_ok P" "journal_run aj_append (aj_touch P) P (AuditJournal_init t0) j" "aj_events j \<noteq> []"
  shows "\<exists>cp j' r. checkpoint P now cid j = Inr (cp, j') \<and> verify_journal P (aj_events j) cp = Inr r \<and> jv_valid r \<and>
    \<not> anchor_due later j'"
proof -
  have ok: "history_ok P (aj_events j)"
    using memory_journal.run_history [OF assms(1,2)] by (simp add: AuditJournal_init_def)
  obtain cp where cp: "snapshot_checkpoint P now cid j = Inr cp" using snapshot_total [OF assms(1) ok assms(3)] by blast
  then show ?thesis
    using history_verifies [OF ok cp] snapshot_marks [OF ok cp] by (simp add: checkpoint_def anchor_due_def Let_def)
qed

theorem journal_checkpoint_verifies_witness:
  "\<exists>j cp j' r. aj_events j \<noteq> [] \<and> checkpoint prims 0 1 j = Inr (cp, j') \<and> verify_journal prims (aj_events j) cp = Inr r \<and>
     jv_valid r \<and> \<not> anchor_due (seconds 900) j'"
proof -
  obtain e j where j: "journal_run aj_append (aj_touch prims) prims (AuditJournal_init (seconds 0)) j" "aj_events j = [e]"
    by (rule sample_history)
  then have "aj_events j \<noteq> []" by simp
  with journal_checkpoint_verifies [OF prims_ok(1) j(1) this, of 0 1 "seconds 900"] show ?thesis by blast
qed

text \<open>C35. The PostgreSQL journal refines the journal in memory: every table the service can produce is read
  back as it was written, its chain verifies, and a journal in memory reaches the same history.\<close>

theorem table_journal_refines:
  assumes "hash_ok P" "journal_run pj_append (\<lambda>_ _. False) P [] rows"
  shows "pj_events rows = Inr rows \<and> verify_chain P 1 GENESIS_HASH rows = Inr ([], head_hash rows) \<and>
    (\<exists>j. journal_run aj_append (aj_touch P) P (AuditJournal_init t0) j \<and> aj_events j = rows)"
proof -
  have ok: "history_ok P rows" using table_journal.run_history [OF assms] by simp
  have "\<forall>e\<in>set es. make_AuditEventV1 e = Inr e \<Longrightarrow> \<forall>e\<in>set es. ae_schema_version e = ''aegisledger.audit_event.v1'' \<Longrightarrow>
      pj_events es = Inr es" for es
  proof (induction es)
    case (Cons e es)
    then have "pj_event e = Inr e" by (cases e) (simp add: pj_event_def)
    with Cons show ?case by simp
  qed simp
  with ok table_run_memory [OF assms] show ?thesis by (simp add: history_ok_def verify_chain_iff head_hash_chain)
qed

theorem table_journal_refines_witness:
  "\<exists>e. pj_events [e] = Inr [e] \<and> verify_chain prims 1 GENESIS_HASH [e] = Inr ([], head_hash [e]) \<and>
    (\<exists>j. journal_run aj_append (aj_touch prims) prims (AuditJournal_init (seconds 0)) j \<and> aj_events j = [e])"
proof -
  obtain e j where "journal_run pj_append (\<lambda>_ _. False) prims [] [e]" by (rule sample_history)
  from table_journal_refines [OF prims_ok(1) this] show ?thesis by blast
qed

text \<open>A Merkle root commits to its leaves: two histories of validated events with as many events
  and the same root have the same event hashes, or two nodes of their trees are a collision of SHA-256. (The count is
  needed: an odd level repeats its last node, so longer histories share a root.)\<close>

theorem merkle_root_binds:
  assumes "hash_ok P" "merkle_root P es = Inr root" "merkle_root P fs = Inr root" "length es = length fs"
    and "list_all (\<lambda>e. make_AuditEventV1 e = Inr e) es" "list_all (\<lambda>e. make_AuditEventV1 e = Inr e) fs"
  shows "map ae_event_hash es = map ae_event_hash fs \<or> collide (sha256 P) (tree_inputs P es) (tree_inputs P fs)"
proof (cases "es = []")
  case False
  have hex: "\<forall>e\<in>set gs. Hex32 (ae_event_hash e)" if "list_all (\<lambda>e. make_AuditEventV1 e = Inr e) gs" for gs
    using that by (auto simp: list_all_iff make_AuditEventV1_def split: if_splits)
  from event_nodes_Inr [OF hex [OF assms(5)]] obtain xs where xs: "event_nodes es = Inr xs" "length xs = length es"
    "\<forall>b\<in>set xs. length b = 32" "map (\<lambda>b. ''0x'' @ bytes_hex b) xs = map ae_event_hash es" by blast
  from event_nodes_Inr [OF hex [OF assms(6)]] obtain ys where ys: "event_nodes fs = Inr ys" "length ys = length fs"
    "\<forall>b\<in>set ys. length b = 32" "map (\<lambda>b. ''0x'' @ bytes_hex b) ys = map ae_event_hash fs" by blast
  have ne: "xs \<noteq> []" "ys \<noteq> []" using xs(2) ys(2) assms(4) False by auto
  with assms(2,3) xs(1) ys(1) have "merkle_loop P xs = merkle_loop P ys" by (auto simp: merkle_root_def)
  then have "xs = ys \<or> collide (sha256 P) (merkle_inputs P xs) (merkle_inputs P ys)"
    using xs(2,3) ys(2,3) assms(4) ne(1) by (intro merkle_loop_inject [OF assms(1)]) simp_all
  with xs(1,4) ys(1,4) show ?thesis by (auto simp: tree_inputs_def)
qed (use assms(4) in simp)

theorem merkle_root_binds_witness:
  "\<exists>e root. merkle_root prims [e] = Inr root \<and>
     (map ae_event_hash [e] = map ae_event_hash [e] \<or> collide (sha256 prims) (tree_inputs prims [e]) (tree_inputs prims [e]))"
proof -
  obtain e and j :: AuditJournal where j: "aj_events j = [e]" "history_ok prims (aj_events j)" by (rule sample_history) blast
  then have ok: "list_all (\<lambda>e. make_AuditEventV1 e = Inr e) [e]" by (simp add: history_ok_def)
  obtain root where "merkle_root prims [e] = Inr root"
    using merkle_root_Inr [OF prims_ok(1), of "[e]"] ok by auto
  with merkle_root_binds [OF prims_ok(1) this this refl ok ok] show ?thesis by blast
qed

text \<open>What the anchoring service leaves behind: the history, the checkpoint and the receipt are
  retained, everything retained before is still there, and the history verifies against them.\<close>

definition anchored_in ::
  "primitives \<Rightarrow> (primitives \<Rightarrow> string \<Rightarrow> 's \<Rightarrow> bytes res) \<Rightarrow> AuditEventV1 list \<Rightarrow> AnchoredCheckpoint \<Rightarrow> 's \<Rightarrow> 's \<Rightarrow> bool" where
  "anchored_in P read events ac s s' \<longleftrightarrow>
     canonical_json (rfc8785 P) (history_json P events) = read P (ac_history_key ac) s' \<and>
     canonical_json (rfc8785 P) (checkpoint_json P (ac_checkpoint ac)) = read P (ac_checkpoint_key ac) s' \<and>
     canonical_json (rfc8785 P) (receipt_json P (ac_receipt ac)) = read P (ac_receipt_key ac) s' \<and>
     (\<forall>k v. read P k s = Inr v \<longrightarrow> read P k s' = Inr v) \<and>
     verify_anchored_journal P events (ac_checkpoint ac) (ac_receipt ac) =
       Inr \<lparr>jv_valid = True, jv_checked_events = length events, jv_errors = []\<rparr>"

context retention_store
begin

lemma anchored_history:
  assumes "history_ok P (aj_events j)" "anchor_service P (put_once P) anchor retention now t cid j s = (Inr (ac, j'), s')"
  shows "anchored_in P read (aj_events j) ac s s'"
  using assms(2)
proof (rule anchor_service_retains)
  fix h c r
  assume cp: "snapshot_checkpoint P t cid j = Inr (ac_checkpoint ac)"
    and "canonical_json (rfc8785 P) (history_json P (aj_events j)) = Inr h" "read P (ac_history_key ac) s' = Inr h"
    "canonical_json (rfc8785 P) (checkpoint_json P (ac_checkpoint ac)) = Inr c" "read P (ac_checkpoint_key ac) s' = Inr c"
    "canonical_json (rfc8785 P) (receipt_json P (ac_receipt ac)) = Inr r" "read P (ac_receipt_key ac) s' = Inr r"
    "ar_checkpoint_id (ac_receipt ac) = cid" "ar_merkle_root (ac_receipt ac) = cp_merkle_root (ac_checkpoint ac)"
    and keep: "\<And>k v. read P k s = Inr v \<Longrightarrow> read P k s' = Inr v"
  then show ?thesis
    using history_verifies [OF assms(1) cp] snapshot_checkpoint_Inr(7) [OF cp]
    by (simp add: anchored_in_def verify_anchored_journal_def)
qed

end

text \<open>Anchoring a journal retains it: when the service reports an anchored checkpoint, with the store in
  memory or the file store, the history, the checkpoint and the receipt can be read back as they
  were canonicalised, no object retained before has changed, and the retained history verifies
  against the checkpoint and the receipt.\<close>

theorem anchoring_retains_history:
  assumes "hash_ok P" "journal_run aj_append (aj_touch P) P (AuditJournal_init t0) j"
    and "anchor_service P (mrs_put_once P) anchor retention now t cid j m = (Inr (ac, j'), m')"
    and "anchor_service P (frs_put_once P) anchor' retention' now' t' cid' j f = (Inr (fc, j''), f')"
  shows "anchored_in P mrs_read (aj_events j) ac m m' \<and> anchored_in P frs_read (aj_events j) fc f f'"
proof -
  have ok: "history_ok P (aj_events j)"
    using memory_journal.run_history [OF assms(1,2)] by (simp add: AuditJournal_init_def)
  from memory_retention.anchored_history [OF ok assms(3)] file_retention.anchored_history [OF ok assms(4)] show ?thesis ..
qed

theorem anchoring_retains_history_witness:
  "\<exists>e ac m' fc f'. anchored_in prims mrs_read [e] ac [] m' \<and> anchored_in prims frs_read [e] fc [] f'"
proof -
  obtain e j where j: "journal_run aj_append (aj_touch prims) prims (AuditJournal_init (seconds 0)) j" "aj_events j = [e]"
    "supported (ae_payload e)" "history_ok prims (aj_events j)" by (rule sample_history) blast
  from sample_anchored [OF j(2-4)] obtain ac m' fc f' where
    "anchor_service prims (mrs_put_once prims) sample_anchor 1 0 0 1 j [] = (Inr ac, m')"
    "anchor_service prims (frs_put_once prims) sample_anchor 1 0 0 1 j [] = (Inr fc, f')" by blast
  then have "anchor_service prims (mrs_put_once prims) sample_anchor 1 0 0 1 j [] = (Inr (fst ac, snd ac), m')"
    "anchor_service prims (frs_put_once prims) sample_anchor 1 0 0 1 j [] = (Inr (fst fc, snd fc), f')" by simp_all
  from anchoring_retains_history [OF prims_ok(1) j(1) this] show ?thesis unfolding j(2) by blast
qed

end
