(* ===== verification/SmartAccount.thy ===== *)
theory SmartAccount
  imports Contracts
begin

text \<open>
  \<open>contracts/src/AegisSmartAccount.sol\<close>: the smart account that enforces the policy again on
  chain. An external function is a step of the contract's storage; a revert is a value of
  \<open>sol_error\<close> and leaves the storage as it was. Arithmetic is that of Solidity 0.8: it
  reverts on overflow. \<open>keccak256\<close> and \<open>ecrecover\<close> are parameters. The external call of
  \<open>execute\<close> is the list of calls that the callee makes back into the account, each with its
  sender and value, with whether the call succeeds and what it returns; so every reentrant
  behaviour is one of the actions. Events and the balance of the account are not modelled.

  Shown: the caps and the budgets of the session keys hold after any sequence of calls, reentrant
  ones included; every execution is authorized, bound to its operation and uses one nonce; the
  signed digest determines the execution.
\<close>

section \<open>Types and storage\<close>

type_synonym address = "160 word"
type_synonym uint256 = "256 word"
type_synonym selector = "32 word"

datatype Operation = NativeTransfer | ERC20Transfer | ContractCall

record Execution =
  ex_operation :: Operation
  ex_target :: address
  ex_value :: uint256
  ex_data :: bytes
  ex_asset :: address
  ex_amount :: uint256
  ex_recipient :: address
  ex_nonce :: uint256
  ex_deadline :: uint256

record SessionKey =
  sk_budget :: "128 word"
  sk_spent :: "128 word"
  sk_validUntil :: "64 word"
  sk_active :: bool

datatype sol_error = NotOwner | EmergencyStopped | InvalidNonce uint256 uint256 | AuthorizationExpired
  | PerTransactionCapExceeded | LifetimeCapExceeded | AssetNotAllowed | RecipientNotAllowed | TargetNotAllowed
  | SelectorNotAllowed | InvalidCalldataBinding | InvalidValueBinding | InvalidSigner | InvalidSignature
  | SessionExpiredOrRevoked | SessionBudgetExceeded | ReentrantExecution | ExecutionFailed bytes
  | RequireFailed string | ArithmeticPanic | AbiDecodeFailed

record account =
  sa_domain_separator :: bytes
  sa_owner :: address
  sa_perTransactionCap :: uint256
  sa_lifetimeCap :: uint256
  sa_nonce :: uint256
  sa_totalSpent :: uint256
  sa_emergencyStopped :: bool
  sa_executing :: bool
  sa_allowedAssets :: "address \<Rightarrow> bool"
  sa_allowedRecipients :: "address \<Rightarrow> bool"
  sa_allowedTargets :: "address \<Rightarrow> bool"
  sa_allowedSelectors :: "address \<Rightarrow> selector \<Rightarrow> bool"
  sa_sessionKeys :: "address \<Rightarrow> SessionKey"

text \<open>The chain the contract runs on: the hash, the recovery precompile and the block time.\<close>

record evm =
  evm_keccak256 :: "bytes \<Rightarrow> bytes"
  evm_ecrecover :: "bytes \<Rightarrow> 8 word \<Rightarrow> uint256 \<Rightarrow> uint256 \<Rightarrow> address"
  evm_timestamp :: uint256

definition ERC20_TRANSFER_SELECTOR :: selector where
  "ERC20_TRANSFER_SELECTOR = 0xa9059cbb"

text \<open>\<open>abi.encode\<close> of a value of at most 256 bits: 32 bytes, most significant first.\<close>

definition be32 :: "nat \<Rightarrow> bytes" where
  "be32 n = replicate (32 - length (nat_be n)) 0 @ nat_be n"

definition checked_add :: "uint256 \<Rightarrow> uint256 \<Rightarrow> sol_error + uint256" where
  "checked_add a b = (if unat a + unat b \<ge> 2 ^ 256 then Inl ArithmeticPanic else Inr (a + b))"

section \<open>Construction and administration\<close>

definition DOMAIN_SEPARATOR :: "evm \<Rightarrow> uint256 \<Rightarrow> address \<Rightarrow> bytes" where
  "DOMAIN_SEPARATOR E chainid this =
     evm_keccak256 E (
       evm_keccak256 E (encode ''EIP712Domain(string name,string version,uint256 chainId,address verifyingContract)'') @
       evm_keccak256 E (encode ''AegisSmartAccount'') @ evm_keccak256 E (encode ''1'') @
       be32 (unat chainid) @ be32 (unat this))"

definition sa_constructor :: "evm \<Rightarrow> uint256 \<Rightarrow> address \<Rightarrow> address \<Rightarrow> uint256 \<Rightarrow> uint256 \<Rightarrow> sol_error + account" where
  "sa_constructor E chainid this owner perTransactionCap lifetimeCap =
     rbind (raise_first
       [(owner = 0, RequireFailed ''owner is zero''),
        (perTransactionCap = 0, RequireFailed ''per-transaction cap is zero''),
        (lifetimeCap < perTransactionCap, RequireFailed ''lifetime cap below transaction cap'')]) (\<lambda>_.
     Inr \<lparr>sa_domain_separator = DOMAIN_SEPARATOR E chainid this, sa_owner = owner, sa_perTransactionCap = perTransactionCap,
       sa_lifetimeCap = lifetimeCap, sa_nonce = 0, sa_totalSpent = 0, sa_emergencyStopped = False, sa_executing = False,
       sa_allowedAssets = (\<lambda>_. False), sa_allowedRecipients = (\<lambda>_. False), sa_allowedTargets = (\<lambda>_. False),
       sa_allowedSelectors = (\<lambda>_ _. False),
       sa_sessionKeys = (\<lambda>_. \<lparr>sk_budget = 0, sk_spent = 0, sk_validUntil = 0, sk_active = False\<rparr>)\<rparr>)"

definition onlyOwner :: "address \<Rightarrow> account \<Rightarrow> sol_error + unit" where
  "onlyOwner sender s = (if sender \<noteq> sa_owner s then Inl NotOwner else Inr ())"

definition setAsset :: "address \<Rightarrow> address \<Rightarrow> bool \<Rightarrow> account \<Rightarrow> sol_error + account" where
  "setAsset sender asset allowed s =
     rbind (onlyOwner sender s) (\<lambda>_. Inr (s\<lparr>sa_allowedAssets := (sa_allowedAssets s)(asset := allowed)\<rparr>))"

definition setRecipient :: "address \<Rightarrow> address \<Rightarrow> bool \<Rightarrow> account \<Rightarrow> sol_error + account" where
  "setRecipient sender recipient allowed s =
     rbind (onlyOwner sender s) (\<lambda>_. Inr (s\<lparr>sa_allowedRecipients := (sa_allowedRecipients s)(recipient := allowed)\<rparr>))"

definition setTarget :: "address \<Rightarrow> address \<Rightarrow> bool \<Rightarrow> account \<Rightarrow> sol_error + account" where
  "setTarget sender target allowed s =
     rbind (onlyOwner sender s) (\<lambda>_. Inr (s\<lparr>sa_allowedTargets := (sa_allowedTargets s)(target := allowed)\<rparr>))"

definition setSelector :: "address \<Rightarrow> address \<Rightarrow> selector \<Rightarrow> bool \<Rightarrow> account \<Rightarrow> sol_error + account" where
  "setSelector sender target sel allowed s =
     rbind (onlyOwner sender s) (\<lambda>_. Inr (s\<lparr>sa_allowedSelectors :=
       (sa_allowedSelectors s)(target := (sa_allowedSelectors s target)(sel := allowed))\<rparr>))"

definition setEmergencyStop :: "address \<Rightarrow> bool \<Rightarrow> account \<Rightarrow> sol_error + account" where
  "setEmergencyStop sender stopped s = rbind (onlyOwner sender s) (\<lambda>_. Inr (s\<lparr>sa_emergencyStopped := stopped\<rparr>))"

definition grantSessionKey ::
  "evm \<Rightarrow> address \<Rightarrow> address \<Rightarrow> 128 word \<Rightarrow> 64 word \<Rightarrow> account \<Rightarrow> sol_error + account" where
  "grantSessionKey E sender key budget validUntil s =
     rbind (onlyOwner sender s) (\<lambda>_.
     rbind (raise_first
       [(key = 0, RequireFailed ''session key is zero''),
        (unat validUntil \<le> unat (evm_timestamp E), RequireFailed ''session already expired'')]) (\<lambda>_.
     Inr (s\<lparr>sa_sessionKeys := (sa_sessionKeys s)(key :=
       \<lparr>sk_budget = budget, sk_spent = 0, sk_validUntil = validUntil, sk_active = True\<rparr>)\<rparr>)))"

definition revokeSessionKey :: "address \<Rightarrow> address \<Rightarrow> account \<Rightarrow> sol_error + account" where
  "revokeSessionKey sender key s =
     rbind (onlyOwner sender s) (\<lambda>_.
     Inr (s\<lparr>sa_sessionKeys := (sa_sessionKeys s)(key := (sa_sessionKeys s key)\<lparr>sk_active := False\<rparr>)\<rparr>))"

section \<open>Execution\<close>

definition operation_code :: "Operation \<Rightarrow> nat" where
  "operation_code op = (case op of NativeTransfer \<Rightarrow> 0 | ERC20Transfer \<Rightarrow> 1 | ContractCall \<Rightarrow> 2)"

definition EXECUTION_TYPEHASH :: "evm \<Rightarrow> bytes" where
  "EXECUTION_TYPEHASH E = evm_keccak256 E (encode (''Execution(uint8 operation,address target,uint256 value,bytes32 dataHash,address asset,'' @
     ''uint256 amount,address recipient,uint256 nonce,uint256 deadline)''))"

definition struct_fields :: "evm \<Rightarrow> Execution \<Rightarrow> bytes list" where
  "struct_fields E x = [EXECUTION_TYPEHASH E, be32 (operation_code (ex_operation x)), be32 (unat (ex_target x)), be32 (unat (ex_value x)),
     evm_keccak256 E (ex_data x), be32 (unat (ex_asset x)), be32 (unat (ex_amount x)), be32 (unat (ex_recipient x)),
     be32 (unat (ex_nonce x)), be32 (unat (ex_deadline x))]"

definition executionDigest :: "evm \<Rightarrow> account \<Rightarrow> Execution \<Rightarrow> bytes" where
  "executionDigest E s x = evm_keccak256 E ([0x19, 0x01] @ sa_domain_separator s @ evm_keccak256 E (concat (struct_fields E x)))"

definition data_selector :: "bytes \<Rightarrow> selector" where
  "data_selector data = word_of_nat (be_nat (take 4 data))"

text \<open>\<open>abi.decode(..., (address, uint256))\<close> reverts on short data and on an address with high bits.\<close>

definition decode_transfer :: "bytes \<Rightarrow> sol_error + (address \<times> uint256)" where
  "decode_transfer data =
     (if length data < 64 \<or> be_nat (take 32 data) \<ge> 2 ^ 160 then Inl AbiDecodeFailed
      else Inr (word_of_nat (be_nat (take 32 data)), word_of_nat (be_nat (take 32 (drop 32 data)))))"

definition validateOperation :: "uint256 \<Rightarrow> Execution \<Rightarrow> account \<Rightarrow> sol_error + unit" where
  "validateOperation value x s =
     (if ex_operation x = NativeTransfer
      then if ex_asset x \<noteq> 0 \<or> ex_target x \<noteq> ex_recipient x \<or> ex_value x \<noteq> ex_amount x \<or> ex_data x \<noteq> [] \<or> value \<noteq> ex_value x
        then Inl InvalidValueBinding else Inr ()
      else
        rbind (raise_first
          [(\<not> sa_allowedTargets s (ex_target x), TargetNotAllowed),
           (length (ex_data x) < 4, InvalidCalldataBinding),
           (\<not> sa_allowedSelectors s (ex_target x) (data_selector (ex_data x)), SelectorNotAllowed)]) (\<lambda>_.
        if ex_operation x = ERC20Transfer
        then rbind (raise_first
               [(value \<noteq> 0 \<or> ex_value x \<noteq> 0, InvalidValueBinding),
                (\<not> sa_allowedAssets s (ex_asset x), AssetNotAllowed),
                (ex_target x \<noteq> ex_asset x \<or> data_selector (ex_data x) \<noteq> ERC20_TRANSFER_SELECTOR, InvalidCalldataBinding)]) (\<lambda>_.
             rbind (decode_transfer (drop 4 (ex_data x))) (\<lambda>(recipient, amount).
             if recipient \<noteq> ex_recipient x \<or> amount \<noteq> ex_amount x then Inl InvalidCalldataBinding else Inr ()))
        else if ex_asset x \<noteq> 0 \<or> ex_value x \<noteq> ex_amount x \<or> value \<noteq> ex_value x then Inl InvalidValueBinding else Inr ()))"

definition recover_signer :: "evm \<Rightarrow> bytes \<Rightarrow> bytes \<Rightarrow> account \<Rightarrow> sol_error + address" where
  "recover_signer E digest signature s =
     (if length signature \<noteq> 65 then Inl InvalidSignature
      else
        let r = word_of_nat (be_nat (take 32 signature)) :: uint256;
            sv = word_of_nat (be_nat (take 32 (drop 32 signature))) :: uint256;
            v0 = signature ! 64;
            v = (if v0 < 27 then v0 + 27 else v0) in
        if (v \<noteq> 27 \<and> v \<noteq> 28) \<or> unat sv > 0x7fffffffffffffffffffffffffffffff5d576e7357a4501ddfe92f46681b20a0
        then Inl InvalidSignature
        else
          let signer = evm_ecrecover E digest v r sv in
          if signer = 0 then Inl InvalidSignature
          else if signer \<noteq> sa_owner s \<and> \<not> sk_active (sa_sessionKeys s signer) then Inl InvalidSigner
          else Inr signer)"

text \<open>The charge of a session key: the sum is taken in 256 bits, the amount is cast to 128.\<close>

definition charge_session :: "evm \<Rightarrow> address \<Rightarrow> uint256 \<Rightarrow> account \<Rightarrow> sol_error + account" where
  "charge_session E signer amount s =
     (if signer = sa_owner s then Inr s
      else
        let session = sa_sessionKeys s signer in
        if \<not> sk_active session \<or> unat (sk_validUntil session) < unat (evm_timestamp E) then Inl SessionExpiredOrRevoked
        else rbind (checked_add (ucast (sk_spent session)) amount) (\<lambda>total.
          if unat total > unat (sk_budget session) then Inl SessionBudgetExceeded
          else if unat (sk_spent session) + unat (ucast amount :: 128 word) \<ge> 2 ^ 128 then Inl ArithmeticPanic
          else Inr (s\<lparr>sa_sessionKeys := (sa_sessionKeys s)(signer :=
                 session\<lparr>sk_spent := sk_spent session + ucast amount\<rparr>)\<rparr>)))"

text \<open>Checks and effects of \<open>execute\<close>, up to the external call: the signer and the new storage.\<close>

definition authorize_execution :: "evm \<Rightarrow> uint256 \<Rightarrow> Execution \<Rightarrow> bytes \<Rightarrow> account \<Rightarrow> sol_error + (address \<times> account)" where
  "authorize_execution E value x signature s =
     rbind (raise_first
       [(sa_emergencyStopped s, EmergencyStopped),
        (ex_deadline x < evm_timestamp E, AuthorizationExpired),
        (ex_nonce x \<noteq> sa_nonce s, InvalidNonce (sa_nonce s) (ex_nonce x)),
        (ex_amount x > sa_perTransactionCap s, PerTransactionCapExceeded)]) (\<lambda>_.
     rbind (checked_add (sa_totalSpent s) (ex_amount x)) (\<lambda>total.
     rbind (raise_first
       [(total > sa_lifetimeCap s, LifetimeCapExceeded),
        (\<not> sa_allowedRecipients s (ex_recipient x), RecipientNotAllowed)]) (\<lambda>_.
     rbind (validateOperation value x s) (\<lambda>_.
     rbind (recover_signer E (executionDigest E s x) signature s) (\<lambda>signer.
     rbind (charge_session E signer (ex_amount x) s) (\<lambda>s.
     rbind (checked_add (ex_nonce x) 1) (\<lambda>n.
     Inr (signer, s\<lparr>sa_nonce := n, sa_totalSpent := total\<rparr>))))))))"

text \<open>An action of the account: a call of one of its external functions. An \<open>execute\<close> carries the
  calls that its callee makes back into the account, and the callee's outcome.\<close>

datatype action =
    SetAsset address bool
  | SetRecipient address bool
  | SetTarget address bool
  | SetSelector address selector bool
  | SetEmergencyStop bool
  | GrantSessionKey address "128 word" "64 word"
  | RevokeSessionKey address
  | Receive
  | Execute Execution bytes "(address \<times> uint256 \<times> action) list" bool bytes

fun account_step :: "evm \<Rightarrow> address \<Rightarrow> uint256 \<Rightarrow> action \<Rightarrow> account \<Rightarrow> sol_error + account"
and account_calls :: "evm \<Rightarrow> (address \<times> uint256 \<times> action) list \<Rightarrow> account \<Rightarrow> account" where
  "account_step E sender value (SetAsset asset allowed) s = setAsset sender asset allowed s"
| "account_step E sender value (SetRecipient recipient allowed) s = setRecipient sender recipient allowed s"
| "account_step E sender value (SetTarget target allowed) s = setTarget sender target allowed s"
| "account_step E sender value (SetSelector target sel allowed) s = setSelector sender target sel allowed s"
| "account_step E sender value (SetEmergencyStop stopped) s = setEmergencyStop sender stopped s"
| "account_step E sender value (GrantSessionKey key budget validUntil) s = grantSessionKey E sender key budget validUntil s"
| "account_step E sender value (RevokeSessionKey key) s = revokeSessionKey sender key s"
| "account_step E sender value Receive s = Inr s"
| "account_step E sender value (Execute x signature calls success result) s =
     (if sa_executing s then Inl ReentrantExecution
      else rbind (authorize_execution E value x signature (s\<lparr>sa_executing := True\<rparr>)) (\<lambda>(signer, s).
        let s = account_calls E calls s in
        if \<not> success then Inl (ExecutionFailed result) else Inr (s\<lparr>sa_executing := False\<rparr>)))"
| "account_calls E [] s = s"
| "account_calls E ((sender, value, a) # calls) s =
     account_calls E calls (case account_step E sender value a s of Inl _ \<Rightarrow> s | Inr s \<Rightarrow> s)"

inductive account_runs :: "account \<Rightarrow> Execution list \<Rightarrow> account \<Rightarrow> bool" for s0 where
  run_nothing: "account_runs s0 [] s0"
| run_action: "account_runs s0 xs s \<Longrightarrow> account_step E sender value a s = Inr s' \<Longrightarrow>
    account_runs s0 (xs @ (case a of Execute x _ _ _ _ \<Rightarrow> [x] | _ \<Rightarrow> [])) s'"

section \<open>Encoding\<close>

lemma be_nat_zeros [simp]: "be_nat (replicate k 0 @ bs) = be_nat bs"
  by (induction k) (simp_all add: be_nat_def)

lemma be_nat_be32 [simp]: "be_nat (be32 n) = n"
  by (simp add: be32_def)

lemma be32_inject [simp]: "be32 m = be32 n \<longleftrightarrow> m = n"
  using be_nat_be32 by metis

lemma length_be32: "n < 2 ^ 256 \<Longrightarrow> length (be32 n) = 32"
proof -
  assume "n < 2 ^ 256"
  then have "n < 256 ^ 32" by simp
  then have "length (nat_be n) \<le> 32" by (rule length_nat_be_le)
  then show ?thesis by (simp add: be32_def)
qed

lemma unat_256_less [simp]: "unat (w :: uint256) < 2 ^ 256" "unat (a :: address) < 2 ^ 256"
proof -
  have "unat w < 2 ^ LENGTH(256)" "unat a < 2 ^ LENGTH(160)" by (rule unsigned_less)+
  moreover have "(2 :: nat) ^ 160 < 2 ^ 256" by simp
  ultimately show "unat w < 2 ^ 256" "unat a < 2 ^ 256" by simp_all
qed

lemma length_be32_word [simp]: "length (be32 (unat (w :: uint256))) = 32" "length (be32 (unat (a :: address))) = 32"
  by (rule length_be32, rule unat_256_less)+

lemma be_nat_inject: "length xs = length ys \<Longrightarrow> be_nat xs = be_nat ys \<Longrightarrow> xs = ys"
proof (induction xs arbitrary: ys rule: rev_induct)
  case (snoc x xs)
  then obtain zs y where ys: "ys = zs @ [y]" by (cases ys rule: rev_exhaust) auto
  have "be_nat xs * 256 + unat x = be_nat zs * 256 + unat y" using snoc.prems(2) by (simp add: ys)
  then have "(be_nat xs * 256 + unat x) div 256 = (be_nat zs * 256 + unat y) div 256"
    "(be_nat xs * 256 + unat x) mod 256 = (be_nat zs * 256 + unat y) mod 256" by simp_all
  then have "be_nat xs = be_nat zs" "x = y" by (simp_all add: word_eq_iff_unsigned [where 'a = nat])
  with snoc ys show ?case by simp
qed simp

lemma be32_be_nat: "length bs = 32 \<Longrightarrow> be32 (be_nat bs) = bs"
proof (rule be_nat_inject)
  assume len: "length bs = 32"
  have "be_nat bs < 2 ^ 256" using be_nat_less [of bs] by (simp add: len)
  with len show "length (be32 (be_nat bs)) = length bs" by (simp add: length_be32)
qed simp

lemma checked_add_Inr:
  "checked_add a b = Inr c \<Longrightarrow> unat c = unat a + unat b"
  by (auto simp: checked_add_def unat_word_ariths split: if_splits)

section \<open>What a step changes\<close>

definition budgets_ok :: "account \<Rightarrow> bool" where
  "budgets_ok s \<longleftrightarrow> (\<forall>k. unat (sk_spent (sa_sessionKeys s k)) \<le> unat (sk_budget (sa_sessionKeys s k)))"

definition same_ledger :: "account \<Rightarrow> account \<Rightarrow> bool" where
  "same_ledger s s' \<longleftrightarrow> sa_domain_separator s' = sa_domain_separator s \<and> sa_owner s' = sa_owner s \<and>
     sa_perTransactionCap s' = sa_perTransactionCap s \<and> sa_lifetimeCap s' = sa_lifetimeCap s \<and> sa_nonce s' = sa_nonce s \<and>
     sa_totalSpent s' = sa_totalSpent s \<and> sa_executing s' = sa_executing s \<and> (budgets_ok s \<longrightarrow> budgets_ok s')"

lemma same_ledger_refl [simp]: "same_ledger s s"
  by (simp add: same_ledger_def)

lemma same_ledger_trans: "same_ledger s t \<Longrightarrow> same_ledger t u \<Longrightarrow> same_ledger s u"
  by (simp add: same_ledger_def)

lemmas admin_defs = setAsset_def setRecipient_def setTarget_def setSelector_def setEmergencyStop_def
  grantSessionKey_def revokeSessionKey_def

lemma admin_same_ledger:
  assumes "account_step E sender value a s = Inr s'" "case a of Execute _ _ _ _ _ \<Rightarrow> False | _ \<Rightarrow> True"
  shows "same_ledger s s'"
  using assms by (cases a) (auto simp: admin_defs rbind_Inr_iff same_ledger_def budgets_ok_def)

text \<open>While an execution is under way, calls back into the account change neither the nonce nor
  the amount spent, and cannot execute.\<close>

lemma reentrant_same_ledger: "sa_executing s \<Longrightarrow> same_ledger s (account_calls E calls s)"
proof (induction calls arbitrary: s)
  case (Cons c calls)
  obtain sender val a where c: "c = (sender, val, a)" by (cases c)
  show ?case
  proof (cases "account_step E sender val a s")
    case (Inr s')
    then have "same_ledger s s'" using Cons.prems by (intro admin_same_ledger) (auto split: action.split)
    moreover from this Cons have "same_ledger s' (account_calls E calls s')" by (simp add: same_ledger_def)
    ultimately show ?thesis using Inr same_ledger_trans by (auto simp: c)
  qed (use Cons in \<open>simp add: c\<close>)
qed simp

lemma charge_session_Inr:
  assumes "charge_session E signer amount s = Inr t"
  shows "t = s\<lparr>sa_sessionKeys := sa_sessionKeys t\<rparr>" "budgets_ok s \<Longrightarrow> budgets_ok t"
    "signer = sa_owner s \<or> sk_active (sa_sessionKeys s signer) \<and>
       unat (evm_timestamp E) \<le> unat (sk_validUntil (sa_sessionKeys s signer)) \<and>
       unat (sk_spent (sa_sessionKeys s signer)) + unat amount \<le> unat (sk_budget (sa_sessionKeys s signer))"
proof -
  have "t = s\<lparr>sa_sessionKeys := sa_sessionKeys t\<rparr> \<and> (budgets_ok s \<longrightarrow> budgets_ok t) \<and>
    (signer = sa_owner s \<or> sk_active (sa_sessionKeys s signer) \<and>
       unat (evm_timestamp E) \<le> unat (sk_validUntil (sa_sessionKeys s signer)) \<and>
       unat (sk_spent (sa_sessionKeys s signer)) + unat amount \<le> unat (sk_budget (sa_sessionKeys s signer)))"
  proof (cases "signer = sa_owner s")
    case True
    with assms show ?thesis by (simp add: charge_session_def)
  next
    case False
    let ?k = "sa_sessionKeys s signer"
    from assms False obtain total where total: "checked_add (ucast (sk_spent ?k)) amount = Inr total"
      "unat total \<le> unat (sk_budget ?k)" and act: "sk_active ?k" "unat (evm_timestamp E) \<le> unat (sk_validUntil ?k)"
      and small: "unat (sk_spent ?k) + unat (ucast amount :: 128 word) < 2 ^ 128"
      and t: "t = s\<lparr>sa_sessionKeys := (sa_sessionKeys s)(signer := ?k\<lparr>sk_spent := sk_spent ?k + ucast amount\<rparr>)\<rparr>"
      by (auto simp: charge_session_def rbind_Inr_iff Let_def not_less not_le)
    have "unat (ucast (sk_spent ?k) :: uint256) = unat (sk_spent ?k)" 
      using unsigned_less [of "sk_spent ?k", where ?'a = nat] by (simp add: unsigned_ucast_eq take_bit_nat_eq_self)
    then have sum: "unat (sk_spent ?k) + unat amount \<le> unat (sk_budget ?k)" using checked_add_Inr [OF total(1)] total(2) by simp
    have "unat (sk_budget ?k) < 2 ^ 128" using unsigned_less [of "sk_budget ?k", where ?'a = nat] by simp
    then have "unat (ucast amount :: 128 word) = unat amount" using sum by (simp add: unsigned_ucast_eq take_bit_nat_eq_self)
    then have "unat (sk_spent ?k + ucast amount) = unat (sk_spent ?k) + unat amount" using small by (simp add: unat_word_ariths)
    with sum act show ?thesis by (auto simp: t budgets_ok_def)
  qed
  then show "t = s\<lparr>sa_sessionKeys := sa_sessionKeys t\<rparr>" "budgets_ok s \<Longrightarrow> budgets_ok t"
    "signer = sa_owner s \<or> sk_active (sa_sessionKeys s signer) \<and>
       unat (evm_timestamp E) \<le> unat (sk_validUntil (sa_sessionKeys s signer)) \<and>
       unat (sk_spent (sa_sessionKeys s signer)) + unat amount \<le> unat (sk_budget (sa_sessionKeys s signer))" by auto
qed

lemma authorize_execution_Inr:
  assumes "authorize_execution E value x sig s = Inr (signer, t)"
  obtains total u where "\<not> sa_emergencyStopped s" "evm_timestamp E \<le> ex_deadline x" "ex_nonce x = sa_nonce s"
    "ex_amount x \<le> sa_perTransactionCap s" "checked_add (sa_totalSpent s) (ex_amount x) = Inr total"
    "total \<le> sa_lifetimeCap s" "sa_allowedRecipients s (ex_recipient x)" "validateOperation value x s = Inr ()"
    "recover_signer E (executionDigest E s x) sig s = Inr signer" "charge_session E signer (ex_amount x) s = Inr u"
    "checked_add (ex_nonce x) 1 = Inr (sa_nonce t)" "t = u\<lparr>sa_nonce := sa_nonce t, sa_totalSpent := total\<rparr>"
  using assms unfolding authorize_execution_def rbind_Inr_iff raise_first_Inr_iff
  by (auto simp: not_less)

text \<open>A successful execution: what was authorized, and what it did to the ledger.\<close>

lemma execute_Inr:
  assumes "account_step E sender value (Execute x sig calls ok result) s = Inr s'"
  obtains signer t where "authorize_execution E value x sig (s\<lparr>sa_executing := True\<rparr>) = Inr (signer, t)"
    "\<not> sa_executing s" "\<not> sa_executing s'" "unat (sa_nonce s') = unat (sa_nonce s) + 1" "ex_nonce x = sa_nonce s"
    "unat (sa_totalSpent s') = unat (sa_totalSpent s) + unat (ex_amount x)" "sa_totalSpent s' \<le> sa_lifetimeCap s"
    "sa_lifetimeCap s' = sa_lifetimeCap s" "budgets_ok s \<longrightarrow> budgets_ok s'"
proof -
  let ?s = "s\<lparr>sa_executing := True\<rparr>"
  from assms obtain signer t where a: "authorize_execution E value x sig ?s = Inr (signer, t)" "\<not> sa_executing s"
    and s': "s' = (account_calls E calls t)\<lparr>sa_executing := False\<rparr>"
    by (auto simp: rbind_Inr_iff Let_def split: if_splits)
  from a(1) obtain total u where t: "ex_nonce x = sa_nonce s" "checked_add (sa_totalSpent s) (ex_amount x) = Inr total"
    "total \<le> sa_lifetimeCap s" "charge_session E signer (ex_amount x) ?s = Inr u"
    "checked_add (ex_nonce x) 1 = Inr (sa_nonce t)" "t = u\<lparr>sa_nonce := sa_nonce t, sa_totalSpent := total\<rparr>"
    by (rule authorize_execution_Inr) simp
  note u = charge_session_Inr(1,2) [OF t(4)]
  have ex: "sa_executing t" "sa_totalSpent t = total" "sa_lifetimeCap t = sa_lifetimeCap s"
    by (subst t(6), subst u(1), simp)+
  have "budgets_ok ?s = budgets_ok s" "budgets_ok t = budgets_ok u" by (simp add: budgets_ok_def, subst t(6), simp add: budgets_ok_def)
  with u(2) have b: "budgets_ok s \<longrightarrow> budgets_ok t" by simp
  note calls = reentrant_same_ledger [OF ex(1), of E calls, unfolded same_ledger_def]
  show ?thesis
    using a t(1,3) ex b calls checked_add_Inr [OF t(2)] checked_add_Inr [OF t(5)]
    by (intro that [OF a]) (auto simp: s' budgets_ok_def)
qed

lemma account_runs_ledger:
  assumes "account_runs s0 xs s" "sa_nonce s0 = 0" "sa_totalSpent s0 = 0" "\<not> sa_executing s0" "budgets_ok s0"
  shows "map (\<lambda>x. unat (ex_nonce x)) xs = [0..<length xs] \<and> unat (sa_nonce s) = length xs \<and>
    unat (sa_totalSpent s) = (\<Sum>x\<leftarrow>xs. unat (ex_amount x)) \<and> sa_totalSpent s \<le> sa_lifetimeCap s \<and>
    sa_lifetimeCap s = sa_lifetimeCap s0 \<and> \<not> sa_executing s \<and> budgets_ok s"
  using assms(1)
proof induction
  case run_nothing
  then show ?case using assms(2-5) by simp
next
  case (run_action xs s E sender value' a s')
  show ?case
  proof (cases "case a of Execute _ _ _ _ _ \<Rightarrow> False | _ \<Rightarrow> True")
    case True
    then have "(case a of Execute x _ _ _ _ \<Rightarrow> [x] | _ \<Rightarrow> []) = []" by (simp split: action.splits)
    with run_action.IH admin_same_ledger [OF run_action.hyps(2) True] show ?thesis
      unfolding same_ledger_def by (metis append_Nil2)
  next
    case False
    then obtain x sig cs ok r where a: "a = Execute x sig cs ok r" by (cases a) auto
    from run_action.hyps(2) have "unat (sa_nonce s') = unat (sa_nonce s) + 1 \<and> ex_nonce x = sa_nonce s \<and> \<not> sa_executing s' \<and>
      unat (sa_totalSpent s') = unat (sa_totalSpent s) + unat (ex_amount x) \<and> sa_totalSpent s' \<le> sa_lifetimeCap s \<and>
      sa_lifetimeCap s' = sa_lifetimeCap s \<and> (budgets_ok s \<longrightarrow> budgets_ok s')"
      unfolding a by (rule execute_Inr) simp
    with run_action.IH show ?thesis by (simp add: a)
  qed
qed

section \<open>Bindings\<close>

text \<open>What each operation binds: the value moved, the target called and the data it is called with.\<close>

definition bound_operation :: "uint256 \<Rightarrow> Execution \<Rightarrow> account \<Rightarrow> bool" where
  "bound_operation value x s \<longleftrightarrow>
     (case ex_operation x of
        NativeTransfer \<Rightarrow> ex_target x = ex_recipient x \<and> ex_value x = ex_amount x \<and> value = ex_amount x \<and> ex_data x = []
      | ERC20Transfer \<Rightarrow> sa_allowedTargets s (ex_target x) \<and> sa_allowedAssets s (ex_target x) \<and> ex_target x = ex_asset x \<and>
          value = 0 \<and> ex_value x = 0 \<and> data_selector (ex_data x) = ERC20_TRANSFER_SELECTOR \<and>
          take 64 (drop 4 (ex_data x)) = be32 (unat (ex_recipient x)) @ be32 (unat (ex_amount x))
      | ContractCall \<Rightarrow> sa_allowedTargets s (ex_target x) \<and> sa_allowedSelectors s (ex_target x) (data_selector (ex_data x)) \<and>
          ex_asset x = 0 \<and> ex_value x = ex_amount x \<and> value = ex_amount x)"

lemma decode_transfer_Inr:
  assumes "decode_transfer d = Inr (r, a)"
  shows "take 64 d = be32 (unat r) @ be32 (unat a)"
proof -
  from assms have d: "length d \<ge> 64" "be_nat (take 32 d) < 2 ^ 160" "r = word_of_nat (be_nat (take 32 d))"
    "a = word_of_nat (be_nat (take 32 (drop 32 d)))" by (auto simp: decode_transfer_def split: if_splits)
  have "be_nat (take 32 (drop 32 d)) < 2 ^ 256" using be_nat_less [of "take 32 (drop 32 d)"] d(1) by simp
  then have "unat a = be_nat (take 32 (drop 32 d))" "unat r = be_nat (take 32 d)"
    using d(2) by (simp_all add: d(3,4) unsigned_of_nat take_bit_nat_eq_self)
  moreover have "take 64 d = take 32 d @ take 32 (drop 32 d)" using take_add [of 32 32 d] by simp
  ultimately show ?thesis using d(1) by (simp add: be32_be_nat)
qed

lemma validateOperation_bound: "validateOperation value x s = Inr () \<Longrightarrow> bound_operation value x s"
  by (auto simp: validateOperation_def bound_operation_def rbind_Inr_iff raise_first_Inr_iff dest: decode_transfer_Inr
      split: if_splits Operation.split)

text \<open>The fields that the struct hash covers are 32 bytes each, so the bytes determine them.\<close>

definition evm_ok :: "evm \<Rightarrow> bool" where
  "evm_ok E \<longleftrightarrow> (\<forall>b. length (evm_keccak256 E b) = 32)"

lemma concat_inject:
  "length xs = length ys \<Longrightarrow> \<forall>x\<in>set xs. length x = 32 \<Longrightarrow> \<forall>y\<in>set ys. length y = 32 \<Longrightarrow> concat xs = concat ys \<Longrightarrow> xs = ys"
  by (induction xs ys rule: list_induct2) auto

lemma struct_fields_length: "evm_ok E \<Longrightarrow> f \<in> set (struct_fields E x) \<Longrightarrow> length f = 32"
  by (auto simp: struct_fields_def evm_ok_def EXECUTION_TYPEHASH_def operation_code_def length_be32 split: Operation.split)

text \<open>The bytes that are hashed for a digest: the calldata, the struct and the typed data.\<close>

definition digest_inputs :: "evm \<Rightarrow> account \<Rightarrow> Execution \<Rightarrow> bytes set" where
  "digest_inputs E s x = {ex_data x, concat (struct_fields E x),
     [0x19, 0x01] @ sa_domain_separator s @ evm_keccak256 E (concat (struct_fields E x))}"

lemma digest_inject:
  assumes "evm_ok E" "executionDigest E s x = executionDigest E s y"
  shows "x = y \<or> collide (evm_keccak256 E) (digest_inputs E s x) (digest_inputs E s y)"
proof (rule disjCI)
  assume nc: "\<not> collide (evm_keccak256 E) (digest_inputs E s x) (digest_inputs E s y)"
  have inj: "evm_keccak256 E a = evm_keccak256 E b \<Longrightarrow> a \<in> digest_inputs E s x \<Longrightarrow> b \<in> digest_inputs E s y \<Longrightarrow> a = b" for a b
    using nc unfolding collide_def by blast
  have "[0x19, 0x01] @ sa_domain_separator s @ evm_keccak256 E (concat (struct_fields E x)) =
      [0x19, 0x01] @ sa_domain_separator s @ evm_keccak256 E (concat (struct_fields E y))"
    using assms(2) unfolding executionDigest_def by (rule inj) (unfold digest_inputs_def, blast+)
  then have "evm_keccak256 E (concat (struct_fields E x)) = evm_keccak256 E (concat (struct_fields E y))" by simp
  then have "concat (struct_fields E x) = concat (struct_fields E y)" by (rule inj) (unfold digest_inputs_def, blast+)
  then have f: "struct_fields E x = struct_fields E y"
    using assms(1) struct_fields_length by (intro concat_inject) (auto simp: struct_fields_def)
  then have "ex_operation x = ex_operation y"
    by (auto simp: struct_fields_def operation_code_def split: Operation.splits)
  moreover have "ex_data x = ex_data y"
  proof (rule inj)
    show "evm_keccak256 E (ex_data x) = evm_keccak256 E (ex_data y)" using f by (simp add: struct_fields_def)
  qed (unfold digest_inputs_def, blast+)
  moreover have "ex_target x = ex_target y" "ex_value x = ex_value y" "ex_asset x = ex_asset y" "ex_amount x = ex_amount y"
    "ex_recipient x = ex_recipient y" "ex_nonce x = ex_nonce y" "ex_deadline x = ex_deadline y"
    using f by (simp_all add: struct_fields_def word_eq_iff_unsigned [where 'a = nat])
  ultimately show "x = y" by simp
qed

section \<open>A native transfer\<close>

definition sample_evm :: evm where
  "sample_evm = \<lparr>evm_keccak256 = (\<lambda>b. replicate 32 (word_of_nat (length b))), evm_ecrecover = (\<lambda>d v r s. 7), evm_timestamp = 100\<rparr>"

definition sample_execution :: Execution where
  "sample_execution = \<lparr>ex_operation = NativeTransfer, ex_target = 5, ex_value = 3, ex_data = [], ex_asset = 0, ex_amount = 3,
     ex_recipient = 5, ex_nonce = 0, ex_deadline = 200\<rparr>"

definition sample_signature :: bytes where
  "sample_signature = replicate 64 0 @ [27]"

definition sample_call :: action where
  "sample_call = Execute sample_execution sample_signature [(9, 0, SetTarget 9 True), (9, 3, Execute sample_execution sample_signature [] True [])] True []"

definition sample_account :: account where
  "sample_account = projr (sa_constructor sample_evm 1 42 7 10 20)"

lemma sample_account_init:
  "sa_constructor sample_evm 1 42 7 10 20 = Inr sample_account"
  by (simp add: sample_account_def sa_constructor_def)

definition sample_ready :: account where
  "sample_ready = sample_account\<lparr>sa_allowedRecipients := (\<lambda>_. False)(5 := True)\<rparr>"

lemma sample_grant: "account_step sample_evm 7 0 (SetRecipient 5 True) sample_account = Inr sample_ready"
  by (simp add: sample_ready_def sample_account_def sa_constructor_def setRecipient_def onlyOwner_def)

lemma sample_executes: "\<exists>s. account_step sample_evm 9 3 sample_call sample_ready = Inr s"
proof -
  have "validateOperation 3 sample_execution s = Inr ()" for s by (simp add: validateOperation_def sample_execution_def)
  moreover have "recover_signer sample_evm d sample_signature s = Inr 7" if "sa_owner s = 7" for d s
    using that be_nat_zeros [of 32 "[]"]
    by (simp add: recover_signer_def sample_evm_def sample_signature_def nth_append)
  ultimately have "authorize_execution sample_evm 3 sample_execution sample_signature (sample_ready\<lparr>sa_executing := True\<rparr>) =
      Inr (7, sample_ready\<lparr>sa_executing := True, sa_nonce := 1, sa_totalSpent := 3\<rparr>)"
    by (simp add: authorize_execution_def sample_ready_def sample_account_def sa_constructor_def charge_session_def checked_add_def)
      (simp add: sample_execution_def sample_evm_def)
  then show ?thesis by (simp add: sample_call_def sample_ready_def sample_account_def sa_constructor_def)
qed

section \<open>Properties\<close>

text \<open>C3. Caps of the smart account: after any sequence of calls on a freshly constructed account, with any
  senders, times and callees that call back, the executions that succeeded have the nonces
  0, 1, 2, ... in order, the account has spent exactly the sum of their amounts and no more than
  the lifetime cap, and no session key has spent more than its budget.\<close>

theorem smart_account_caps:
  assumes "sa_constructor E chainid this owner cap lifetime = Inr s0" "account_runs s0 xs s"
  shows "map (\<lambda>x. unat (ex_nonce x)) xs = [0..<length xs] \<and>
    unat (sa_totalSpent s) = (\<Sum>x\<leftarrow>xs. unat (ex_amount x)) \<and> (\<Sum>x\<leftarrow>xs. unat (ex_amount x)) \<le> unat lifetime \<and>
    (\<forall>k. unat (sk_spent (sa_sessionKeys s k)) \<le> unat (sk_budget (sa_sessionKeys s k)))"
proof -
  have s0: "sa_nonce s0 = 0" "sa_totalSpent s0 = 0" "\<not> sa_executing s0" "budgets_ok s0" "sa_lifetimeCap s0 = lifetime"
    using assms(1) by (auto simp: sa_constructor_def rbind_Inr_iff budgets_ok_def)
  from account_runs_ledger [OF assms(2) s0(1-4)] s0(5) show ?thesis
    by (auto simp: budgets_ok_def word_le_nat_alt)
qed

theorem smart_account_caps_witness:
  "\<exists>s. account_runs sample_account [sample_execution] s \<and> unat (sa_totalSpent s) = 3 \<and> (3 :: nat) \<le> unat (20 :: uint256)"
proof -
  obtain s where s: "account_step sample_evm 9 3 sample_call sample_ready = Inr s" using sample_executes by blast
  have "account_runs sample_account [] sample_ready"
    using account_runs.run_action [OF account_runs.run_nothing sample_grant] by simp
  from account_runs.run_action [OF this s] have run: "account_runs sample_account [sample_execution] s" by (simp add: sample_call_def)
  with smart_account_caps [OF sample_account_init run] show ?thesis by (auto simp: sample_execution_def)
qed

text \<open>C17. Authorization on chain: an execution that succeeds was signed, over the digest of exactly this
  execution, by the owner or by an active session key that has not expired and whose budget
  covers the amount; it was not stopped or late, used the current nonce, stayed within the
  transaction cap, paid an allowed recipient, and its operation binds value, target and data.\<close>

theorem execution_authorized:
  assumes "account_step E sender value (Execute x sig calls success result) s = Inr s'"
  shows "\<exists>signer. recover_signer E (executionDigest E s x) sig s = Inr signer \<and>
    (signer = sa_owner s \<or> sk_active (sa_sessionKeys s signer) \<and>
       unat (evm_timestamp E) \<le> unat (sk_validUntil (sa_sessionKeys s signer)) \<and>
       unat (sk_spent (sa_sessionKeys s signer)) + unat (ex_amount x) \<le> unat (sk_budget (sa_sessionKeys s signer))) \<and>
    \<not> sa_emergencyStopped s \<and> evm_timestamp E \<le> ex_deadline x \<and> ex_nonce x = sa_nonce s \<and>
    ex_amount x \<le> sa_perTransactionCap s \<and> sa_allowedRecipients s (ex_recipient x) \<and> bound_operation value x s \<and>
    unat (sa_nonce s') = unat (sa_nonce s) + 1"
proof -
  let ?s = "s\<lparr>sa_executing := True\<rparr>"
  from assms obtain signer t where auth: "authorize_execution E value x sig ?s = Inr (signer, t)"
    and n: "unat (sa_nonce s') = unat (sa_nonce s) + 1" by (rule execute_Inr)
  have same: "executionDigest E ?s x = executionDigest E s x" "recover_signer E d sig ?s = recover_signer E d sig s"
    "bound_operation value x ?s = bound_operation value x s" for d
    by (simp_all add: executionDigest_def recover_signer_def Let_def bound_operation_def split: Operation.split)
  from auth show ?thesis
  proof (rule authorize_execution_Inr)
    fix total u
    assume "\<not> sa_emergencyStopped ?s" "evm_timestamp E \<le> ex_deadline x" "ex_nonce x = sa_nonce ?s"
      "ex_amount x \<le> sa_perTransactionCap ?s" "sa_allowedRecipients ?s (ex_recipient x)" "validateOperation value x ?s = Inr ()"
      "recover_signer E (executionDigest E ?s x) sig ?s = Inr signer" "charge_session E signer (ex_amount x) ?s = Inr u"
    with charge_session_Inr(3) [OF this(8)] validateOperation_bound [OF this(6)] n show ?thesis by (simp add: same)
  qed
qed

theorem execution_authorized_witness:
  "\<exists>s'. account_step sample_evm 9 3 sample_call sample_ready = Inr s' \<and>
     (\<exists>signer. recover_signer sample_evm (executionDigest sample_evm sample_ready sample_execution) sample_signature sample_ready = Inr signer \<and>
       bound_operation 3 sample_execution sample_ready \<and> unat (sa_nonce s') = unat (sa_nonce sample_ready) + 1)"
proof -
  obtain s where s: "account_step sample_evm 9 3 sample_call sample_ready = Inr s" using sample_executes by blast
  from execution_authorized [OF this [unfolded sample_call_def]] s show ?thesis by blast
qed

text \<open>The digest that is signed determines the execution: two executions with the same digest on the
  same account are equal in every field, calldata included, or bytes hashed for them are a collision of Keccak-256.\<close>

theorem execution_digest_binds:
  assumes "evm_ok E" "executionDigest E s x = executionDigest E s y"
  shows "x = y \<or> collide (evm_keccak256 E) (digest_inputs E s x) (digest_inputs E s y)"
  using assms by (rule digest_inject)

theorem execution_digest_binds_witness:
  "evm_ok sample_evm \<and> (sample_execution = sample_execution \<or>
     collide (evm_keccak256 sample_evm) (digest_inputs sample_evm sample_ready sample_execution) (digest_inputs sample_evm sample_ready sample_execution))"
proof -
  have "evm_ok sample_evm" by (simp add: evm_ok_def sample_evm_def)
  with execution_digest_binds [OF this refl] show ?thesis by blast
qed

end
