(* ===== verification/RustSigner.thy ===== *)
theory RustSigner
  imports Signing "HOL-Library.Multiset"
begin

text \<open>
  \<open>signer/src/main.rs\<close>: the isolated signer. It parses a request, verifies the policy decision and
  the binding of the raw transaction to the proposal, keeps a replay state that it persists
  before it signs, and returns the signed transaction with evidence. Rust's \<open>u64\<close> is
  \<open>64 word\<close>; the release build wraps on overflow. JSON values are \<open>json\<close>, with
  the pairs of an object in the order of the text. \<open>to_lowercase\<close> is that of ASCII text.

  The crates are parameters (\<open>crates\<close>): JSON parsing and canonicalisation, hexadecimal and
  timestamp parsing, the Ethereum transaction type with its codec, and secp256k1. SHA-256, Keccak
  and Ed25519 are those of \<open>primitives\<close>. \<open>serde\<close> also reads a struct from an array;
  such a value has no fields for the checks that follow and is left out. The gRPC server, its TLS
  setup and logging are not modelled.

  Shown: what is signed is the digest of the transaction that the proposal describes, under a
  verified decision; and over any sequence of requests, failed writes and restarts no decision
  is signed twice and the nonces of a wallet increase.
\<close>

section \<open>Crates\<close>

datatype alloy_tx_kind = TxCreate | TxCall bytes

record TxEip1559 =
  tx_chain_id :: "64 word"
  tx_nonce :: "64 word"
  tx_gas_limit :: "64 word"
  tx_max_fee_per_gas :: "128 word"
  tx_max_priority_fee_per_gas :: "128 word"
  tx_to :: alloy_tx_kind
  tx_value :: "256 word"
  tx_access_list :: "bytes list"
  tx_input :: bytes

record crates =
  json_from_slice :: "bytes \<Rightarrow> json option"
  json_to_vec :: "json \<Rightarrow> bytes"
  jcs_to_vec :: "json \<Rightarrow> bytes option"
  hex_decode :: "string \<Rightarrow> bytes option"
  hex_encode :: "bytes \<Rightarrow> string"
  rfc3339_parse :: "string \<Rightarrow> time option"
  rfc3339_print :: "time \<Rightarrow> string"
  tx_decode :: "bytes \<Rightarrow> (TxEip1559 \<times> bytes) option"
  tx_encoded_for_signing :: "TxEip1559 \<Rightarrow> bytes"
  tx_signature_hash :: "TxEip1559 \<Rightarrow> bytes"
  signed_hash :: "TxEip1559 \<Rightarrow> bytes \<Rightarrow> bytes"
  signed_encoded_2718 :: "TxEip1559 \<Rightarrow> bytes \<Rightarrow> bytes"
  parse_address :: "string \<Rightarrow> bytes option"
  verifying_key_from_bytes :: "bytes \<Rightarrow> bytes option"
  key_from_bytes :: "bytes \<Rightarrow> bytes option"
  public_point :: "bytes \<Rightarrow> bytes"
  sign_prehash :: "bytes \<Rightarrow> bytes \<Rightarrow> (bytes \<times> byte) option"

datatype AuthorizationError = Malformed string | Denied string

datatype Status = InvalidArgument string | PermissionDenied string | Unavailable string | Internal string

section \<open>Reading JSON\<close>

definition json_get :: "json \<Rightarrow> string \<Rightarrow> json option" where
  "json_get v k = (case v of JObj fs \<Rightarrow> map_of (rev fs) (StrKey k) | _ \<Rightarrow> None)"

fun rs_field :: "json \<Rightarrow> string list \<Rightarrow> AuthorizationError + json" where
  "rs_field current [] = Inr current"
| "rs_field current (segment # path) =
     rbind (of_option (Malformed ''required field missing'') (json_get current segment)) (\<lambda>v. rs_field v path)"

definition rs_string :: "json \<Rightarrow> string list \<Rightarrow> AuthorizationError + string" where
  "rs_string v path = rbind (rs_field v path) (\<lambda>w.
     case w of JStr s \<Rightarrow> Inr s | _ \<Rightarrow> Inl (Malformed ''field must be a string''))"

definition as_u64 :: "json \<Rightarrow> 64 word option" where
  "as_u64 v = (case v of JInt i \<Rightarrow> if 0 \<le> i \<and> i < 2 ^ 64 then Some (word_of_int i) else None | _ \<Rightarrow> None)"

definition rs_number :: "json \<Rightarrow> string list \<Rightarrow> AuthorizationError + 64 word" where
  "rs_number v path = rbind (rs_field v path) (\<lambda>w. of_option (Malformed ''field must be an unsigned integer'') (as_u64 w))"

definition parse_expiry :: "crates \<Rightarrow> json \<Rightarrow> string list \<Rightarrow> AuthorizationError + time" where
  "parse_expiry L v path = rbind (rs_string v path) (\<lambda>raw.
     of_option (Malformed ''expiry must be RFC 3339'') (rfc3339_parse L raw))"

definition strip_0x :: "string \<Rightarrow> string" where
  "strip_0x s = (if startswith s ''0x'' then drop 2 s else s)"

definition decode_hex :: "crates \<Rightarrow> string \<Rightarrow> AuthorizationError + bytes" where
  "decode_hex L s = of_option (Malformed ''invalid hexadecimal value'') (hex_decode L (strip_0x s))"

definition hash_json :: "primitives \<Rightarrow> crates \<Rightarrow> json \<Rightarrow> AuthorizationError + string" where
  "hash_json P L v = rbind (of_option (Malformed ''JSON cannot be canonicalized'') (jcs_to_vec L v)) (\<lambda>b.
     Inr (''0x'' @ bytes_hex (sha256 P b)))"

fun remove_null_object_fields :: "json \<Rightarrow> json" where
  "remove_null_object_fields (JObj fs) =
     JObj (map (\<lambda>f. (fst f, remove_null_object_fields (snd f))) (filter (\<lambda>f. snd f \<noteq> JNull) fs))"
| "remove_null_object_fields (JList vs) = JList (map remove_null_object_fields vs)"
| "remove_null_object_fields v = v"

definition hash_proposal_json :: "primitives \<Rightarrow> crates \<Rightarrow> json \<Rightarrow> AuthorizationError + string" where
  "hash_proposal_json P L v = hash_json P L (remove_null_object_fields v)"

definition ethereum_address :: "primitives \<Rightarrow> crates \<Rightarrow> bytes \<Rightarrow> string" where
  "ethereum_address P L public_key = ''0x'' @ hex_encode L (drop 12 (keccak P (drop 1 public_key)))"

definition policy_address :: "primitives \<Rightarrow> crates \<Rightarrow> bytes \<Rightarrow> string" where
  "policy_address P L public_key = ''0x'' @ hex_encode L (drop 12 (sha256 P public_key))"

section \<open>The request\<close>

text \<open>What \<open>serde\<close> accepts as a struct that denies unknown fields: an object with known and
  distinct keys, and a value of the declared type for each field.\<close>

datatype field_type = TString | TU64 | TOptString | TStrings | TAny

definition field_ok :: "field_type \<Rightarrow> json option \<Rightarrow> bool" where
  "field_ok ty v =
     (case ty of
        TString \<Rightarrow> (case v of Some (JStr _) \<Rightarrow> True | _ \<Rightarrow> False)
      | TU64 \<Rightarrow> (case v of Some w \<Rightarrow> as_u64 w \<noteq> None | None \<Rightarrow> False)
      | TOptString \<Rightarrow> (case v of None \<Rightarrow> True | Some JNull \<Rightarrow> True | Some (JStr _) \<Rightarrow> True | _ \<Rightarrow> False)
      | TStrings \<Rightarrow> (case v of Some (JList vs) \<Rightarrow> list_all (\<lambda>w. case w of JStr _ \<Rightarrow> True | _ \<Rightarrow> False) vs | _ \<Rightarrow> False)
      | TAny \<Rightarrow> v \<noteq> None)"

definition struct_ok :: "(string \<times> field_type) list \<Rightarrow> json \<Rightarrow> bool" where
  "struct_ok shape v =
     (case v of
        JObj fs \<Rightarrow> distinct (map fst fs) \<and> list_all (\<lambda>f. fst f \<in> StrKey ` set (map fst shape)) fs \<and>
          list_all (\<lambda>(k, ty). field_ok ty (json_get v k)) shape
      | _ \<Rightarrow> False)"

definition DecisionEnvelope :: "json \<Rightarrow> bool" where
  "DecisionEnvelope = struct_ok
     [(''schema_version'', TString), (''decision_id'', TString), (''proposal_hash'', TString), (''policy_version_id'', TString),
      (''policy_hash'', TString), (''state_version'', TU64), (''reservation_id'', TOptString), (''verdict'', TString),
      (''reason_codes'', TStrings), (''expires_at'', TString), (''decision_nonce'', TString), (''policy_signer'', TString),
      (''signature'', TString)]"

definition TransactionEnvelope :: "json \<Rightarrow> bool" where
  "TransactionEnvelope = struct_ok
     [(''operation'', TString), (''wallet'', TString), (''chain_id'', TU64), (''wallet_nonce'', TU64), (''asset'', TString),
      (''amount'', TU64), (''recipient'', TOptString), (''contract'', TOptString), (''selector'', TOptString),
      (''calldata'', TString), (''value'', TU64), (''gas_limit'', TU64), (''max_fee_per_gas'', TU64),
      (''max_priority_fee_per_gas'', TU64)]"

definition IntentEnvelope :: "json \<Rightarrow> bool" where
  "IntentEnvelope v \<longleftrightarrow>
     (json_get v ''kind'' = Some (JStr ''transfer'') \<and> struct_ok [(''kind'', TString), (''recipient'', TString)] v) \<or>
     (json_get v ''kind'' = Some (JStr ''swap'') \<and>
      struct_ok [(''kind'', TString), (''contract'', TString), (''selector'', TString), (''calldata'', TString),
        (''minimum_output'', TU64), (''output_asset'', TString)] v)"

definition ProposalEnvelope :: "json \<Rightarrow> bool" where
  "ProposalEnvelope v \<longleftrightarrow>
     struct_ok [(''schema_version'', TString), (''proposal_id'', TOptString), (''principal_id'', TString), (''wallet'', TString),
       (''chain_id'', TU64), (''asset'', TString), (''amount'', TU64), (''intent'', TAny), (''deadline'', TString),
       (''idempotency_key'', TString), (''mandate_id'', TOptString), (''quote_reference'', TOptString)] v \<and>
     (case json_get v ''intent'' of Some i \<Rightarrow> IntentEnvelope i | None \<Rightarrow> False)"

definition AuthorizationEnvelope :: "json \<Rightarrow> bool" where
  "AuthorizationEnvelope v \<longleftrightarrow>
     struct_ok [(''schema_version'', TString), (''proposal'', TAny), (''decision'', TAny), (''reservation_id'', TString),
       (''wallet_nonce'', TU64), (''chain_id'', TU64), (''transaction'', TAny), (''eip712_payload'', TString),
       (''eip1559_unsigned_payload'', TString), (''eip712_hash'', TString), (''eip1559_hash'', TString), (''expires_at'', TString)] v \<and>
     (case json_get v ''proposal'' of Some p \<Rightarrow> ProposalEnvelope p | None \<Rightarrow> False) \<and>
     (case json_get v ''decision'' of Some d \<Rightarrow> DecisionEnvelope d | None \<Rightarrow> False) \<and>
     (case json_get v ''transaction'' of Some t \<Rightarrow> TransactionEnvelope t | None \<Rightarrow> False)"

definition parse_authorization :: "crates \<Rightarrow> bytes \<Rightarrow> AuthorizationError + json" where
  "parse_authorization L b =
     (case json_from_slice L b of
        None \<Rightarrow> Inl (Malformed ''authorization schema is invalid'')
      | Some root \<Rightarrow>
          if \<not> AuthorizationEnvelope root then Inl (Malformed ''authorization schema is invalid'')
          else if rs_string root [''schema_version''] \<noteq> Inr ''aegisledger.sign_request.v1'' \<or>
            rs_string root [''proposal'', ''schema_version''] \<noteq> Inr ''aegisledger.proposal.v1'' \<or>
            rs_string root [''decision'', ''schema_version''] \<noteq> Inr ''aegisledger.decision.v1''
          then Inl (Malformed ''authorization schema version is unsupported'')
          else Inr root)"

definition decode_eip1559 :: "crates \<Rightarrow> string \<Rightarrow> AuthorizationError + TxEip1559" where
  "decode_eip1559 L s =
     rbind (decode_hex L s) (\<lambda>encoded.
     if encoded = [] \<or> hd encoded \<noteq> 0x02 then Inl (Denied ''unsigned transaction is not EIP-1559'')
     else rbind (of_option (Malformed ''invalid EIP-1559 RLP payload'') (tx_decode L (tl encoded))) (\<lambda>(transaction, payload).
       if payload \<noteq> [] \<or> tx_encoded_for_signing L transaction \<noteq> encoded
       then Inl (Denied ''unsigned transaction is not canonical EIP-1559'')
       else Inr transaction))"

section \<open>The service\<close>

record SignerService =
  ss_signing_key :: bytes
  ss_policy_key :: bytes
  ss_policy_identity :: string
  ss_signer_identity :: string
  ss_public_key_hex :: string
  ss_build_measurement :: string
  ss_allowed_chains :: "64 word list"
  ss_allowed_policy_hashes :: "string list"
  ss_managed_wallets :: "string list"
  ss_replay_path :: bool

definition remove_signature :: "json \<Rightarrow> AuthorizationError + json" where
  "remove_signature d =
     (case d of JObj fs \<Rightarrow> Inr (JObj (filter (\<lambda>f. fst f \<noteq> StrKey ''signature'') fs))
      | _ \<Rightarrow> Inl (Malformed ''decision must be an object''))"

definition verify_decision :: "primitives \<Rightarrow> crates \<Rightarrow> SignerService \<Rightarrow> time \<Rightarrow> json \<Rightarrow> AuthorizationError + unit" where
  "verify_decision P L S now root =
     rbind (rs_field root [''decision'']) (\<lambda>decision.
     rbind (rs_string decision [''signature'']) (\<lambda>s.
     rbind (decode_hex L s) (\<lambda>signature.
     if length signature \<noteq> 64 then Inl (Malformed ''invalid decision signature length'') else
     rbind (remove_signature decision) (\<lambda>unsigned.
     rbind (of_option (Malformed ''decision cannot be canonicalized'') (jcs_to_vec L unsigned)) (\<lambda>canonical.
     if \<not> ed25519_verify P (ss_policy_key S) signature canonical then Inl (Denied ''invalid policy-service signature'') else
     rbind (rs_string decision [''policy_signer'']) (\<lambda>signer.
     if lower signer \<noteq> ss_policy_identity S then Inl (Denied ''policy signer identity mismatch'') else
     rbind (rs_string decision [''verdict'']) (\<lambda>verdict.
     if verdict \<noteq> ''ALLOW'' then Inl (Denied ''decision verdict is not ALLOW'') else
     rbind (parse_expiry L decision [''expires_at'']) (\<lambda>expiry.
     if expiry \<le> now then Inl (Denied ''decision expired'') else
     rbind (rs_string decision [''policy_hash'']) (\<lambda>policy_hash.
     if ss_allowed_policy_hashes S \<noteq> [] \<and> lower policy_hash \<notin> set (ss_allowed_policy_hashes S)
     then Inl (Denied ''policy hash is not approved'') else Inr ())))))))))"

text \<open>Comparisons whose operands may be missing, evaluated from left to right.\<close>

definition rs_differ :: "AuthorizationError + 'a \<Rightarrow> AuthorizationError + 'a \<Rightarrow> AuthorizationError + bool" where
  "rs_differ a b = rbind a (\<lambda>x. rbind b (\<lambda>y. Inr (x \<noteq> y)))"

definition rs_or :: "AuthorizationError + bool \<Rightarrow> AuthorizationError + bool \<Rightarrow> AuthorizationError + bool" where
  "rs_or a b = rbind a (\<lambda>x. if x then Inr True else b)"

definition deny_if :: "AuthorizationError + bool \<Rightarrow> string \<Rightarrow> AuthorizationError + unit" where
  "deny_if c message = rbind c (\<lambda>b. if b then Inl (Denied message) else Inr ())"

definition rs_lower :: "AuthorizationError + string \<Rightarrow> AuthorizationError + string" where
  "rs_lower a = rbind a (\<lambda>s. Inr (lower s))"

definition binding_identity :: "primitives \<Rightarrow> crates \<Rightarrow> SignerService \<Rightarrow> json \<Rightarrow> json \<Rightarrow> json \<Rightarrow> json \<Rightarrow> AuthorizationError + 64 word" where
  "binding_identity P L S root proposal decision transaction =
     rbind (deny_if (rs_differ (hash_proposal_json P L proposal) (rs_lower (rs_string decision [''proposal_hash'']))) ''proposal hash mismatch'') (\<lambda>_.
     rbind (deny_if (rs_differ (rs_string root [''reservation_id'']) (rs_string decision [''reservation_id''])) ''reservation mismatch'') (\<lambda>_.
     rbind (rs_number root [''chain_id'']) (\<lambda>chain_id.
     rbind (deny_if (rs_or (Inr (chain_id \<notin> set (ss_allowed_chains S)))
       (rs_or (rs_differ (rs_number proposal [''chain_id'']) (Inr chain_id))
         (rs_differ (rs_number transaction [''chain_id'']) (Inr chain_id)))) ''chain binding mismatch'') (\<lambda>_.
     rbind (rs_lower (rs_string proposal [''wallet''])) (\<lambda>wallet.
     rbind (deny_if (rs_differ (rs_lower (rs_string transaction [''wallet''])) (Inr wallet)) ''wallet binding mismatch'') (\<lambda>_.
     rbind (deny_if (Inr (wallet \<noteq> ss_signer_identity S)) ''wallet does not match signer identity'') (\<lambda>_.
     rbind (deny_if (Inr (ss_managed_wallets S \<noteq> [] \<and> wallet \<notin> set (ss_managed_wallets S))) ''wallet is not managed by this signer'') (\<lambda>_.
     rbind (deny_if (rs_differ (rs_number root [''wallet_nonce'']) (rs_number transaction [''wallet_nonce''])) ''wallet nonce binding mismatch'') (\<lambda>_.
     rbind (deny_if (rs_or (rs_differ (rs_string proposal [''asset'']) (rs_string transaction [''asset'']))
       (rs_differ (rs_number proposal [''amount'']) (rs_number transaction [''amount'']))) ''asset or amount binding mismatch'') (\<lambda>_.
     Inr chain_id))))))))))"

definition binding_intent :: "json \<Rightarrow> json \<Rightarrow> 64 word \<Rightarrow> AuthorizationError + string" where
  "binding_intent proposal transaction chain_id =
     rbind (rs_string proposal [''intent'', ''kind'']) (\<lambda>kind.
     rbind (deny_if (rs_differ (rs_string transaction [''operation'']) (Inr kind)) ''operation binding mismatch'') (\<lambda>_.
     rbind (if kind = ''transfer''
       then
         rbind (deny_if (rs_differ (rs_lower (rs_string proposal [''intent'', ''recipient''])) (rs_lower (rs_string transaction [''recipient''])))
           ''recipient binding mismatch'') (\<lambda>_.
         deny_if (rs_or (rs_differ (rs_string transaction [''asset'']) (Inr (''NATIVE:'' @ show_nat (unat chain_id))))
           (rs_or (rs_differ (rs_number transaction [''value'']) (rs_number transaction [''amount'']))
             (rs_differ (rs_string transaction [''calldata'']) (Inr ''0x'')))) ''native transfer economic binding mismatch'')
       else
         deny_if (rs_or (rs_differ (rs_lower (rs_string proposal [''intent'', ''contract''])) (rs_lower (rs_string transaction [''contract''])))
           (rs_or (rs_differ (rs_lower (rs_string proposal [''intent'', ''selector''])) (rs_lower (rs_string transaction [''selector''])))
             (rs_differ (rs_lower (rs_string proposal [''intent'', ''calldata''])) (rs_lower (rs_string transaction [''calldata''])))))
           ''contract call binding mismatch'') (\<lambda>_. Inr kind)))"

definition binding_expiry :: "crates \<Rightarrow> time \<Rightarrow> json \<Rightarrow> json \<Rightarrow> json \<Rightarrow> AuthorizationError + unit" where
  "binding_expiry L now root decision proposal =
     rbind (parse_expiry L root [''expires_at'']) (\<lambda>request_expiry.
     deny_if (rs_or (Inr (request_expiry \<le> now))
       (rs_or (rbind (parse_expiry L decision [''expires_at'']) (\<lambda>e. Inr (request_expiry > e)))
         (rbind (parse_expiry L proposal [''deadline'']) (\<lambda>e. Inr (request_expiry > e))))) ''request expiry is outside authorization'')"

definition binding_raw :: "crates \<Rightarrow> json \<Rightarrow> json \<Rightarrow> 64 word \<Rightarrow> string \<Rightarrow> AuthorizationError + TxEip1559" where
  "binding_raw L root transaction chain_id kind =
     rbind (rs_string root [''eip1559_unsigned_payload'']) (\<lambda>payload.
     rbind (decode_eip1559 L payload) (\<lambda>raw.
     rbind (deny_if (rs_or (Inr (tx_chain_id raw \<noteq> chain_id))
       (rs_differ (Inr (tx_nonce raw)) (rs_number transaction [''wallet_nonce'']))) ''raw transaction chain or nonce binding mismatch'') (\<lambda>_.
     rbind (deny_if (rs_or (rs_differ (Inr (tx_gas_limit raw)) (rs_number transaction [''gas_limit'']))
       (rs_or (rs_differ (Inr (tx_max_fee_per_gas raw)) (rbind (rs_number transaction [''max_fee_per_gas'']) (\<lambda>n. Inr (ucast n))))
         (rs_differ (Inr (tx_max_priority_fee_per_gas raw)) (rbind (rs_number transaction [''max_priority_fee_per_gas'']) (\<lambda>n. Inr (ucast n))))))
       ''raw transaction gas or fee binding mismatch'') (\<lambda>_.
     rbind (rs_string transaction [if kind = ''transfer'' then ''recipient'' else ''contract'']) (\<lambda>text.
     rbind (of_option (Malformed ''transaction target is not an address'') (parse_address L text)) (\<lambda>target.
     rbind (deny_if (Inr (tx_to raw \<noteq> TxCall target)) ''raw transaction recipient or contract binding mismatch'') (\<lambda>_.
     rbind (deny_if (rs_differ (Inr (tx_value raw)) (rbind (rs_number transaction [''value'']) (\<lambda>n. Inr (ucast n))))
       ''raw transaction value binding mismatch'') (\<lambda>_.
     rbind (rs_string transaction [''calldata'']) (\<lambda>text.
     rbind (decode_hex L text) (\<lambda>calldata.
     rbind (deny_if (Inr (tx_input raw \<noteq> calldata)) ''raw transaction calldata binding mismatch'') (\<lambda>_.
     rbind (deny_if (Inr (tx_access_list raw \<noteq> [])) ''raw transaction access list is not authorized'') (\<lambda>_.
     Inr raw))))))))))))"

definition binding_digests :: "primitives \<Rightarrow> crates \<Rightarrow> json \<Rightarrow> json \<Rightarrow> TxEip1559 \<Rightarrow> AuthorizationError + unit" where
  "binding_digests P L root decision raw =
     rbind (deny_if (rs_differ (Inr (''0x'' @ bytes_hex (tx_signature_hash L raw))) (rs_lower (rs_string root [''eip1559_hash''])))
       ''EIP-1559 digest mismatch'') (\<lambda>_.
     rbind (rs_string root [''eip712_payload'']) (\<lambda>text.
     rbind (decode_hex L text) (\<lambda>eip712.
     rbind (rs_string decision [''proposal_hash'']) (\<lambda>text.
     rbind (decode_hex L text) (\<lambda>proposal_hash.
     rbind (deny_if (Inr (length eip712 \<noteq> 66 \<or> take 2 eip712 \<noteq> [0x19, 0x01] \<or> drop 34 eip712 \<noteq> proposal_hash))
       ''typed-data payload is not bound to the authorized proposal'') (\<lambda>_.
     deny_if (rs_differ (Inr (''0x'' @ bytes_hex (keccak P eip712))) (rs_lower (rs_string root [''eip712_hash''])))
       ''EIP-712 digest mismatch''))))))"

definition verify_binding :: "primitives \<Rightarrow> crates \<Rightarrow> SignerService \<Rightarrow> time \<Rightarrow> json \<Rightarrow> AuthorizationError + unit" where
  "verify_binding P L S now root =
     rbind (rs_field root [''proposal'']) (\<lambda>proposal.
     rbind (rs_field root [''decision'']) (\<lambda>decision.
     rbind (rs_field root [''transaction'']) (\<lambda>transaction.
     rbind (binding_identity P L S root proposal decision transaction) (\<lambda>chain_id.
     rbind (binding_intent proposal transaction chain_id) (\<lambda>kind.
     rbind (binding_expiry L now root decision proposal) (\<lambda>_.
     rbind (binding_raw L root transaction chain_id kind) (\<lambda>raw.
     binding_digests P L root decision raw)))))))"

section \<open>The replay state\<close>

record ReplayState =
  used_decisions :: "string list"
  next_wallet_nonce :: "(string \<times> 64 word, 64 word) dict"

definition ReplayState_default :: ReplayState where
  "ReplayState_default = \<lparr>used_decisions = [], next_wallet_nonce = []\<rparr>"

record PersistedWalletNonce =
  pn_wallet :: string
  pn_chain_id :: "64 word"
  pn_next_nonce :: "64 word"

record PersistedReplayState =
  ps_schema_version :: string
  ps_used_decisions :: "string list"
  ps_wallet_nonces :: "PersistedWalletNonce list"

text \<open>The file: whether it is there, a regular file, its length, and what \<open>serde_json\<close> makes of it.\<close>

datatype replay_file = NoFile | ReplayFile bool nat "PersistedReplayState option"

fun load_wallet_nonces :: "PersistedWalletNonce list \<Rightarrow> (string \<times> 64 word, 64 word) dict \<Rightarrow> string + (string \<times> 64 word, 64 word) dict" where
  "load_wallet_nonces [] d = Inr d"
| "load_wallet_nonces (entry # entries) d =
     (let key = (lower (pn_wallet entry), pn_chain_id entry) in
      if dhas d key then Inl ''duplicate wallet nonce entry in replay state''
      else load_wallet_nonces entries (dset key (pn_next_nonce entry) d))"

definition load_replay_state :: "replay_file \<Rightarrow> string + ReplayState" where
  "load_replay_state f =
     (case f of
        NoFile \<Rightarrow> Inr ReplayState_default
      | ReplayFile regular len content \<Rightarrow>
          if \<not> regular \<or> len > 16 * 1024 * 1024 then Inl ''replay state must be a regular file no larger than 16 MiB''
          else case content of
            None \<Rightarrow> Inl ''serde_json''
          | Some persisted \<Rightarrow>
              if ps_schema_version persisted \<noteq> ''aegisledger.signer_replay.v1'' then Inl ''unsupported replay state schema''
              else rbind (load_wallet_nonces (ps_wallet_nonces persisted) []) (\<lambda>nonces.
                Inr \<lparr>used_decisions = remdups (ps_used_decisions persisted), next_wallet_nonce = nonces\<rparr>))"

text \<open>The entries are sorted by wallet and then by chain.\<close>

definition persisted_state :: "ReplayState \<Rightarrow> PersistedReplayState" where
  "persisted_state s =
     \<lparr>ps_schema_version = ''aegisledger.signer_replay.v1'', ps_used_decisions = sort (used_decisions s),
      ps_wallet_nonces = sort_key pn_wallet (sort_key pn_chain_id
        (map (\<lambda>((wallet, chain_id), n). \<lparr>pn_wallet = wallet, pn_chain_id = chain_id, pn_next_nonce = n\<rparr>) (next_wallet_nonce s)))\<rparr>"

text \<open>How the write ends: done, failed with the old file in place, or failed after the rename. The
  length of the text is a parameter.\<close>

datatype write_outcome = Written | FailedBefore | FailedAfter

definition persist_replay_state ::
  "(PersistedReplayState \<Rightarrow> nat) \<Rightarrow> write_outcome \<Rightarrow> ReplayState \<Rightarrow> replay_file \<Rightarrow> bool \<times> replay_file" where
  "persist_replay_state size' outcome state f =
     (let f' = ReplayFile True (size' (persisted_state state)) (Some (persisted_state state)) in
      case outcome of Written \<Rightarrow> (True, f') | FailedBefore \<Rightarrow> (False, f) | FailedAfter \<Rightarrow> (False, f'))"

section \<open>Signing\<close>

record signer_state =
  st_replay :: ReplayState
  st_file :: replay_file

definition consume_replay :: "string \<Rightarrow> string \<Rightarrow> 64 word \<Rightarrow> 64 word \<Rightarrow> ReplayState \<Rightarrow> Status + ReplayState" where
  "consume_replay decision_nonce wallet chain_id wallet_nonce replay =
     rbind (raise_first
       [(decision_nonce \<in> set (used_decisions replay), PermissionDenied ''decision replay detected''),
        (wallet_nonce \<noteq> dget_or (next_wallet_nonce replay) (wallet, chain_id) 0, PermissionDenied ''wallet nonce is not monotonic'')]) (\<lambda>_.
     Inr (replay\<lparr>used_decisions := List.insert decision_nonce (used_decisions replay),
       next_wallet_nonce := dset (wallet, chain_id) (wallet_nonce + 1) (next_wallet_nonce replay)\<rparr>))"

definition arg :: "string \<Rightarrow> AuthorizationError + 'a \<Rightarrow> Status + 'a" where
  "arg message a = (case a of Inl _ \<Rightarrow> Inl (InvalidArgument message) | Inr x \<Rightarrow> Inr x)"

definition permitted :: "AuthorizationError + 'a \<Rightarrow> Status + 'a" where
  "permitted a = (case a of Inl _ \<Rightarrow> Inl (PermissionDenied ''authorization denied'') | Inr x \<Rightarrow> Inr x)"

definition evidence_fields ::
  "crates \<Rightarrow> SignerService \<Rightarrow> time \<Rightarrow> json \<Rightarrow> string \<Rightarrow> string \<Rightarrow> string \<Rightarrow> 64 word \<Rightarrow> 64 word \<Rightarrow> Status + (string \<times> json) list" where
  "evidence_fields L S now root transaction_hash digest_hex decision_nonce chain_id wallet_nonce =
     rbind (arg ''proposal hash missing'' (rs_string root [''decision'', ''proposal_hash''])) (\<lambda>proposal_hash.
     rbind (arg ''policy version missing'' (rs_string root [''decision'', ''policy_version_id''])) (\<lambda>policy_version_id.
     rbind (arg ''policy hash missing'' (rs_string root [''decision'', ''policy_hash''])) (\<lambda>policy_hash.
     rbind (arg ''state version missing'' (rs_number root [''decision'', ''state_version''])) (\<lambda>state_version.
     rbind (arg ''reservation missing'' (rs_string root [''reservation_id''])) (\<lambda>reservation_id.
     rbind (arg ''wallet missing'' (rs_string root [''proposal'', ''wallet''])) (\<lambda>wallet.
     rbind (arg ''principal missing'' (rs_string root [''proposal'', ''principal_id''])) (\<lambda>principal_id.
     rbind (arg ''decision id missing'' (rs_string root [''decision'', ''decision_id''])) (\<lambda>decision_id.
     rbind (arg ''expiry missing'' (parse_expiry L root [''expires_at''])) (\<lambda>expires_at.
     Inr [(''schema_version'', JStr ''aegisledger.enclave_evidence.v1''), (''mode'', JStr ''local-process-or-nitro''),
       (''build_measurement'', JStr (ss_build_measurement S)), (''signer_identity'', JStr (ss_signer_identity S)),
       (''secp256k1_public_key'', JStr (ss_public_key_hex S)), (''transaction_hash'', JStr transaction_hash),
       (''signing_hash'', JStr digest_hex), (''proposal_hash'', JStr proposal_hash), (''policy_version_id'', JStr policy_version_id),
       (''policy_hash'', JStr policy_hash), (''state_version'', JInt (uint state_version)), (''reservation_id'', JStr reservation_id),
       (''wallet'', JStr wallet), (''principal_id'', JStr principal_id), (''chain_id'', JInt (uint chain_id)),
       (''wallet_nonce'', JInt (uint wallet_nonce)), (''decision_id'', JStr decision_id), (''decision_nonce'', JStr decision_nonce),
       (''expires_at'', JStr (rfc3339_print L expires_at)), (''issued_at'', JStr (rfc3339_print L now))])))))))))"

definition attest :: "primitives \<Rightarrow> crates \<Rightarrow> SignerService \<Rightarrow> (string \<times> json) list \<Rightarrow> Status + json" where
  "attest P L S evidence_unsigned =
     rbind (of_option (Internal ''evidence canonicalization failure'') (jcs_to_vec L (obj evidence_unsigned))) (\<lambda>canonical.
     rbind (of_option (Internal ''evidence signing failure'') (sign_prehash L (ss_signing_key S) (sha256 P canonical))) (\<lambda>(signature, recovery_id).
     Inr (obj (evidence_unsigned @ [(''evidence_hash'', JStr (''0x'' @ hex_encode L (sha256 P canonical))),
       (''evidence_signature'', JStr (''0x'' @ hex_encode L (signature @ [recovery_id])))]))))"

record SignAuthorizedTransactionResponse =
  re_eip1559_hash :: string
  re_wallet_nonce :: "64 word"
  re_chain_id :: "64 word"
  re_decision_id :: string
  re_signer_identity :: string
  re_signature :: string
  re_enclave_evidence :: json
  re_signed_transaction :: bytes
  re_transaction_hash :: string
  re_signing_hash :: string

text \<open>The part after the replay state is committed: signature, signed transaction, evidence.\<close>

definition sign_committed ::
  "primitives \<Rightarrow> crates \<Rightarrow> SignerService \<Rightarrow> time \<Rightarrow> json \<Rightarrow> string \<Rightarrow> 64 word \<Rightarrow> 64 word \<Rightarrow> Status + SignAuthorizedTransactionResponse" where
  "sign_committed P L S now root decision_nonce chain_id wallet_nonce =
     rbind (arg ''transaction digest missing'' (rs_string root [''eip1559_hash''])) (\<lambda>digest_hex.
     rbind (arg ''transaction digest invalid'' (decode_hex L digest_hex)) (\<lambda>digest.
     rbind (of_option (Internal ''signing failure'') (sign_prehash L (ss_signing_key S) digest)) (\<lambda>(signature, recovery_id).
     rbind (arg ''unsigned transaction missing'' (rs_string root [''eip1559_unsigned_payload''])) (\<lambda>payload.
     rbind (arg ''unsigned transaction invalid'' (decode_eip1559 L payload)) (\<lambda>raw.
     let signature_bytes = signature @ [recovery_id];
         transaction_hash = ''0x'' @ bytes_hex (signed_hash L raw signature_bytes) in
     rbind (evidence_fields L S now root transaction_hash digest_hex decision_nonce chain_id wallet_nonce) (\<lambda>fs.
     rbind (attest P L S fs) (\<lambda>evidence.
     rbind (arg ''decision id missing'' (rs_string root [''decision'', ''decision_id''])) (\<lambda>decision_id.
     Inr \<lparr>re_eip1559_hash = digest_hex, re_wallet_nonce = wallet_nonce, re_chain_id = chain_id, re_decision_id = decision_id,
       re_signer_identity = ss_signer_identity S, re_signature = ''0x'' @ hex_encode L signature_bytes,
       re_enclave_evidence = evidence, re_signed_transaction = signed_encoded_2718 L raw signature_bytes,
       re_transaction_hash = transaction_hash, re_signing_hash = digest_hex\<rparr>))))))))"

definition authorize_request ::
  "primitives \<Rightarrow> crates \<Rightarrow> SignerService \<Rightarrow> time \<Rightarrow> time \<Rightarrow> bytes \<Rightarrow> Status + (json \<times> string \<times> string \<times> 64 word \<times> 64 word)" where
  "authorize_request P L S t1 t2 request =
     rbind (arg ''authorization_json schema is invalid'' (parse_authorization L request)) (\<lambda>root.
     rbind (permitted (verify_decision P L S t1 root)) (\<lambda>_.
     rbind (permitted (verify_binding P L S t2 root)) (\<lambda>_.
     rbind (arg ''decision nonce missing'' (rs_string root [''decision'', ''decision_nonce''])) (\<lambda>decision_nonce.
     rbind (arg ''wallet missing'' (rs_lower (rs_string root [''proposal'', ''wallet'']))) (\<lambda>wallet.
     rbind (arg ''chain id missing'' (rs_number root [''chain_id''])) (\<lambda>chain_id.
     rbind (arg ''wallet nonce missing'' (rs_number root [''wallet_nonce''])) (\<lambda>wallet_nonce.
     Inr (root, decision_nonce, wallet, chain_id, wallet_nonce))))))))"

definition sign_authorized_transaction ::
  "primitives \<Rightarrow> crates \<Rightarrow> SignerService \<Rightarrow> (PersistedReplayState \<Rightarrow> nat) \<Rightarrow> time \<Rightarrow> time \<Rightarrow> time \<Rightarrow> write_outcome \<Rightarrow> bytes \<Rightarrow>
   signer_state \<Rightarrow> (Status + SignAuthorizedTransactionResponse) \<times> signer_state" where
  "sign_authorized_transaction P L S size' t1 t2 t3 outcome request st =
     (case authorize_request P L S t1 t2 request of
        Inl e \<Rightarrow> (Inl e, st)
      | Inr (root, decision_nonce, wallet, chain_id, wallet_nonce) \<Rightarrow>
      case consume_replay decision_nonce wallet chain_id wallet_nonce (st_replay st) of
        Inl e \<Rightarrow> (Inl e, st)
      | Inr updated_replay \<Rightarrow>
          let (saved, f) = (if ss_replay_path S then persist_replay_state size' outcome updated_replay (st_file st) else (True, st_file st)) in
          if \<not> saved then (Inl (Unavailable ''replay state persistence failed''), st\<lparr>st_file := f\<rparr>)
          else (sign_committed P L S t3 root decision_nonce chain_id wallet_nonce, \<lparr>st_replay = updated_replay, st_file = f\<rparr>))"

record PublicIdentityResponse =
  pi_signer_identity :: string
  pi_secp256k1_public_key :: string
  pi_build_measurement :: string

definition public_identity :: "SignerService \<Rightarrow> PublicIdentityResponse" where
  "public_identity S = \<lparr>pi_signer_identity = ss_signer_identity S, pi_secp256k1_public_key = ss_public_key_hex S,
     pi_build_measurement = ss_build_measurement S\<rparr>"

section \<open>Start-up\<close>

definition trim :: "string \<Rightarrow> string" where
  "trim s = rev (dropWhile is_space (rev (dropWhile is_space s)))"

definition csv_set :: "string option \<Rightarrow> string list" where
  "csv_set v = remdups (map lower (filter (\<lambda>s. s \<noteq> []) (map trim (split_on (CHR '','') (case v of None \<Rightarrow> [] | Some s \<Rightarrow> s)))))"

definition parse_u64 :: "string \<Rightarrow> 64 word option" where
  "parse_u64 s =
     (let digits = (if s \<noteq> [] \<and> hd s = CHR ''+'' then tl s else s) in
      if digits \<noteq> [] \<and> list_all is_digit digits \<and> read_nat digits < 2 ^ 64 then Some (word_of_nat (read_nat digits)) else None)"

fun parse_chains :: "string list \<Rightarrow> string + 64 word list" where
  "parse_chains [] = Inr []"
| "parse_chains (s # ss) = rbind (of_option ''invalid chain id'' (parse_u64 s)) (\<lambda>c. rbind (parse_chains ss) (\<lambda>cs. Inr (List.insert c cs)))"

record key_file =
  kf_is_file :: bool
  kf_mode :: "32 word"
  kf_len :: nat
  kf_text :: string

definition load_signing_key_from_file :: "crates \<Rightarrow> key_file \<Rightarrow> string + bytes" where
  "load_signing_key_from_file L f =
     (if \<not> kf_is_file f then Inl ''signing key path must be a regular file''
      else if and (kf_mode f) 0x12 \<noteq> 0 then Inl ''signing key file must not be writable by group or other users''
      else if kf_len f > 1024 then Inl ''signing key file is unexpectedly large''
      else case decode_hex L (trim (kf_text f)) of
        Inl _ \<Rightarrow> Inl ''malformed request: invalid hexadecimal value''
      | Inr decoded \<Rightarrow>
          if length decoded \<noteq> 32 then Inl ''signing key file must contain exactly 32 bytes''
          else of_option ''signature error'' (key_from_bytes L decoded))"

definition start_signer ::
  "primitives \<Rightarrow> crates \<Rightarrow> (string, string) dict \<Rightarrow> key_file \<Rightarrow> replay_file \<Rightarrow> string + (SignerService \<times> signer_state)" where
  "start_signer P L environ key f =
     rbind (of_option ''AEGIS_POLICY_PUBLIC_KEY_HEX is required'' (dget environ ''AEGIS_POLICY_PUBLIC_KEY_HEX'')) (\<lambda>text.
     rbind (case decode_hex L text of Inl _ \<Rightarrow> Inl ''malformed request: invalid hexadecimal value'' | Inr b \<Rightarrow> Inr b) (\<lambda>policy_key.
     if length policy_key \<noteq> 32 then Inl ''AEGIS_POLICY_PUBLIC_KEY_HEX must contain 32 bytes'' else
     rbind (of_option ''signature error'' (verifying_key_from_bytes L policy_key)) (\<lambda>policy_key.
     rbind (of_option ''AEGIS_SIGNER_PRIVATE_KEY_FILE is required'' (dget environ ''AEGIS_SIGNER_PRIVATE_KEY_FILE'')) (\<lambda>_.
     rbind (load_signing_key_from_file L key) (\<lambda>signing_key.
     rbind (parse_chains (csv_set (dget environ ''AEGIS_ALLOWED_CHAIN_IDS''))) (\<lambda>allowed_chains.
     if allowed_chains = [] then Inl ''AEGIS_ALLOWED_CHAIN_IDS must not be empty'' else
     rbind (of_option ''AEGIS_SIGNER_REPLAY_STATE_FILE is required'' (dget environ ''AEGIS_SIGNER_REPLAY_STATE_FILE'')) (\<lambda>_.
     rbind (load_replay_state f) (\<lambda>replay.
     let public_key = public_point L signing_key in
     Inr (\<lparr>ss_signing_key = signing_key, ss_policy_key = policy_key, ss_policy_identity = policy_address P L policy_key,
       ss_signer_identity = ethereum_address P L public_key, ss_public_key_hex = ''0x'' @ hex_encode L public_key,
       ss_build_measurement = dget_or environ ''AEGIS_SIGNER_BUILD_MEASUREMENT'' ''development-unmeasured'',
       ss_allowed_chains = allowed_chains, ss_allowed_policy_hashes = csv_set (dget environ ''AEGIS_ALLOWED_POLICY_HASHES''),
       ss_managed_wallets = csv_set (dget environ ''AEGIS_MANAGED_WALLETS''), ss_replay_path = True\<rparr>,
       \<lparr>st_replay = replay, st_file = f\<rparr>)))))))))"

section \<open>What the checks establish\<close>

named_theorems rust_simps

lemma rs_field_append: "rs_field v (p @ q) = rbind (rs_field v p) (\<lambda>w. rs_field w q)"
  by (induction v p rule: rs_field.induct) (auto simp: of_option_def split: option.split)

lemma rs_under:
  assumes "rs_field root [k] = Inr v"
  shows "rs_field root (k # p) = rs_field v p" "rs_string root (k # p) = rs_string v p" "rs_number root (k # p) = rs_number v p"
  using rs_field_append [of root "[k]" p] assms by (simp_all add: rs_string_def rs_number_def del: rs_field.simps)

lemma deny_if_Inr [rust_simps]: "deny_if c m = Inr u \<longleftrightarrow> c = Inr False"
  by (auto simp: deny_if_def rbind_Inr_iff)

lemma rs_or_False [rust_simps]: "rs_or a b = Inr False \<longleftrightarrow> a = Inr False \<and> b = Inr False"
  by (auto simp: rs_or_def rbind_Inr_iff)

lemma rs_differ_False [rust_simps]: "rs_differ a b = Inr False \<longleftrightarrow> (\<exists>x. a = Inr x \<and> b = Inr x)"
  by (auto simp: rs_differ_def rbind_Inr_iff)

lemma rs_lower_Inr [rust_simps]: "rs_lower a = Inr s \<longleftrightarrow> (\<exists>t. a = Inr t \<and> s = lower t)"
  by (auto simp: rs_lower_def rbind_Inr_iff)

lemma arg_Inr [rust_simps]: "arg m a = Inr x \<longleftrightarrow> a = Inr x"
  by (simp add: arg_def split: sum.split)

lemma permitted_Inr [rust_simps]: "permitted a = Inr x \<longleftrightarrow> a = Inr x"
  by (simp add: permitted_def split: sum.split)

lemma of_option_Inr_iff: "of_option e x = Inr y \<longleftrightarrow> x = Some y"
  by (cases x) auto

lemma binding_identity_Inr:
  assumes "binding_identity P L S root proposal decision transaction = Inr chain_id"
  obtains h h' w n a m where "hash_proposal_json P L proposal = Inr h" "rs_string decision [''proposal_hash''] = Inr h'" "h = lower h'"
    "rs_number root [''chain_id''] = Inr chain_id" "chain_id \<in> set (ss_allowed_chains S)" "rs_number proposal [''chain_id''] = Inr chain_id"
    "rs_string proposal [''wallet''] = Inr w" "lower w = ss_signer_identity S"
    "rs_number root [''wallet_nonce''] = Inr n" "rs_number transaction [''wallet_nonce''] = Inr n"
    "rs_string proposal [''asset''] = Inr a" "rs_string transaction [''asset''] = Inr a"
    "rs_number proposal [''amount''] = Inr m" "rs_number transaction [''amount''] = Inr m"
  using assms unfolding binding_identity_def rbind_Inr_iff rust_simps by auto

lemma binding_intent_Inr:
  assumes "binding_intent proposal transaction chain_id = Inr kind"
  shows "rs_string proposal [''intent'', ''kind''] = Inr kind"
    "kind = ''transfer'' \<Longrightarrow> (\<exists>r r' v. rs_string proposal [''intent'', ''recipient''] = Inr r \<and> rs_string transaction [''recipient''] = Inr r' \<and>
       lower r = lower r' \<and> rs_string transaction [''asset''] = Inr (''NATIVE:'' @ show_nat (unat chain_id)) \<and>
       rs_number transaction [''value''] = Inr v \<and> rs_number transaction [''amount''] = Inr v \<and> rs_string transaction [''calldata''] = Inr ''0x'')"
    "kind \<noteq> ''transfer'' \<Longrightarrow> (\<exists>c c' d d'. rs_string proposal [''intent'', ''contract''] = Inr c \<and> rs_string transaction [''contract''] = Inr c' \<and>
       lower c = lower c' \<and> rs_string proposal [''intent'', ''calldata''] = Inr d \<and> rs_string transaction [''calldata''] = Inr d' \<and> lower d = lower d')"
proof -
  from assms have k: "rs_string proposal [''intent'', ''kind''] = Inr kind"
    by (auto simp: binding_intent_def rbind_Inr_iff)
  note branch = assms [unfolded binding_intent_def k rbind_simps]
  show "rs_string proposal [''intent'', ''kind''] = Inr kind" by (rule k)
  show "kind = ''transfer'' \<Longrightarrow> (\<exists>r r' v. rs_string proposal [''intent'', ''recipient''] = Inr r \<and> rs_string transaction [''recipient''] = Inr r' \<and>
       lower r = lower r' \<and> rs_string transaction [''asset''] = Inr (''NATIVE:'' @ show_nat (unat chain_id)) \<and>
       rs_number transaction [''value''] = Inr v \<and> rs_number transaction [''amount''] = Inr v \<and> rs_string transaction [''calldata''] = Inr ''0x'')"
    using branch unfolding rbind_Inr_iff by (simp add: rust_simps rbind_Inr_iff) blast
  show "kind \<noteq> ''transfer'' \<Longrightarrow> (\<exists>c c' d d'. rs_string proposal [''intent'', ''contract''] = Inr c \<and> rs_string transaction [''contract''] = Inr c' \<and>
       lower c = lower c' \<and> rs_string proposal [''intent'', ''calldata''] = Inr d \<and> rs_string transaction [''calldata''] = Inr d' \<and> lower d = lower d')"
    using branch unfolding rbind_Inr_iff by (simp add: rust_simps rbind_Inr_iff) blast
qed

lemma binding_raw_Inr:
  assumes "binding_raw L root transaction chain_id kind = Inr raw"
  obtains payload n tgt a v cd d where "rs_string root [''eip1559_unsigned_payload''] = Inr payload" "decode_eip1559 L payload = Inr raw"
    "tx_chain_id raw = chain_id" "rs_number transaction [''wallet_nonce''] = Inr (tx_nonce raw)"
    "rs_string transaction [if kind = ''transfer'' then ''recipient'' else ''contract''] = Inr tgt" "parse_address L tgt = Some a"
    "tx_to raw = TxCall a" "rs_number transaction [''value''] = Inr v" "tx_value raw = ucast v"
    "rs_string transaction [''calldata''] = Inr cd" "decode_hex L cd = Inr d" "tx_input raw = d" "tx_access_list raw = []"
  using assms unfolding binding_raw_def rbind_Inr_iff rust_simps of_option_Inr_iff by auto

text \<open>What the crates document: \<open>hex\<close> reads pairs of hexadecimal digits and writes lower-case ones, and
  the signature hash of a transaction is the Keccak-256 hash of its encoding for signing.\<close>

definition crates_ok :: "primitives \<Rightarrow> crates \<Rightarrow> bool" where
  "crates_ok P L \<longleftrightarrow> (\<forall>s. hex_decode L s = (if list_all is_hex s then bytes_fromhex s else None)) \<and>
     (\<forall>b. hex_encode L b = bytes_hex b) \<and> (\<forall>t. tx_signature_hash L t = keccak P (tx_encoded_for_signing L t))"

lemma decode_hex_lower:
  assumes "crates_ok P L" "decode_hex L s = Inr b" "lower s = ''0x'' @ bytes_hex c"
  shows "b = c"
proof -
  have pre: "startswith s ''0x''"
  proof (rule ccontr)
    assume "\<not> startswith s ''0x''"
    then have "list_all is_hex s" using assms(1,2) by (auto simp: decode_hex_def strip_0x_def crates_ok_def of_option_Inr_iff split: if_splits)
    then have "list_all is_hex (lower s)" by (rule list_all_is_hex_lower)
    then show False unfolding assms(3) by simp code_simp
  qed
  then have s: "s = ''0x'' @ drop 2 s" by (rule startswith_0x_drop)
  from assms(1,2) pre have hex: "list_all is_hex (drop 2 s)" "bytes_fromhex (drop 2 s) = Some b"
    by (auto simp: decode_hex_def strip_0x_def crates_ok_def of_option_Inr_iff split: if_splits)
  have "lower s = ''0x'' @ lower (drop 2 s)" by (subst s) (simp only: lower_append lower_0x)
  then have "lower (drop 2 s) = bytes_hex c" using assms(3) by simp
  moreover have "bytes_hex b = lower (drop 2 s)" using bytes_hex_fromhex [OF hex(2)] filter_hex_text [OF hex(1)] by simp
  ultimately show ?thesis by simp
qed

lemma decode_eip1559_Inr:
  "decode_eip1559 L s = Inr t \<Longrightarrow> decode_hex L s = Inr (tx_encoded_for_signing L t)"
  by (auto simp: decode_eip1559_def rbind_Inr_iff)

text \<open>The transaction that a proposal describes: its chain and wallet, and for a transfer the
  recipient, the amount and no data, for a swap the contract and the calldata.\<close>

definition describes :: "crates \<Rightarrow> json \<Rightarrow> TxEip1559 \<Rightarrow> bool" where
  "describes L proposal raw \<longleftrightarrow> rs_number proposal [''chain_id''] = Inr (tx_chain_id raw) \<and> tx_access_list raw = [] \<and>
     (\<exists>who tgt a. lower who = lower tgt \<and> parse_address L tgt = Some a \<and> tx_to raw = TxCall a \<and>
       (if rs_string proposal [''intent'', ''kind''] = Inr ''transfer''
        then rs_string proposal [''intent'', ''recipient''] = Inr who \<and> tx_input raw = [] \<and>
          (\<exists>n. rs_number proposal [''amount''] = Inr n \<and> tx_value raw = ucast n)
        else rs_string proposal [''intent'', ''contract''] = Inr who \<and>
          (\<exists>d d'. rs_string proposal [''intent'', ''calldata''] = Inr d \<and> lower d = lower d' \<and> decode_hex L d' = Inr (tx_input raw))))"

lemma verify_binding_Inr:
  assumes "crates_ok P L" "verify_binding P L S now root = Inr u"
  obtains proposal decision raw payload h w where "rs_field root [''proposal''] = Inr proposal" "rs_field root [''decision''] = Inr decision"
    "describes L proposal raw" "rs_number root [''chain_id''] = Inr (tx_chain_id raw)" "tx_chain_id raw \<in> set (ss_allowed_chains S)"
    "rs_string proposal [''wallet''] = Inr w" "lower w = ss_signer_identity S" "rs_number root [''wallet_nonce''] = Inr (tx_nonce raw)"
    "rs_string decision [''proposal_hash''] = Inr h" "hash_proposal_json P L proposal = Inr (lower h)"
    "rs_string root [''eip1559_unsigned_payload''] = Inr payload" "decode_eip1559 L payload = Inr raw"
    "rs_lower (rs_string root [''eip1559_hash'']) = Inr (''0x'' @ bytes_hex (keccak P (tx_encoded_for_signing L raw)))"
proof -
  from assms(2) obtain proposal decision transaction chain_id kind raw where
    f: "rs_field root [''proposal''] = Inr proposal" "rs_field root [''decision''] = Inr decision"
    and id: "binding_identity P L S root proposal decision transaction = Inr chain_id"
    and int: "binding_intent proposal transaction chain_id = Inr kind"
    and raw: "binding_raw L root transaction chain_id kind = Inr raw" and dig: "binding_digests P L root decision raw = Inr u"
    unfolding verify_binding_def rbind_Inr_iff by blast
  from id obtain h w n m where i: "rs_string decision [''proposal_hash''] = Inr h" "hash_proposal_json P L proposal = Inr (lower h)"
    "rs_number root [''chain_id''] = Inr chain_id" "chain_id \<in> set (ss_allowed_chains S)" "rs_number proposal [''chain_id''] = Inr chain_id"
    "rs_string proposal [''wallet''] = Inr w" "lower w = ss_signer_identity S" "rs_number root [''wallet_nonce''] = Inr n"
    "rs_number transaction [''wallet_nonce''] = Inr n" "rs_number proposal [''amount''] = Inr m" "rs_number transaction [''amount''] = Inr m"
    by (rule binding_identity_Inr) simp
  from raw obtain payload tgt a v cd where r: "rs_string root [''eip1559_unsigned_payload''] = Inr payload" "decode_eip1559 L payload = Inr raw"
    "tx_chain_id raw = chain_id" "rs_number transaction [''wallet_nonce''] = Inr (tx_nonce raw)"
    "rs_string transaction [if kind = ''transfer'' then ''recipient'' else ''contract''] = Inr tgt" "parse_address L tgt = Some a"
    "tx_to raw = TxCall a" "rs_number transaction [''value''] = Inr v" "tx_value raw = ucast v"
    "rs_string transaction [''calldata''] = Inr cd" "decode_hex L cd = Inr (tx_input raw)" "tx_access_list raw = []"
    by (rule binding_raw_Inr) blast
  note k = binding_intent_Inr [OF int]
  have "hex_decode L [] = Some []" using assms(1) by (simp add: crates_ok_def)
  then have empty: "decode_hex L ''0x'' = Inr []" by (simp add: decode_hex_def strip_0x_def startswith_def)
  have "describes L proposal raw"
  proof (cases "kind = ''transfer''")
    case True
    with k(2) r i(10,11) empty show ?thesis unfolding describes_def k(1) by (auto simp: i(5))
  next
    case False
    with k(3) r show ?thesis unfolding describes_def k(1) by (auto simp: i(5))
  qed
  moreover have "rs_lower (rs_string root [''eip1559_hash'']) = Inr (''0x'' @ bytes_hex (keccak P (tx_encoded_for_signing L raw)))"
    using dig assms(1) unfolding binding_digests_def rbind_Inr_iff rust_simps by (auto simp: crates_ok_def)
  ultimately show ?thesis using f i r by (intro that) auto
qed

lemma verify_decision_Inr:
  assumes "verify_decision P L S now root = Inr u" "rs_field root [''decision''] = Inr decision"
  obtains unsigned canonical signature expiry where "remove_signature decision = Inr unsigned" "jcs_to_vec L unsigned = Some canonical"
    "ed25519_verify P (ss_policy_key S) signature canonical" "rs_string decision [''verdict''] = Inr ''ALLOW''"
    "parse_expiry L decision [''expires_at''] = Inr expiry" "now < expiry"
  using assms(1) unfolding verify_decision_def assms(2) rbind_simps rbind_Inr_iff if_raise_iff of_option_Inr_iff
  by (auto simp: not_le)

lemma authorize_request_Inr:
  assumes "authorize_request P L S t1 t2 request = Inr (root, d, w, c, n)"
  shows "parse_authorization L request = Inr root" "verify_decision P L S t1 root = Inr ()" "verify_binding P L S t2 root = Inr ()"
    "rs_string root [''decision'', ''decision_nonce''] = Inr d" "rs_lower (rs_string root [''proposal'', ''wallet'']) = Inr w"
    "rs_number root [''chain_id''] = Inr c" "rs_number root [''wallet_nonce''] = Inr n"
  using assms unfolding authorize_request_def rbind_Inr_iff arg_Inr permitted_Inr by auto

lemma sign_Inr:
  assumes "sign_authorized_transaction P L S size' t1 t2 t3 outcome request st = (Inr resp, st')"
  obtains root d w c n where "authorize_request P L S t1 t2 request = Inr (root, d, w, c, n)"
    "consume_replay d w c n (st_replay st) = Inr (st_replay st')" "sign_committed P L S t3 root d c n = Inr resp"
    "ss_replay_path S \<longrightarrow> st_file st' = ReplayFile True (size' (persisted_state (st_replay st'))) (Some (persisted_state (st_replay st')))"
  using assms unfolding sign_authorized_transaction_def
  by (auto simp: persist_replay_state_def Let_def split: sum.splits prod.splits if_splits write_outcome.splits)

lemma consume_replay_Inr:
  "consume_replay d w c n r = Inr r' \<longleftrightarrow> d \<notin> set (used_decisions r) \<and> n = dget_or (next_wallet_nonce r) (w, c) 0 \<and>
     r' = r\<lparr>used_decisions := List.insert d (used_decisions r), next_wallet_nonce := dset (w, c) (n + 1) (next_wallet_nonce r)\<rparr>"
  unfolding consume_replay_def rbind_Inr_iff raise_first_Inr_iff by auto

lemma sign_committed_Inr:
  assumes "sign_committed P L S t3 root d c n = Inr resp"
  obtains digest sig rid where "rs_string root [''eip1559_hash''] = Inr (re_signing_hash resp)" "decode_hex L (re_signing_hash resp) = Inr digest"
    "sign_prehash L (ss_signing_key S) digest = Some (sig, rid)" "re_signature resp = ''0x'' @ hex_encode L (sig @ [rid])" "re_wallet_nonce resp = n"
  using assms unfolding sign_committed_def rbind_Inr_iff arg_Inr of_option_Inr_iff by (auto simp: Let_def rbind_Inr_iff)

section \<open>Persistence\<close>

definition replay_ok :: "ReplayState \<Rightarrow> bool" where
  "replay_ok r \<longleftrightarrow> dict_wf (next_wallet_nonce r) \<and> (\<forall>key\<in>fst ` set (next_wallet_nonce r). lower (fst key) = fst key)"

definition same_replay :: "ReplayState \<Rightarrow> ReplayState \<Rightarrow> bool" where
  "same_replay r r' \<longleftrightarrow> set (used_decisions r) = set (used_decisions r') \<and> dget (next_wallet_nonce r) = dget (next_wallet_nonce r')"

abbreviation entry_key :: "PersistedWalletNonce \<Rightarrow> string \<times> 64 word" where
  "entry_key e \<equiv> (lower (pn_wallet e), pn_chain_id e)"

lemma load_wallet_nonces_distinct:
  "distinct (map entry_key es) \<Longrightarrow> \<forall>e\<in>set es. dget d (entry_key e) = None \<Longrightarrow> dict_wf d \<Longrightarrow>
     \<exists>d'. load_wallet_nonces es d = Inr d' \<and> dict_wf d' \<and> set d' = set d \<union> (\<lambda>e. (entry_key e, pn_next_nonce e)) ` set es"
proof (induction es arbitrary: d)
  case (Cons e es)
  let ?d = "dset (entry_key e) (pn_next_nonce e) d"
  have fresh: "dget d (entry_key e) = None" using Cons.prems(2) by simp
  have "\<exists>d'. load_wallet_nonces es ?d = Inr d' \<and> dict_wf d' \<and> set d' = set ?d \<union> (\<lambda>e. (entry_key e, pn_next_nonce e)) ` set es"
    using Cons.prems by (intro Cons.IH) (auto simp: image_iff)
  with fresh show ?case by (auto simp: dset_fresh dhas_def Let_def)
qed auto

lemma persisted_entries:
  assumes "replay_ok r"
  shows "distinct (map entry_key (ps_wallet_nonces (persisted_state r)))"
    "(\<lambda>e. (entry_key e, pn_next_nonce e)) ` set (ps_wallet_nonces (persisted_state r)) = set (next_wallet_nonce r)"
proof -
  let ?es = "map (\<lambda>((wallet, chain_id), n). \<lparr>pn_wallet = wallet, pn_chain_id = chain_id, pn_next_nonce = n\<rparr>) (next_wallet_nonce r)"
  have low: "lower (fst (fst x)) = fst (fst x)" if "x \<in> set (next_wallet_nonce r)" for x
    using assms that by (auto simp: replay_ok_def)
  have "map (\<lambda>e. (entry_key e, pn_next_nonce e)) ?es = map id (next_wallet_nonce r)"
    unfolding map_map by (rule map_cong) (use low in \<open>auto simp: split_beta\<close>)
  then have es: "map (\<lambda>e. (entry_key e, pn_next_nonce e)) ?es = next_wallet_nonce r" by simp
  let ?xs = "ps_wallet_nonces (persisted_state r)" and ?f = "\<lambda>e. (entry_key e, pn_next_nonce e)"
  have "mset ?xs = mset ?es" by (simp only: persisted_state_def PersistedReplayState.select_convs mset_sort)
  then have "mset (map ?f ?xs) = mset (map ?f ?es)" by (simp only: mset_map)
  then have m: "mset (map ?f ?xs) = mset (next_wallet_nonce r)" unfolding es .
  from mset_eq_setD [OF m] show "?f ` set ?xs = set (next_wallet_nonce r)" by simp
  have keys: "map entry_key ?xs = map fst (map ?f ?xs)" by simp
  have "mset (map entry_key ?xs) = mset (map fst (next_wallet_nonce r))" unfolding keys mset_map m [unfolded mset_map] ..
  moreover have "distinct (map fst (next_wallet_nonce r))" using assms by (simp add: replay_ok_def dict_wf_def)
  ultimately show "distinct (map entry_key ?xs)" using mset_eq_imp_distinct_iff by blast
qed

lemma load_persisted:
  assumes "replay_ok r" "len \<le> 16 * 1024 * 1024"
  shows "\<exists>r'. load_replay_state (ReplayFile True len (Some (persisted_state r))) = Inr r' \<and> same_replay r r' \<and> replay_ok r'"
proof -
  note e = persisted_entries [OF assms(1)]
  obtain d where d: "load_wallet_nonces (ps_wallet_nonces (persisted_state r)) [] = Inr d" "dict_wf d" "set d = set (next_wallet_nonce r)"
    using load_wallet_nonces_distinct [OF e(1), of "[]"] e(2) by auto
  have wf: "dict_wf (next_wallet_nonce r)" using assms(1) by (simp add: replay_ok_def)
  have "dget (next_wallet_nonce r) k = dget d k" for k
    using dget_iff_in_set [OF d(2), of k] dget_iff_in_set [OF wf, of k] d(3) by (metis option.exhaust)
  then have "dget (next_wallet_nonce r) = dget d" ..
  then show ?thesis using assms d by (auto simp: load_replay_state_def persisted_state_def same_replay_def replay_ok_def)
qed

lemma load_large: "16 * 1024 * 1024 < len \<Longrightarrow> \<not> (\<exists>r'. load_replay_state (ReplayFile True len c) = Inr r')"
  by (simp add: load_replay_state_def)

lemma load_no_file: "load_replay_state NoFile = Inr ReplayState_default"
  by (simp add: load_replay_state_def)

section \<open>Requests, failed writes and restarts\<close>

text \<open>A request that passes every check and the replay state is an attempt: whether it was signed, the
  decision nonce, the wallet and chain, and the wallet nonce.\<close>

type_synonym attempt_entry = "bool \<times> string \<times> (string \<times> 64 word) \<times> 64 word"

definition attempts ::
  "primitives \<Rightarrow> crates \<Rightarrow> SignerService \<Rightarrow> time \<Rightarrow> time \<Rightarrow> bytes \<Rightarrow> signer_state \<Rightarrow> bool \<Rightarrow> attempt_entry list" where
  "attempts P L S t1 t2 request st done =
     (case authorize_request P L S t1 t2 request of
        Inl _ \<Rightarrow> []
      | Inr (root, d, w, c, n) \<Rightarrow>
          (case consume_replay d w c n (st_replay st) of Inl _ \<Rightarrow> [] | Inr _ \<Rightarrow> [(done, d, (w, c), n)]))"

inductive signer_runs :: "primitives \<Rightarrow> crates \<Rightarrow> SignerService \<Rightarrow> (PersistedReplayState \<Rightarrow> nat) \<Rightarrow> attempt_entry list \<Rightarrow> signer_state \<Rightarrow> bool"
  for P L S size' where
  started: "signer_runs P L S size' [] \<lparr>st_replay = ReplayState_default, st_file = NoFile\<rparr>"
| requested: "signer_runs P L S size' xs st \<Longrightarrow>
    sign_authorized_transaction P L S size' t1 t2 t3 outcome request st = (r, st') \<Longrightarrow>
    signer_runs P L S size' (xs @ attempts P L S t1 t2 request st (\<not> isl r)) st'"
| restarted: "signer_runs P L S size' xs st \<Longrightarrow> load_replay_state (st_file st) = Inr replay \<Longrightarrow>
    signer_runs P L S size' xs (st\<lparr>st_replay := replay\<rparr>)"

definition below_max :: "attempt_entry list \<Rightarrow> string \<times> 64 word \<Rightarrow> bool" where
  "below_max xs k \<longleftrightarrow> (\<forall>(b, d, k', n)\<in>set xs. k' = k \<longrightarrow> n \<noteq> - 1)"

definition signed_decisions :: "attempt_entry list \<Rightarrow> string list" where
  "signed_decisions xs = map (\<lambda>(b, d, k, n). d) (filter fst xs)"

definition signed_nonces :: "attempt_entry list \<Rightarrow> string \<times> 64 word \<Rightarrow> 64 word list" where
  "signed_nonces xs k = map (\<lambda>(b, d, k', n). n) (filter (\<lambda>(b, d, k', n). b \<and> k' = k) xs)"

definition covers :: "attempt_entry list \<Rightarrow> ReplayState \<Rightarrow> bool" where
  "covers xs r \<longleftrightarrow> replay_ok r \<and> set (signed_decisions xs) \<subseteq> set (used_decisions r) \<and>
     (\<forall>k. below_max xs k \<longrightarrow> (\<forall>n\<in>set (signed_nonces xs k). n < dget_or (next_wallet_nonce r) k 0))"

definition log_ok :: "attempt_entry list \<Rightarrow> bool" where
  "log_ok xs \<longleftrightarrow> distinct (signed_decisions xs) \<and> (\<forall>k. below_max xs k \<longrightarrow> sorted_wrt (<) (signed_nonces xs k))"

lemma log_simps [simp]:
  "signed_decisions [] = []" "signed_nonces [] k = []" "below_max [] k"
  "signed_decisions (xs @ [(b, d, k, n)]) = signed_decisions xs @ (if b then [d] else [])"
  "signed_nonces (xs @ [(b, d, k, n)]) k' = signed_nonces xs k' @ (if b \<and> k = k' then [n] else [])"
  "below_max (xs @ [(b, d, k, n)]) k' \<longleftrightarrow> below_max xs k' \<and> (k = k' \<longrightarrow> n \<noteq> - 1)"
  by (auto simp: signed_decisions_def signed_nonces_def below_max_def)

lemma word64_less_Suc: "n \<noteq> - 1 \<Longrightarrow> (n :: 64 word) < n + 1"
proof -
  assume "n \<noteq> - 1"
  then have "unat n \<noteq> 2 ^ 64 - 1" by (simp add: word_eq_iff_unsigned [where 'a = nat] unsigned_minus_1_eq_mask mask_eq_exp_minus_1)
  moreover have "unat n < 2 ^ 64" using unsigned_less [of n, where ?'a = nat] by simp
  ultimately have "unat (n + 1) = unat n + 1" by (simp add: unat_word_ariths)
  then show ?thesis by (simp add: word_less_nat_alt)
qed

lemma keys_dset: "fst ` set (dset k v d) = insert k (fst ` set d)"
  by (simp add: dset_def dom_update)

lemma covers_same: "covers xs r \<Longrightarrow> same_replay r r' \<Longrightarrow> replay_ok r' \<Longrightarrow> covers xs r'"
  by (simp add: covers_def same_replay_def dget_or_def)

lemma covers_consume:
  assumes "covers xs r" "consume_replay d w c n r = Inr r'" "lower w = w"
  shows "covers (xs @ [(b, d, (w, c), n)]) r'" "covers (xs @ [(False, d, (w, c), n)]) r" "replay_ok r'"
proof -
  from assms(2) have n: "n = dget_or (next_wallet_nonce r) (w, c) 0" and r': "r' = r\<lparr>used_decisions := List.insert d (used_decisions r),
      next_wallet_nonce := dset (w, c) (n + 1) (next_wallet_nonce r)\<rparr>" by (simp_all add: consume_replay_Inr)
  show ok: "replay_ok r'" using assms(1,3) by (auto simp: r' covers_def replay_ok_def keys_dset)
  have next': "dget_or (next_wallet_nonce r') k 0 = (if k = (w, c) then n + 1 else dget_or (next_wallet_nonce r) k 0)" for k
    by (simp add: r' dget_or_def)
  have "m < n + 1" if "below_max xs (w, c)" "n \<noteq> - 1" "m \<in> set (signed_nonces xs (w, c))" for m
  proof -
    have "m < n" using that assms(1) unfolding covers_def n by blast
    also have "n < n + 1" by (rule word64_less_Suc [OF that(2)])
    finally show ?thesis .
  qed
  with assms(1) ok word64_less_Suc [of n] show "covers (xs @ [(b, d, (w, c), n)]) r'"
    unfolding covers_def next' by (auto simp: r' split: if_splits)
  show "covers (xs @ [(False, d, (w, c), n)]) r" using assms(1) by (auto simp: covers_def)
qed

lemma log_consume:
  assumes "log_ok xs" "covers xs r" "consume_replay d w c n r = Inr r'"
  shows "log_ok (xs @ [(b, d, (w, c), n)])"
  using assms by (auto simp: log_ok_def covers_def consume_replay_Inr sorted_wrt_append)

definition saved_file :: "(PersistedReplayState \<Rightarrow> nat) \<Rightarrow> ReplayState \<Rightarrow> replay_file" where
  "saved_file size' r = ReplayFile True (size' (persisted_state r)) (Some (persisted_state r))"

lemma covers_saved:
  assumes "covers xs r" "load_replay_state (saved_file size' r) = Inr r'"
  shows "covers xs r'"
proof -
  from assms(1) have ok: "replay_ok r" by (simp add: covers_def)
  have "size' (persisted_state r) \<le> 16 * 1024 * 1024"
    using assms(2) load_large unfolding saved_file_def by (metis not_le)
  from load_persisted [OF ok this] assms(2) obtain "same_replay r r'" "replay_ok r'" by (auto simp: saved_file_def)
  with assms(1) covers_same show ?thesis by blast
qed

text \<open>The outcomes of a request: refused before or by the replay state, refused because the state could
  not be saved, or committed.\<close>

lemma sign_cases:
  assumes "ss_replay_path S" "sign_authorized_transaction P L S size' t1 t2 t3 outcome request st = (r, st')"
  shows "(attempts P L S t1 t2 request st (\<not> isl r) = [] \<and> st' = st) \<or>
    (\<exists>d w c n r'. attempts P L S t1 t2 request st (\<not> isl r) = [(\<not> isl r, d, (w, c), n)] \<and> lower w = w \<and>
      consume_replay d w c n (st_replay st) = Inr r' \<and>
      (st' = \<lparr>st_replay = r', st_file = saved_file size' r'\<rparr> \<or>
       isl r \<and> (st' = st \<or> st' = st\<lparr>st_file := saved_file size' r'\<rparr>)))"
proof (cases "authorize_request P L S t1 t2 request")
  case (Inl e)
  with assms show ?thesis by (simp add: sign_authorized_transaction_def attempts_def)
next
  case (Inr x)
  obtain root d w c n where x: "x = (root, d, w, c, n)" by (cases x)
  note auth = Inr [unfolded x]
  from authorize_request_Inr(5) [OF auth] have low: "lower w = w" by (auto simp: rs_lower_Inr)
  show ?thesis
  proof (cases "consume_replay d w c n (st_replay st)")
    case (Inl e)
    with assms auth show ?thesis by (simp add: sign_authorized_transaction_def attempts_def)
  next
    case (Inr r')
    with assms auth low show ?thesis
      by (cases outcome) (auto simp: sign_authorized_transaction_def attempts_def persist_replay_state_def saved_file_def Let_def)
  qed
qed

lemma signer_runs_ok:
  assumes "ss_replay_path S" "signer_runs P L S size' xs st"
  shows "log_ok xs \<and> covers xs (st_replay st) \<and> (\<forall>r. load_replay_state (st_file st) = Inr r \<longrightarrow> covers xs r)"
  using assms(2)
proof induction
  case started
  then show ?case by (auto simp: log_ok_def covers_def load_no_file replay_ok_def ReplayState_default_def)
next
  case (requested xs st t1 t2 t3 outcome request r st')
  note IH = requested.IH
  from sign_cases [OF assms(1) requested.hyps(2)] show ?case
  proof (elim disjE exE conjE)
    assume "attempts P L S t1 t2 request st (\<not> isl r) = []" "st' = st"
    with IH show ?thesis by simp
  next
    fix d w c n r'
    assume a: "attempts P L S t1 t2 request st (\<not> isl r) = [(\<not> isl r, d, (w, c), n)]" "lower w = w"
      "consume_replay d w c n (st_replay st) = Inr r'" "st' = \<lparr>st_replay = r', st_file = saved_file size' r'\<rparr>"
    have "covers (xs @ [(\<not> isl r, d, (w, c), n)]) r'" using IH a by (intro covers_consume) auto
    with IH a log_consume covers_saved show ?thesis by auto
  next
    fix d w c n r'
    assume a: "attempts P L S t1 t2 request st (\<not> isl r) = [(\<not> isl r, d, (w, c), n)]" "isl r" "st' = st"
      "consume_replay d w c n (st_replay st) = Inr r'"
    then show ?thesis using IH by (auto simp: log_ok_def covers_def)
  next
    fix d w c n r'
    assume a: "attempts P L S t1 t2 request st (\<not> isl r) = [(\<not> isl r, d, (w, c), n)]" "lower w = w" "isl r"
      "consume_replay d w c n (st_replay st) = Inr r'" "st' = st\<lparr>st_file := saved_file size' r'\<rparr>"
    have c: "covers (xs @ [(False, d, (w, c), n)]) r'" "covers (xs @ [(False, d, (w, c), n)]) (st_replay st)"
      using IH a by (intro covers_consume; auto)+
    with IH a log_consume covers_saved show ?thesis by auto
  qed
next
  case (restarted xs st replay)
  then show ?case by simp
qed

section \<open>A request that is signed\<close>

definition zero_hash :: string where
  "zero_hash = ''0x'' @ replicate 64 (CHR ''0'')"

definition sample_prims :: primitives where
  "sample_prims = prims\<lparr>sha256 := (\<lambda>_. replicate 32 0), keccak := (\<lambda>_. replicate 32 0), ed25519_verify := (\<lambda>_ _ _. True)\<rparr>"

definition sample_wallet :: string where
  "sample_wallet = ''0x'' @ replicate 40 (CHR ''0'')"

definition sample_tx :: TxEip1559 where
  "sample_tx = \<lparr>tx_chain_id = 1, tx_nonce = 0, tx_gas_limit = 21000, tx_max_fee_per_gas = 2, tx_max_priority_fee_per_gas = 1,
     tx_to = TxCall [], tx_value = 5, tx_access_list = [], tx_input = []\<rparr>"

definition sample_request :: json where
  "sample_request = obj [(''schema_version'', JStr ''aegisledger.sign_request.v1''),
     (''proposal'', obj [(''schema_version'', JStr ''aegisledger.proposal.v1''), (''principal_id'', JStr ''agent''), (''wallet'', JStr sample_wallet),
       (''chain_id'', JInt 1), (''asset'', JStr ''NATIVE:1''), (''amount'', JInt 5),
       (''intent'', obj [(''kind'', JStr ''transfer''), (''recipient'', JStr ''0x05'')]), (''deadline'', JStr ''t''), (''idempotency_key'', JStr ''key'')]),
     (''decision'', obj [(''schema_version'', JStr ''aegisledger.decision.v1''), (''decision_id'', JStr ''d''), (''proposal_hash'', JStr zero_hash),
       (''policy_version_id'', JStr ''p''), (''policy_hash'', JStr zero_hash), (''state_version'', JInt 1), (''reservation_id'', JStr ''r''),
       (''verdict'', JStr ''ALLOW''), (''reason_codes'', JList []), (''expires_at'', JStr ''t''), (''decision_nonce'', JStr ''n''),
       (''policy_signer'', JStr sample_wallet), (''signature'', JStr (replicate 128 (CHR ''0'')))]),
     (''reservation_id'', JStr ''r''), (''wallet_nonce'', JInt 0), (''chain_id'', JInt 1),
     (''transaction'', obj [(''operation'', JStr ''transfer''), (''wallet'', JStr sample_wallet), (''chain_id'', JInt 1), (''wallet_nonce'', JInt 0),
       (''asset'', JStr ''NATIVE:1''), (''amount'', JInt 5), (''recipient'', JStr ''0x05''), (''calldata'', JStr ''0x''), (''value'', JInt 5),
       (''gas_limit'', JInt 21000), (''max_fee_per_gas'', JInt 2), (''max_priority_fee_per_gas'', JInt 1)]),
     (''eip712_payload'', JStr (''0x1901'' @ replicate 128 (CHR ''0''))), (''eip1559_unsigned_payload'', JStr ''0x02''),
     (''eip712_hash'', JStr zero_hash), (''eip1559_hash'', JStr zero_hash), (''expires_at'', JStr ''t'')]"

definition sample_crates :: crates where
  "sample_crates = \<lparr>json_from_slice = (\<lambda>_. Some sample_request), json_to_vec = (\<lambda>_. []), jcs_to_vec = (\<lambda>_. Some []),
     hex_decode = (\<lambda>s. if list_all is_hex s then bytes_fromhex s else None), hex_encode = bytes_hex,
     rfc3339_parse = (\<lambda>_. Some 10), rfc3339_print = show_int, tx_decode = (\<lambda>_. Some (sample_tx, [])),
     tx_encoded_for_signing = (\<lambda>_. [2]), tx_signature_hash = (\<lambda>_. replicate 32 0), signed_hash = (\<lambda>_ _. replicate 32 0),
     signed_encoded_2718 = (\<lambda>_ _. [2]), parse_address = (\<lambda>_. Some []), verifying_key_from_bytes = Some, key_from_bytes = Some,
     public_point = (\<lambda>k. k), sign_prehash = (\<lambda>_ _. Some (replicate 64 0, 0))\<rparr>"

definition sample_service :: SignerService where
  "sample_service = \<lparr>ss_signing_key = [], ss_policy_key = [], ss_policy_identity = sample_wallet, ss_signer_identity = sample_wallet,
     ss_public_key_hex = ''0x'', ss_build_measurement = ''test-build'', ss_allowed_chains = [1], ss_allowed_policy_hashes = [],
     ss_managed_wallets = [], ss_replay_path = True\<rparr>"

definition fresh_signer :: signer_state where
  "fresh_signer = \<lparr>st_replay = ReplayState_default, st_file = NoFile\<rparr>"

abbreviation sample_sign :: "signer_state \<Rightarrow> (Status + SignAuthorizedTransactionResponse) \<times> signer_state" where
  "sample_sign \<equiv> sign_authorized_transaction sample_prims sample_crates sample_service (\<lambda>_. 100) 0 0 0 Written []"

lemma sample_crates_ok: "crates_ok sample_prims sample_crates"
  by (simp add: crates_ok_def sample_crates_def sample_prims_def)

lemma sample_signed: "(\<lambda>(r, st). (\<not> isl r, used_decisions (st_replay st))) (sample_sign fresh_signer) = (True, [''n''])"
  by code_simp

lemma sample_attempt: "attempts sample_prims sample_crates sample_service 0 0 [] fresh_signer True = [(True, ''n'', (sample_wallet, 1), 0)]"
  by code_simp

section \<open>Properties\<close>

text \<open>C4. What the isolated signer signs: when a request is answered with a signature, the signature is
  over the Keccak-256 hash of the encoding of a transaction that the proposal of the request
  describes (chain, target, value or calldata), with the next nonce of the signer's own wallet
  on an allowed chain; the proposal hashes to the value in the decision, whose canonical form the
  policy key signed, whose verdict is ALLOW and which has not expired.\<close>

theorem rust_signer_binds:
  assumes "crates_ok P L" "sign_authorized_transaction P L S size' t1 t2 t3 outcome request st = (Inr resp, st')"
  shows "\<exists>root proposal decision raw h unsigned canonical signature expiry sig rid.
    parse_authorization L request = Inr root \<and> rs_field root [''proposal''] = Inr proposal \<and> rs_field root [''decision''] = Inr decision \<and>
    describes L proposal raw \<and> tx_chain_id raw \<in> set (ss_allowed_chains S) \<and>
    tx_nonce raw = dget_or (next_wallet_nonce (st_replay st)) (ss_signer_identity S, tx_chain_id raw) 0 \<and>
    decode_hex L (re_signing_hash resp) = Inr (keccak P (tx_encoded_for_signing L raw)) \<and>
    sign_prehash L (ss_signing_key S) (keccak P (tx_encoded_for_signing L raw)) = Some (sig, rid) \<and>
    re_signature resp = ''0x'' @ hex_encode L (sig @ [rid]) \<and>
    rs_string decision [''proposal_hash''] = Inr h \<and> hash_proposal_json P L proposal = Inr (lower h) \<and>
    remove_signature decision = Inr unsigned \<and> jcs_to_vec L unsigned = Some canonical \<and>
    ed25519_verify P (ss_policy_key S) signature canonical \<and> rs_string decision [''verdict''] = Inr ''ALLOW'' \<and>
    parse_expiry L decision [''expires_at''] = Inr expiry \<and> t1 < expiry"
proof -
  from assms(2) obtain root d w c n where a: "authorize_request P L S t1 t2 request = Inr (root, d, w, c, n)"
    and consume: "consume_replay d w c n (st_replay st) = Inr (st_replay st')" and signed: "sign_committed P L S t3 root d c n = Inr resp"
    by (rule sign_Inr)
  note auth = authorize_request_Inr [OF a]
  from assms(1) auth(3) obtain proposal decision raw payload h v where b: "rs_field root [''proposal''] = Inr proposal"
    "rs_field root [''decision''] = Inr decision" "describes L proposal raw" "rs_number root [''chain_id''] = Inr (tx_chain_id raw)"
    "tx_chain_id raw \<in> set (ss_allowed_chains S)" "rs_string proposal [''wallet''] = Inr v" "lower v = ss_signer_identity S"
    "rs_number root [''wallet_nonce''] = Inr (tx_nonce raw)" "rs_string decision [''proposal_hash''] = Inr h"
    "hash_proposal_json P L proposal = Inr (lower h)"
    "rs_lower (rs_string root [''eip1559_hash'']) = Inr (''0x'' @ bytes_hex (keccak P (tx_encoded_for_signing L raw)))"
    by (rule verify_binding_Inr)
  from auth(2) b(2) obtain unsigned canonical signature expiry where dec: "remove_signature decision = Inr unsigned"
    "jcs_to_vec L unsigned = Some canonical" "ed25519_verify P (ss_policy_key S) signature canonical"
    "rs_string decision [''verdict''] = Inr ''ALLOW''" "parse_expiry L decision [''expires_at''] = Inr expiry" "t1 < expiry"
    by (rule verify_decision_Inr)
  from signed obtain digest sig rid where s: "rs_string root [''eip1559_hash''] = Inr (re_signing_hash resp)"
    "decode_hex L (re_signing_hash resp) = Inr digest" "sign_prehash L (ss_signing_key S) digest = Some (sig, rid)"
    "re_signature resp = ''0x'' @ hex_encode L (sig @ [rid])" by (rule sign_committed_Inr)
  have digest: "digest = keccak P (tx_encoded_for_signing L raw)"
    using b(11) s(1) by (intro decode_hex_lower [OF assms(1) s(2)]) (simp add: rs_lower_Inr)
  have "w = ss_signer_identity S" using auth(5) b(6,7) rs_under(2) [OF b(1), of "[''wallet'']"] by (auto simp: rs_lower_Inr)
  moreover have "c = tx_chain_id raw" "n = tx_nonce raw" using auth(6,7) b(4,8) by simp_all
  ultimately have "tx_nonce raw = dget_or (next_wallet_nonce (st_replay st)) (ss_signer_identity S, tx_chain_id raw) 0"
    using consume by (simp add: consume_replay_Inr)
  then show ?thesis using auth(1) b(1-3,5,9,10) dec s(2-4) [unfolded digest] by blast
qed

theorem rust_signer_binds_witness:
  "\<exists>resp st' proposal raw. sample_sign fresh_signer = (Inr resp, st') \<and> describes sample_crates proposal raw \<and>
     decode_hex sample_crates (re_signing_hash resp) = Inr (keccak sample_prims (tx_encoded_for_signing sample_crates raw))"
proof -
  obtain r st' where run: "sample_sign fresh_signer = (r, st')" by (cases "sample_sign fresh_signer")
  with sample_signed obtain resp where "r = Inr resp" by (cases r) auto
  with run have signed: "sample_sign fresh_signer = (Inr resp, st')" by simp
  from rust_signer_binds [OF sample_crates_ok this] signed show ?thesis by blast
qed

text \<open>C11. No replay across failures and restarts: over any sequence of requests, writes of the replay file
  that fail before or after the rename, and restarts that load the file, no decision nonce is
  signed twice, and the nonces signed for a wallet on a chain strictly increase as long as the
  last \<open>u64\<close> nonce has not been used there (after it the release build wraps to 0).\<close>

theorem rust_signer_no_replay:
  assumes "ss_replay_path S" "signer_runs P L S size' xs st"
  shows "distinct (signed_decisions xs) \<and> (\<forall>k. below_max xs k \<longrightarrow> sorted_wrt (<) (signed_nonces xs k))"
  using signer_runs_ok [OF assms] by (simp add: log_ok_def)

theorem rust_signer_no_replay_witness:
  "\<exists>st. signer_runs sample_prims sample_crates sample_service (\<lambda>_. 100) [(True, ''n'', (sample_wallet, 1), 0)] st \<and>
     distinct (signed_decisions [(True, ''n'', (sample_wallet, 1), 0)])"
proof -
  obtain r st' where run: "sample_sign fresh_signer = (r, st')" by (cases "sample_sign fresh_signer")
  with sample_signed have r: "\<not> isl r" by auto
  have "signer_runs sample_prims sample_crates sample_service (\<lambda>_. 100) [] fresh_signer"
    unfolding fresh_signer_def by (rule signer_runs.started)
  from signer_runs.requested [OF this run] r sample_attempt
  have runs: "signer_runs sample_prims sample_crates sample_service (\<lambda>_. 100) [(True, ''n'', (sample_wallet, 1), 0)] st'" by simp
  moreover have "ss_replay_path sample_service" by (simp add: sample_service_def)
  ultimately show ?thesis using rust_signer_no_replay [OF _ runs] by blast
qed

text \<open>Persisted replay states: loading what was written gives the same decisions and nonces exactly when
  the text is at most 16 MiB. Writing does not check the size, so a signer whose state has grown
  past the limit still signs but cannot be restarted.\<close>

theorem replay_state_round_trip:
  assumes "replay_ok r"
  shows "(\<exists>r'. load_replay_state (snd (persist_replay_state size' Written r f)) = Inr r' \<and> same_replay r r') \<longleftrightarrow>
    size' (persisted_state r) \<le> 16 * 1024 * 1024"
  using load_persisted [OF assms, of "size' (persisted_state r)"] load_large [of "size' (persisted_state r)"]
  by (auto simp: persist_replay_state_def Let_def not_le [symmetric])

theorem replay_state_round_trip_witness:
  "\<exists>r'. load_replay_state (snd (persist_replay_state (\<lambda>_. 100) Written (ReplayState_default\<lparr>next_wallet_nonce := [((''0xab'', 1), 7)]\<rparr>) NoFile)) = Inr r' \<and>
     same_replay (ReplayState_default\<lparr>next_wallet_nonce := [((''0xab'', 1), 7)]\<rparr>) r'"
proof -
  have "replay_ok (ReplayState_default\<lparr>next_wallet_nonce := [((''0xab'', 1), 7)]\<rparr>)"
    by (simp add: replay_ok_def dict_wf_def) code_simp
  from replay_state_round_trip [OF this, of "\<lambda>_. 100" NoFile] show ?thesis by simp
qed

end
