(* ===== verification/LocalChain.thy ===== *)
theory LocalChain
  imports Contracts
begin

text \<open>
  \<open>src/agentwallet/chain/ledger.py\<close> and \<open>wallet/signer.py\<close>: the simulated chain with its two
  tokens, the constant-product market, the mempool with authorization, block execution, and the
  signer of the wallet. Execution keeps what it changed before an exception, as the code does:
  every operation returns its result and the chain. Ed25519 and SHA-256 are parameters; a rule
  hook is a function from a transaction to the exception it raises, if any. The floating-point
  price of the pool is not modelled.

  Shown: no sequence of operations creates or destroys tokens except minting; while swaps are
  between the two assets the pool holds its reserves, the reserves stay positive and their product
  never decreases.
\<close>

section \<open>JSON with ASCII escapes\<close>

text \<open>\<open>json.dumps\<close> with \<open>ensure_ascii\<close>: the text of a document with every character outside the
  printable ASCII range escaped. The characters of a text are decoded from UTF-8.\<close>

fun utf8_decode :: "nat list \<Rightarrow> nat list" where
  "utf8_decode (a # b # c # d # r) =
     (if a < 0x80 then a # utf8_decode (b # c # d # r)
      else if a < 0xE0 then ((a mod 32) * 64 + b mod 64) # utf8_decode (c # d # r)
      else if a < 0xF0 then ((a mod 16) * 4096 + (b mod 64) * 64 + c mod 64) # utf8_decode (d # r)
      else ((a mod 8) * 262144 + (b mod 64) * 4096 + (c mod 64) * 64 + d mod 64) # utf8_decode r)"
| "utf8_decode (a # b # c # []) =
     (if a < 0x80 then a # utf8_decode [b, c]
      else if a < 0xE0 then ((a mod 32) * 64 + b mod 64) # utf8_decode [c]
      else [(a mod 16) * 4096 + (b mod 64) * 64 + c mod 64])"
| "utf8_decode (a # b # []) = (if a < 0x80 then a # utf8_decode [b] else [(a mod 32) * 64 + b mod 64])"
| "utf8_decode [a] = [a]"
| "utf8_decode [] = []"

definition u_escape :: "nat \<Rightarrow> string" where
  "u_escape n = backslash # ''u'' @ map hexdigit [n div 4096 mod 16, n div 256 mod 16, n div 16 mod 16, n mod 16]"

definition ascii_point :: "nat \<Rightarrow> string" where
  "ascii_point n =
     (if n < 0x7F then [char_of n]
      else if n < 0x10000 then u_escape n
      else u_escape (0xD800 + (n - 0x10000) div 1024) @ u_escape (0xDC00 + (n - 0x10000) mod 1024))"

definition json_dumps_ascii :: "json \<Rightarrow> bytes" where
  "json_dumps_ascii v = encode (concat (map ascii_point (utf8_decode (map ascii (emit (sort_keys v))))))"

section \<open>Transactions\<close>

datatype TxKind = TRANSFER | SWAP

record Tx =
  tx_kind :: TxKind
  tx_sender :: string
  tx_to :: "string option"
  tx_amount :: int
  tx_asset :: string
  tx_amount_in :: int
  tx_token_in :: string
  tx_token_out :: string
  tx_min_out :: int
  tx_private :: bool
  tx_submitted_at :: int
  tx_nonce :: int
  tx_chain_id :: int
  tx_deadline :: int
  tx_decision_hash :: string
  tx_public_key_hex :: string
  tx_signature_hex :: string

definition tx_canonical :: "Tx \<Rightarrow> bytes" where
  "tx_canonical tx = json_dumps_ascii (obj
     [(''amount'', JInt (tx_amount tx)), (''amount_in'', JInt (tx_amount_in tx)), (''asset'', JStr (tx_asset tx)),
      (''chain_id'', JInt (tx_chain_id tx)), (''deadline'', JInt (tx_deadline tx)), (''decision_hash'', JStr (tx_decision_hash tx)),
      (''kind'', JStr (case tx_kind tx of TRANSFER \<Rightarrow> ''transfer'' | SWAP \<Rightarrow> ''swap'')), (''min_out'', JInt (tx_min_out tx)),
      (''nonce'', JInt (tx_nonce tx)), (''private'', JBool (tx_private tx)), (''sender'', JStr (tx_sender tx)),
      (''to'', (case tx_to tx of None \<Rightarrow> JNull | Some a \<Rightarrow> JStr a)), (''token_in'', JStr (tx_token_in tx)),
      (''token_out'', JStr (tx_token_out tx))])"

definition tx_digest :: "primitives \<Rightarrow> Tx \<Rightarrow> bytes" where
  "tx_digest P tx = sha256 P (tx_canonical tx)"

definition tx_hash :: "primitives \<Rightarrow> Tx \<Rightarrow> string" where
  "tx_hash P tx = bytes_hex (tx_digest P tx)"

definition tx_sign :: "primitives \<Rightarrow> KeyPair \<Rightarrow> Tx \<Rightarrow> Tx res" where
  "tx_sign P keys tx =
     (if lower (kp_address keys) \<noteq> lower (tx_sender tx) then Inl (RuleViolation ''signing key does not control transaction sender'')
      else Inr (tx\<lparr>tx_public_key_hex := bytes_hex (kp_pub keys), tx_signature_hex := bytes_hex (key_sign P keys (tx_digest P tx))\<rparr>))"

definition IsolatedSigner_init :: "primitives \<Rightarrow> string \<Rightarrow> KeyPair" where
  "IsolatedSigner_init P seed = from_seed P (''wallet::'' @ seed)"

definition wallet_sign :: "primitives \<Rightarrow> KeyPair \<Rightarrow> bytes \<Rightarrow> string \<times> string" where
  "wallet_sign P keys digest = (bytes_hex (kp_pub keys), bytes_hex (key_sign P keys digest))"

definition authorize_transaction :: "primitives \<Rightarrow> KeyPair \<Rightarrow> Tx \<Rightarrow> Tx res" where
  "authorize_transaction P keys tx =
     (if lower (tx_sender tx) \<noteq> lower (kp_address keys)
      then Inl (RuleViolation ''isolated signer does not control transaction sender'')
      else let (pub, sig) = wallet_sign P keys (tx_digest P tx)
        in Inr (tx\<lparr>tx_public_key_hex := pub, tx_signature_hex := sig\<rparr>))"

record Receipt =
  rc_tx :: Tx
  rc_success :: bool
  rc_amount_out :: int
  rc_error :: string

section \<open>Tokens and the market\<close>

type_synonym token = "(string, int) dict"

definition token_mint :: "string \<Rightarrow> int \<Rightarrow> token \<Rightarrow> token" where
  "token_mint addr amount t = dset addr (dget_or t addr 0 + amount) t"

definition token_balance :: "token \<Rightarrow> string \<Rightarrow> int" where
  "token_balance t addr = dget_or t addr 0"

definition token_transfer :: "string \<Rightarrow> string \<Rightarrow> int \<Rightarrow> token \<Rightarrow> token res" where
  "token_transfer frm to amount t =
     (if amount \<le> 0 then Inl (RuleViolation ''non-positive transfer'')
      else if token_balance t frm < amount
      then Inl (InsufficientFunds (frm @ '' has '' @ show_int (token_balance t frm) @ '' < '' @ show_int amount))
      else
        let t = dset frm (token_balance t frm - amount) t
        in Inr (dset to (dget_or t to 0 + amount) t))"

record amm =
  amm_a :: int
  amm_b :: int

definition ConstantProductAMM_init :: "int \<Rightarrow> int \<Rightarrow> amm res" where
  "ConstantProductAMM_init reserve_a reserve_b =
     (if reserve_a > 0 \<and> reserve_b > 0 then Inr \<lparr>amm_a = reserve_a, amm_b = reserve_b\<rparr> else Inl AssertionError)"

definition FEE_BPS :: int where
  "FEE_BPS = 30"

definition amm_quote :: "amm \<Rightarrow> string \<Rightarrow> int \<Rightarrow> int res" where
  "amm_quote m token_in amount_in =
     (let (rin, rout) = (if token_in = ''TUSDC'' then (amm_a m, amm_b m) else (amm_b m, amm_a m));
          eff = amount_in * (10000 - FEE_BPS) in
      if rin * 10000 + eff = 0 then Inl ZeroDivisionError
      else Inr ((eff * rout) div (rin * 10000 + eff)))"

definition amm_swap :: "string \<Rightarrow> int \<Rightarrow> int \<Rightarrow> amm \<Rightarrow> (int \<times> amm) res" where
  "amm_swap token_in amount_in min_out m =
     rbind (amm_quote m token_in amount_in) (\<lambda>out.
     if out < min_out then Inl (RuleViolation (''slippage: out '' @ show_int out @ '' < min_out '' @ show_int min_out))
     else Inr (out,
       if token_in = ''TUSDC'' then m\<lparr>amm_a := amm_a m + amount_in, amm_b := amm_b m - out\<rparr>
       else m\<lparr>amm_b := amm_b m + amount_in, amm_a := amm_a m - out\<rparr>))"

section \<open>The chain\<close>

record chain =
  ch_tokens :: "(string, token) dict"
  ch_amm :: amm
  ch_mempool :: "Tx list"
  ch_blocks :: "Receipt list list"
  ch_clock :: int
  ch_chain_id :: int
  ch_next_nonces :: "(string, int) dict"
  ch_rule_hooks :: "(string, Tx \<Rightarrow> exn option) dict"
  ch_events :: "string list"

definition pool :: string where
  "pool = ''amm:pool''"

definition LocalChain_init :: "int \<Rightarrow> int \<Rightarrow> int \<Rightarrow> chain res" where
  "LocalChain_init a b chain_id =
     rbind (ConstantProductAMM_init a b) (\<lambda>m.
     Inr \<lparr>ch_tokens = [(''TUSDC'', token_mint pool a []), (''DRB'', token_mint pool b [])], ch_amm = m, ch_mempool = [],
       ch_blocks = [], ch_clock = 0, ch_chain_id = chain_id, ch_next_nonces = [], ch_rule_hooks = [], ch_events = []\<rparr>)"

definition token_of :: "chain \<Rightarrow> string \<Rightarrow> token res" where
  "token_of s asset = of_option (KeyError asset) (dget (ch_tokens s) asset)"

definition chain_mint :: "string \<Rightarrow> string \<Rightarrow> int \<Rightarrow> chain \<Rightarrow> chain res" where
  "chain_mint asset addr amount s =
     rbind (token_of s asset) (\<lambda>t. Inr (s\<lparr>ch_tokens := dset asset (token_mint addr amount t) (ch_tokens s)\<rparr>))"

definition chain_balance :: "string \<Rightarrow> string \<Rightarrow> chain \<Rightarrow> int res" where
  "chain_balance asset addr s = rbind (token_of s asset) (\<lambda>t. Inr (token_balance t addr))"

definition next_nonce :: "chain \<Rightarrow> string \<Rightarrow> int" where
  "next_nonce s address = dget_or (ch_next_nonces s) (lower address) 0"

definition verify_authorization :: "primitives \<Rightarrow> Tx \<Rightarrow> chain \<Rightarrow> unit res" where
  "verify_authorization P tx s =
     rbind (raise_first
       [(tx_public_key_hex tx = [] \<or> tx_signature_hex tx = [], RuleViolation ''transaction signature required''),
        (tx_chain_id tx \<noteq> ch_chain_id s,
          RuleViolation (''wrong chain: transaction '' @ show_int (tx_chain_id tx) @ '', backend '' @ show_int (ch_chain_id s))),
        (tx_deadline tx < ch_clock s, RuleViolation ''transaction expired''),
        (tx_nonce tx \<noteq> next_nonce s (tx_sender tx),
          RuleViolation (''invalid nonce: expected '' @ show_int (next_nonce s (tx_sender tx)) @ '', received '' @ show_int (tx_nonce tx))),
        (tx_decision_hash tx = [], RuleViolation ''transaction is not bound to a decision'')]) (\<lambda>_.
     case (bytes_fromhex (tx_public_key_hex tx), bytes_fromhex (tx_signature_hex tx)) of
       (Some pub, Some sig) \<Rightarrow>
         if length pub \<noteq> 32 then Inl (RuleViolation ''malformed transaction signature'')
         else if \<not> verify_with_address P (tx_sender tx) (tx_digest P tx) sig pub then Inl (RuleViolation ''invalid transaction signature'')
         else Inr ()
     | _ \<Rightarrow> Inl (RuleViolation ''malformed transaction signature''))"

definition submit :: "primitives \<Rightarrow> Tx \<Rightarrow> chain \<Rightarrow> chain res" where
  "submit P tx s =
     rbind (verify_authorization P tx s) (\<lambda>_.
     let key = lower (tx_sender tx) in
     Inr (s\<lparr>ch_mempool := ch_mempool s @ [tx\<lparr>tx_submitted_at := ch_clock s\<rparr>],
       ch_next_nonces := dset key (next_nonce s key + 1) (ch_next_nonces s)\<rparr>))"

definition visible_mempool :: "chain \<Rightarrow> Tx list" where
  "visible_mempool s = filter (\<lambda>t. \<not> tx_private t) (ch_mempool s)"

text \<open>A transfer inside the chain, and a swap: the result and the chain with what was changed.\<close>

definition move :: "string \<Rightarrow> string \<Rightarrow> string \<Rightarrow> int \<Rightarrow> chain \<Rightarrow> unit res \<times> chain" where
  "move asset frm to amount s =
     (case rbind (token_of s asset) (token_transfer frm to amount) of
        Inl e \<Rightarrow> (Inl e, s)
      | Inr t \<Rightarrow> (Inr (), s\<lparr>ch_tokens := dset asset t (ch_tokens s)\<rparr>))"

definition execute_swap :: "Tx \<Rightarrow> chain \<Rightarrow> int res \<times> chain" where
  "execute_swap tx s =
     (case rbind (token_of s (tx_token_in tx)) (\<lambda>tok_in. rbind (token_of s (tx_token_out tx)) (\<lambda>_.
             if token_balance tok_in (tx_sender tx) < tx_amount_in tx then Inl (InsufficientFunds ''swap input exceeds balance'')
             else amm_swap (tx_token_in tx) (tx_amount_in tx) (tx_min_out tx) (ch_amm s))) of
        Inl e \<Rightarrow> (Inl e, s)
      | Inr (out, m) \<Rightarrow>
      case move (tx_token_in tx) (tx_sender tx) pool (tx_amount_in tx) (s\<lparr>ch_amm := m\<rparr>) of
        (Inl e, s) \<Rightarrow> (Inl e, s)
      | (Inr _, s) \<Rightarrow>
      case move (tx_token_out tx) pool (tx_sender tx) out s of
        (Inl e, s) \<Rightarrow> (Inl e, s)
      | (Inr _, s) \<Rightarrow> (Inr out, s))"

definition check_hook :: "Tx \<Rightarrow> chain \<Rightarrow> unit res" where
  "check_hook tx s =
     (case dget (ch_rule_hooks s) (tx_sender tx) of
        None \<Rightarrow> Inr ()
      | Some hook \<Rightarrow> (case hook tx of Some e \<Rightarrow> Inl e | None \<Rightarrow> Inr ()))"

definition run_tx :: "Tx \<Rightarrow> chain \<Rightarrow> int res \<times> chain" where
  "run_tx tx s =
     (case check_hook tx s of
        Inl e \<Rightarrow> (Inl e, s)
      | Inr _ \<Rightarrow>
          if tx_kind tx = TRANSFER
          then case tx_to tx of
              None \<Rightarrow> (Inl (RuleViolation ''transfer recipient is required''), s)
            | Some to \<Rightarrow> (case move (tx_asset tx) (tx_sender tx) to (tx_amount tx) s of
                (Inl e, s) \<Rightarrow> (Inl e, s) | (Inr _, s) \<Rightarrow> (Inr 0, s))
          else execute_swap tx s)"

text \<open>Rule violations and missing funds become receipts; any other exception escapes.\<close>

definition execute_tx :: "Tx \<Rightarrow> chain \<Rightarrow> Receipt res \<times> chain" where
  "execute_tx tx s =
     (case run_tx tx s of
        (Inr out, s) \<Rightarrow> (Inr \<lparr>rc_tx = tx, rc_success = True, rc_amount_out = out, rc_error = []\<rparr>, s)
      | (Inl (RuleViolation m), s) \<Rightarrow>
          (Inr \<lparr>rc_tx = tx, rc_success = False, rc_amount_out = 0, rc_error = m\<rparr>, s\<lparr>ch_events := ch_events s @ [''reverted: '' @ m]\<rparr>)
      | (Inl (InsufficientFunds m), s) \<Rightarrow>
          (Inr \<lparr>rc_tx = tx, rc_success = False, rc_amount_out = 0, rc_error = m\<rparr>, s\<lparr>ch_events := ch_events s @ [''reverted: '' @ m]\<rparr>)
      | (Inl e, s) \<Rightarrow> (Inl e, s))"

fun execute_all :: "Tx list \<Rightarrow> chain \<Rightarrow> Receipt list res \<times> chain" where
  "execute_all [] s = (Inr [], s)"
| "execute_all (tx # txs) s =
     (case execute_tx tx s of
        (Inl e, s) \<Rightarrow> (Inl e, s)
      | (Inr r, s) \<Rightarrow> (case execute_all txs s of (Inl e, s) \<Rightarrow> (Inl e, s) | (Inr rs, s) \<Rightarrow> (Inr (r # rs), s)))"

definition mine_block :: "chain \<Rightarrow> Receipt list res \<times> chain" where
  "mine_block s =
     (case execute_all (ch_mempool s) (s\<lparr>ch_mempool := []\<rparr>) of
        (Inl e, s) \<Rightarrow> (Inl e, s)
      | (Inr receipts, s) \<Rightarrow> (Inr receipts, s\<lparr>ch_blocks := ch_blocks s @ [receipts], ch_clock := ch_clock s + 1\<rparr>))"

definition register_rule_hook :: "string \<Rightarrow> (Tx \<Rightarrow> exn option) \<Rightarrow> chain \<Rightarrow> chain" where
  "register_rule_hook addr hook s = s\<lparr>ch_rule_hooks := dset addr hook (ch_rule_hooks s)\<rparr>"

definition snapshot_reserves :: "chain \<Rightarrow> int \<times> int" where
  "snapshot_reserves s = (amm_a (ch_amm s), amm_b (ch_amm s))"

section \<open>Operations on the chain\<close>

datatype chain_op = OpMint string string int | OpSubmit Tx | OpMine | OpHook string "Tx \<Rightarrow> exn option"

definition apply_op :: "primitives \<Rightarrow> chain \<Rightarrow> chain_op \<Rightarrow> chain" where
  "apply_op P s op =
     (case op of
        OpMint asset addr amount \<Rightarrow> (case chain_mint asset addr amount s of Inl _ \<Rightarrow> s | Inr s \<Rightarrow> s)
      | OpSubmit tx \<Rightarrow> (case submit P tx s of Inl _ \<Rightarrow> s | Inr s \<Rightarrow> s)
      | OpMine \<Rightarrow> snd (mine_block s)
      | OpHook addr hook \<Rightarrow> register_rule_hook addr hook s)"

definition minted :: "string \<Rightarrow> chain_op \<Rightarrow> int" where
  "minted asset op = (case op of OpMint a _ amount \<Rightarrow> if a = asset \<and> a \<in> {''TUSDC'', ''DRB''} then amount else 0 | _ \<Rightarrow> 0)"

section \<open>Supply\<close>

definition total_supply :: "string \<Rightarrow> chain \<Rightarrow> int" where
  "total_supply asset s = (case dget (ch_tokens s) asset of None \<Rightarrow> 0 | Some t \<Rightarrow> (\<Sum>v\<leftarrow>dvalues t. v))"

definition tokens_ok :: "chain \<Rightarrow> bool" where
  "tokens_ok s \<longleftrightarrow> (\<forall>asset t. dget (ch_tokens s) asset = Some t \<longrightarrow> dict_wf t) \<and>
     (\<forall>asset. dget (ch_tokens s) asset \<noteq> None \<longleftrightarrow> asset \<in> {''TUSDC'', ''DRB''})"

lemma sum_dset:
  fixes t :: token
  assumes "dict_wf t"
  shows "(\<Sum>x\<leftarrow>dvalues (dset k v t). x) = (\<Sum>x\<leftarrow>dvalues t. x) - dget_or t k 0 + v"
proof (cases "dget t k")
  case None
  with sum_dvalues_fresh [of t k "\<lambda>x. x" v] show ?thesis by (simp add: dget_or_def)
next
  case (Some w)
  with sum_dvalues_replace [OF assms Some, of "\<lambda>x. x" v] show ?thesis by (simp add: dget_or_def)
qed

lemma token_transfer_Inr:
  assumes "token_transfer frm to amount t = Inr t'" "dict_wf t"
  shows "dict_wf t'" "(\<Sum>x\<leftarrow>dvalues t'. x) = (\<Sum>x\<leftarrow>dvalues t. x)" "0 < amount" "amount \<le> token_balance t frm"
    "token_balance t' a = token_balance t a - (if a = frm then amount else 0) + (if a = to then amount else 0)"
proof -
  let ?u = "dset frm (token_balance t frm - amount) t"
  from assms(1) show amount: "0 < amount" "amount \<le> token_balance t frm" by (auto simp: token_transfer_def split: if_splits)
  from assms(1) have t': "t' = dset to (dget_or ?u to 0 + amount) ?u"
    by (auto simp: token_transfer_def Let_def split: if_splits)
  have u: "dict_wf ?u" using assms(2) by simp
  show "dict_wf t'" using u by (simp add: t')
  show "(\<Sum>x\<leftarrow>dvalues t'. x) = (\<Sum>x\<leftarrow>dvalues t. x)"
    unfolding t' sum_dset [OF u] sum_dset [OF assms(2)] by (simp add: token_balance_def)
  show "token_balance t' a = token_balance t a - (if a = frm then amount else 0) + (if a = to then amount else 0)"
    by (simp add: t' token_balance_def dget_or_def)
qed

lemma token_mint_facts:
  assumes "dict_wf t"
  shows "dict_wf (token_mint addr amount t)" "(\<Sum>x\<leftarrow>dvalues (token_mint addr amount t). x) = (\<Sum>x\<leftarrow>dvalues t. x) + amount"
    "token_balance (token_mint addr amount t) a = token_balance t a + (if a = addr then amount else 0)"
  using assms sum_dset [OF assms, of addr "dget_or t addr 0 + amount"]
  by (simp_all add: token_mint_def token_balance_def) (simp add: dget_or_def)

text \<open>What keeps the supply: the same tokens with the same sums.\<close>

definition keeps_supply :: "chain \<Rightarrow> chain \<Rightarrow> bool" where
  "keeps_supply s s' \<longleftrightarrow> (tokens_ok s \<longrightarrow> tokens_ok s' \<and> (\<forall>asset. total_supply asset s' = total_supply asset s))"

lemma keeps_supply_same: "ch_tokens s' = ch_tokens s \<Longrightarrow> keeps_supply s s'"
  by (simp add: keeps_supply_def tokens_ok_def total_supply_def)

lemma keeps_supply_trans: "keeps_supply s t \<Longrightarrow> keeps_supply t u \<Longrightarrow> keeps_supply s u"
  by (simp add: keeps_supply_def)

lemma move_supply:
  assumes "move asset frm to amount s = (r, s')"
  shows "keeps_supply s s'"
proof (cases "rbind (token_of s asset) (token_transfer frm to amount)")
  case (Inl e)
  with assms show ?thesis by (simp add: move_def keeps_supply_same)
next
  case (Inr t')
  then obtain t where t: "dget (ch_tokens s) asset = Some t" "token_transfer frm to amount t = Inr t'"
    by (auto simp: token_of_def rbind_Inr_iff of_option_def split: option.splits)
  have s': "s' = s\<lparr>ch_tokens := dset asset t' (ch_tokens s)\<rparr>" using assms Inr by (simp add: move_def)
  show ?thesis
    unfolding keeps_supply_def
  proof
    assume ok: "tokens_ok s"
    then have wf: "dict_wf t" using t(1) by (simp add: tokens_ok_def)
    note facts = token_transfer_Inr(1,2) [OF t(2) wf]
    have "dget (ch_tokens s) asset \<noteq> None" using t(1) by simp
    then have "asset \<in> {''TUSDC'', ''DRB''}" using ok unfolding tokens_ok_def by blast
    then show "tokens_ok s' \<and> (\<forall>asset. total_supply asset s' = total_supply asset s)"
      using ok facts t(1) unfolding s' tokens_ok_def total_supply_def by auto
  qed
qed

lemma execute_swap_supply:
  assumes "execute_swap tx s = (r, s')"
  shows "keeps_supply s s'"
proof -
  have base: "keeps_supply s (s\<lparr>ch_amm := m\<rparr>)" for m by (rule keeps_supply_same) simp
  from assms show ?thesis
    unfolding execute_swap_def
    by (auto simp: keeps_supply_same split: sum.splits prod.splits
        intro: keeps_supply_trans [OF base] keeps_supply_trans [OF base keeps_supply_trans] dest!: move_supply)
qed

lemma run_tx_supply: "run_tx tx s = (r, s') \<Longrightarrow> keeps_supply s s'"
  unfolding run_tx_def
  by (auto simp: keeps_supply_same split: sum.splits prod.splits if_splits option.splits dest: move_supply execute_swap_supply)

lemma keeps_supply_events: "keeps_supply s t \<Longrightarrow> keeps_supply s (t\<lparr>ch_events := e\<rparr>)"
  by (simp add: keeps_supply_def tokens_ok_def total_supply_def)

lemma execute_tx_supply: "execute_tx tx s = (r, s') \<Longrightarrow> keeps_supply s s'"
  unfolding execute_tx_def
  by (auto split: sum.splits prod.splits exn.splits dest!: run_tx_supply intro: keeps_supply_events)

lemma execute_all_supply: "execute_all txs s = (r, s') \<Longrightarrow> keeps_supply s s'"
proof (induction txs arbitrary: s r s')
  case (Cons tx txs)
  obtain r1 s1 where one: "execute_tx tx s = (r1, s1)" by (cases "execute_tx tx s")
  obtain r2 s2 where rest: "execute_all txs s1 = (r2, s2)" by (cases "execute_all txs s1")
  from execute_tx_supply [OF one] keeps_supply_trans [OF execute_tx_supply [OF one] Cons.IH [OF rest]] Cons.prems one rest
  show ?case by (auto split: sum.splits)
qed (auto simp: keeps_supply_same)

lemma mine_block_supply: "keeps_supply s (snd (mine_block s))"
proof -
  obtain r s1 where run: "execute_all (ch_mempool s) (s\<lparr>ch_mempool := []\<rparr>) = (r, s1)" by (cases "execute_all (ch_mempool s) (s\<lparr>ch_mempool := []\<rparr>)")
  have "keeps_supply s (s\<lparr>ch_mempool := []\<rparr>)" by (rule keeps_supply_same) simp
  with execute_all_supply [OF run] have "keeps_supply s s1" by (rule keeps_supply_trans [rotated])
  moreover have "keeps_supply s1 (s1\<lparr>ch_blocks := bs, ch_clock := c\<rparr>)" for bs c by (rule keeps_supply_same) simp
  ultimately show ?thesis using keeps_supply_trans by (auto simp: mine_block_def run split: sum.split)
qed

lemma chain_op_supply:
  assumes "tokens_ok s"
  shows "tokens_ok (apply_op P s op) \<and> total_supply asset (apply_op P s op) = total_supply asset s + minted asset op"
proof (cases op)
  case (OpMint a addr amount)
  show ?thesis
  proof (cases "dget (ch_tokens s) a")
    case None
    then have "a \<notin> {''TUSDC'', ''DRB''}" using assms unfolding tokens_ok_def by blast
    with None OpMint assms show ?thesis by (simp add: apply_op_def chain_mint_def token_of_def minted_def)
  next
    case (Some t)
    then have a: "a \<in> {''TUSDC'', ''DRB''}" "dict_wf t" using assms unfolding tokens_ok_def by auto
    have "apply_op P s op = s\<lparr>ch_tokens := dset a (token_mint addr amount t) (ch_tokens s)\<rparr>"
      using Some by (simp add: OpMint apply_op_def chain_mint_def token_of_def)
    with assms a Some token_mint_facts(1,2) [OF a(2)] show ?thesis
      unfolding tokens_ok_def total_supply_def minted_def OpMint by auto
  qed
next
  case (OpSubmit tx)
  have "ch_tokens (apply_op P s op) = ch_tokens s"
    by (auto simp: OpSubmit apply_op_def submit_def Let_def rbind_Inr_iff split: sum.split)
  with assms show ?thesis by (simp add: OpSubmit minted_def tokens_ok_def total_supply_def)
next
  case OpMine
  with assms mine_block_supply [of s] show ?thesis by (simp add: apply_op_def minted_def keeps_supply_def)
next
  case (OpHook addr hook)
  with assms show ?thesis by (simp add: apply_op_def minted_def register_rule_hook_def tokens_ok_def total_supply_def)
qed

section \<open>The market\<close>

text \<open>A quote for a non-negative amount is less than the reserve it is paid from, and the product of
  the reserves does not decrease.\<close>

lemma quote_bounds:
  fixes rin rout amount :: int
  assumes "0 < rin" "0 < rout" "0 \<le> amount"
  defines "out \<equiv> (amount * (10000 - FEE_BPS) * rout) div (rin * 10000 + amount * (10000 - FEE_BPS))"
  shows "0 \<le> out" "out < rout" "rin * rout \<le> (rin + amount) * (rout - out)" "amount = 0 \<Longrightarrow> out = 0"
proof -
  let ?d = "rin * 10000 + amount * 9970"
  have d: "0 < ?d" using assms(1,3) by (simp add: add_pos_nonneg)
  have out: "out = (amount * 9970 * rout) div ?d" by (simp add: out_def FEE_BPS_def)
  show "0 \<le> out" unfolding out using d assms(2,3) by (simp add: pos_imp_zdiv_nonneg_iff)
  show "amount = 0 \<Longrightarrow> out = 0" by (simp add: out)
  have le: "out * ?d \<le> amount * 9970 * rout"
    using div_mult_mod_eq [of "amount * 9970 * rout" ?d] pos_mod_sign [OF d, of "amount * 9970 * rout"] by (simp add: out)
  have "amount * 9970 * rout < ?d * rout" using assms(1,2) by (intro mult_strict_right_mono) simp_all
  with le have "out * ?d < rout * ?d" by (simp add: mult.commute)
  then show less: "out < rout" using d by (simp add: mult_less_cancel_right)
  have "out * rin * 10000 \<le> amount * 9970 * (rout - out)" using le by (simp add: algebra_simps)
  also have "\<dots> \<le> amount * 10000 * (rout - out)" using assms(3) less by (intro mult_right_mono mult_left_mono) simp_all
  finally have "out * rin * 10000 \<le> amount * (rout - out) * 10000" by (simp add: algebra_simps)
  then have "out * rin \<le> amount * (rout - out)" by simp
  then show "rin * rout \<le> (rin + amount) * (rout - out)" by (simp add: algebra_simps)
qed

definition pool_of :: "chain \<Rightarrow> string \<Rightarrow> int" where
  "pool_of s asset = (case dget (ch_tokens s) asset of None \<Rightarrow> 0 | Some t \<Rightarrow> token_balance t pool)"

definition solvent :: "int \<Rightarrow> chain \<Rightarrow> bool" where
  "solvent k s \<longleftrightarrow> tokens_ok s \<and> 0 < amm_a (ch_amm s) \<and> 0 < amm_b (ch_amm s) \<and> k \<le> amm_a (ch_amm s) * amm_b (ch_amm s) \<and>
     amm_a (ch_amm s) \<le> pool_of s ''TUSDC'' \<and> amm_b (ch_amm s) \<le> pool_of s ''DRB''"

text \<open>A swap in one of the two directions of the market, of a non-negative amount.\<close>

definition market_tx :: "Tx \<Rightarrow> bool" where
  "market_tx tx \<longleftrightarrow> tx_sender tx \<noteq> pool \<and> (tx_kind tx = SWAP \<longrightarrow> 0 \<le> tx_amount_in tx \<and>
     (tx_token_in tx, tx_token_out tx) \<in> {(''TUSDC'', ''DRB''), (''DRB'', ''TUSDC'')})"

lemma move_cases:
  assumes "move asset frm to amount s = (r, s')" "tokens_ok s"
  shows "(isl r \<and> s' = s) \<or> (r = Inr () \<and> 0 < amount \<and> tokens_ok s' \<and> ch_amm s' = ch_amm s \<and>
     (\<forall>a. pool_of s' a = pool_of s a - (if a = asset \<and> frm = pool then amount else 0) + (if a = asset \<and> to = pool then amount else 0)))"
proof (cases "rbind (token_of s asset) (token_transfer frm to amount)")
  case (Inl e)
  with assms show ?thesis by (auto simp: move_def)
next
  case (Inr t')
  then obtain t where t: "dget (ch_tokens s) asset = Some t" "token_transfer frm to amount t = Inr t'"
    by (auto simp: token_of_def rbind_Inr_iff of_option_def split: option.splits)
  have s': "s' = s\<lparr>ch_tokens := dset asset t' (ch_tokens s)\<rparr>" "r = Inr ()" using assms Inr by (auto simp: move_def)
  have wf: "dict_wf t" using t(1) assms(2) by (simp add: tokens_ok_def)
  note facts = token_transfer_Inr [OF t(2) wf]
  have "tokens_ok s'" using move_supply [OF assms(1)] assms(2) by (simp add: keeps_supply_def)
  moreover have "pool_of s' a = pool_of s a - (if a = asset \<and> frm = pool then amount else 0) + (if a = asset \<and> to = pool then amount else 0)" for a
    using facts(5) [of pool] t(1) by (auto simp: pool_of_def s')
  ultimately show ?thesis using facts(3) s' by auto
qed

lemma transfer_solvent:
  assumes "solvent k s" "move asset frm to amount s = (r, s')" "frm \<noteq> pool"
  shows "solvent k s'"
proof -
  have "tokens_ok s" using assms(1) by (simp add: solvent_def)
  from move_cases [OF assms(2) this] show ?thesis
  proof (elim disjE conjE)
    assume up: "0 < amount" "tokens_ok s'" "ch_amm s' = ch_amm s" and holds: "\<forall>a. pool_of s' a = pool_of s a -
      (if a = asset \<and> frm = pool then amount else 0) + (if a = asset \<and> to = pool then amount else 0)"
    have "pool_of s a \<le> pool_of s' a" for a using holds assms(3) up(1) by simp
    from this [of "''TUSDC''"] this [of "''DRB''"] up(2,3) assms(1) show ?thesis by (simp add: solvent_def)
  qed (use assms(1) in simp)
qed

text \<open>A swap after the market moved: the input arrives unless it is zero, and the output leaves unless
  it is zero; in both cases the reserves are still covered.\<close>

lemma swap_moves:
  assumes ok: "tokens_ok s" and sender: "sender \<noteq> pool" and neq: "ain \<noteq> aout"
    and m1: "move ain sender pool x s = (r1, s1)" and m2: "\<not> isl r1 \<Longrightarrow> move aout pool sender out s1 = (r2, s2)"
    and end1: "isl r1 \<Longrightarrow> s2 = s1" and x: "isl r1 \<Longrightarrow> x = 0 \<and> out = 0" and out: "\<not> isl r1 \<Longrightarrow> isl r2 \<Longrightarrow> out = 0"
  shows "tokens_ok s2 \<and> ch_amm s2 = ch_amm s \<and> pool_of s2 ain = pool_of s ain + x \<and> pool_of s2 aout = pool_of s aout - out"
proof (cases "isl r1")
  case True
  with move_cases [OF m1 ok] end1 x ok show ?thesis by auto
next
  case False
  with move_cases [OF m1 ok] sender have s1: "tokens_ok s1" "ch_amm s1 = ch_amm s"
    "\<And>a. pool_of s1 a = pool_of s a + (if a = ain then x else 0)" by auto
  from move_cases [OF m2 [OF False] s1(1)] show ?thesis
  proof (elim disjE conjE)
    assume "isl r2" "s2 = s1"
    with s1 neq out [OF False] show ?thesis by auto
  next
    assume "tokens_ok s2" "ch_amm s2 = ch_amm s1" and "\<forall>a. pool_of s2 a = pool_of s1 a -
      (if a = aout \<and> pool = pool then out else 0) + (if a = aout \<and> sender = pool then out else 0)"
    with s1 neq sender show ?thesis by auto
  qed
qed

lemma move_total:
  assumes "dget (ch_tokens s) asset = Some t" "0 < amount" "amount \<le> token_balance t frm"
  shows "\<not> isl (fst (move asset frm to amount s))"
  using assms by (simp add: move_def token_of_def token_transfer_def Let_def)

lemma execute_swap_solvent:
  assumes sol: "solvent k s" and run: "execute_swap tx s = (r, s')" and tx: "market_tx tx" "tx_kind tx = SWAP"
  shows "solvent k s'"
proof (cases "rbind (token_of s (tx_token_in tx)) (\<lambda>tok_in. rbind (token_of s (tx_token_out tx)) (\<lambda>_.
     if token_balance tok_in (tx_sender tx) < tx_amount_in tx then Inl (InsufficientFunds ''swap input exceeds balance'')
     else amm_swap (tx_token_in tx) (tx_amount_in tx) (tx_min_out tx) (ch_amm s)))")
  case (Inl e)
  with sol run show ?thesis by (simp add: execute_swap_def)
next
  case (Inr res)
  obtain out m where res: "res = (out, m)" by (cases res)
  let ?ain = "tx_token_in tx" and ?aout = "tx_token_out tx" and ?x = "tx_amount_in tx" and ?s = "s\<lparr>ch_amm := m\<rparr>"
  from Inr obtain t where t: "dget (ch_tokens s) ?ain = Some t" "?x \<le> token_balance t (tx_sender tx)"
    and swap: "amm_swap ?ain ?x (tx_min_out tx) (ch_amm s) = Inr (out, m)"
    by (auto simp: res token_of_def rbind_Inr_iff of_option_def not_less split: option.splits if_splits)
  from tx have mk: "tx_sender tx \<noteq> pool" "0 \<le> ?x" "?ain \<noteq> ?aout"
    "(?ain, ?aout) = (''TUSDC'', ''DRB'') \<or> (?ain, ?aout) = (''DRB'', ''TUSDC'')" by (auto simp: market_tx_def)
  have ok: "tokens_ok ?s" using sol by (simp add: solvent_def tokens_ok_def)
  obtain r1 s1 where m1: "move ?ain (tx_sender tx) pool ?x ?s = (r1, s1)" by (cases "move ?ain (tx_sender tx) pool ?x ?s")
  obtain r2 s2 where m2: "move ?aout pool (tx_sender tx) out s1 = (r2, s2)" by (cases "move ?aout pool (tx_sender tx) out s1")
  have s': "s' = (if isl r1 then s1 else s2)" using run Inr m1 m2 by (auto simp: execute_swap_def res split: sum.splits)
  define rin rout where "rin = (if ?ain = ''TUSDC'' then amm_a (ch_amm s) else amm_b (ch_amm s))"
    and "rout = (if ?ain = ''TUSDC'' then amm_b (ch_amm s) else amm_a (ch_amm s))"
  have pos: "0 < rin" "0 < rout" using sol by (simp_all add: rin_def rout_def solvent_def)
  note q = quote_bounds [OF pos mk(2)]
  have out: "out = (?x * (10000 - FEE_BPS) * rout) div (rin * 10000 + ?x * (10000 - FEE_BPS))"
    using swap by (auto simp: amm_swap_def amm_quote_def rin_def rout_def rbind_Inr_iff Let_def split: if_splits)
  note q = q [folded out]
  have x0: "?x = 0 \<and> out = 0" if "isl r1"
    using move_total [of ?s ?ain t ?x "tx_sender tx" pool] that t mk(2) m1 q(4) by (cases "?x = 0") auto
  have held: "rout \<le> pool_of s ?aout" using sol mk(4) by (auto simp: solvent_def rout_def)
  have out0: "out = 0" if "\<not> isl r1" "isl r2"
  proof (rule ccontr)
    assume "out \<noteq> 0"
    with q(1) have "0 < out" by simp
    from move_cases [OF m1 ok] that(1) mk(1,3) have s1: "tokens_ok s1" "pool_of s1 ?aout = pool_of s ?aout"
      by (auto simp: pool_of_def)
    have "?aout \<in> {''TUSDC'', ''DRB''}" using mk(4) by auto
    then have "dget (ch_tokens s1) ?aout \<noteq> None" using s1(1) unfolding tokens_ok_def by blast
    then obtain u where u: "dget (ch_tokens s1) ?aout = Some u" by blast
    have "out \<le> token_balance u pool" using u s1(2) held q(2) by (simp add: pool_of_def)
    from move_total [OF u \<open>0 < out\<close> this, of "tx_sender tx"] m2 that(2) show False by simp
  qed
  have moved: "tokens_ok s' \<and> ch_amm s' = ch_amm ?s \<and> pool_of s' ?ain = pool_of ?s ?ain + ?x \<and> pool_of s' ?aout = pool_of ?s ?aout - out"
    by (rule swap_moves [OF ok mk(1,3) m1]) (use m2 s' x0 out0 in auto)
  have amm: "m = (if ?ain = ''TUSDC'' then \<lparr>amm_a = rin + ?x, amm_b = rout - out\<rparr> else \<lparr>amm_a = rout - out, amm_b = rin + ?x\<rparr>)"
    using swap by (auto simp: amm_swap_def rbind_Inr_iff rin_def rout_def split: if_splits)
  have "k \<le> rin * rout" using sol by (auto simp: solvent_def rin_def rout_def mult.commute)
  with q(2,3) mk(2,4) pos moved sol show ?thesis
    by (auto simp: solvent_def amm rin_def rout_def pool_of_def mult.commute)
qed

lemma solvent_other:
  "ch_tokens s' = ch_tokens s \<Longrightarrow> ch_amm s' = ch_amm s \<Longrightarrow> solvent k s \<Longrightarrow> solvent k s'"
  by (simp add: solvent_def tokens_ok_def pool_of_def)

lemma run_tx_solvent:
  assumes "solvent k s" "run_tx tx s = (r, s')" "market_tx tx"
  shows "solvent k s'"
proof (cases "check_hook tx s")
  case (Inl e)
  with assms show ?thesis by (simp add: run_tx_def)
next
  case (Inr u)
  show ?thesis
  proof (cases "tx_kind tx")
    case TRANSFER
    show ?thesis
    proof (cases "tx_to tx")
      case None
      with assms Inr TRANSFER show ?thesis by (simp add: run_tx_def)
    next
      case (Some to)
      obtain r1 s1 where m: "move (tx_asset tx) (tx_sender tx) to (tx_amount tx) s = (r1, s1)"
        by (cases "move (tx_asset tx) (tx_sender tx) to (tx_amount tx) s")
      with assms(2) Inr TRANSFER Some have "s' = s1" by (auto simp: run_tx_def split: sum.splits)
      with transfer_solvent [OF assms(1) m] assms(3) show ?thesis by (simp add: market_tx_def)
    qed
  next
    case SWAP
    with assms Inr execute_swap_solvent show ?thesis by (simp add: run_tx_def)
  qed
qed

lemma move_mempool: "move a f t x s = (r, s') \<Longrightarrow> ch_mempool s' = ch_mempool s"
  by (auto simp: move_def split: sum.splits)

lemma execute_swap_mempool: "execute_swap tx s = (r, s') \<Longrightarrow> ch_mempool s' = ch_mempool s"
  unfolding execute_swap_def by (auto split: sum.splits prod.splits dest!: move_mempool)

lemma run_tx_mempool: "run_tx tx s = (r, s') \<Longrightarrow> ch_mempool s' = ch_mempool s"
  unfolding run_tx_def
  by (auto split: sum.splits prod.splits if_splits option.splits dest!: move_mempool execute_swap_mempool)

lemma execute_tx_solvent:
  assumes "solvent k s" "execute_tx tx s = (r, s')" "market_tx tx"
  shows "solvent k s'" "ch_mempool s' = ch_mempool s"
proof -
  obtain r1 s1 where run: "run_tx tx s = (r1, s1)" by (cases "run_tx tx s")
  have same: "ch_tokens s' = ch_tokens s1 \<and> ch_amm s' = ch_amm s1 \<and> ch_mempool s' = ch_mempool s1"
    using assms(2) unfolding execute_tx_def run by (auto split: sum.splits exn.splits)
  then show "ch_mempool s' = ch_mempool s" using run_tx_mempool [OF run] by simp
  show "solvent k s'" by (rule solvent_other [OF _ _ run_tx_solvent [OF assms(1) run assms(3)]]) (use same in simp_all)
qed

lemma execute_all_solvent:
  "execute_all txs s = (r, s') \<Longrightarrow> solvent k s \<Longrightarrow> \<forall>tx\<in>set txs. market_tx tx \<Longrightarrow> solvent k s' \<and> ch_mempool s' = ch_mempool s"
proof (induction txs arbitrary: s r s')
  case (Cons tx txs)
  obtain r1 s1 where one: "execute_tx tx s = (r1, s1)" by (cases "execute_tx tx s")
  obtain r2 s2 where rest: "execute_all txs s1 = (r2, s2)" by (cases "execute_all txs s1")
  have s1: "solvent k s1" "ch_mempool s1 = ch_mempool s"
    using execute_tx_solvent [OF Cons.prems(2) one] Cons.prems(3) by simp_all
  have "solvent k s2 \<and> ch_mempool s2 = ch_mempool s1" using Cons.prems(3) by (intro Cons.IH [OF rest s1(1)]) simp
  moreover have "s' = s1 \<or> s' = s2" using Cons.prems(1) one rest by (auto split: sum.splits)
  ultimately show ?case using s1 by auto
qed simp

text \<open>Authorized senders are addresses, so the pool never sends, and market operations keep the pool solvent.\<close>

definition market_op :: "chain_op \<Rightarrow> bool" where
  "market_op op = (case op of
     OpMint _ _ amount \<Rightarrow> 0 \<le> amount
   | OpSubmit tx \<Rightarrow> tx_kind tx = SWAP \<longrightarrow> 0 \<le> tx_amount_in tx \<and>
       (tx_token_in tx, tx_token_out tx) \<in> {(''TUSDC'', ''DRB''), (''DRB'', ''TUSDC'')}
   | _ \<Rightarrow> True)"

lemma authorized_sender:
  assumes "verify_authorization P tx s = Inr ()"
  shows "tx_sender tx \<noteq> pool"
proof
  assume pool: "tx_sender tx = pool"
  from assms obtain pub sig where "verify_with_address P (tx_sender tx) (tx_digest P tx) sig pub"
    by (auto simp: verify_authorization_def rbind_Inr_iff split: option.splits if_splits)
  then have "address_of P pub = lower pool \<or> address_of P pub = pool"
    by (auto simp: verify_with_address_def pool split: if_splits)
  moreover have "lower pool = pool" by code_simp
  ultimately have "hd (address_of P pub) = hd pool" by auto
  then show False by (simp add: address_of_def pool_def)
qed

lemma apply_op_solvent:
  assumes "solvent k s" "\<forall>tx\<in>set (ch_mempool s). market_tx tx" "market_op op"
  shows "solvent k (apply_op P s op) \<and> (\<forall>tx\<in>set (ch_mempool (apply_op P s op)). market_tx tx)"
proof (cases op)
  case (OpMint a addr amount)
  show ?thesis
  proof (cases "dget (ch_tokens s) a")
    case None
    with assms OpMint show ?thesis by (simp add: apply_op_def chain_mint_def token_of_def)
  next
    case (Some t)
    have new: "apply_op P s op = s\<lparr>ch_tokens := dset a (token_mint addr amount t) (ch_tokens s)\<rparr>"
      using Some by (simp add: OpMint apply_op_def chain_mint_def token_of_def)
    have ok: "tokens_ok s" using assms(1) by (simp add: solvent_def)
    then have wf: "dict_wf t" using Some by (simp add: tokens_ok_def)
    have "tokens_ok (apply_op P s op)" using chain_op_supply [OF ok] by blast
    moreover have "pool_of s b \<le> pool_of (apply_op P s op) b" for b
      using assms(3) Some token_mint_facts(3) [OF wf, of addr amount pool] unfolding new
      by (auto simp: pool_of_def OpMint market_op_def)
    from this [of "''TUSDC''"] this [of "''DRB''"] have "pool_of s ''TUSDC'' \<le> pool_of (apply_op P s op) ''TUSDC''"
      "pool_of s ''DRB'' \<le> pool_of (apply_op P s op) ''DRB''" by simp_all
    moreover have "ch_amm (apply_op P s op) = ch_amm s" "ch_mempool (apply_op P s op) = ch_mempool s" by (simp_all add: new)
    ultimately show ?thesis using assms(1,2) by (simp add: solvent_def)
  qed
next
  case (OpSubmit tx)
  show ?thesis
  proof (cases "submit P tx s")
    case (Inl e)
    with assms OpSubmit show ?thesis by (simp add: apply_op_def)
  next
    case (Inr s1)
    then have "verify_authorization P tx s = Inr ()" by (auto simp: submit_def rbind_Inr_iff)
    then have "market_tx (tx\<lparr>tx_submitted_at := ch_clock s\<rparr>)"
      using assms(3) authorized_sender by (simp add: market_tx_def market_op_def OpSubmit)
    moreover have "solvent k s1" by (rule solvent_other [OF _ _ assms(1)]) (use Inr in \<open>auto simp: submit_def rbind_Inr_iff Let_def\<close>)
    ultimately show ?thesis using assms(2) Inr by (auto simp: OpSubmit apply_op_def submit_def rbind_Inr_iff Let_def)
  qed
next
  case OpMine
  obtain r s1 where run: "execute_all (ch_mempool s) (s\<lparr>ch_mempool := []\<rparr>) = (r, s1)"
    by (cases "execute_all (ch_mempool s) (s\<lparr>ch_mempool := []\<rparr>)")
  have start: "solvent k (s\<lparr>ch_mempool := []\<rparr>)" by (rule solvent_other [OF _ _ assms(1)]) simp_all
  from execute_all_solvent [OF run start assms(2)] have s1: "solvent k s1" "ch_mempool s1 = []" by simp_all
  moreover have "solvent k (s1\<lparr>ch_blocks := b, ch_clock := c\<rparr>)" for b c by (rule solvent_other [OF _ _ s1(1)]) simp_all
  ultimately show ?thesis by (auto simp: OpMine apply_op_def mine_block_def run split: sum.split)
next
  case (OpHook addr hook)
  have "solvent k (apply_op P s op)" by (rule solvent_other [OF _ _ assms(1)]) (simp_all add: OpHook apply_op_def register_rule_hook_def)
  with assms(2) show ?thesis by (simp add: OpHook apply_op_def register_rule_hook_def)
qed

section \<open>Properties\<close>

text \<open>C26. Conservation: whatever operations are applied to a new chain, blocks with failing or reverted
  transactions and rule hooks included, the total balance of each token is what the pool was
  funded with plus what was minted.\<close>

theorem chain_conserves_tokens:
  assumes "LocalChain_init a b chain_id = Inr s0"
  shows "total_supply asset (foldl (apply_op P) s0 ops) =
    (if asset = ''TUSDC'' then a else if asset = ''DRB'' then b else 0) + (\<Sum>op\<leftarrow>ops. minted asset op)"
proof -
  have s0: "tokens_ok s0" "total_supply asset s0 = (if asset = ''TUSDC'' then a else if asset = ''DRB'' then b else 0)"
    using assms by (auto simp: LocalChain_init_def rbind_Inr_iff tokens_ok_def total_supply_def token_mint_def dget_or_def
        dvalues_def dict_wf_def split: if_splits)
  have "tokens_ok s \<Longrightarrow> total_supply asset (foldl (apply_op P) s ops) = total_supply asset s + (\<Sum>op\<leftarrow>ops. minted asset op)" for s
    by (induction ops arbitrary: s) (simp_all add: chain_op_supply)
  with s0 show ?thesis by simp
qed

theorem chain_conserves_tokens_witness:
  "total_supply ''TUSDC'' (foldl (apply_op prims) (projr (LocalChain_init 1000 500 1)) [OpMint ''TUSDC'' ''alice'' 7, OpMine]) = 1007"
proof -
  have "LocalChain_init 1000 500 1 = Inr (projr (LocalChain_init 1000 500 1))"
    by (simp add: LocalChain_init_def ConstantProductAMM_init_def)
  from chain_conserves_tokens [OF this, of "''TUSDC''" prims "[OpMint ''TUSDC'' ''alice'' 7, OpMine]"]
  show ?thesis by (simp add: minted_def)
qed

text \<open>C30. Solvency of the market: as long as submitted swaps exchange the two assets of the pool and
  amounts are not negative, the pool account holds at least the reserves of the market after
  any operations, both reserves stay positive, and their product never falls below the initial
  one, also when a swap reverts halfway. (The code does not require the two assets to differ, nor
  the amount to be positive.)\<close>

theorem market_stays_solvent:
  assumes "LocalChain_init a b chain_id = Inr s0" "list_all market_op ops"
  shows "solvent (a * b) (foldl (apply_op P) s0 ops)"
proof -
  have s0: "solvent (a * b) s0" "\<forall>tx\<in>set (ch_mempool s0). market_tx tx"
    using assms(1) by (auto simp: LocalChain_init_def ConstantProductAMM_init_def rbind_Inr_iff solvent_def tokens_ok_def
        pool_of_def token_balance_def token_mint_def dget_or_def dict_wf_def split: if_splits)
  have "solvent k s \<Longrightarrow> \<forall>tx\<in>set (ch_mempool s). market_tx tx \<Longrightarrow> list_all market_op ops \<Longrightarrow> solvent k (foldl (apply_op P) s ops)" for k s
  proof (induction ops arbitrary: s)
    case (Cons op ops)
    with apply_op_solvent [OF Cons.prems(1,2), of op P] show ?case by simp
  qed simp
  with s0 assms(2) show ?thesis by blast
qed

theorem market_stays_solvent_witness:
  "solvent (1000 * 500) (foldl (apply_op prims) (projr (LocalChain_init 1000 500 1)) [OpMint ''TUSDC'' ''alice'' 7, OpMine])"
proof -
  have "LocalChain_init 1000 500 1 = Inr (projr (LocalChain_init 1000 500 1))"
    by (simp add: LocalChain_init_def ConstantProductAMM_init_def)
  moreover have "list_all market_op [OpMint ''TUSDC'' ''alice'' 7, OpMine]" by (simp add: market_op_def)
  ultimately show ?thesis by (rule market_stays_solvent)
qed

end
