(* ===== verification/WalletPolicy.thy ===== *)
theory WalletPolicy
  imports LocalChain
begin

text \<open>
  \<open>src/agentwallet/guard/policy.py\<close>, \<open>payments/mandates.py\<close> and \<open>guard/engine.py\<close>: the policy
  language with its fail-closed loader, AP2 mandates, and the engine that decides proposals.

  \<^item> The YAML parser is a parameter from a text to its error message or the value it stands for;
    keys of mappings that are not strings are known by their type only.
  \<^item> The amount of a proposal is an arbitrary value, since the engine checks that it is a positive
    integer; the metadata of a proposal is a JSON document without floating-point numbers.
  \<^item> The clock of the engine is injected; a call sees one reading of it.

  Shown: a policy that loads has only known keys and values in range; the engine allows a proposal
  exactly when every rule of the policy permits it.
\<close>

section \<open>YAML values\<close>

datatype ykey = KStr string | KOther string

datatype yaml =
    YNull
  | YBool bool
  | YInt int
  | YFloat string
  | YStr string
  | YList "yaml list"
  | YMap "(ykey \<times> yaml) list"
  | YOther string bool

text \<open>A float is known by its \<open>repr\<close>. \<open>YOther\<close> is a date (not iterable) or a set or byte string
  (iterable over elements that are not mappings).\<close>

definition py_type :: "yaml \<Rightarrow> string" where
  "py_type v = (case v of YNull \<Rightarrow> ''NoneType'' | YBool _ \<Rightarrow> ''bool'' | YInt _ \<Rightarrow> ''int'' | YFloat _ \<Rightarrow> ''float''
     | YStr _ \<Rightarrow> ''str'' | YList _ \<Rightarrow> ''list'' | YMap _ \<Rightarrow> ''dict'' | YOther t _ \<Rightarrow> t)"

definition falsy :: "yaml \<Rightarrow> bool" where
  "falsy v = (case v of YNull \<Rightarrow> True | YBool b \<Rightarrow> \<not> b | YInt i \<Rightarrow> i = 0 | YFloat r \<Rightarrow> r = ''0.0'' \<or> r = ''-0.0''
     | YStr s \<Rightarrow> s = [] | YList l \<Rightarrow> l = [] | YMap m \<Rightarrow> m = [] | YOther _ b \<Rightarrow> \<not> b)"

definition yget :: "(ykey \<times> yaml) list \<Rightarrow> string \<Rightarrow> yaml \<Rightarrow> yaml" where
  "yget m k d = dget_or m (KStr k) d"

text \<open>\<open>data.get(key, default) or default\<close>\<close>

definition yget_or :: "(ykey \<times> yaml) list \<Rightarrow> string \<Rightarrow> yaml \<Rightarrow> yaml" where
  "yget_or m k d = (let v = yget m k d in if falsy v then d else v)"

text \<open>\<open>repr\<close> of a string, with non-ASCII characters taken as printable.\<close>

definition repr_char :: "char \<Rightarrow> char \<Rightarrow> string" where
  "repr_char q c =
     (if c = q \<or> c = backslash then [backslash, c]
      else if ascii c = 10 then backslash # ''n'' else if ascii c = 13 then backslash # ''r''
      else if ascii c = 9 then backslash # ''t''
      else if ascii c < 32 \<or> ascii c = 127 then backslash # ''x'' @ [hexdigit (ascii c div 16), hexdigit (ascii c mod 16)]
      else [c])"

definition py_repr :: "string \<Rightarrow> string" where
  "py_repr s =
     (let q = (if char_of (39 :: nat) \<in> set s \<and> quote_char \<notin> set s then quote_char else char_of (39 :: nat))
      in q # concat (map (repr_char q) s) @ [q])"

fun join :: "string \<Rightarrow> string list \<Rightarrow> string" where
  "join sep [] = []"
| "join sep [s] = s"
| "join sep (s # ss) = s @ sep @ join sep ss"

text \<open>\<open>sorted(unknown)\<close> in the message: keys of different types do not compare. Keys that are not
  strings are not rendered.\<close>

definition key_type :: "ykey \<Rightarrow> string" where
  "key_type k = (case k of KStr _ \<Rightarrow> ''str'' | KOther t \<Rightarrow> t)"

definition unknown_keys :: "ykey list \<Rightarrow> string \<Rightarrow> exn" where
  "unknown_keys ks what =
     (if \<exists>k\<in>set ks. \<exists>l\<in>set ks. key_type k \<noteq> key_type l then TypeError ''not supported between instances''
      else PolicyError (''unknown '' @ what @ '' keys: ['' @
        join '', '' (map py_repr (sort (concat (map (\<lambda>k. case k of KStr s \<Rightarrow> [s] | KOther _ \<Rightarrow> []) ks)))) @ '']''))"

section \<open>Policies\<close>

record WindowCap =
  wc_window_s :: int
  wc_cap :: int

record RiskPolicy =
  rk_dynamic_tightening :: bool
  rk_pool_move_threshold_bps :: int
  rk_max_slippage_bps :: int

record Policy =
  wp_name :: string
  wp_per_tx_cap :: int
  wp_window_caps :: "WindowCap list"
  wp_max_tx_per_window :: int
  wp_velocity_window_s :: int
  wp_allowed_assets :: "string list"
  wp_allowlist_recipients :: "string list"
  wp_blocklist_recipients :: "string list"
  wp_require_mandate_above :: int
  wp_risk :: RiskPolicy
  wp_kill_switch :: bool
  wp_raw :: "(ykey \<times> yaml) list"

text \<open>\<open>json.dumps(raw, sort_keys=True, separators=(",", ":"))\<close>: a loaded policy has string keys at
  every level and no value but those below.\<close>

fun emit_yaml :: "yaml \<Rightarrow> string" where
  "emit_yaml YNull = ''null''"
| "emit_yaml (YBool b) = (if b then ''true'' else ''false'')"
| "emit_yaml (YInt i) = show_int i"
| "emit_yaml (YFloat r) = r"
| "emit_yaml (YStr s) = json_string s"
| "emit_yaml (YList l) = ''['' @ join '','' (map emit_yaml l) @ '']''"
| "emit_yaml (YMap m) = ''{'' @ join '','' (map (\<lambda>(k, t). json_string k @ '':'' @ t)
     (sort_key fst (map (\<lambda>(k, v). (case k of KStr s \<Rightarrow> s | KOther t \<Rightarrow> t, emit_yaml v)) m))) @ ''}''"
| "emit_yaml (YOther t b) = []"

definition policy_raw_hash :: "primitives \<Rightarrow> Policy \<Rightarrow> string" where
  "policy_raw_hash P pol =
     sha256_hex P (encode (concat (map ascii_point (utf8_decode (map ascii (emit_yaml (YMap (wp_raw pol))))))))"

definition ALLOWED_KEYS :: "string list" where
  "ALLOWED_KEYS = [''name'', ''per_tx_cap'', ''window_caps'', ''velocity'', ''allowed_assets'', ''allowlist_recipients'',
     ''blocklist_recipients'', ''require_mandate_above'', ''risk'', ''kill_switch'']"

definition need_int :: "yaml \<Rightarrow> string \<Rightarrow> int res" where
  "need_int v what = (case v of
     YInt n \<Rightarrow> if n < 0 then Inl (PolicyError (what @ '' must be >= 0'')) else Inr n
   | _ \<Rightarrow> Inl (PolicyError (what @ '' must be an integer, got '' @ py_type v)))"

definition need_positive_int :: "yaml \<Rightarrow> string \<Rightarrow> int res" where
  "need_positive_int v what =
     rbind (need_int v what) (\<lambda>n. if n = 0 then Inl (PolicyError (what @ '' must be > 0'')) else Inr n)"

definition need_bool :: "yaml \<Rightarrow> string \<Rightarrow> bool res" where
  "need_bool v what = (case v of YBool b \<Rightarrow> Inr b
   | _ \<Rightarrow> Inl (PolicyError (what @ '' must be a boolean, got '' @ py_type v)))"

definition reject_unknown :: "(ykey \<times> yaml) list \<Rightarrow> string list \<Rightarrow> string \<Rightarrow> unit res" where
  "reject_unknown data allowed what =
     (let unknown = filter (\<lambda>k. k \<notin> KStr ` set allowed) (map fst data)
      in if unknown \<noteq> [] then Inl (unknown_keys unknown what) else Inr ())"

fun all_strings :: "yaml list \<Rightarrow> string list option" where
  "all_strings [] = Some []"
| "all_strings (YStr s # l) = map_option (Cons s) (all_strings l)"
| "all_strings (_ # l) = None"

definition need_str_list :: "yaml \<Rightarrow> string \<Rightarrow> string list res" where
  "need_str_list v what =
     of_option (PolicyError (what @ '' must be a list of strings'')) (case v of YList l \<Rightarrow> all_strings l | _ \<Rightarrow> None)"

text \<open>\<open>enumerate(value)\<close> of a value that is not falsy.\<close>

definition iterate :: "yaml \<Rightarrow> yaml list res" where
  "iterate v = (case v of
     YList l \<Rightarrow> Inr l
   | YStr s \<Rightarrow> Inr (map (\<lambda>c. YStr [c]) s)
   | YMap m \<Rightarrow> Inr (map (\<lambda>(k, _). case k of KStr s \<Rightarrow> YStr s | KOther t \<Rightarrow> YOther t True) m)
   | YOther t b \<Rightarrow> if t \<in> {''set'', ''bytes''} then Inr [YOther ''element'' True]
       else Inl (TypeError (char_of (39 :: nat) # t @ [char_of (39 :: nat)] @ '' object is not iterable''))
   | _ \<Rightarrow> Inl (TypeError (char_of (39 :: nat) # py_type v @ [char_of (39 :: nat)] @ '' object is not iterable'')))"

definition load_window_cap :: "nat \<Rightarrow> yaml \<Rightarrow> WindowCap res" where
  "load_window_cap i v =
     (let what = ''window_caps['' @ show_nat i @ '']'' in
      case v of
        YMap wc \<Rightarrow>
          rbind (reject_unknown wc [''window_s'', ''cap''] what) (\<lambda>_.
          rbind (need_positive_int (yget wc ''window_s'' (YInt 0)) (what @ ''.window_s'')) (\<lambda>w.
          rbind (need_int (yget wc ''cap'' (YInt 0)) (what @ ''.cap'')) (\<lambda>c.
          Inr \<lparr>wc_window_s = w, wc_cap = c\<rparr>)))
      | _ \<Rightarrow> Inl (PolicyError (what @ '' must be a mapping'')))"

fun load_window_caps :: "nat \<Rightarrow> yaml list \<Rightarrow> WindowCap list res" where
  "load_window_caps i [] = Inr []"
| "load_window_caps i (v # vs) =
     rbind (load_window_cap i v) (\<lambda>w. rbind (load_window_caps (Suc i) vs) (\<lambda>ws. Inr (w # ws)))"

definition need_map :: "yaml \<Rightarrow> string \<Rightarrow> (ykey \<times> yaml) list res" where
  "need_map v what = (case v of YMap m \<Rightarrow> Inr m | _ \<Rightarrow> Inl (PolicyError (what @ '' must be a mapping'')))"

definition load_velocity :: "(ykey \<times> yaml) list \<Rightarrow> (int \<times> int) res" where
  "load_velocity data =
     rbind (need_map (yget_or data ''velocity'' (YMap [])) ''velocity'') (\<lambda>vel.
     rbind (reject_unknown vel [''max_tx_per_window'', ''window_s''] ''velocity'') (\<lambda>_.
     rbind (need_int (yget vel ''max_tx_per_window'' (YInt 0)) ''velocity.max_tx_per_window'') (\<lambda>m.
     rbind (need_positive_int (yget vel ''window_s'' (YInt 3600)) ''velocity.window_s'') (\<lambda>w.
     Inr (m, w)))))"

definition load_risk :: "(ykey \<times> yaml) list \<Rightarrow> RiskPolicy res" where
  "load_risk data =
     rbind (need_map (yget_or data ''risk'' (YMap [])) ''risk'') (\<lambda>r.
     rbind (reject_unknown r [''dynamic_tightening'', ''pool_move_threshold_bps'', ''max_slippage_bps''] ''risk'') (\<lambda>_.
     rbind (need_bool (yget r ''dynamic_tightening'' (YBool False)) ''risk.dynamic_tightening'') (\<lambda>d.
     rbind (need_int (yget r ''pool_move_threshold_bps'' (YInt 100)) ''risk.pool_move_threshold_bps'') (\<lambda>t.
     rbind (need_int (yget r ''max_slippage_bps'' (YInt 100)) ''risk.max_slippage_bps'') (\<lambda>s.
     Inr \<lparr>rk_dynamic_tightening = d, rk_pool_move_threshold_bps = t, rk_max_slippage_bps = s\<rparr>)))))"

definition load_mapping :: "(ykey \<times> yaml) list \<Rightarrow> Policy res" where
  "load_mapping data =
     rbind (reject_unknown data ALLOWED_KEYS ''policy'') (\<lambda>_.
     rbind (case yget data ''name'' (YStr ''unnamed'') of YStr s \<Rightarrow> Inr s | _ \<Rightarrow> Inl (PolicyError ''name must be a string'')) (\<lambda>name.
     rbind (need_int (yget data ''per_tx_cap'' (YInt 0)) ''per_tx_cap'') (\<lambda>per_tx_cap.
     rbind (iterate (yget_or data ''window_caps'' (YList []))) (\<lambda>items.
     rbind (load_window_caps 0 items) (\<lambda>window_caps.
     rbind (load_velocity data) (\<lambda>(max_tx, vel_win).
     rbind (load_risk data) (\<lambda>risk.
     rbind (need_str_list (yget data ''allowed_assets'' (YList [YStr ''TUSDC''])) ''allowed_assets'') (\<lambda>assets.
     rbind (need_str_list (yget data ''allowlist_recipients'' (YList [])) ''allowlist_recipients'') (\<lambda>allowlist.
     rbind (need_str_list (yget data ''blocklist_recipients'' (YList [])) ''blocklist_recipients'') (\<lambda>blocklist.
     rbind (need_int (yget data ''require_mandate_above'' (YInt (2 ^ 63 - 1))) ''require_mandate_above'') (\<lambda>above.
     rbind (need_bool (yget data ''kill_switch'' (YBool False)) ''kill_switch'') (\<lambda>kill.
     Inr \<lparr>wp_name = name, wp_per_tx_cap = per_tx_cap, wp_window_caps = window_caps, wp_max_tx_per_window = max_tx,
       wp_velocity_window_s = vel_win, wp_allowed_assets = assets, wp_allowlist_recipients = allowlist,
       wp_blocklist_recipients = blocklist, wp_require_mandate_above = above, wp_risk = risk, wp_kill_switch = kill,
       wp_raw = data\<rparr>))))))))))))"

definition load_policy :: "(string \<Rightarrow> string + yaml) \<Rightarrow> string \<Rightarrow> Policy res" where
  "load_policy safe_load txt = (case safe_load txt of
     Inl e \<Rightarrow> Inl (PolicyError (''invalid YAML: '' @ e))
   | Inr (YMap data) \<Rightarrow> load_mapping data
   | Inr _ \<Rightarrow> Inl (PolicyError ''policy must be a mapping''))"

section \<open>AP2 mandates\<close>

record IntentMandate =
  im_user :: string
  im_agent :: string
  im_max_total :: int
  im_allowed_merchants :: "string list"
  im_expires_at :: int
  im_nonce :: string
  im_signature_hex :: string

record CartMandate =
  cm_merchant :: string
  cm_intent_hash :: string
  cm_items :: "string list"
  cm_total :: int
  cm_expires_at :: int
  cm_signature_hex :: string

definition intent_digest :: "IntentMandate \<Rightarrow> bytes" where
  "intent_digest m = json_dumps_ascii (obj
     [(''user'', JStr (im_user m)), (''agent'', JStr (im_agent m)), (''max_total'', JInt (im_max_total m)),
      (''allowed_merchants'', JList (map JStr (im_allowed_merchants m))), (''expires_at'', JInt (im_expires_at m)),
      (''nonce'', JStr (im_nonce m))])"

definition intent_sign :: "primitives \<Rightarrow> KeyPair \<Rightarrow> IntentMandate \<Rightarrow> IntentMandate" where
  "intent_sign P keys m = m\<lparr>im_signature_hex := bytes_hex (key_sign P keys (intent_digest m))\<rparr>"

definition intent_mandate_hash :: "primitives \<Rightarrow> IntentMandate \<Rightarrow> string" where
  "intent_mandate_hash P m = sha256_hex P (intent_digest m)"

definition hex_signature_ok :: "primitives \<Rightarrow> bytes \<Rightarrow> bytes \<Rightarrow> string \<Rightarrow> bool res" where
  "hex_signature_ok P pub msg sig_hex =
     rbind (of_option (ValueError ''non-hexadecimal number found in fromhex() arg'') (bytes_fromhex sig_hex)) (\<lambda>sig.
     Inr (ed25519_verify P pub sig msg))"

definition intent_verify_signature :: "primitives \<Rightarrow> IntentMandate \<Rightarrow> bytes \<Rightarrow> bool res" where
  "intent_verify_signature P m pub = hex_signature_ok P pub (intent_digest m) (im_signature_hex m)"

definition cart_digest :: "CartMandate \<Rightarrow> bytes" where
  "cart_digest m = json_dumps_ascii (obj
     [(''merchant'', JStr (cm_merchant m)), (''intent_hash'', JStr (cm_intent_hash m)), (''items'', JList (map JStr (cm_items m))),
      (''total'', JInt (cm_total m)), (''expires_at'', JInt (cm_expires_at m))])"

definition cart_sign :: "primitives \<Rightarrow> KeyPair \<Rightarrow> CartMandate \<Rightarrow> CartMandate" where
  "cart_sign P keys m = m\<lparr>cm_signature_hex := bytes_hex (key_sign P keys (cart_digest m))\<rparr>"

definition cart_verify_signature :: "primitives \<Rightarrow> CartMandate \<Rightarrow> bytes \<Rightarrow> bool res" where
  "cart_verify_signature P m pub = hex_signature_ok P pub (cart_digest m) (cm_signature_hex m)"

text \<open>\<open>MandateVerifier.check_payment_against_chain\<close>: the agent is a value of the metadata, hence a
  JSON value.\<close>

definition check_payment_against_chain ::
  "primitives \<Rightarrow> int \<Rightarrow> IntentMandate \<Rightarrow> CartMandate \<Rightarrow> bytes \<Rightarrow> bytes \<Rightarrow> json \<Rightarrow> string \<Rightarrow> int \<Rightarrow> int \<Rightarrow> (bool \<times> string) res" where
  "check_payment_against_chain P now intent cart user_pub merchant_pub agent merchant amount already_spent =
     rbind (intent_verify_signature P intent user_pub) (\<lambda>ok. if \<not> ok then Inr (False, ''bad intent signature'') else
     rbind (cart_verify_signature P cart merchant_pub) (\<lambda>ok. if \<not> ok then Inr (False, ''bad cart signature'') else
     if cm_intent_hash cart \<noteq> intent_mandate_hash P intent then Inr (False, ''cart not bound to intent'')
     else if im_expires_at intent < now \<or> cm_expires_at cart < now then Inr (False, ''mandate expired'')
     else if JStr (im_agent intent) \<noteq> agent then Inr (False, ''agent mismatch'')
     else if cm_merchant cart \<noteq> merchant then Inr (False, ''merchant mismatch'')
     else if im_allowed_merchants intent \<noteq> [] \<and> merchant \<notin> set (im_allowed_merchants intent)
       then Inr (False, ''merchant not allowed by intent'')
     else if cm_total cart \<noteq> amount then Inr (False, ''payment amount != cart total'')
     else if already_spent + amount > im_max_total intent then Inr (False, ''intent budget exceeded'')
     else Inr (True, ''ok'')))"

section \<open>The engine\<close>

record Proposal =
  pp_kind :: string
  pp_amount :: json
  pp_asset :: string
  pp_to :: string
  pp_token_in :: string
  pp_token_out :: string
  pp_min_out :: int
  pp_quoted_out :: int
  pp_purpose :: string
  pp_meta :: "(string, json) dict"

definition proposal_document :: "Proposal \<Rightarrow> json" where
  "proposal_document p = obj
     [(''kind'', JStr (pp_kind p)), (''amount'', pp_amount p), (''asset'', JStr (pp_asset p)), (''to'', JStr (pp_to p)),
      (''token_in'', JStr (pp_token_in p)), (''token_out'', JStr (pp_token_out p)), (''min_out'', JInt (pp_min_out p)),
      (''quoted_out'', JInt (pp_quoted_out p)), (''purpose'', JStr (pp_purpose p)), (''meta'', obj (pp_meta p))]"

definition proposal_canonical :: "Proposal \<Rightarrow> bytes" where
  "proposal_canonical p = json_dumps_ascii (proposal_document p)"

record Verdict =
  vd_allow :: bool
  vd_reasons :: "string list"

record SpendRecord =
  sr_ts :: int
  sr_amount :: int
  sr_asset :: string
  sr_to :: string

record PolicyEngine =
  en_policy :: Policy
  en_history :: "SpendRecord list"
  en_pool_move_bps :: int

definition PolicyEngine_init :: "Policy \<Rightarrow> PolicyEngine" where
  "PolicyEngine_init policy = \<lparr>en_policy = policy, en_history = [], en_pool_move_bps = 0\<rparr>"

text \<open>\<open>_validate\<close> returns the amount as an integer.\<close>

definition engine_validate :: "Proposal \<Rightarrow> int res" where
  "engine_validate p =
     (if pp_kind p \<noteq> ''transfer'' \<and> pp_kind p \<noteq> ''swap'' then Inl (MalformedProposal (''unknown kind '' @ py_repr (pp_kind p)))
      else case pp_amount p of
        JInt n \<Rightarrow>
          if n \<le> 0 then Inl (MalformedProposal ''amount must be a positive integer'')
          else if pp_kind p = ''transfer'' \<and> pp_to p = [] then Inl (MalformedProposal ''transfer requires recipient'')
          else Inr n
      | _ \<Rightarrow> Inl (MalformedProposal ''amount must be a positive integer''))"

text \<open>The integer of a validated amount.\<close>

definition amount_of :: "Proposal \<Rightarrow> int" where
  "amount_of p = (case pp_amount p of JInt n \<Rightarrow> n | _ \<Rightarrow> 0)"

definition engine_record :: "int \<Rightarrow> Proposal \<Rightarrow> PolicyEngine \<Rightarrow> PolicyEngine" where
  "engine_record now p e = e\<lparr>en_history := en_history e @
     [\<lparr>sr_ts = now, sr_amount = amount_of p, sr_asset = pp_asset p, sr_to = pp_to p\<rparr>]\<rparr>"

definition spent_in_window :: "int \<Rightarrow> PolicyEngine \<Rightarrow> int \<Rightarrow> int" where
  "spent_in_window now e window_s = (\<Sum>r\<leftarrow>filter (\<lambda>r. now - sr_ts r < window_s) (en_history e). sr_amount r)"

definition count_in_window :: "int \<Rightarrow> PolicyEngine \<Rightarrow> int \<Rightarrow> int" where
  "count_in_window now e window_s = int (length (filter (\<lambda>r. now - sr_ts r < window_s) (en_history e)))"

definition spent_under_intent :: "PolicyEngine \<Rightarrow> int" where
  "spent_under_intent e = (\<Sum>r\<leftarrow>en_history e. sr_amount r)"

text \<open>The reasons each group of rules appends, in the order of the code.\<close>

definition reason_if :: "bool \<Rightarrow> string \<Rightarrow> string list" where
  "reason_if b reason = (if b then [reason] else [])"

definition limit_reasons :: "int \<Rightarrow> PolicyEngine \<Rightarrow> Proposal \<Rightarrow> int \<Rightarrow> string list" where
  "limit_reasons now e p amount =
     (let pol = en_policy e in
      reason_if (pp_asset p \<notin> set (wp_allowed_assets pol)) (''asset '' @ pp_asset p @ '' not in allowed_assets'') @
      reason_if (wp_per_tx_cap pol \<noteq> 0 \<and> amount > wp_per_tx_cap pol)
        (''amount '' @ show_int amount @ '' > per-tx cap '' @ show_int (wp_per_tx_cap pol)) @
      concat (map (\<lambda>wc. let spent = spent_in_window now e (wc_window_s wc) in
        reason_if (spent + amount > wc_cap wc)
          (''window cap exceeded: '' @ show_int spent @ ''+'' @ show_int amount @ '' > '' @ show_int (wc_cap wc) @
           '' over '' @ show_int (wc_window_s wc) @ ''s'')) (wp_window_caps pol)) @
      reason_if (wp_max_tx_per_window pol \<noteq> 0 \<and> count_in_window now e (wp_velocity_window_s pol) + 1 > wp_max_tx_per_window pol)
        ''velocity limit exceeded'')"

definition recipient_reasons :: "Policy \<Rightarrow> Proposal \<Rightarrow> string list" where
  "recipient_reasons pol p =
     (if pp_kind p = ''transfer'' then
        reason_if (pp_to p \<in> set (wp_blocklist_recipients pol)) (''recipient '' @ pp_to p @ '' blocklisted'') @
        reason_if (wp_allowlist_recipients pol \<noteq> [] \<and> pp_to p \<notin> set (wp_allowlist_recipients pol))
          (''recipient '' @ pp_to p @ '' not on allowlist'')
      else [])"

type_synonym mandate_chain = "IntentMandate \<times> CartMandate \<times> (string, bytes) dict"

definition mandate_reasons :: "primitives \<Rightarrow> int \<Rightarrow> PolicyEngine \<Rightarrow> Proposal \<Rightarrow> int \<Rightarrow> mandate_chain option \<Rightarrow> string list res" where
  "mandate_reasons P now e p amount chain =
     (if pp_kind p = ''transfer'' \<and> amount > wp_require_mandate_above (en_policy e) then
        case chain of
          None \<Rightarrow> Inr [''amount '' @ show_int amount @ '' requires an AP2 mandate chain'']
        | Some (intent, cart, pubs) \<Rightarrow>
            rbind (of_option (KeyError ''user'') (dget pubs ''user'')) (\<lambda>user_pub.
            rbind (of_option (KeyError ''merchant'') (dget pubs ''merchant'')) (\<lambda>merchant_pub.
            rbind (check_payment_against_chain P now intent cart user_pub merchant_pub
                (dget_or (pp_meta p) ''agent'' (JStr [])) (pp_to p) amount (spent_under_intent e)) (\<lambda>(ok, why).
            Inr (reason_if (\<not> ok) (''mandate chain invalid: '' @ why)))))
      else Inr [])"

definition slip_bps :: "Proposal \<Rightarrow> int" where
  "slip_bps p = (pp_quoted_out p - pp_min_out p) * 10000 div max (pp_quoted_out p) 1"

definition risk_reasons :: "PolicyEngine \<Rightarrow> Proposal \<Rightarrow> string list" where
  "risk_reasons e p =
     (let rk = wp_risk (en_policy e) in
      if pp_kind p = ''swap'' \<and> rk_dynamic_tightening rk then
        reason_if (en_pool_move_bps e > rk_pool_move_threshold_bps rk)
          (''pool moved '' @ show_int (en_pool_move_bps e) @ ''bps > threshold '' @
           show_int (rk_pool_move_threshold_bps rk) @ ''bps (possible sandwich)'') @
        reason_if (pp_quoted_out p \<noteq> 0 \<and> pp_min_out p \<noteq> 0 \<and> slip_bps p > rk_max_slippage_bps rk)
          (''slippage tolerance '' @ show_int (slip_bps p) @ ''bps > policy max '' @ show_int (rk_max_slippage_bps rk) @ ''bps'')
      else [])"

definition engine_evaluate :: "primitives \<Rightarrow> int \<Rightarrow> PolicyEngine \<Rightarrow> Proposal \<Rightarrow> mandate_chain option \<Rightarrow> Verdict res" where
  "engine_evaluate P now e p chain =
     (case engine_validate p of
        Inl (MalformedProposal m) \<Rightarrow> Inr \<lparr>vd_allow = False, vd_reasons = [''malformed proposal: '' @ m]\<rparr>
      | Inl exc \<Rightarrow> Inl exc
      | Inr amount \<Rightarrow>
          if wp_kill_switch (en_policy e) then Inr \<lparr>vd_allow = False, vd_reasons = [''kill switch engaged'']\<rparr>
          else
            rbind (mandate_reasons P now e p amount chain) (\<lambda>mandate.
            let reasons = limit_reasons now e p amount @ recipient_reasons (en_policy e) p @ mandate @ risk_reasons e p
            in Inr \<lparr>vd_allow = (reasons = []), vd_reasons = reasons\<rparr>))"

section \<open>What the loader accepts\<close>

text \<open>Known string keys only, and every number in range.\<close>

definition known :: "string list \<Rightarrow> (ykey \<times> yaml) list \<Rightarrow> bool" where
  "known allowed m = (fst ` set m \<subseteq> KStr ` set allowed)"

definition policy_ok :: "Policy \<Rightarrow> bool" where
  "policy_ok pol =
     (0 \<le> wp_per_tx_cap pol \<and> list_all (\<lambda>w. 0 < wc_window_s w \<and> 0 \<le> wc_cap w) (wp_window_caps pol) \<and>
      0 \<le> wp_max_tx_per_window pol \<and> 0 < wp_velocity_window_s pol \<and> 0 \<le> wp_require_mandate_above pol \<and>
      0 \<le> rk_pool_move_threshold_bps (wp_risk pol) \<and> 0 \<le> rk_max_slippage_bps (wp_risk pol))"

definition sections_known :: "(ykey \<times> yaml) list \<Rightarrow> bool" where
  "sections_known data =
     (known ALLOWED_KEYS data \<and>
      (\<forall>vs. yget_or data ''window_caps'' (YList []) = YList vs \<longrightarrow>
         list_all (\<lambda>v. \<exists>m. v = YMap m \<and> known [''window_s'', ''cap''] m) vs) \<and>
      (\<exists>m. yget_or data ''velocity'' (YMap []) = YMap m \<and> known [''max_tx_per_window'', ''window_s''] m) \<and>
      (\<exists>m. yget_or data ''risk'' (YMap []) = YMap m \<and>
         known [''dynamic_tightening'', ''pool_move_threshold_bps'', ''max_slippage_bps''] m))"

lemma need_int_iff: "need_int v what = Inr n \<longleftrightarrow> v = YInt n \<and> 0 \<le> n"
  by (auto simp: need_int_def split: yaml.splits)

lemma need_positive_int_iff: "need_positive_int v what = Inr n \<longleftrightarrow> v = YInt n \<and> 0 < n"
  by (auto simp: need_positive_int_def rbind_Inr_iff need_int_iff)

lemma need_bool_iff: "need_bool v what = Inr b \<longleftrightarrow> v = YBool b"
  by (auto simp: need_bool_def split: yaml.splits)

lemma need_map_iff: "need_map v what = Inr m \<longleftrightarrow> v = YMap m"
  by (auto simp: need_map_def split: yaml.splits)

lemma reject_unknown_iff: "reject_unknown m allowed what = Inr u \<longleftrightarrow> known allowed m"
  by (auto simp: reject_unknown_def known_def filter_empty_conv Let_def)

lemmas need_simps = need_int_iff need_positive_int_iff need_bool_iff need_map_iff reject_unknown_iff rbind_Inr_iff

lemma load_window_cap_ok:
  assumes "load_window_cap i v = Inr w"
  shows "0 < wc_window_s w \<and> 0 \<le> wc_cap w" "\<exists>m. v = YMap m \<and> known [''window_s'', ''cap''] m"
  using assms by (auto simp: load_window_cap_def Let_def need_simps split: yaml.splits)

lemma load_window_caps_ok:
  "load_window_caps i vs = Inr ws \<Longrightarrow> list_all (\<lambda>w. 0 < wc_window_s w \<and> 0 \<le> wc_cap w) ws \<and>
     list_all (\<lambda>v. \<exists>m. v = YMap m \<and> known [''window_s'', ''cap''] m) vs"
proof (induction vs arbitrary: i ws)
  case (Cons v vs)
  from Cons.prems obtain w ws' where w: "load_window_cap i v = Inr w" "load_window_caps (Suc i) vs = Inr ws'" "ws = w # ws'"
    by (auto simp: rbind_Inr_iff)
  with load_window_cap_ok [OF w(1)] Cons.IH [OF w(2)] show ?case by simp
qed simp

lemma load_velocity_ok:
  assumes "load_velocity data = Inr (m, w)"
  shows "0 \<le> m" "0 < w" "\<exists>v. yget_or data ''velocity'' (YMap []) = YMap v \<and> known [''max_tx_per_window'', ''window_s''] v"
  using assms by (auto simp: load_velocity_def need_simps)

lemma load_risk_ok:
  assumes "load_risk data = Inr r"
  shows "0 \<le> rk_pool_move_threshold_bps r" "0 \<le> rk_max_slippage_bps r"
    "\<exists>v. yget_or data ''risk'' (YMap []) = YMap v \<and> known [''dynamic_tightening'', ''pool_move_threshold_bps'', ''max_slippage_bps''] v"
  using assms by (auto simp: load_risk_def need_simps)

lemma load_mapping_ok:
  assumes "load_mapping data = Inr pol"
  shows "policy_ok pol \<and> sections_known data \<and> wp_raw pol = data"
proof -
  from assms have "known ALLOWED_KEYS data" by (auto simp: load_mapping_def need_simps)
  from assms obtain items where items: "iterate (yget_or data ''window_caps'' (YList [])) = Inr items"
    "load_window_caps 0 items = Inr (wp_window_caps pol)" by (auto simp: load_mapping_def rbind_Inr_iff split: prod.splits)
  from assms have vel: "load_velocity data = Inr (wp_max_tx_per_window pol, wp_velocity_window_s pol)"
    by (auto simp: load_mapping_def rbind_Inr_iff split: prod.splits)
  from assms have risk: "load_risk data = Inr (wp_risk pol)" by (auto simp: load_mapping_def rbind_Inr_iff split: prod.splits)
  from assms have rest: "0 \<le> wp_per_tx_cap pol" "0 \<le> wp_require_mandate_above pol" "wp_raw pol = data"
    by (auto simp: load_mapping_def need_simps split: prod.splits)
  have "yget_or data ''window_caps'' (YList []) = YList vs \<Longrightarrow> vs = items" for vs
    using items(1) by (simp add: iterate_def)
  then show ?thesis
    using \<open>known ALLOWED_KEYS data\<close> load_window_caps_ok [OF items(2)] load_velocity_ok [OF vel] load_risk_ok [OF risk] rest
    by (auto simp: policy_ok_def sections_known_def)
qed

section \<open>When the engine allows\<close>

text \<open>The rules of a policy, each as the condition it stands for.\<close>

definition within_limits :: "int \<Rightarrow> PolicyEngine \<Rightarrow> Proposal \<Rightarrow> bool" where
  "within_limits now e p =
     (let pol = en_policy e; amount = amount_of p in
      pp_asset p \<in> set (wp_allowed_assets pol) \<and>
      (wp_per_tx_cap pol = 0 \<or> amount \<le> wp_per_tx_cap pol) \<and>
      list_all (\<lambda>wc. spent_in_window now e (wc_window_s wc) + amount \<le> wc_cap wc) (wp_window_caps pol) \<and>
      (wp_max_tx_per_window pol = 0 \<or> count_in_window now e (wp_velocity_window_s pol) < wp_max_tx_per_window pol))"

definition recipient_permitted :: "Policy \<Rightarrow> Proposal \<Rightarrow> bool" where
  "recipient_permitted pol p =
     (pp_kind p = ''transfer'' \<longrightarrow> pp_to p \<notin> set (wp_blocklist_recipients pol) \<and>
        (wp_allowlist_recipients pol = [] \<or> pp_to p \<in> set (wp_allowlist_recipients pol)))"

text \<open>A mandate chain that grants a payment: both signatures, the link between the two, the parties,
  the exact total and the budget.\<close>

definition mandated :: "primitives \<Rightarrow> int \<Rightarrow> PolicyEngine \<Rightarrow> Proposal \<Rightarrow> mandate_chain \<Rightarrow> bool" where
  "mandated P now e p chain = (case chain of (intent, cart, pubs) \<Rightarrow>
     (case (dget pubs ''user'', dget pubs ''merchant'', bytes_fromhex (im_signature_hex intent), bytes_fromhex (cm_signature_hex cart)) of
        (Some user, Some merchant, Some s, Some t) \<Rightarrow>
          ed25519_verify P user s (intent_digest intent) \<and> ed25519_verify P merchant t (cart_digest cart)
      | _ \<Rightarrow> False) \<and>
     cm_intent_hash cart = sha256_hex P (intent_digest intent) \<and> now \<le> im_expires_at intent \<and> now \<le> cm_expires_at cart \<and>
     dget_or (pp_meta p) ''agent'' (JStr []) = JStr (im_agent intent) \<and> cm_merchant cart = pp_to p \<and>
     (im_allowed_merchants intent = [] \<or> pp_to p \<in> set (im_allowed_merchants intent)) \<and>
     cm_total cart = amount_of p \<and> spent_under_intent e + amount_of p \<le> im_max_total intent)"

definition mandate_permitted :: "primitives \<Rightarrow> int \<Rightarrow> PolicyEngine \<Rightarrow> Proposal \<Rightarrow> mandate_chain option \<Rightarrow> bool" where
  "mandate_permitted P now e p chain =
     (pp_kind p = ''transfer'' \<longrightarrow> amount_of p \<le> wp_require_mandate_above (en_policy e) \<or>
        (\<exists>c. chain = Some c \<and> mandated P now e p c))"

definition risk_permitted :: "PolicyEngine \<Rightarrow> Proposal \<Rightarrow> bool" where
  "risk_permitted e p = (let rk = wp_risk (en_policy e) in
     pp_kind p = ''swap'' \<longrightarrow> rk_dynamic_tightening rk \<longrightarrow> en_pool_move_bps e \<le> rk_pool_move_threshold_bps rk \<and>
       (pp_quoted_out p \<noteq> 0 \<longrightarrow> pp_min_out p \<noteq> 0 \<longrightarrow> slip_bps p \<le> rk_max_slippage_bps rk))"

definition well_formed :: "Proposal \<Rightarrow> bool" where
  "well_formed p = (\<exists>n. pp_amount p = JInt n \<and> 0 < n \<and> (pp_kind p = ''swap'' \<or> pp_kind p = ''transfer'' \<and> pp_to p \<noteq> []))"

definition permits :: "primitives \<Rightarrow> int \<Rightarrow> PolicyEngine \<Rightarrow> Proposal \<Rightarrow> mandate_chain option \<Rightarrow> bool" where
  "permits P now e p chain =
     (well_formed p \<and> \<not> wp_kill_switch (en_policy e) \<and> within_limits now e p \<and> recipient_permitted (en_policy e) p \<and>
      mandate_permitted P now e p chain \<and> risk_permitted e p)"

lemma reason_if_Nil [simp]: "reason_if b r = [] \<longleftrightarrow> \<not> b"
  by (simp add: reason_if_def)

lemma engine_validate_iff: "engine_validate p = Inr n \<longleftrightarrow> well_formed p \<and> n = amount_of p"
  by (auto simp: engine_validate_def well_formed_def amount_of_def split: json.splits)

lemma engine_validate_Inl: "engine_validate p = Inl x \<Longrightarrow> \<exists>m. x = MalformedProposal m"
  by (auto simp: engine_validate_def split: json.splits if_splits)

lemma limit_reasons_Nil: "limit_reasons now e p (amount_of p) = [] \<longleftrightarrow> within_limits now e p"
  by (auto simp: limit_reasons_def within_limits_def Let_def list_all_iff not_less)

lemma recipient_reasons_Nil: "recipient_reasons pol p = [] \<longleftrightarrow> recipient_permitted pol p"
  by (auto simp: recipient_reasons_def recipient_permitted_def)

lemma risk_reasons_Nil: "risk_reasons e p = [] \<longleftrightarrow> risk_permitted e p"
  by (auto simp: risk_reasons_def risk_permitted_def Let_def not_less)

lemma mandate_reasons_Nil:
  assumes "mandate_reasons P now e p (amount_of p) chain = Inr rs"
  shows "rs = [] \<longleftrightarrow> mandate_permitted P now e p chain"
proof (cases "pp_kind p = ''transfer'' \<and> amount_of p > wp_require_mandate_above (en_policy e)")
  case False
  with assms show ?thesis by (auto simp: mandate_reasons_def mandate_permitted_def)
next
  case True
  show ?thesis
  proof (cases chain)
    case None
    with True assms show ?thesis by (auto simp: mandate_reasons_def mandate_permitted_def)
  next
    case (Some c)
    obtain intent cart pubs where c: "c = (intent, cart, pubs)" by (cases c)
    from True assms have "rs = [] \<longleftrightarrow> mandated P now e p c"
      unfolding mandate_reasons_def Some c
      by (auto simp: rbind_Inr_iff check_payment_against_chain_def intent_verify_signature_def cart_verify_signature_def
          hex_signature_ok_def mandated_def intent_mandate_hash_def split: if_splits option.splits)
    with True Some show ?thesis by (auto simp: mandate_permitted_def)
  qed
qed

lemma engine_evaluate_permits:
  assumes "engine_evaluate P now e p chain = Inr v"
  shows "vd_allow v \<longleftrightarrow> permits P now e p chain" "vd_allow v \<longleftrightarrow> vd_reasons v = []"
proof -
  have "(vd_allow v \<longleftrightarrow> permits P now e p chain) \<and> (vd_allow v \<longleftrightarrow> vd_reasons v = [])"
  proof (cases "engine_validate p")
    case (Inl x)
    then have "\<not> well_formed p" using engine_validate_iff [of p "amount_of p"] by auto
    with Inl engine_validate_Inl [OF Inl] assms show ?thesis by (auto simp: engine_evaluate_def permits_def)
  next
    case (Inr n)
    then have n: "well_formed p" "n = amount_of p" by (simp_all add: engine_validate_iff)
    show ?thesis
    proof (cases "wp_kill_switch (en_policy e)")
      case True
      with Inr assms show ?thesis by (auto simp: engine_evaluate_def permits_def)
    next
      case False
      with Inr n assms obtain rs where rs: "mandate_reasons P now e p (amount_of p) chain = Inr rs"
        and v: "v = \<lparr>vd_allow = (limit_reasons now e p (amount_of p) @ recipient_reasons (en_policy e) p @ rs @ risk_reasons e p = []),
          vd_reasons = limit_reasons now e p (amount_of p) @ recipient_reasons (en_policy e) p @ rs @ risk_reasons e p\<rparr>"
        by (auto simp: engine_evaluate_def rbind_Inr_iff Let_def)
      from mandate_reasons_Nil [OF rs] n False show ?thesis
        by (simp add: v permits_def limit_reasons_Nil recipient_reasons_Nil risk_reasons_Nil)
    qed
  qed
  then show "vd_allow v \<longleftrightarrow> permits P now e p chain" "vd_allow v \<longleftrightarrow> vd_reasons v = []" by blast+
qed

section \<open>Properties\<close>

text \<open>C36. The loader is fail-closed: a policy is loaded only from a mapping whose keys, and those of
  each of its sections, are known strings, and then no cap is negative and no window empty. So a
  policy with an unknown key anywhere, a negative amount or an empty window never loads.\<close>

theorem policy_loader_fail_closed:
  assumes "load_policy safe_load txt = Inr pol"
  shows "policy_ok pol \<and> safe_load txt = Inr (YMap (wp_raw pol)) \<and> sections_known (wp_raw pol)"
  using assms load_mapping_ok [of "wp_raw pol" pol]
  by (auto simp: load_policy_def dest!: load_mapping_ok split: sum.splits yaml.splits)

definition sample_yaml :: "(ykey \<times> yaml) list" where
  "sample_yaml = [(KStr ''name'', YStr ''strict''), (KStr ''per_tx_cap'', YInt 250),
     (KStr ''window_caps'', YList [YMap [(KStr ''window_s'', YInt 3600), (KStr ''cap'', YInt 800)]]),
     (KStr ''velocity'', YMap [(KStr ''max_tx_per_window'', YInt 10)]), (KStr ''require_mandate_above'', YInt 100)]"

definition strict_policy :: Policy where
  "strict_policy = \<lparr>wp_name = ''strict'', wp_per_tx_cap = 250, wp_window_caps = [\<lparr>wc_window_s = 3600, wc_cap = 800\<rparr>],
     wp_max_tx_per_window = 10, wp_velocity_window_s = 3600, wp_allowed_assets = [''TUSDC''], wp_allowlist_recipients = [],
     wp_blocklist_recipients = [], wp_require_mandate_above = 100,
     wp_risk = \<lparr>rk_dynamic_tightening = False, rk_pool_move_threshold_bps = 100, rk_max_slippage_bps = 100\<rparr>,
     wp_kill_switch = False, wp_raw = sample_yaml\<rparr>"

theorem policy_loader_fail_closed_witness:
  "policy_ok strict_policy \<and> sections_known sample_yaml"
proof -
  have "load_policy (\<lambda>_. Inr (YMap sample_yaml)) ''strict.yaml'' = Inr strict_policy" by code_simp
  from policy_loader_fail_closed [OF this] show ?thesis by (simp add: strict_policy_def)
qed


definition sample_payment :: "int \<Rightarrow> Proposal" where
  "sample_payment n = \<lparr>pp_kind = ''transfer'', pp_amount = JInt n, pp_asset = ''TUSDC'', pp_to = ''0xshop'', pp_token_in = ''TUSDC'',
     pp_token_out = ''DRB'', pp_min_out = 0, pp_quoted_out = 0, pp_purpose = [], pp_meta = []\<rparr>"


end
