(* ===== verification/WalletGuard.thy ===== *)
theory WalletGuard
  imports WalletPolicy
begin

text \<open>
  \<open>src/agentwallet/guard/attestation.py\<close>, \<open>guard/guard.py\<close>, \<open>payments/x402.py\<close>,
  \<open>wallet/smart_wallet.py\<close>, \<open>mev/relay.py\<close> and the custody part of \<open>testbed.py\<close>: the pipeline
  from a proposal to a signed transaction, its audit log, the x402 payment flow, and the rules a
  contract wallet enforces when a block is executed.

  \<^item> The guard holds the chain as the code holds a reference to it. The receipts it hands out are
    objects that \<open>reconcile\<close> changes later; they are a list of the state and a pending
    submission names its receipt by position.
  \<^item> A call sees one reading of the clock. Proposals are values: the guard stores the object it
    was given, and a caller who changes it after submission is not modelled.

  Shown: the guard submits only transactions that the policy permits and that carry the hash of
  the attested proposal; its audit log always verifies and cannot be altered without a hash
  collision; payments signed for x402 stay within the window caps; a facilitator settles a nonce at
  most once; the rules of a contract wallet hold for every transfer that settles.
\<close>

section \<open>Attestations\<close>

record Attestation =
  at_policy_hash :: string
  at_proposal_hash :: string
  at_verdict :: string
  at_reasons :: "string list"
  at_timestamp :: int
  at_enclave_pub_hex :: string
  at_signature_hex :: string

definition attestation_payload :: "Attestation \<Rightarrow> bytes" where
  "attestation_payload a = json_dumps_ascii (obj
     [(''policy_hash'', JStr (at_policy_hash a)), (''proposal_hash'', JStr (at_proposal_hash a)), (''verdict'', JStr (at_verdict a)),
      (''reasons'', JList (map JStr (at_reasons a))), (''timestamp'', JInt (at_timestamp a)),
      (''enclave_pub_hex'', JStr (at_enclave_pub_hex a))])"

definition EnclaveAttestor_init :: "primitives \<Rightarrow> string \<Rightarrow> KeyPair" where
  "EnclaveAttestor_init P seed = from_seed P (''enclave::'' @ seed)"

definition enclave_attest :: "primitives \<Rightarrow> KeyPair \<Rightarrow> int \<Rightarrow> string \<Rightarrow> bytes \<Rightarrow> string \<Rightarrow> string list \<Rightarrow> Attestation" where
  "enclave_attest P keys now hash proposal verdict reasons =
     (let a = \<lparr>at_policy_hash = hash, at_proposal_hash = sha256_hex P proposal, at_verdict = verdict, at_reasons = reasons,
        at_timestamp = now, at_enclave_pub_hex = bytes_hex (kp_pub keys), at_signature_hex = []\<rparr>
      in a\<lparr>at_signature_hex := bytes_hex (key_sign P keys (attestation_payload a))\<rparr>)"

definition verify_attestation :: "primitives \<Rightarrow> Attestation \<Rightarrow> bytes \<Rightarrow> bool res" where
  "verify_attestation P a expected_pub =
     (if bytes_hex expected_pub \<noteq> at_enclave_pub_hex a then Inr False
      else hex_signature_ok P expected_pub (attestation_payload a) (at_signature_hex a))"

section \<open>The guard\<close>

record AuditEntry =
  ae_seq :: int
  ae_prev_hash :: string
  ae_proposal :: json
  ae_verdict :: string
  ae_attestation_sig :: string
  ae_settled :: bool

definition entry_bytes :: "AuditEntry \<Rightarrow> bytes" where
  "entry_bytes e = json_dumps_ascii (obj
     [(''seq'', JInt (ae_seq e)), (''prev_hash'', JStr (ae_prev_hash e)), (''proposal'', ae_proposal e),
      (''verdict'', JStr (ae_verdict e)), (''attestation_sig'', JStr (ae_attestation_sig e)), (''settled'', JBool (ae_settled e))])"

definition entry_hash :: "primitives \<Rightarrow> AuditEntry \<Rightarrow> string" where
  "entry_hash P e = sha256_hex P (entry_bytes e)"

record GuardReceipt =
  gr_verdict :: Verdict
  gr_attestation :: Attestation
  gr_settled :: bool
  gr_amount_settled :: int

record AgentGuard =
  gd_engine :: PolicyEngine
  gd_attestor :: KeyPair
  gd_signer :: KeyPair
  gd_chain :: "chain option"
  gd_audit :: "AuditEntry list"
  gd_audit_head :: string
  gd_policy_hash :: string
  gd_pending :: "(string, Proposal \<times> Verdict \<times> Attestation \<times> nat) dict"
  gd_receipts :: "GuardReceipt list"

definition AgentGuard_init :: "primitives \<Rightarrow> PolicyEngine \<Rightarrow> KeyPair \<Rightarrow> KeyPair \<Rightarrow> chain option \<Rightarrow> AgentGuard" where
  "AgentGuard_init P engine attestor signer chain =
     \<lparr>gd_engine = engine, gd_attestor = attestor, gd_signer = signer, gd_chain = chain, gd_audit = [], gd_audit_head = ''GENESIS'',
      gd_policy_hash = policy_raw_hash P (en_policy engine), gd_pending = [], gd_receipts = []\<rparr>"

definition verdict_str :: "Verdict \<Rightarrow> string" where
  "verdict_str v = (if vd_allow v then ''ALLOW'' else ''DENY'')"

definition append_audit :: "primitives \<Rightarrow> Proposal \<Rightarrow> Verdict \<Rightarrow> Attestation \<Rightarrow> bool \<Rightarrow> AgentGuard \<Rightarrow> AgentGuard" where
  "append_audit P p v a settled g =
     (let e = \<lparr>ae_seq = int (length (gd_audit g)),
        ae_prev_hash = (if gd_audit g = [] then ''GENESIS'' else entry_hash P (last (gd_audit g))),
        ae_proposal = proposal_document p, ae_verdict = verdict_str v, ae_attestation_sig = at_signature_hex a, ae_settled = settled\<rparr>
      in g\<lparr>gd_audit := gd_audit g @ [e], gd_audit_head := entry_hash P e\<rparr>)"

fun walk_audit :: "primitives \<Rightarrow> string \<Rightarrow> AuditEntry list \<Rightarrow> string option" where
  "walk_audit P prev [] = Some prev"
| "walk_audit P prev (e # es) = (if ae_prev_hash e \<noteq> prev then None else walk_audit P (entry_hash P e) es)"

definition verify_audit_chain :: "primitives \<Rightarrow> AgentGuard \<Rightarrow> bool" where
  "verify_audit_chain P g = (walk_audit P ''GENESIS'' (gd_audit g) = Some (gd_audit_head g))"

definition decide :: "primitives \<Rightarrow> int \<Rightarrow> AgentGuard \<Rightarrow> Proposal \<Rightarrow> mandate_chain option \<Rightarrow> (Verdict \<times> Attestation) res" where
  "decide P now g p chain =
     rbind (engine_evaluate P now (gd_engine g) p chain) (\<lambda>v.
     Inr (v, enclave_attest P (gd_attestor g) now (gd_policy_hash g) (proposal_canonical p) (verdict_str v) (vd_reasons v)))"

text \<open>Truth of a metadata value.\<close>

definition truthy :: "json \<Rightarrow> bool" where
  "truthy v = (case v of JNull \<Rightarrow> False | JBool b \<Rightarrow> b | JInt i \<Rightarrow> i \<noteq> 0 | JStr s \<Rightarrow> s \<noteq> [] | JList l \<Rightarrow> l \<noteq> [] | JObj m \<Rightarrow> m \<noteq> []
     | _ \<Rightarrow> True)"

definition to_tx :: "primitives \<Rightarrow> AgentGuard \<Rightarrow> Proposal \<Rightarrow> string \<Rightarrow> Tx res" where
  "to_tx P g p decision_hash = (case gd_chain g of
     None \<Rightarrow> Inl AssertionError
   | Some c \<Rightarrow>
       let sender = kp_address (gd_signer g);
         private = truthy (dget_or (pp_meta p) ''private'' JNull);
         blank = \<lparr>tx_kind = TRANSFER, tx_sender = sender, tx_to = None, tx_amount = 0, tx_asset = ''TUSDC'', tx_amount_in = 0,
           tx_token_in = ''TUSDC'', tx_token_out = ''DRB'', tx_min_out = 0, tx_private = private, tx_submitted_at = 0,
           tx_nonce = next_nonce c sender, tx_chain_id = ch_chain_id c, tx_deadline = ch_clock c + 300,
           tx_decision_hash = decision_hash, tx_public_key_hex = [], tx_signature_hex = []\<rparr>;
         tx = (if pp_kind p = ''transfer'' then blank\<lparr>tx_to := Some (pp_to p), tx_amount := amount_of p, tx_asset := pp_asset p\<rparr>
           else blank\<lparr>tx_kind := SWAP, tx_amount_in := amount_of p, tx_token_in := pp_token_in p, tx_token_out := pp_token_out p,
             tx_min_out := pp_min_out p\<rparr>)
       in authorize_transaction P (gd_signer g) tx)"

definition guard_submit ::
  "primitives \<Rightarrow> int \<Rightarrow> Proposal \<Rightarrow> mandate_chain option \<Rightarrow> bool \<Rightarrow> AgentGuard \<Rightarrow> (GuardReceipt \<times> AgentGuard) res" where
  "guard_submit P now p chain settle g =
     rbind (decide P now g p chain) (\<lambda>(v, a).
     let receipt = \<lparr>gr_verdict = v, gr_attestation = a, gr_settled = False, gr_amount_settled = 0\<rparr> in
     rbind (case gd_chain g of
          Some c \<Rightarrow>
            if vd_allow v \<and> settle then
              rbind (to_tx P g p (at_proposal_hash a)) (\<lambda>tx.
              rbind (submit P tx c) (\<lambda>c.
              Inr (g\<lparr>gd_chain := Some c, gd_pending := dset (tx_hash P tx) (p, v, a, length (gd_receipts g)) (gd_pending g)\<rparr>)))
            else Inr g
        | None \<Rightarrow> Inr g) (\<lambda>g.
     Inr (receipt, append_audit P p v a False (g\<lparr>gd_receipts := gd_receipts g @ [receipt]\<rparr>))))"

definition reconcile_one :: "primitives \<Rightarrow> int \<Rightarrow> Receipt \<Rightarrow> AgentGuard \<Rightarrow> AgentGuard" where
  "reconcile_one P now r g =
     (let key = tx_hash P (rc_tx r) in
      case dget (gd_pending g) key of
        None \<Rightarrow> g
      | Some (p, v, a, i) \<Rightarrow>
          let g = g\<lparr>gd_pending := AList.delete key (gd_pending g)\<rparr> in
          if \<not> rc_success r then g
          else append_audit P p v a True (g\<lparr>gd_engine := engine_record now p (gd_engine g),
            gd_receipts := (gd_receipts g)[i := (gd_receipts g ! i)\<lparr>gr_settled := True, gr_amount_settled := amount_of p\<rparr>]\<rparr>))"

definition reconcile :: "primitives \<Rightarrow> int \<Rightarrow> Receipt list \<Rightarrow> AgentGuard \<Rightarrow> AgentGuard" where
  "reconcile P now receipts g = fold (reconcile_one P now) receipts g"

section \<open>x402 payments\<close>

record PaymentRequirements =
  pr_scheme :: string
  pr_network :: string
  pr_asset :: string
  pr_amount :: int
  pr_pay_to :: string
  pr_resource :: string
  pr_nonce :: string
  pr_expires_at :: int

definition requirements_digest :: "PaymentRequirements \<Rightarrow> bytes" where
  "requirements_digest r = json_dumps_ascii (obj
     [(''scheme'', JStr (pr_scheme r)), (''network'', JStr (pr_network r)), (''asset'', JStr (pr_asset r)), (''amount'', JInt (pr_amount r)),
      (''pay_to'', JStr (pr_pay_to r)), (''resource'', JStr (pr_resource r)), (''nonce'', JStr (pr_nonce r)),
      (''expires_at'', JInt (pr_expires_at r))])"

record PaymentAuthorization =
  pa_requirements :: PaymentRequirements
  pa_payer :: string
  pa_payer_pub_hex :: string
  pa_signature_hex :: string

definition x402_proposal :: "PaymentRequirements \<Rightarrow> Proposal" where
  "x402_proposal r = \<lparr>pp_kind = ''transfer'', pp_amount = JInt (pr_amount r), pp_asset = pr_asset r, pp_to = pr_pay_to r,
     pp_token_in = ''TUSDC'', pp_token_out = ''DRB'', pp_min_out = 0, pp_quoted_out = 0, pp_purpose = ''x402:'' @ pr_resource r,
     pp_meta = [(''agent'', JStr ''x402-client''), (''nonce'', JStr (pr_nonce r))]\<rparr>"

definition sign_for_x402 ::
  "primitives \<Rightarrow> int \<Rightarrow> bytes \<Rightarrow> PaymentRequirements \<Rightarrow> AgentGuard \<Rightarrow> ((string \<times> string) option \<times> AgentGuard) res" where
  "sign_for_x402 P now digest r g =
     (let p = x402_proposal r in
      rbind (decide P now g p None) (\<lambda>(v, a).
      if \<not> vd_allow v then Inr (None, append_audit P p v a False g)
      else Inr (Some (wallet_sign P (gd_signer g) digest),
        append_audit P p v a True (g\<lparr>gd_engine := engine_record now p (gd_engine g)\<rparr>))))"

text \<open>\<open>X402Client.create_authorization\<close> with the guard as its signing callback.\<close>

definition create_authorization ::
  "primitives \<Rightarrow> int \<Rightarrow> string \<Rightarrow> PaymentRequirements \<Rightarrow> AgentGuard \<Rightarrow> (PaymentAuthorization option \<times> AgentGuard) res" where
  "create_authorization P now payer r g =
     rbind (sign_for_x402 P now (requirements_digest r) r g) (\<lambda>(s, g).
     Inr (map_option (\<lambda>(pub, sig). \<lparr>pa_requirements = r, pa_payer = payer, pa_payer_pub_hex = pub, pa_signature_hex = sig\<rparr>) s, g))"

record Facilitator =
  fc_chain :: chain
  fc_used_nonces :: "string list"

text \<open>\<open>Ed25519PublicKey.from_public_bytes(bytes.fromhex(\<dots>))\<close>\<close>

definition payer_pub :: "PaymentAuthorization \<Rightarrow> bytes res" where
  "payer_pub auth = (case bytes_fromhex (pa_payer_pub_hex auth) of
     None \<Rightarrow> Inl (ValueError ''non-hexadecimal number found in fromhex() arg'')
   | Some b \<Rightarrow> if length b \<noteq> 32 then Inl (ValueError ''An Ed25519 public key is 32 bytes long'') else Inr b)"

definition facilitator_verify :: "primitives \<Rightarrow> int \<Rightarrow> Facilitator \<Rightarrow> PaymentAuthorization \<Rightarrow> (bool \<times> string) res" where
  "facilitator_verify P now f auth =
     (let req = pa_requirements auth in
      if pr_nonce req \<in> set (fc_used_nonces f) then Inr (False, ''replay: nonce already used'')
      else if pr_expires_at req < now then Inr (False, ''expired requirements'')
      else if pr_amount req \<le> 0 then Inr (False, ''non-positive amount'')
      else
        rbind (payer_pub auth) (\<lambda>pub.
        if address_of P pub \<noteq> pa_payer auth then Inr (False, ''pubkey does not match payer'')
        else
          rbind (hex_signature_ok P pub (requirements_digest req) (pa_signature_hex auth)) (\<lambda>ok.
          if \<not> ok then Inr (False, ''bad signature'') else Inr (True, ''ok''))))"

definition facilitator_settle :: "primitives \<Rightarrow> int \<Rightarrow> PaymentAuthorization \<Rightarrow> Facilitator \<Rightarrow> (bool \<times> string) res \<times> Facilitator" where
  "facilitator_settle P now auth f = (case facilitator_verify P now f auth of
     Inl e \<Rightarrow> (Inl e, f)
   | Inr (ok, why) \<Rightarrow>
       if \<not> ok then (Inr (False, why), f)
       else
         let req = pa_requirements auth; f = f\<lparr>fc_used_nonces := List.insert (pr_nonce req) (fc_used_nonces f)\<rparr>
         in case move (pr_asset req) (pa_payer auth) (pr_pay_to req) (pr_amount req) (fc_chain f) of
              (Inl e, c) \<Rightarrow> (Inl e, f\<lparr>fc_chain := c\<rparr>)
            | (Inr _, c) \<Rightarrow> (Inr (True, ''settled''), f\<lparr>fc_chain := c\<rparr>))"

record ResourceServer =
  rv_address :: string
  rv_price :: int
  rv_resource :: string
  rv_evil :: bool
  rv_attacker_address :: "string option"
  rv_n :: nat

definition respond_402 :: "primitives \<Rightarrow> int \<Rightarrow> ResourceServer \<Rightarrow> PaymentRequirements \<times> ResourceServer" where
  "respond_402 P now s =
     (let s = s\<lparr>rv_n := rv_n s + 1\<rparr>;
        pay_to = (case rv_attacker_address s of Some a \<Rightarrow> if rv_evil s \<and> a \<noteq> [] then a else rv_address s | None \<Rightarrow> rv_address s)
      in (\<lparr>pr_scheme = ''exact'', pr_network = ''local-test'', pr_asset = ''TUSDC'',
         pr_amount = (if rv_evil s then rv_price s * 10 else rv_price s), pr_pay_to = pay_to, pr_resource = rv_resource s,
         pr_nonce = take 16 (sha256_hex P (encode (rv_resource s @ '':'' @ show_nat (rv_n s)))), pr_expires_at = now + 300\<rparr>, s))"

section \<open>Contract wallets, the relay and the testbed\<close>

record ContractWalletRules =
  cw_per_tx_cap :: int
  cw_allowlist :: "string list"
  cw_allowed_assets :: "string list"

definition ContractWalletRules_init :: "int \<Rightarrow> string list option \<Rightarrow> string list option \<Rightarrow> ContractWalletRules" where
  "ContractWalletRules_init cap allowlist assets =
     \<lparr>cw_per_tx_cap = cap, cw_allowlist = (case allowlist of None \<Rightarrow> [] | Some l \<Rightarrow> l),
      cw_allowed_assets = (case assets of None \<Rightarrow> [''TUSDC''] | Some l \<Rightarrow> if l = [] then [''TUSDC''] else l)\<rparr>"

definition rules_hook :: "ContractWalletRules \<Rightarrow> Tx \<Rightarrow> exn option" where
  "rules_hook r tx =
     (if tx_kind tx \<noteq> TRANSFER then None
      else if tx_asset tx \<notin> set (cw_allowed_assets r) then Some (RuleViolation (''contract wallet: asset '' @ tx_asset tx @ '' not allowed''))
      else if cw_per_tx_cap r \<noteq> 0 \<and> tx_amount tx > cw_per_tx_cap r
      then Some (RuleViolation (''contract wallet: '' @ show_int (tx_amount tx) @ '' > on-chain per-tx cap '' @ show_int (cw_per_tx_cap r)))
      else if cw_allowlist r \<noteq> [] \<and> (case tx_to tx of None \<Rightarrow> True | Some a \<Rightarrow> a \<notin> set (cw_allowlist r))
      then Some (RuleViolation (''contract wallet: recipient '' @ (case tx_to tx of None \<Rightarrow> ''None'' | Some a \<Rightarrow> a) @ '' not allowlisted''))
      else None)"

definition deploy_contract_wallet :: "string \<Rightarrow> ContractWalletRules \<Rightarrow> chain \<Rightarrow> chain" where
  "deploy_contract_wallet address rules c = register_rule_hook address (rules_hook rules) c"

definition relay_submit :: "primitives \<Rightarrow> Tx \<Rightarrow> chain \<Rightarrow> chain res" where
  "relay_submit P tx c = submit P (tx\<lparr>tx_private := True\<rparr>) c"

text \<open>\<open>GuardClient.submit\<close>, and \<open>Testbed.mine\<close> over the chain the guard holds: a block that fails
  leaves the guard unreconciled.\<close>

definition client_submit ::
  "primitives \<Rightarrow> int \<Rightarrow> string \<Rightarrow> Proposal \<Rightarrow> mandate_chain option \<Rightarrow> AgentGuard \<Rightarrow> (GuardReceipt \<times> AgentGuard) res" where
  "client_submit P now agent_address p chain g =
     guard_submit P now (if dhas (pp_meta p) ''agent'' then p else p\<lparr>pp_meta := dset ''agent'' (JStr agent_address) (pp_meta p)\<rparr>) chain True g"

definition testbed_mine :: "primitives \<Rightarrow> int \<Rightarrow> AgentGuard \<Rightarrow> Receipt list res \<times> AgentGuard" where
  "testbed_mine P now g = (case gd_chain g of
     None \<Rightarrow> (Inl AssertionError, g)
   | Some c \<Rightarrow>
       case mine_block c of
         (Inl e, c) \<Rightarrow> (Inl e, g\<lparr>gd_chain := Some c\<rparr>)
       | (Inr receipts, c) \<Rightarrow> (Inr receipts, reconcile P now receipts (g\<lparr>gd_chain := Some c\<rparr>)))"

definition compromised_submit :: "primitives \<Rightarrow> bool \<Rightarrow> Tx \<Rightarrow> AgentGuard \<Rightarrow> AgentGuard res" where
  "compromised_submit P contract_wallet tx g =
     (if \<not> contract_wallet then Inl (PermissionError ''compromised submission is only modeled in contract-wallet mode'')
      else case gd_chain g of
        None \<Rightarrow> Inl AssertionError
      | Some c \<Rightarrow>
          rbind (authorize_transaction P (gd_signer g) (tx\<lparr>tx_chain_id := ch_chain_id c,
            tx_nonce := next_nonce c (kp_address (gd_signer g)), tx_deadline := ch_clock c + 300,
            tx_decision_hash := ''compromised-host-direct-rpc''\<rparr>)) (\<lambda>tx.
          rbind (submit P tx c) (\<lambda>c. Inr (g\<lparr>gd_chain := Some c\<rparr>))))"

section \<open>The audit log\<close>

lemma walk_audit_snoc:
  "walk_audit P prev (es @ [e]) = (case walk_audit P prev es of None \<Rightarrow> None
     | Some h \<Rightarrow> if ae_prev_hash e = h then Some (entry_hash P e) else None)"
  by (induction es arbitrary: prev) simp_all

lemma walk_audit_last:
  "walk_audit P prev es = Some h \<Longrightarrow> h = (if es = [] then prev else entry_hash P (last es))"
  by (induction es arbitrary: prev) (auto split: if_splits)

text \<open>The log verifies, its entries are numbered from 0, and it extends an earlier log.\<close>

definition audit_ok :: "primitives \<Rightarrow> AgentGuard \<Rightarrow> bool" where
  "audit_ok P g = (verify_audit_chain P g \<and> map ae_seq (gd_audit g) = map int [0..<length (gd_audit g)])"

definition audit_extends :: "primitives \<Rightarrow> AgentGuard \<Rightarrow> AgentGuard \<Rightarrow> bool" where
  "audit_extends P g g' = (audit_ok P g \<longrightarrow> audit_ok P g' \<and> (\<exists>new. gd_audit g' = gd_audit g @ new))"

lemma audit_extends_refl: "gd_audit g' = gd_audit g \<Longrightarrow> gd_audit_head g' = gd_audit_head g \<Longrightarrow> audit_extends P g g'"
  by (simp add: audit_extends_def audit_ok_def verify_audit_chain_def)

lemma audit_extends_trans: "audit_extends P g h \<Longrightarrow> audit_extends P h k \<Longrightarrow> audit_extends P g k"
  by (auto simp: audit_extends_def)

lemma append_audit_extends:
  assumes "gd_audit h = gd_audit g" "gd_audit_head h = gd_audit_head g"
  shows "audit_extends P g (append_audit P p v a settled h)"
proof -
  have "audit_ok P (append_audit P p v a settled h)" if ok: "audit_ok P g"
  proof -
    from ok have walk: "walk_audit P ''GENESIS'' (gd_audit g) = Some (gd_audit_head g)"
      by (simp add: audit_ok_def verify_audit_chain_def)
    from walk_audit_last [OF walk] ok show ?thesis
      by (simp add: append_audit_def Let_def audit_ok_def verify_audit_chain_def walk_audit_snoc walk assms)
  qed
  then show ?thesis by (simp add: audit_extends_def append_audit_def Let_def assms)
qed

lemma guard_submit_extends:
  assumes "guard_submit P now p chain settle g = Inr (r, g')"
  shows "audit_extends P g g'"
  using assms unfolding guard_submit_def
  by (auto simp: rbind_Inr_iff Let_def split: option.splits if_splits intro!: append_audit_extends)

lemma reconcile_extends: "audit_extends P g (reconcile P now receipts g)"
  unfolding reconcile_def
proof (induction receipts arbitrary: g)
  case (Cons r receipts)
  have "audit_extends P g (reconcile_one P now r g)"
    by (simp add: reconcile_one_def Let_def append_audit_extends audit_extends_refl split: option.split)
  with Cons.IH show ?case by (auto intro: audit_extends_trans)
qed (simp add: audit_extends_refl)

lemma sign_for_x402_extends:
  assumes "sign_for_x402 P now digest r g = Inr (s, g')"
  shows "audit_extends P g g'"
  using assms unfolding sign_for_x402_def
  by (auto simp: rbind_Inr_iff Let_def split: if_splits intro!: append_audit_extends)

text \<open>What may happen to a guard: calls of its clients, of the testbed and of others on the chain.\<close>

datatype guard_op =
    GSubmit Proposal "mandate_chain option" bool
  | GClient string Proposal "mandate_chain option"
  | GMine
  | GReconcile "Receipt list"
  | GX402 bytes PaymentRequirements
  | GChain chain_op

definition guard_step :: "primitives \<Rightarrow> AgentGuard \<Rightarrow> int \<times> guard_op \<Rightarrow> AgentGuard" where
  "guard_step P g = (\<lambda>(now, op). case op of
     GSubmit p chain settle \<Rightarrow> (case guard_submit P now p chain settle g of Inl _ \<Rightarrow> g | Inr (_, g) \<Rightarrow> g)
   | GClient agent p chain \<Rightarrow> (case client_submit P now agent p chain g of Inl _ \<Rightarrow> g | Inr (_, g) \<Rightarrow> g)
   | GMine \<Rightarrow> snd (testbed_mine P now g)
   | GReconcile receipts \<Rightarrow> reconcile P now receipts g
   | GX402 digest r \<Rightarrow> (case sign_for_x402 P now digest r g of Inl _ \<Rightarrow> g | Inr (_, g) \<Rightarrow> g)
   | GChain cop \<Rightarrow> g\<lparr>gd_chain := map_option (\<lambda>c. apply_op P c cop) (gd_chain g)\<rparr>)"

lemma guard_step_extends: "audit_extends P g (guard_step P g (now, op))"
proof (cases op)
  case GMine
  show ?thesis
  proof (cases "gd_chain g")
    case None
    then show ?thesis by (simp add: guard_step_def GMine testbed_mine_def audit_extends_refl)
  next
    case (Some c)
    obtain r c' where mined: "mine_block c = (r, c')" by (cases "mine_block c")
    have "audit_extends P g (g\<lparr>gd_chain := Some c'\<rparr>)" by (rule audit_extends_refl) simp_all
    from this audit_extends_trans [OF this reconcile_extends] show ?thesis
      by (auto simp: guard_step_def GMine testbed_mine_def Some mined split: sum.split)
  qed
qed (auto simp: guard_step_def client_submit_def audit_extends_refl reconcile_extends split: sum.splits
      dest: guard_submit_extends sign_for_x402_extends)

section \<open>Only permitted proposals are submitted\<close>

text \<open>A transaction that does what a proposal says.\<close>

definition carries_out :: "Proposal \<Rightarrow> Tx \<Rightarrow> bool" where
  "carries_out p tx =
     (if pp_kind p = ''transfer''
      then tx_kind tx = TRANSFER \<and> tx_to tx = Some (pp_to p) \<and> tx_amount tx = amount_of p \<and> tx_asset tx = pp_asset p
      else tx_kind tx = SWAP \<and> tx_amount_in tx = amount_of p \<and> tx_token_in tx = pp_token_in p \<and> tx_token_out tx = pp_token_out p \<and>
        tx_min_out tx = pp_min_out p)"

lemma to_tx_facts:
  assumes "to_tx P g p h = Inr tx"
  shows "carries_out p tx" "tx_decision_hash tx = h" "tx_sender tx = kp_address (gd_signer g)"
  using assms by (auto simp: to_tx_def carries_out_def authorize_transaction_def Let_def split: option.splits if_splits prod.splits)

lemma enclave_attest_verifies:
  assumes "keys_ok P" "kp_pub keys = ed25519_public P (kp_priv keys)"
  shows "verify_attestation P (enclave_attest P keys now h b v rs) (kp_pub keys) = Inr True"
  using assms by (simp add: verify_attestation_def enclave_attest_def Let_def hex_signature_ok_def attestation_payload_def
      key_sign_def keys_ok_def)

lemma guard_submit_cases:
  assumes "guard_submit P now p chain settle g = Inr (r, g')"
  obtains v where "engine_evaluate P now (gd_engine g) p chain = Inr v" "gr_verdict r = v"
    "gr_attestation r = enclave_attest P (gd_attestor g) now (gd_policy_hash g) (proposal_canonical p) (verdict_str v) (vd_reasons v)"
    "gd_engine g' = gd_engine g"
    "gd_chain g' = gd_chain g \<or> (vd_allow v \<and> settle \<and> (\<exists>c c' tx. gd_chain g = Some c \<and> gd_chain g' = Some c' \<and>
       to_tx P g p (sha256_hex P (proposal_canonical p)) = Inr tx \<and> submit P tx c = Inr c'))"
proof -
  from assms obtain v a where d: "decide P now g p chain = Inr (v, a)" by (auto simp: guard_submit_def rbind_Inr_iff)
  then have v: "engine_evaluate P now (gd_engine g) p chain = Inr v"
    and a: "a = enclave_attest P (gd_attestor g) now (gd_policy_hash g) (proposal_canonical p) (verdict_str v) (vd_reasons v)"
    by (auto simp: decide_def rbind_Inr_iff)
  have "at_proposal_hash a = sha256_hex P (proposal_canonical p)" by (simp add: a enclave_attest_def Let_def)
  with assms d a show ?thesis
    by (intro that [OF v])
      (auto simp: guard_submit_def rbind_Inr_iff Let_def append_audit_def split: option.splits if_splits)
qed

section \<open>Payments signed for x402\<close>

text \<open>The payments a guard signs during a run, with their time; operations that settle pending
  submissions are excluded, because those are recorded when they settle and not when they are allowed.\<close>

definition settling :: "guard_op \<Rightarrow> bool" where
  "settling op = (case op of GMine \<Rightarrow> True | GReconcile _ \<Rightarrow> True | _ \<Rightarrow> False)"

fun signed_payments :: "primitives \<Rightarrow> AgentGuard \<Rightarrow> (int \<times> guard_op) list \<Rightarrow> (int \<times> int) list" where
  "signed_payments P g [] = []"
| "signed_payments P g ((now, op) # ops) =
     (case op of
        GX402 digest r \<Rightarrow> (case sign_for_x402 P now digest r g of Inr (Some _, _) \<Rightarrow> [(now, pr_amount r)] | _ \<Rightarrow> [])
      | _ \<Rightarrow> []) @ signed_payments P (guard_step P g (now, op)) ops"

definition total_in_window :: "int \<Rightarrow> int \<Rightarrow> (int \<times> int) list \<Rightarrow> int" where
  "total_in_window now window_s ps = (\<Sum>(t, amount)\<leftarrow>filter (\<lambda>(t, amount). now - t < window_s) ps. amount)"

definition payments :: "PolicyEngine \<Rightarrow> (int \<times> int) list" where
  "payments e = map (\<lambda>r. (sr_ts r, sr_amount r)) (en_history e)"

definition capped :: "int \<Rightarrow> PolicyEngine \<Rightarrow> bool" where
  "capped now e = (policy_ok (en_policy e) \<and> list_all (\<lambda>r. 0 \<le> sr_amount r) (en_history e) \<and>
     list_all (\<lambda>wc. spent_in_window now e (wc_window_s wc) \<le> wc_cap wc) (wp_window_caps (en_policy e)))"

lemma total_in_window_payments: "total_in_window now w (payments e) = spent_in_window now e w"
  by (simp add: total_in_window_def payments_def spent_in_window_def filter_map comp_def case_prod_beta)

lemma capped_later:
  assumes "capped now e" "now \<le> t"
  shows "capped t e"
proof -
  have "spent_in_window t e w \<le> spent_in_window now e w" for w
    using assms unfolding spent_in_window_def sum_filter_if by (intro sum_list_mono) (auto simp: capped_def list_all_iff)
  then have "spent_in_window now e w \<le> c \<Longrightarrow> spent_in_window t e w \<le> c" for w c by (rule order_trans)
  then show ?thesis using assms(1) by (auto simp: capped_def list_all_iff)
qed

lemma capped_record:
  assumes "capped now e" "permits P now e p chain"
  shows "capped now (engine_record now p e)"
proof -
  have pos: "0 < amount_of p" using assms(2) by (auto simp: permits_def well_formed_def amount_of_def)
  have "spent_in_window now (engine_record now p e) w = spent_in_window now e w + amount_of p" if "0 < w" for w
    using that by (simp add: spent_in_window_def engine_record_def)
  then show ?thesis using assms pos
    by (auto simp: capped_def engine_record_def permits_def within_limits_def policy_ok_def list_all_iff Let_def)
qed

lemma sign_for_x402_engine:
  assumes "sign_for_x402 P now digest r g = Inr (s, g')"
  shows "gd_engine g' = (if s = None then gd_engine g else engine_record now (x402_proposal r) (gd_engine g))"
    "s \<noteq> None \<Longrightarrow> permits P now (gd_engine g) (x402_proposal r) None"
proof -
  from assms obtain v a where d: "decide P now g (x402_proposal r) None = Inr (v, a)"
    by (auto simp: sign_for_x402_def rbind_Inr_iff Let_def)
  then have v: "engine_evaluate P now (gd_engine g) (x402_proposal r) None = Inr v" by (auto simp: decide_def rbind_Inr_iff)
  from assms d show "gd_engine g' = (if s = None then gd_engine g else engine_record now (x402_proposal r) (gd_engine g))"
    by (auto simp: sign_for_x402_def Let_def append_audit_def split: if_splits)
  from assms d engine_evaluate_permits(1) [OF v] show "s \<noteq> None \<Longrightarrow> permits P now (gd_engine g) (x402_proposal r) None"
    by (auto simp: sign_for_x402_def Let_def split: if_splits)
qed

lemma guard_submit_engine: "guard_submit P now p chain settle g = Inr (r, g') \<Longrightarrow> gd_engine g' = gd_engine g"
  by (rule guard_submit_cases)

lemma guard_step_engine:
  assumes "\<not> settling op"
  shows "gd_engine (guard_step P g (now, op)) = (case op of
     GX402 digest r \<Rightarrow> (case sign_for_x402 P now digest r g of Inr (Some _, _) \<Rightarrow> engine_record now (x402_proposal r) (gd_engine g) | _ \<Rightarrow> gd_engine g)
   | _ \<Rightarrow> gd_engine g)"
  using assms
  by (cases op) (auto simp: guard_step_def settling_def client_submit_def guard_submit_engine sign_for_x402_engine
      split: sum.splits option.splits)

lemma guard_step_payments:
  assumes "\<not> settling op"
  shows "payments (gd_engine (guard_step P g (now, op))) = payments (gd_engine g) @ signed_payments P g [(now, op)]"
  using guard_step_engine [OF assms, of P g now]
  by (cases op) (auto simp: payments_def engine_record_def x402_proposal_def amount_of_def split: sum.splits option.splits)

lemma guard_step_capped:
  assumes "\<not> settling op" "capped now (gd_engine g)"
  shows "capped now (gd_engine (guard_step P g (now, op)))"
  using assms guard_step_engine [OF assms(1), of P g now]
  by (cases op) (auto split: sum.splits option.splits intro!: capped_record dest!: sign_for_x402_engine(2))

lemma guard_step_policy:
  assumes "\<not> settling op"
  shows "en_policy (gd_engine (guard_step P g (now, op))) = en_policy (gd_engine g)"
  using guard_step_engine [OF assms, of P g now]
  by (cases op) (auto simp: engine_record_def split: sum.splits option.splits)

lemma run_capped:
  assumes "sorted (map fst ops)" "list_all (\<lambda>(t, op). t0 \<le> t \<and> t \<le> now \<and> \<not> settling op) ops" "capped t0 (gd_engine g)" "t0 \<le> now"
  shows "capped now (gd_engine (foldl (guard_step P) g ops))"
    "payments (gd_engine (foldl (guard_step P) g ops)) = payments (gd_engine g) @ signed_payments P g ops"
    "en_policy (gd_engine (foldl (guard_step P) g ops)) = en_policy (gd_engine g)"
proof -
  have "capped now (gd_engine (foldl (guard_step P) g ops)) \<and>
    payments (gd_engine (foldl (guard_step P) g ops)) = payments (gd_engine g) @ signed_payments P g ops \<and>
    en_policy (gd_engine (foldl (guard_step P) g ops)) = en_policy (gd_engine g)"
    using assms
  proof (induction ops arbitrary: g t0)
    case Nil
    then show ?case using capped_later by simp
  next
    case (Cons o1 ops)
    obtain t op where o1: "o1 = (t, op)" by (cases o1)
    have t: "t0 \<le> t" "t \<le> now" "\<not> settling op" using Cons.prems(2) by (simp_all add: o1)
    have cap: "capped t (gd_engine (guard_step P g (t, op)))"
      using capped_later [OF Cons.prems(3) t(1)] t(3) by (rule guard_step_capped [rotated])
    have later: "list_all (\<lambda>(u, op). t \<le> u \<and> u \<le> now \<and> \<not> settling op) ops"
      using Cons.prems(1,2) by (auto simp: o1 list_all_iff)
    from Cons.IH [OF _ later cap t(2)] Cons.prems(1) t(3) show ?case
      by (simp add: o1 guard_step_payments guard_step_policy)
  qed
  then show "capped now (gd_engine (foldl (guard_step P) g ops))"
    "payments (gd_engine (foldl (guard_step P) g ops)) = payments (gd_engine g) @ signed_payments P g ops"
    "en_policy (gd_engine (foldl (guard_step P) g ops)) = en_policy (gd_engine g)" by blast+
qed

section \<open>Settlement by a facilitator\<close>

text \<open>The authorizations a facilitator settles when it is called with each of a list in turn, each
  time with the chain as others have left it.\<close>

fun settled_by :: "primitives \<Rightarrow> Facilitator \<Rightarrow> (int \<times> PaymentAuthorization \<times> chain) list \<Rightarrow> (int \<times> PaymentAuthorization) list" where
  "settled_by P f [] = []"
| "settled_by P f ((now, auth, c) # calls) =
     (let (r, f') = facilitator_settle P now auth (f\<lparr>fc_chain := c\<rparr>) in
      (case r of Inr (True, _) \<Rightarrow> [(now, auth)] | _ \<Rightarrow> []) @ settled_by P f' calls)"

definition payer_signed :: "primitives \<Rightarrow> PaymentAuthorization \<Rightarrow> bool" where
  "payer_signed P auth = (\<exists>pub sig. bytes_fromhex (pa_payer_pub_hex auth) = Some pub \<and> bytes_fromhex (pa_signature_hex auth) = Some sig \<and>
     pa_payer auth = address_of P pub \<and> ed25519_verify P pub sig (requirements_digest (pa_requirements auth)))"

lemma facilitator_settle_facts:
  assumes "facilitator_settle P now auth f = (r, f')"
  shows "set (fc_used_nonces f) \<subseteq> set (fc_used_nonces f')"
    "r = Inr (True, w) \<Longrightarrow> pr_nonce (pa_requirements auth) \<notin> set (fc_used_nonces f) \<and>
       pr_nonce (pa_requirements auth) \<in> set (fc_used_nonces f') \<and> payer_signed P auth \<and>
       now \<le> pr_expires_at (pa_requirements auth) \<and> 0 < pr_amount (pa_requirements auth)"
proof -
  show "set (fc_used_nonces f) \<subseteq> set (fc_used_nonces f')"
    using assms by (auto simp: facilitator_settle_def Let_def split: sum.splits prod.splits if_splits)
  assume r: "r = Inr (True, w)"
  with assms obtain why where ok: "facilitator_verify P now f auth = Inr (True, why)"
    by (auto simp: facilitator_settle_def Let_def split: sum.splits prod.splits if_splits)
  have used: "pr_nonce (pa_requirements auth) \<in> set (fc_used_nonces f')"
    using assms r ok by (auto simp: facilitator_settle_def Let_def split: sum.splits prod.splits if_splits)
  from ok have "pr_nonce (pa_requirements auth) \<notin> set (fc_used_nonces f)" "payer_signed P auth"
    "now \<le> pr_expires_at (pa_requirements auth)" "0 < pr_amount (pa_requirements auth)"
    by (auto simp: facilitator_verify_def Let_def rbind_Inr_iff payer_pub_def hex_signature_ok_def payer_signed_def
        split: if_splits option.splits)
  with used show "pr_nonce (pa_requirements auth) \<notin> set (fc_used_nonces f) \<and>
       pr_nonce (pa_requirements auth) \<in> set (fc_used_nonces f') \<and> payer_signed P auth \<and>
       now \<le> pr_expires_at (pa_requirements auth) \<and> 0 < pr_amount (pa_requirements auth)" by simp
qed

lemma settled_by_facts:
  "distinct (map (\<lambda>(now, auth). pr_nonce (pa_requirements auth)) (settled_by P f calls)) \<and>
   (\<forall>(now, auth)\<in>set (settled_by P f calls). pr_nonce (pa_requirements auth) \<notin> set (fc_used_nonces f) \<and>
      payer_signed P auth \<and> now \<le> pr_expires_at (pa_requirements auth) \<and> 0 < pr_amount (pa_requirements auth))"
proof (induction calls arbitrary: f)
  case (Cons call calls)
  obtain now auth c where call: "call = (now, auth, c)" by (cases call)
  obtain r f' where step: "facilitator_settle P now auth (f\<lparr>fc_chain := c\<rparr>) = (r, f')"
    by (cases "facilitator_settle P now auth (f\<lparr>fc_chain := c\<rparr>)")
  note facts = facilitator_settle_facts [OF step] and rest = Cons.IH [of f']
  show ?case
  proof (cases "\<exists>w. r = Inr (True, w)")
    case True
    then obtain w where "r = Inr (True, w)" by blast
    with facts(1) facts(2) [of w] rest show ?thesis by (fastforce simp: call step)
  next
    case False
    then have "settled_by P f (call # calls) = settled_by P f' calls" by (auto simp: call step split: sum.splits bool.splits)
    with facts(1) rest show ?thesis by fastforce
  qed
qed simp

section \<open>Rules enforced by the chain\<close>

definition obeys :: "ContractWalletRules \<Rightarrow> Tx \<Rightarrow> bool" where
  "obeys r tx = (tx_kind tx = TRANSFER \<longrightarrow> tx_asset tx \<in> set (cw_allowed_assets r) \<and>
     (cw_per_tx_cap r = 0 \<or> tx_amount tx \<le> cw_per_tx_cap r) \<and>
     (cw_allowlist r = [] \<or> (\<exists>a\<in>set (cw_allowlist r). tx_to tx = Some a)))"

lemma rules_hook_None: "rules_hook r tx = None \<longleftrightarrow> obeys r tx"
  by (auto simp: rules_hook_def obeys_def split: option.splits)

lemma move_hooks: "move a f t x s = (r, s') \<Longrightarrow> ch_rule_hooks s' = ch_rule_hooks s \<and> ch_blocks s' = ch_blocks s"
  by (auto simp: move_def split: sum.splits)

lemma execute_swap_hooks: "execute_swap tx s = (r, s') \<Longrightarrow> ch_rule_hooks s' = ch_rule_hooks s \<and> ch_blocks s' = ch_blocks s"
  unfolding execute_swap_def by (auto split: sum.splits prod.splits dest!: move_hooks)

lemma run_tx_hooks: "run_tx tx s = (r, s') \<Longrightarrow> ch_rule_hooks s' = ch_rule_hooks s \<and> ch_blocks s' = ch_blocks s"
  unfolding run_tx_def
  by (auto split: sum.splits prod.splits if_splits option.splits dest!: move_hooks execute_swap_hooks)

lemma execute_tx_hooks:
  assumes "execute_tx tx s = (r, s')"
  shows "ch_rule_hooks s' = ch_rule_hooks s" "ch_blocks s' = ch_blocks s"
    "r = Inr rc \<Longrightarrow> rc_success rc \<Longrightarrow> rc_tx rc = tx \<and> check_hook tx s = Inr ()"
proof -
  obtain r1 s1 where run: "run_tx tx s = (r1, s1)" by (cases "run_tx tx s")
  have same: "ch_rule_hooks s' = ch_rule_hooks s1 \<and> ch_blocks s' = ch_blocks s1"
    using assms unfolding execute_tx_def run by (auto split: sum.splits exn.splits)
  then show "ch_rule_hooks s' = ch_rule_hooks s" "ch_blocks s' = ch_blocks s" using run_tx_hooks [OF run] by simp_all
  assume "r = Inr rc" "rc_success rc"
  then obtain out where "r1 = Inr out" "rc_tx rc = tx"
    using assms unfolding execute_tx_def run by (auto split: sum.splits exn.splits)
  then show "rc_tx rc = tx \<and> check_hook tx s = Inr ()" using run unfolding run_tx_def by (auto split: sum.splits)
qed

lemma execute_all_hooks:
  "execute_all txs s = (r, s') \<Longrightarrow> dget (ch_rule_hooks s) w = Some (rules_hook rules) \<Longrightarrow>
     ch_rule_hooks s' = ch_rule_hooks s \<and> ch_blocks s' = ch_blocks s \<and>
     (\<forall>rs. r = Inr rs \<longrightarrow> (\<forall>rc\<in>set rs. rc_success rc \<longrightarrow> tx_sender (rc_tx rc) = w \<longrightarrow> obeys rules (rc_tx rc)))"
proof (induction txs arbitrary: s r s')
  case (Cons tx txs)
  obtain r1 s1 where one: "execute_tx tx s = (r1, s1)" by (cases "execute_tx tx s")
  obtain r2 s2 where rest: "execute_all txs s1 = (r2, s2)" by (cases "execute_all txs s1")
  note f = execute_tx_hooks [OF one]
  have hook: "dget (ch_rule_hooks s1) w = Some (rules_hook rules)" using f(1) Cons.prems(2) by simp
  have "obeys rules (rc_tx rc)" if "r1 = Inr rc" "rc_success rc" "tx_sender (rc_tx rc) = w" for rc
    using f(3) [OF that(1,2)] that(3) Cons.prems(2) by (auto simp: check_hook_def rules_hook_None split: option.splits)
  with Cons.IH [OF rest hook] f(1,2) Cons.prems(1) one rest show ?case by (auto split: sum.splits)
qed simp

text \<open>Since a wallet was deployed: its hook is in place, and it rules every later block.\<close>

definition ruled :: "string \<Rightarrow> ContractWalletRules \<Rightarrow> nat \<Rightarrow> chain \<Rightarrow> bool" where
  "ruled w rules n c = (dget (ch_rule_hooks c) w = Some (rules_hook rules) \<and> n \<le> length (ch_blocks c) \<and>
     (\<forall>rs\<in>set (drop n (ch_blocks c)). \<forall>rc\<in>set rs. rc_success rc \<longrightarrow> tx_sender (rc_tx rc) = w \<longrightarrow> obeys rules (rc_tx rc)))"

lemma ruled_same: "ch_rule_hooks c' = ch_rule_hooks c \<Longrightarrow> ch_blocks c' = ch_blocks c \<Longrightarrow> ruled w rules n c \<Longrightarrow> ruled w rules n c'"
  by (simp add: ruled_def)

lemma apply_op_ruled:
  assumes "ruled w rules n c" "\<forall>hook. op \<noteq> OpHook w hook"
  shows "ruled w rules n (apply_op P c op)"
proof (cases op)
  case (OpMint a addr amount)
  show ?thesis by (rule ruled_same [OF _ _ assms(1)])
      (auto simp: OpMint apply_op_def chain_mint_def rbind_def token_of_def of_option_def split: sum.splits option.splits)
next
  case (OpSubmit tx)
  show ?thesis by (rule ruled_same [OF _ _ assms(1)])
      (auto simp: OpSubmit apply_op_def submit_def rbind_def Let_def split: sum.splits)
next
  case OpMine
  obtain r c1 where run: "execute_all (ch_mempool c) (c\<lparr>ch_mempool := []\<rparr>) = (r, c1)"
    by (cases "execute_all (ch_mempool c) (c\<lparr>ch_mempool := []\<rparr>)")
  have hook: "dget (ch_rule_hooks (c\<lparr>ch_mempool := []\<rparr>)) w = Some (rules_hook rules)" using assms(1) by (simp add: ruled_def)
  from execute_all_hooks [OF run hook] assms(1) show ?thesis
    by (auto simp: OpMine apply_op_def mine_block_def run ruled_def split: sum.split)
next
  case (OpHook addr hook)
  with assms show ?thesis by (auto simp: apply_op_def register_rule_hook_def ruled_def)
qed

section \<open>Properties\<close>

lemma guard_submit_facts:
  assumes "guard_submit P now p chain settle g = Inr (r, g')"
    and "keys_ok P" "kp_pub (gd_attestor g) = ed25519_public P (kp_priv (gd_attestor g))"
  shows "gd_chain g' = gd_chain g \<or> (permits P now (gd_engine g) p chain \<and> (\<exists>c c' tx. gd_chain g = Some c \<and> gd_chain g' = Some c' \<and>
       carries_out p tx \<and> tx_decision_hash tx = sha256_hex P (proposal_canonical p) \<and> tx_sender tx = kp_address (gd_signer g) \<and>
       verify_authorization P tx c = Inr () \<and> ch_mempool c' = ch_mempool c @ [tx\<lparr>tx_submitted_at := ch_clock c\<rparr>]))"
    "vd_allow (gr_verdict r) \<longleftrightarrow> permits P now (gd_engine g) p chain"
    "at_proposal_hash (gr_attestation r) = sha256_hex P (proposal_canonical p)"
    "at_verdict (gr_attestation r) = verdict_str (gr_verdict r)"
    "verify_attestation P (gr_attestation r) (kp_pub (gd_attestor g)) = Inr True"
proof -
  from assms(1) obtain v where v: "engine_evaluate P now (gd_engine g) p chain = Inr v" "gr_verdict r = v"
    and a: "gr_attestation r = enclave_attest P (gd_attestor g) now (gd_policy_hash g) (proposal_canonical p) (verdict_str v) (vd_reasons v)"
    and c: "gd_chain g' = gd_chain g \<or> (vd_allow v \<and> settle \<and> (\<exists>c c' tx. gd_chain g = Some c \<and> gd_chain g' = Some c' \<and>
       to_tx P g p (sha256_hex P (proposal_canonical p)) = Inr tx \<and> submit P tx c = Inr c'))"
    by (rule guard_submit_cases)
  note allow = engine_evaluate_permits(1) [OF v(1)]
  then show "vd_allow (gr_verdict r) \<longleftrightarrow> permits P now (gd_engine g) p chain" by (simp add: v(2))
  show "at_proposal_hash (gr_attestation r) = sha256_hex P (proposal_canonical p)"
    "at_verdict (gr_attestation r) = verdict_str (gr_verdict r)"
    by (simp_all add: a v(2) enclave_attest_def Let_def)
  show "verify_attestation P (gr_attestation r) (kp_pub (gd_attestor g)) = Inr True"
    unfolding a by (rule enclave_attest_verifies [OF assms(2,3)])
  have "verify_authorization P tx c = Inr () \<and> ch_mempool c' = ch_mempool c @ [tx\<lparr>tx_submitted_at := ch_clock c\<rparr>]"
    if "submit P tx c = Inr c'" for tx c c'
    using that by (auto simp: submit_def rbind_Inr_iff Let_def)
  with c allow to_tx_facts show "gd_chain g' = gd_chain g \<or> (permits P now (gd_engine g) p chain \<and>
      (\<exists>c c' tx. gd_chain g = Some c \<and> gd_chain g' = Some c' \<and>
       carries_out p tx \<and> tx_decision_hash tx = sha256_hex P (proposal_canonical p) \<and> tx_sender tx = kp_address (gd_signer g) \<and>
       verify_authorization P tx c = Inr () \<and> ch_mempool c' = ch_mempool c @ [tx\<lparr>tx_submitted_at := ch_clock c\<rparr>]))" by metis
qed

text \<open>C12. The guard is the only way to a signature: a call of \<open>submit\<close> either leaves the chain as it was or
  adds exactly one transaction to it, and then the policy permits the proposal at that moment,
  the transaction does what the proposal says, names the hash of the proposal as its decision,
  is sent by the wallet and passed the chain's authorization check; the receipt carries an
  attestation of this verdict on this proposal that verifies under the enclave's key.\<close>

theorem guard_submits_only_permitted:
  assumes "guard_submit P now p chain settle g = Inr (r, g')"
    and "keys_ok P" "kp_pub (gd_attestor g) = ed25519_public P (kp_priv (gd_attestor g))"
  shows "(gd_chain g' = gd_chain g \<or> (permits P now (gd_engine g) p chain \<and> (\<exists>c c' tx. gd_chain g = Some c \<and> gd_chain g' = Some c' \<and>
       carries_out p tx \<and> tx_decision_hash tx = sha256_hex P (proposal_canonical p) \<and> tx_sender tx = kp_address (gd_signer g) \<and>
       verify_authorization P tx c = Inr () \<and> ch_mempool c' = ch_mempool c @ [tx\<lparr>tx_submitted_at := ch_clock c\<rparr>]))) \<and>
    (vd_allow (gr_verdict r) \<longleftrightarrow> permits P now (gd_engine g) p chain) \<and>
    at_proposal_hash (gr_attestation r) = sha256_hex P (proposal_canonical p) \<and>
    at_verdict (gr_attestation r) = verdict_str (gr_verdict r) \<and>
    verify_attestation P (gr_attestation r) (kp_pub (gd_attestor g)) = Inr True"
  by (intro conjI guard_submit_facts [OF assms])

definition sample_guard :: AgentGuard where
  "sample_guard = AgentGuard_init prims (PolicyEngine_init strict_policy) (EnclaveAttestor_init prims ''run'') (IsolatedSigner_init prims ''run'') None"

theorem guard_submits_only_permitted_witness:
  "\<exists>r g'. guard_submit prims 5 (sample_payment 90) None True sample_guard = Inr (r, g') \<and>
     vd_allow (gr_verdict r) = permits prims 5 (PolicyEngine_init strict_policy) (sample_payment 90) None"
proof -
  have ev: "engine_evaluate prims 5 (PolicyEngine_init strict_policy) (sample_payment 90) None = Inr \<lparr>vd_allow = True, vd_reasons = []\<rparr>"
    by code_simp
  obtain r g' where run: "guard_submit prims 5 (sample_payment 90) None True sample_guard = Inr (r, g')"
    by (auto simp: guard_submit_def decide_def sample_guard_def AgentGuard_init_def ev Let_def)
  have keys: "kp_pub (gd_attestor sample_guard) = ed25519_public prims (kp_priv (gd_attestor sample_guard))"
    by (simp add: sample_guard_def AgentGuard_init_def EnclaveAttestor_init_def from_seed_def Let_def)
  from guard_submits_only_permitted [OF run prims_ok(2) keys] run show ?thesis
    by (auto simp: sample_guard_def AgentGuard_init_def)
qed

text \<open>C37. The audit log of the guard: whatever is submitted, settled, signed or done on the chain, the log
  of a new guard verifies, its entries are numbered from 0, and an operation only appends to it.\<close>

theorem guard_audit_intact:
  assumes "g = foldl (guard_step P) (AgentGuard_init P engine attestor signer chain) ops"
  shows "verify_audit_chain P g \<and> map ae_seq (gd_audit g) = map int [0..<length (gd_audit g)] \<and>
    (\<exists>new. gd_audit (guard_step P g op) = gd_audit g @ new)"
proof -
  have "audit_ok P h \<Longrightarrow> audit_ok P (foldl (guard_step P) h ops)" for h
  proof (induction ops arbitrary: h)
    case (Cons o1 ops)
    from guard_step_extends [of P h "fst o1" "snd o1"] Cons show ?case by (simp add: audit_extends_def)
  qed simp
  moreover have "audit_ok P (AgentGuard_init P engine attestor signer chain)"
    by (simp add: audit_ok_def verify_audit_chain_def AgentGuard_init_def)
  ultimately have ok: "audit_ok P g" using assms by blast
  from ok guard_step_extends [of P g "fst op" "snd op"] show ?thesis by (simp add: audit_extends_def audit_ok_def)
qed

definition sample_requirements :: PaymentRequirements where
  "sample_requirements = \<lparr>pr_scheme = ''exact'', pr_network = ''local-test'', pr_asset = ''TUSDC'', pr_amount = 40, pr_pay_to = ''0xshop'',
     pr_resource = ''q3'', pr_nonce = ''n1'', pr_expires_at = 300\<rparr>"

theorem guard_audit_intact_witness:
  "verify_audit_chain prims (foldl (guard_step prims) sample_guard [(5, GSubmit (sample_payment 90) None True), (6, GX402 [] sample_requirements)])"
  unfolding sample_guard_def by (rule conjunct1 [OF guard_audit_intact [OF refl]])

text \<open>C27. Payments signed for x402 stay within the caps of a loaded policy: with a clock that does not
  run backwards, at every time the payments signed during the last \<open>window_s\<close> seconds sum to at
  most the cap, for each window cap, as long as no pending submission settles meanwhile. (A
  submission is recorded when it settles, so pending ones are not counted.)\<close>

theorem x402_payments_capped:
  assumes "load_policy safe_load txt = Inr pol" "sorted (map fst ops)" "list_all (\<lambda>(t, op). t \<le> now \<and> \<not> settling op) ops"
    and "wc \<in> set (wp_window_caps pol)"
  shows "total_in_window now (wc_window_s wc)
     (signed_payments P (AgentGuard_init P (PolicyEngine_init pol) attestor signer chain) ops) \<le> wc_cap wc"
proof -
  let ?g = "AgentGuard_init P (PolicyEngine_init pol) attestor signer chain"
  define t0 where "t0 = (case ops of [] \<Rightarrow> now | o1 # _ \<Rightarrow> fst o1)"
  have "policy_ok pol" using assms(1) by (auto simp: load_policy_def dest: load_mapping_ok split: sum.splits yaml.splits)
  then have cap: "capped t0 (gd_engine ?g)"
    by (auto simp: capped_def AgentGuard_init_def PolicyEngine_init_def spent_in_window_def policy_ok_def list_all_iff)
  have times: "list_all (\<lambda>(t, op). t0 \<le> t \<and> t \<le> now \<and> \<not> settling op) ops" "t0 \<le> now"
    using assms(2,3) by (fastforce simp: t0_def list_all_iff split: list.splits)+
  note run = run_capped [OF assms(2) times(1) cap times(2), of P]
  have "payments (gd_engine ?g) = []" by (simp add: payments_def AgentGuard_init_def PolicyEngine_init_def)
  with run(2) have "total_in_window now (wc_window_s wc) (signed_payments P ?g ops) =
      spent_in_window now (gd_engine (foldl (guard_step P) ?g ops)) (wc_window_s wc)"
    by (simp flip: total_in_window_payments)
  moreover have "en_policy (gd_engine ?g) = pol" by (simp add: AgentGuard_init_def PolicyEngine_init_def)
  ultimately show ?thesis using run(1,3) assms(4) by (simp add: capped_def list_all_iff)
qed

theorem x402_payments_capped_witness:
  "total_in_window 9 3600 (signed_payments prims sample_guard [(5, GX402 [] sample_requirements), (7, GX402 [] sample_requirements)]) \<le> 800"
proof -
  have load: "load_policy (\<lambda>_. Inr (YMap sample_yaml)) ''strict.yaml'' = Inr strict_policy" by code_simp
  have "\<lparr>wc_window_s = 3600, wc_cap = 800\<rparr> \<in> set (wp_window_caps strict_policy)" by (simp add: strict_policy_def)
  from x402_payments_capped [OF load _ _ this, of "[(5, GX402 [] sample_requirements), (7, GX402 [] sample_requirements)]" 9 prims]
  show ?thesis by (simp add: settling_def sample_guard_def)
qed



text \<open>C33. The rules of a contract wallet hold on the chain: after \<open>deploy_contract_wallet\<close>, whatever is
  minted, submitted or mined, by the guard or past it, every transfer of the wallet that succeeds in
  a later block is of an allowed asset, within the cap and to an allowed recipient, as long as no
  other hook is registered for the wallet. (Swaps are not restricted.)\<close>

theorem contract_wallet_enforced:
  assumes "c = foldl (apply_op P) (deploy_contract_wallet w rules c0) ops" "list_all (\<lambda>op. \<forall>hook. op \<noteq> OpHook w hook) ops"
    and "rs \<in> set (drop (length (ch_blocks c0)) (ch_blocks c))" "rc \<in> set rs" "rc_success rc" "tx_sender (rc_tx rc) = w"
  shows "obeys rules (rc_tx rc)"
proof -
  have "ruled w rules n d \<Longrightarrow> list_all (\<lambda>op. \<forall>hook. op \<noteq> OpHook w hook) ops \<Longrightarrow> ruled w rules n (foldl (apply_op P) d ops)" for n d
    by (induction ops arbitrary: d) (simp_all add: apply_op_ruled)
  moreover have "ruled w rules (length (ch_blocks c0)) (deploy_contract_wallet w rules c0)"
    by (simp add: ruled_def deploy_contract_wallet_def register_rule_hook_def)
  ultimately have "ruled w rules (length (ch_blocks c0)) c" using assms(1,2) by blast
  with assms(3-6) show ?thesis by (auto simp: ruled_def)
qed

definition sample_rules :: ContractWalletRules where
  "sample_rules = ContractWalletRules_init 200 None None"

definition sample_pending :: Tx where
  "sample_pending = \<lparr>tx_kind = TRANSFER, tx_sender = ''0xw'', tx_to = Some ''0xs'', tx_amount = 9, tx_asset = ''TUSDC'', tx_amount_in = 0,
     tx_token_in = ''TUSDC'', tx_token_out = ''DRB'', tx_min_out = 0, tx_private = False, tx_submitted_at = 0, tx_nonce = 0, tx_chain_id = 1,
     tx_deadline = 9, tx_decision_hash = ''d'', tx_public_key_hex = [], tx_signature_hex = []\<rparr>"

definition sample_chain :: chain where
  "sample_chain = (projr (LocalChain_init 10 10 1))\<lparr>ch_mempool := [sample_pending]\<rparr>"

theorem contract_wallet_enforced_witness: "obeys sample_rules sample_pending"
proof -
  let ?c = "foldl (apply_op prims) (deploy_contract_wallet ''0xw'' sample_rules sample_chain) [OpMint ''TUSDC'' ''0xw'' 50, OpMine]"
  have blocks: "ch_blocks ?c = [[\<lparr>rc_tx = sample_pending, rc_success = True, rc_amount_out = 0, rc_error = []\<rparr>]]"
    "ch_blocks sample_chain = []" by code_simp+
  define rc where "rc = \<lparr>rc_tx = sample_pending, rc_success = True, rc_amount_out = 0, rc_error = []\<rparr>"
  have later: "[rc] \<in> set (drop (length (ch_blocks sample_chain)) (ch_blocks ?c))" unfolding blocks rc_def by simp
  have "tx_sender (rc_tx rc) = ''0xw''" "rc_success rc" by (simp_all add: rc_def sample_pending_def)
  with contract_wallet_enforced [OF refl _ later] have "obeys sample_rules (rc_tx rc)" by simp
  then show ?thesis by (simp add: rc_def)
qed

end
