(* ===== verification/ServiceAccounts.thy ===== *)
theory ServiceAccounts
  imports Contracts
begin

text \<open>
  \<open>src/aegisledger/service_accounts.py\<close> and \<open>auth.py\<close>: service credentials for agent clients, the
  two stores behind them (in memory, and on the table of migration \<open>0006_service_accounts.py\<close>),
  and the routing of requests between service tokens and OIDC.

  \<^item> Identifiers from \<open>uuid7()\<close> and the secret from \<open>secrets.token_urlsafe(32)\<close> are arguments. A
    timestamp may lack its UTC offset, which \<open>_as_utc\<close> refuses.
  \<^item> Validating a JWT is the work of the \<open>jwt\<close> package and the key server: the claims it returns for a
    token, or its failure, are a parameter.
  \<^item> The operations of a store are a record, as the \<open>Protocol\<close> class of the code; the locale
    \<open>credential_store\<close> states what the manager relies on, and both stores interpret it.

  Shown: a token is accepted only if it was issued with the subject, permissions and scope that
  are returned, has not expired and was not revoked; and an issued token is accepted until then.
\<close>

section \<open>Principals\<close>

datatype Role = VIEWER | RESEARCHER | POLICY_ADMIN | AUDITOR

datatype Permission = PROPOSALS_READ | PROPOSALS_WRITE | POLICIES_SIMULATE | ATTESTATIONS_VERIFY

datatype PrincipalKind = HUMAN | SERVICE

definition role_values :: "(string \<times> Role) list" where
  "role_values = [(''viewer'', VIEWER), (''researcher'', RESEARCHER), (''policy_admin'', POLICY_ADMIN), (''auditor'', AUDITOR)]"

definition permission_value :: "Permission \<Rightarrow> string" where
  "permission_value p = (case p of PROPOSALS_READ \<Rightarrow> ''proposals:read'' | PROPOSALS_WRITE \<Rightarrow> ''proposals:write''
     | POLICIES_SIMULATE \<Rightarrow> ''policies:simulate'' | ATTESTATIONS_VERIFY \<Rightarrow> ''attestations:verify'')"

definition permissions_sorted :: "Permission list" where
  "permissions_sorted = [ATTESTATIONS_VERIFY, POLICIES_SIMULATE, PROPOSALS_READ, PROPOSALS_WRITE]"

definition permission_of :: "string \<Rightarrow> Permission res" where
  "permission_of s = of_option (ValueError ''is not a valid Permission'') (find (\<lambda>p. permission_value p = s) permissions_sorted)"

record Principal =
  pl_subject :: string
  pl_roles :: "Role set"
  pl_permissions :: "Permission set"
  pl_kind :: PrincipalKind
  pl_organization_id :: string
  pl_environment_id :: string

definition make_Principal :: "Principal \<Rightarrow> Principal res" where
  "make_Principal p =
     (if len_between 1 256 (pl_subject p) \<and> len_between 1 128 (pl_organization_id p) \<and> len_between 1 128 (pl_environment_id p)
      then Inr p else Inl (ValueError ''Principal''))"

section \<open>Records and stores\<close>

record ServiceAccountRecord =
  sa_credential_id :: uuid
  sa_key_id :: uuid
  sa_name :: string
  sa_subject :: string
  sa_organization_id :: string
  sa_environment_id :: string
  sa_permissions :: "Permission set"
  sa_token_digest :: string
  sa_created_at :: time
  sa_expires_at :: "time option"
  sa_revoked_at :: "time option"
  sa_last_used_at :: "time option"

record IssuedServiceAccount =
  is_credential_id :: uuid
  is_key_id :: uuid
  is_name :: string
  is_subject :: string
  is_organization_id :: string
  is_environment_id :: string
  is_permissions :: "Permission set"
  is_token :: string
  is_expires_at :: "time option"

record 's ServiceAccountStore =
  sas_create :: "ServiceAccountRecord \<Rightarrow> 's \<Rightarrow> 's res"
  sas_get_by_key_id :: "uuid \<Rightarrow> 's \<Rightarrow> ServiceAccountRecord option res"
  sas_revoke :: "uuid \<Rightarrow> time \<Rightarrow> 's \<Rightarrow> 's res"
  sas_mark_used :: "uuid \<Rightarrow> time \<Rightarrow> 's \<Rightarrow> 's res"

definition unknown_credential :: "uuid \<Rightarrow> exn" where
  "unknown_credential c = KeyError (''unknown service credential '' @ uuid_str c)"

text \<open>The store in memory.\<close>

type_synonym memory_credentials = "(uuid, ServiceAccountRecord) dict"

definition mc_create :: "ServiceAccountRecord \<Rightarrow> memory_credentials \<Rightarrow> memory_credentials res" where
  "mc_create r d = (if dhas d (sa_key_id r) then Inl (ValueError ''service credential key already exists'') else Inr (dset (sa_key_id r) r d))"

definition mc_find_credential :: "uuid \<Rightarrow> memory_credentials \<Rightarrow> (uuid \<times> ServiceAccountRecord) res" where
  "mc_find_credential c d = of_option (unknown_credential c) (find (\<lambda>(_, r). sa_credential_id r = c) d)"

definition mc_revoke :: "uuid \<Rightarrow> time \<Rightarrow> memory_credentials \<Rightarrow> memory_credentials res" where
  "mc_revoke c t d = rbind (mc_find_credential c d) (\<lambda>(k, r). Inr (dset k (r\<lparr>sa_revoked_at := Some t\<rparr>) d))"

definition mc_mark_used :: "uuid \<Rightarrow> time \<Rightarrow> memory_credentials \<Rightarrow> memory_credentials res" where
  "mc_mark_used c t d = rbind (mc_find_credential c d) (\<lambda>(k, r). Inr (dset k (r\<lparr>sa_last_used_at := Some t\<rparr>) d))"

definition MemoryServiceAccountStore :: "memory_credentials ServiceAccountStore" where
  "MemoryServiceAccountStore = \<lparr>sas_create = mc_create, sas_get_by_key_id = (\<lambda>k d. Inr (dget d k)), sas_revoke = mc_revoke,
     sas_mark_used = mc_mark_used\<rparr>"

text \<open>The table, with its constraints. A statement that raises leaves the table as it was.\<close>

record credentials_row =
  cr_credential_id :: uuid
  cr_key_id :: uuid
  cr_name :: string
  cr_subject :: string
  cr_organization_id :: string
  cr_environment_id :: string
  cr_permissions :: "string list"
  cr_token_digest :: string
  cr_created_at :: time
  cr_expires_at :: "time option"
  cr_revoked_at :: "time option"
  cr_last_used_at :: "time option"

definition credentials_checks :: "credentials_row \<Rightarrow> bool" where
  "credentials_checks r \<longleftrightarrow>
     len_between 1 128 (cr_name r) \<and> len_between 1 256 (cr_subject r) \<and> len_between 1 128 (cr_organization_id r) \<and>
     len_between 1 128 (cr_environment_id r) \<and> cr_permissions r \<noteq> [] \<and>
     set (cr_permissions r) \<subseteq> {''proposals:read'', ''proposals:write'', ''policies:simulate'', ''attestations:verify''} \<and>
     length (cr_token_digest r) = 64 \<and> list_all is_lower_hex (cr_token_digest r) \<and>
     (case cr_expires_at r of None \<Rightarrow> True | Some e \<Rightarrow> e > cr_created_at r)"

definition insert_credential :: "credentials_row \<Rightarrow> credentials_row list \<Rightarrow> credentials_row list res" where
  "insert_credential r t =
     (if \<not> credentials_checks r then Inl (CheckViolation ''service_account_credentials'')
      else if list_ex (\<lambda>x. cr_credential_id x = cr_credential_id r \<or> cr_key_id x = cr_key_id r) t
      then Inl (UniqueViolation ''service_account_credentials'')
      else Inr (t @ [r]))"

definition pc_create :: "ServiceAccountRecord \<Rightarrow> credentials_row list \<Rightarrow> credentials_row list res" where
  "pc_create r t = insert_credential
     \<lparr>cr_credential_id = sa_credential_id r, cr_key_id = sa_key_id r, cr_name = sa_name r, cr_subject = sa_subject r,
      cr_organization_id = sa_organization_id r, cr_environment_id = sa_environment_id r,
      cr_permissions = map permission_value (filter (\<lambda>p. p \<in> sa_permissions r) permissions_sorted),
      cr_token_digest = sa_token_digest r, cr_created_at = sa_created_at r, cr_expires_at = sa_expires_at r, cr_revoked_at = None,
      cr_last_used_at = None\<rparr> t"

fun permissions_of :: "string list \<Rightarrow> Permission set res" where
  "permissions_of [] = Inr {}"
| "permissions_of (v # vs) = rbind (permission_of v) (\<lambda>p. rbind (permissions_of vs) (\<lambda>ps. Inr (insert p ps)))"

definition credential_of_row :: "credentials_row \<Rightarrow> ServiceAccountRecord res" where
  "credential_of_row r =
     rbind (permissions_of (cr_permissions r)) (\<lambda>ps.
     Inr \<lparr>sa_credential_id = cr_credential_id r, sa_key_id = cr_key_id r, sa_name = cr_name r, sa_subject = cr_subject r,
      sa_organization_id = cr_organization_id r, sa_environment_id = cr_environment_id r, sa_permissions = ps,
      sa_token_digest = cr_token_digest r, sa_created_at = cr_created_at r, sa_expires_at = cr_expires_at r,
      sa_revoked_at = cr_revoked_at r, sa_last_used_at = cr_last_used_at r\<rparr>)"

definition pc_get_by_key_id :: "uuid \<Rightarrow> credentials_row list \<Rightarrow> ServiceAccountRecord option res" where
  "pc_get_by_key_id k t = (case find (\<lambda>r. cr_key_id r = k) t of
     None \<Rightarrow> Inr None | Some r \<Rightarrow> rbind (credential_of_row r) (\<lambda>s. Inr (Some s)))"

text \<open>\<open>UPDATE \<dots> WHERE credential_id=%s RETURNING credential_id\<close>\<close>

definition update_credential :: "(credentials_row \<Rightarrow> credentials_row) \<Rightarrow> uuid \<Rightarrow> credentials_row list \<Rightarrow> credentials_row list res" where
  "update_credential f c t =
     (if list_ex (\<lambda>r. cr_credential_id r = c) t then Inr (map (\<lambda>r. if cr_credential_id r = c then f r else r) t)
      else Inl (unknown_credential c))"

definition pc_revoke :: "uuid \<Rightarrow> time \<Rightarrow> credentials_row list \<Rightarrow> credentials_row list res" where
  "pc_revoke c t = update_credential (\<lambda>r. r\<lparr>cr_revoked_at := (case cr_revoked_at r of None \<Rightarrow> Some t | Some u \<Rightarrow> Some u)\<rparr>) c"

definition pc_mark_used :: "uuid \<Rightarrow> time \<Rightarrow> credentials_row list \<Rightarrow> credentials_row list res" where
  "pc_mark_used c t = update_credential (\<lambda>r. r\<lparr>cr_last_used_at := Some t\<rparr>) c"

definition PostgresServiceAccountStore :: "credentials_row list ServiceAccountStore" where
  "PostgresServiceAccountStore = \<lparr>sas_create = pc_create, sas_get_by_key_id = pc_get_by_key_id, sas_revoke = pc_revoke,
     sas_mark_used = pc_mark_used\<rparr>"

section \<open>The manager\<close>

datatype moment = Aware time | Naive time

definition as_utc :: "moment \<Rightarrow> time res" where
  "as_utc m = (case m of Aware t \<Rightarrow> Inr t | Naive _ \<Rightarrow> Inl (ValueError ''service credential timestamps must include a UTC offset''))"

definition TOKEN_PREFIX :: string where
  "TOKEN_PREFIX = ''agsa''"

definition alnum :: "char \<Rightarrow> bool" where
  "alnum c = (is_digit c \<or> is_upper c \<or> is_lower c)"

definition secret_pattern :: "string \<Rightarrow> bool" where
  "secret_pattern s = (length s = 43 \<and> list_all (\<lambda>c. alnum c \<or> c \<in> set ''_-'') s)"

definition identifier_pattern :: "string \<Rightarrow> bool" where
  "identifier_pattern s = (case s of [] \<Rightarrow> False | c # cs \<Rightarrow> alnum c \<and> list_all (\<lambda>c. alnum c \<or> c \<in> set ''._:@/-'') cs)"

definition validated_identifier :: "string \<Rightarrow> string \<Rightarrow> nat \<Rightarrow> string res" where
  "validated_identifier v what maximum =
     (if \<not> len_between 1 maximum v \<or> \<not> identifier_pattern v then Inl (ValueError (''invalid '' @ what)) else Inr v)"

definition token_digest :: "primitives \<Rightarrow> string \<Rightarrow> string" where
  "token_digest P token = sha256_hex P (encode token)"

text \<open>\<open>text.partition(sep)\<close> for a separator of one character.\<close>

definition partition_at :: "char \<Rightarrow> string \<Rightarrow> string \<times> string \<times> string" where
  "partition_at c s = (if c \<in> set s then (takeWhile (\<lambda>d. d \<noteq> c) s, [c], tl (dropWhile (\<lambda>d. d \<noteq> c) s)) else (s, [], []))"

text \<open>\<open>int(text, 16)\<close> for text without underscores and minus signs: white space around it, a plus sign
  and the prefix \<open>0x\<close> are accepted.\<close>

definition strip_spaces :: "string \<Rightarrow> string" where
  "strip_spaces s = rev (dropWhile is_space (rev (dropWhile is_space s)))"

definition int_base16 :: "string \<Rightarrow> nat option" where
  "int_base16 s =
     (let s = strip_spaces s; s = (if startswith s ''+'' then tl s else s);
        s = (if startswith s ''0x'' \<or> startswith s ''0X'' then drop 2 s else s)
      in hex_nat s)"

text \<open>\<open>uuid.UUID(hex=text)\<close> for a text of 32 characters: \<open>urn:\<close>, \<open>uuid:\<close>, braces and hyphens are removed,
  and then 32 characters must be left, so none of them may occur.\<close>

fun contains :: "string \<Rightarrow> string \<Rightarrow> bool" where
  "contains p [] = (p = [])"
| "contains p (c # s) = (startswith (c # s) p \<or> contains p s)"

definition uuid_from_hex :: "string \<Rightarrow> uuid res" where
  "uuid_from_hex s =
     (if contains ''urn:'' s \<or> contains ''uuid:'' s \<or> CHR ''-'' \<in> set s \<or> hd s \<in> set ''{}'' \<or> last s \<in> set ''{}'' \<or> length s \<noteq> 32
      then Inl (ValueError ''badly formed hexadecimal UUID string'')
      else of_option (ValueError ''invalid literal for int() with base 16'') (map_option word_of_nat (int_base16 s)))"

definition parse_key_id :: "string \<Rightarrow> uuid res" where
  "parse_key_id token =
     (let (prefix, separator, remainder) = partition_at (CHR ''_'') token;
        (key_text, second_separator, secret) = partition_at (CHR ''_'') remainder
      in if prefix \<noteq> TOKEN_PREFIX \<or> separator \<noteq> ''_'' \<or> second_separator \<noteq> ''_'' \<or> length key_text \<noteq> 32 \<or> \<not> secret_pattern secret
         then Inl (ValueError ''malformed service credential'') else uuid_from_hex key_text)"

record ServiceAccountManager =
  sm_organization_id :: string
  sm_environment_id :: string

definition ServiceAccountManager_init :: "string \<Rightarrow> string \<Rightarrow> ServiceAccountManager res" where
  "ServiceAccountManager_init organization_id environment_id =
     rbind (validated_identifier organization_id ''organization_id'' 128) (\<lambda>org.
     rbind (validated_identifier environment_id ''environment_id'' 128) (\<lambda>env.
     Inr \<lparr>sm_organization_id = org, sm_environment_id = env\<rparr>))"

definition token_text :: "uuid \<Rightarrow> string \<Rightarrow> string" where
  "token_text key_id secret = TOKEN_PREFIX @ ''_'' @ uuid_hex key_id @ ''_'' @ secret"

record issue_request =
  ir_name :: string
  ir_subject :: string
  ir_permissions :: "Permission set"
  ir_expires_at :: "moment option"

definition checked_expiry :: "moment option \<Rightarrow> time \<Rightarrow> time option res" where
  "checked_expiry e now = (case e of
     None \<Rightarrow> Inr None
   | Some m \<Rightarrow> rbind (as_utc m) (\<lambda>t. if t \<le> now then Inl (ValueError ''service credential expiry must be in the future'') else Inr (Some t)))"

definition issue_credential ::
  "primitives \<Rightarrow> 's ServiceAccountStore \<Rightarrow> ServiceAccountManager \<Rightarrow> moment \<Rightarrow> uuid \<Rightarrow> uuid \<Rightarrow> string \<Rightarrow> issue_request \<Rightarrow> 's
     \<Rightarrow> (IssuedServiceAccount \<times> 's) res" where
  "issue_credential P st m clock credential_id key_id secret q s =
     rbind (validated_identifier (ir_name q) ''name'' 128) (\<lambda>name.
     rbind (validated_identifier (ir_subject q) ''subject'' 256) (\<lambda>subject.
     if ir_permissions q = {} then Inl (ValueError ''service credential requires at least one permission'')
     else
       rbind (as_utc clock) (\<lambda>now.
       rbind (checked_expiry (ir_expires_at q) now) (\<lambda>expires_at.
       let token = token_text key_id secret in
       rbind (sas_create st \<lparr>sa_credential_id = credential_id, sa_key_id = key_id, sa_name = name, sa_subject = subject,
         sa_organization_id = sm_organization_id m, sa_environment_id = sm_environment_id m, sa_permissions = ir_permissions q,
         sa_token_digest = token_digest P token, sa_created_at = now, sa_expires_at = expires_at, sa_revoked_at = None,
         sa_last_used_at = None\<rparr> s) (\<lambda>s.
       Inr (\<lparr>is_credential_id = credential_id, is_key_id = key_id, is_name = name, is_subject = subject,
         is_organization_id = sm_organization_id m, is_environment_id = sm_environment_id m, is_permissions = ir_permissions q,
         is_token = token, is_expires_at = expires_at\<rparr>, s))))))"

text \<open>The part of \<open>authenticate\<close> under \<open>except (TypeError, ValueError)\<close>.\<close>

definition find_active ::
  "primitives \<Rightarrow> 's ServiceAccountStore \<Rightarrow> ServiceAccountManager \<Rightarrow> moment \<Rightarrow> string \<Rightarrow> 's \<Rightarrow> (ServiceAccountRecord \<times> time) res" where
  "find_active P st m clock token s =
     rbind (parse_key_id token) (\<lambda>key_id.
     rbind (sas_get_by_key_id st key_id s) (\<lambda>found.
     case found of
       None \<Rightarrow> Inl (ValueError [])
     | Some r \<Rightarrow>
         rbind (as_utc clock) (\<lambda>now.
         if \<not> (sa_organization_id r = sm_organization_id m \<and> sa_environment_id r = sm_environment_id m) \<or>
            sa_token_digest r \<noteq> token_digest P token \<or>
            \<not> (sa_revoked_at r = None \<and> (case sa_expires_at r of None \<Rightarrow> True | Some e \<Rightarrow> e > now))
         then Inl (ValueError []) else Inr (r, now))))"

definition service_principal :: "ServiceAccountRecord \<Rightarrow> Principal" where
  "service_principal r = \<lparr>pl_subject = sa_subject r, pl_roles = {}, pl_permissions = sa_permissions r, pl_kind = SERVICE,
     pl_organization_id = sa_organization_id r, pl_environment_id = sa_environment_id r\<rparr>"

definition authenticate_service ::
  "primitives \<Rightarrow> 's ServiceAccountStore \<Rightarrow> ServiceAccountManager \<Rightarrow> moment \<Rightarrow> string \<Rightarrow> 's \<Rightarrow> (Principal \<times> 's) res" where
  "authenticate_service P st m clock token s = (case find_active P st m clock token s of
     Inl (TypeError _) \<Rightarrow> Inl (AuthenticationError ''invalid service credential'')
   | Inl (ValueError _) \<Rightarrow> Inl (AuthenticationError ''invalid service credential'')
   | Inl e \<Rightarrow> Inl e
   | Inr (r, now) \<Rightarrow>
       rbind (sas_mark_used st (sa_credential_id r) now s) (\<lambda>s.
       rbind (make_Principal (service_principal r)) (\<lambda>p. Inr (p, s))))"

definition revoke_credential :: "'s ServiceAccountStore \<Rightarrow> moment \<Rightarrow> uuid \<Rightarrow> 's \<Rightarrow> 's res" where
  "revoke_credential st clock credential_id s = rbind (as_utc clock) (\<lambda>now. sas_revoke st credential_id now s)"

section \<open>OIDC and routing\<close>

record OIDCAuthenticator =
  oi_issuer :: string
  oi_audience :: string
  oi_jwks_url :: string
  oi_organization_id :: string
  oi_environment_id :: string

definition rstrip_char :: "char \<Rightarrow> string \<Rightarrow> string" where
  "rstrip_char c s = rev (dropWhile (\<lambda>d. d = c) (rev s))"

definition OIDCAuthenticator_init :: "string \<Rightarrow> string \<Rightarrow> string \<Rightarrow> string \<Rightarrow> string \<Rightarrow> OIDCAuthenticator res" where
  "OIDCAuthenticator_init issuer audience jwks_url org env =
     (if \<not> startswith issuer ''https://'' \<and> \<not> startswith issuer ''http://localhost''
      then Inl (OIDCConfigurationError ''OIDC issuer must use HTTPS outside localhost'')
      else Inr \<lparr>oi_issuer = rstrip_char (CHR ''/'') issuer, oi_audience = audience, oi_jwks_url = jwks_url, oi_organization_id = org,
        oi_environment_id = env\<rparr>)"

fun comma_join :: "string list \<Rightarrow> string" where
  "comma_join [] = []"
| "comma_join [s] = s"
| "comma_join (s # ss) = s @ '', '' @ comma_join ss"

text \<open>\<open>from_environment\<close> over the environment as a dictionary.\<close>

definition env_or :: "(string, string) dict \<Rightarrow> string \<Rightarrow> string \<Rightarrow> string" where
  "env_or env k d = (case dget env k of None \<Rightarrow> d | Some v \<Rightarrow> if v = [] then d else v)"

definition oidc_from_environment ::
  "(string, string) dict \<Rightarrow> string option \<Rightarrow> string option \<Rightarrow> OIDCAuthenticator res" where
  "oidc_from_environment env organization_id environment_id =
     (let required = [(''issuer'', dget_or env ''AEGIS_OIDC_ISSUER'' []), (''audience'', dget_or env ''AEGIS_OIDC_AUDIENCE'' []),
        (''jwks_url'', dget_or env ''AEGIS_OIDC_JWKS_URL'' [])];
        missing = map fst (filter (\<lambda>(_, v). v = []) required)
      in if missing \<noteq> [] then Inl (OIDCConfigurationError (''missing OIDC configuration: '' @ comma_join missing))
         else OIDCAuthenticator_init (dget_or required ''issuer'' []) (dget_or required ''audience'' []) (dget_or required ''jwks_url'' [])
           (case organization_id of Some x \<Rightarrow> x | None \<Rightarrow> env_or env ''AEGIS_ORGANIZATION_ID'' ''local'')
           (case environment_id of Some x \<Rightarrow> x | None \<Rightarrow> env_or env ''AEGIS_DEPLOYMENT_ENVIRONMENT_ID'' ''development''))"

text \<open>The claims a validated token has: its subject, the roles at the top and those under
  \<open>realm_access\<close>. The parameter gives them for a token, an issuer and an audience.\<close>

record claims =
  cl_sub :: string
  cl_roles :: "string list"
  cl_realm_roles :: "string list"

type_synonym jwt_decoder = "string \<Rightarrow> string \<Rightarrow> string \<Rightarrow> claims option"

definition oidc_authenticate :: "jwt_decoder \<Rightarrow> OIDCAuthenticator \<Rightarrow> string \<Rightarrow> Principal res" where
  "oidc_authenticate jwt oi authorization =
     (let (scheme, _, token) = partition_at (CHR '' '') authorization in
      if lower scheme \<noteq> ''bearer'' \<or> token = [] then Inl (AuthenticationError ''bearer token required'')
      else case jwt token (oi_issuer oi) (oi_audience oi) of
        None \<Rightarrow> Inl (AuthenticationError ''invalid bearer token'')
      | Some c \<Rightarrow>
          make_Principal \<lparr>pl_subject = cl_sub c,
            pl_roles = snd ` {rv \<in> set role_values. fst rv \<in> set (cl_roles c) \<union> set (cl_realm_roles c)},
            pl_permissions = {}, pl_kind = HUMAN, pl_organization_id = oi_organization_id oi, pl_environment_id = oi_environment_id oi\<rparr>)"

definition composite_authenticate ::
  "primitives \<Rightarrow> jwt_decoder \<Rightarrow> OIDCAuthenticator \<Rightarrow> 's ServiceAccountStore \<Rightarrow> ServiceAccountManager \<Rightarrow> moment \<Rightarrow> string \<Rightarrow> 's
     \<Rightarrow> (Principal \<times> 's) res" where
  "composite_authenticate P jwt oi st m clock authorization s =
     (let (scheme, _, token) = partition_at (CHR '' '') authorization in
      if lower scheme = ''bearer'' \<and> startswith token (TOKEN_PREFIX @ ''_'')
      then authenticate_service P st m clock token s
      else rbind (oidc_authenticate jwt oi authorization) (\<lambda>p. Inr (p, s)))"

section \<open>Tokens\<close>

lemma is_hex_not: "\<not> is_hex CHR ''_''" "\<not> is_hex CHR ''-''" "\<not> is_hex CHR ''{''" "\<not> is_hex CHR ''}''" "\<not> is_hex CHR '':''"
    "\<not> is_hex CHR ''x''" "\<not> is_hex CHR ''X''" "\<not> is_hex CHR ''+''"
  by (simp_all add: is_hex_def hexval_def ascii_def)

lemma hex_text_not: "list_all is_hex s \<Longrightarrow> \<not> is_hex c \<Longrightarrow> c \<notin> set s"
  by (auto simp: list_all_iff)

lemma contains_subset: "contains p s \<Longrightarrow> set p \<subseteq> set s"
proof (induction s)
  case (Cons c s)
  have "startswith (c # s) p \<Longrightarrow> set p \<subseteq> set (c # s)" by (metis startswith_def set_take_subset)
  with Cons show ?case by auto
qed simp

lemma strip_spaces_hex: "list_all is_hex s \<Longrightarrow> strip_spaces s = s"
proof -
  assume "list_all is_hex s"
  then have "\<forall>c\<in>set s. \<not> is_space c" by (auto simp: list_all_iff is_hex_not_space)
  moreover have drop: "\<forall>c\<in>set t. \<not> is_space c \<Longrightarrow> dropWhile is_space t = t" for t by (cases t) simp_all
  ultimately have "dropWhile is_space s = s" "dropWhile is_space (rev s) = rev s" using drop [of s] drop [of "rev s"] by simp_all
  then show "strip_spaces s = s" by (simp add: strip_spaces_def)
qed

lemma int_base16_hex: "list_all is_hex s \<Longrightarrow> int_base16 s = hex_nat s"
proof -
  assume s: "list_all is_hex s"
  have "\<not> startswith s ''+''" "\<not> startswith s ''0x''" "\<not> startswith s ''0X''"
    using s is_hex_not by (auto simp: startswith_def take_Cons' list_all_iff split: if_splits dest!: arg_cong [where f = set] in_set_takeD)
  then show "int_base16 s = hex_nat s" by (simp add: int_base16_def strip_spaces_hex [OF s] Let_def)
qed

lemma uuid_from_hex_hex: "uuid_from_hex (uuid_hex u) = Inr u"
proof -
  have hex: "list_all is_hex (uuid_hex u)" by (rule is_hex_uuid_hex)
  have ne: "uuid_hex u \<noteq> []" using length_uuid_hex [of u] by (metis list.size(3) zero_neq_numeral)
  have no: "CHR ''-'' \<notin> set (uuid_hex u)" "CHR ''{'' \<notin> set (uuid_hex u)" "CHR ''}'' \<notin> set (uuid_hex u)" "CHR '':'' \<notin> set (uuid_hex u)"
    using hex_text_not [OF hex] is_hex_not by blast+
  have "hd (uuid_hex u) \<in> set (uuid_hex u)" "last (uuid_hex u) \<in> set (uuid_hex u)" using ne by simp_all
  then have "hd (uuid_hex u) \<notin> set ''{}''" "last (uuid_hex u) \<notin> set ''{}''" using no by auto
  moreover have "\<not> contains ''urn:'' (uuid_hex u)" "\<not> contains ''uuid:'' (uuid_hex u)" using no(4) contains_subset by fastforce+
  ultimately show ?thesis by (simp add: uuid_from_hex_def no int_base16_hex [OF hex])
qed

lemma partition_at_append: "c \<notin> set s \<Longrightarrow> partition_at c (s @ c # t) = (s, [c], t)"
  by (induction s) (auto simp: partition_at_def)

lemma parse_key_id_token: "secret_pattern secret \<Longrightarrow> parse_key_id (token_text key secret) = Inr key"
proof -
  assume s: "secret_pattern secret"
  have "CHR ''_'' \<notin> set (uuid_hex key)" using hex_text_not [OF is_hex_uuid_hex] is_hex_not(1) by blast
  from partition_at_append [OF this, of secret] partition_at_append [of "CHR ''_''" TOKEN_PREFIX "uuid_hex key @ ''_'' @ secret"] s
  show ?thesis by (simp add: parse_key_id_def token_text_def TOKEN_PREFIX_def uuid_from_hex_hex)
qed

lemma token_digest_binds: "token_digest P a = token_digest P b \<Longrightarrow> a = b \<or> collide (sha256 P) {encode a} {encode b}"
  using encode_inject [of a b] unfolding token_digest_def sha256_hex_def collide_def bytes_hex_inject by blast

section \<open>What the manager relies on\<close>

locale credential_store =
  fixes st :: "'s ServiceAccountStore"
    and inv :: "'s \<Rightarrow> bool"
    and creds :: "'s \<Rightarrow> uuid \<Rightarrow> ServiceAccountRecord option"
  assumes get_view: "inv s \<Longrightarrow> sas_get_by_key_id st k s = Inr (creds s k)"
    and one_credential: "inv s \<Longrightarrow> creds s k = Some r \<Longrightarrow> creds s l = Some q \<Longrightarrow> sa_credential_id r = sa_credential_id q \<Longrightarrow> k = l"
    and create_view: "inv s \<Longrightarrow> sas_create st r s = Inr s' \<Longrightarrow> sa_revoked_at r = None \<Longrightarrow> sa_last_used_at r = None \<Longrightarrow>
      (\<forall>k q. creds s k = Some q \<longrightarrow> sa_credential_id q \<noteq> sa_credential_id r) \<Longrightarrow>
      inv s' \<and> creds s (sa_key_id r) = None \<and> creds s' = (creds s)(sa_key_id r \<mapsto> r)"
    and revoke_view: "inv s \<Longrightarrow> sas_revoke st c t s = Inr s' \<Longrightarrow> inv s' \<and>
      (\<exists>k r u. creds s k = Some r \<and> sa_credential_id r = c \<and> creds s' = (creds s)(k \<mapsto> r\<lparr>sa_revoked_at := Some u\<rparr>))"
    and mark_view: "inv s \<Longrightarrow> sas_mark_used st c t s = Inr s' \<Longrightarrow> inv s' \<and>
      (\<exists>k r. creds s k = Some r \<and> sa_credential_id r = c \<and> creds s' = (creds s)(k \<mapsto> r\<lparr>sa_last_used_at := Some t\<rparr>))"
    and mark_known: "inv s \<Longrightarrow> creds s k = Some r \<Longrightarrow> \<exists>s'. sas_mark_used st (sa_credential_id r) t s = Inr s'"

text \<open>A run of the manager, with what it issued and revoked. Identifiers of credentials are fresh and
  secrets have the form \<open>token_urlsafe(32)\<close> gives them. A call that raises changes nothing.\<close>

datatype credential_event = Issued IssuedServiceAccount | Revoked uuid

inductive credential_runs :: "primitives \<Rightarrow> 's ServiceAccountStore \<Rightarrow> ServiceAccountManager \<Rightarrow> 's \<Rightarrow> credential_event list \<Rightarrow> 's \<Rightarrow> bool"
  for P st m s0 where
  cr_start: "credential_runs P st m s0 [] s0"
| cr_issue: "credential_runs P st m s0 log s \<Longrightarrow> \<forall>i. Issued i \<in> set log \<longrightarrow> is_credential_id i \<noteq> c \<Longrightarrow> secret_pattern secret \<Longrightarrow>
    issue_credential P st m clock c key secret q s = Inr (i, s') \<Longrightarrow> credential_runs P st m s0 (log @ [Issued i]) s'"
| cr_authenticate: "credential_runs P st m s0 log s \<Longrightarrow> authenticate_service P st m clock token s = Inr (p, s') \<Longrightarrow>
    credential_runs P st m s0 log s'"
| cr_revoke: "credential_runs P st m s0 log s \<Longrightarrow> revoke_credential st clock c s = Inr s' \<Longrightarrow>
    credential_runs P st m s0 (log @ [Revoked c]) s'"

text \<open>A record as it was issued.\<close>

definition grants :: "primitives \<Rightarrow> ServiceAccountManager \<Rightarrow> IssuedServiceAccount \<Rightarrow> ServiceAccountRecord \<Rightarrow> bool" where
  "grants P m i r = (sa_credential_id r = is_credential_id i \<and> sa_subject r = is_subject i \<and> sa_permissions r = is_permissions i \<and>
     sa_organization_id r = sm_organization_id m \<and> sa_environment_id r = sm_environment_id m \<and> sa_expires_at r = is_expires_at i \<and>
     sa_token_digest r = token_digest P (is_token i) \<and> len_between 1 256 (is_subject i) \<and>
     (\<exists>secret. secret_pattern secret \<and> is_token i = token_text (is_key_id i) secret))"

definition log_matches ::
  "primitives \<Rightarrow> ServiceAccountManager \<Rightarrow> credential_event list \<Rightarrow> (uuid \<Rightarrow> ServiceAccountRecord option) \<Rightarrow> bool" where
  "log_matches P m log view =
     ((\<forall>i. Issued i \<in> set log \<longrightarrow> (\<exists>r. view (is_key_id i) = Some r \<and> grants P m i r \<and>
         (sa_revoked_at r \<noteq> None \<longleftrightarrow> Revoked (is_credential_id i) \<in> set log))) \<and>
      (\<forall>k r. view k = Some r \<longrightarrow> (\<exists>i. Issued i \<in> set log \<and> is_key_id i = k)) \<and>
      (\<forall>c. Revoked c \<in> set log \<longrightarrow> (\<exists>i. Issued i \<in> set log \<and> is_credential_id i = c)))"

lemma log_matchesI:
  assumes "\<And>i. Issued i \<in> set log \<Longrightarrow> \<exists>r. view (is_key_id i) = Some r \<and> grants P m i r \<and>
      (sa_revoked_at r \<noteq> None \<longleftrightarrow> Revoked (is_credential_id i) \<in> set log)"
    and "\<And>k r. view k = Some r \<Longrightarrow> \<exists>i. Issued i \<in> set log \<and> is_key_id i = k"
    and "\<And>c. Revoked c \<in> set log \<Longrightarrow> \<exists>i. Issued i \<in> set log \<and> is_credential_id i = c"
  shows "log_matches P m log view"
  unfolding log_matches_def using assms by blast

lemma log_matchesD:
  assumes "log_matches P m log view"
  shows "Issued i \<in> set log \<Longrightarrow> \<exists>r. view (is_key_id i) = Some r \<and> grants P m i r \<and>
      (sa_revoked_at r \<noteq> None \<longleftrightarrow> Revoked (is_credential_id i) \<in> set log)"
    "view k = Some r \<Longrightarrow> \<exists>i. Issued i \<in> set log \<and> is_key_id i = k"
    "Revoked c \<in> set log \<Longrightarrow> \<exists>i. Issued i \<in> set log \<and> is_credential_id i = c"
  using assms unfolding log_matches_def by blast+

lemma grants_id: "grants P m i r \<Longrightarrow> sa_credential_id r = is_credential_id i"
  by (simp add: grants_def)

lemma grants_used: "grants P m i (r\<lparr>sa_last_used_at := t\<rparr>) = grants P m i r" "grants P m i (r\<lparr>sa_revoked_at := t\<rparr>) = grants P m i r"
  by (simp_all add: grants_def)

lemma issue_credential_cases:
  assumes "issue_credential P st m clock c key secret q s = Inr (i, s')" "secret_pattern secret"
  obtains r where "sas_create st r s = Inr s'" "sa_key_id r = key" "sa_credential_id r = c" "sa_revoked_at r = None"
    "sa_last_used_at r = None" "is_key_id i = key" "is_credential_id i = c" "grants P m i r"
proof -
  from assms(1) obtain name subject now e where v: "validated_identifier (ir_subject q) ''subject'' 256 = Inr subject"
    and cr: "sas_create st \<lparr>sa_credential_id = c, sa_key_id = key, sa_name = name, sa_subject = subject,
         sa_organization_id = sm_organization_id m, sa_environment_id = sm_environment_id m, sa_permissions = ir_permissions q,
         sa_token_digest = token_digest P (token_text key secret), sa_created_at = now, sa_expires_at = e, sa_revoked_at = None,
         sa_last_used_at = None\<rparr> s = Inr s'"
    and i: "i = \<lparr>is_credential_id = c, is_key_id = key, is_name = name, is_subject = subject,
         is_organization_id = sm_organization_id m, is_environment_id = sm_environment_id m, is_permissions = ir_permissions q,
         is_token = token_text key secret, is_expires_at = e\<rparr>"
    by (auto simp: issue_credential_def rbind_Inr_iff Let_def)
  from v have "len_between 1 256 subject" by (auto simp: validated_identifier_def split: if_splits)
  with assms(2) show ?thesis by (intro that [OF cr]) (auto simp: i grants_def)
qed

lemma authenticate_service_cases:
  assumes "authenticate_service P st m clock token s = Inr (p, s')"
  obtains key r now where "clock = Aware now" "parse_key_id token = Inr key" "sas_get_by_key_id st key s = Inr (Some r)"
    "sa_organization_id r = sm_organization_id m" "sa_environment_id r = sm_environment_id m" "sa_token_digest r = token_digest P token"
    "sa_revoked_at r = None" "case sa_expires_at r of None \<Rightarrow> True | Some e \<Rightarrow> e > now"
    "sas_mark_used st (sa_credential_id r) now s = Inr s'" "p = service_principal r"
proof -
  from assms obtain r now where fa: "find_active P st m clock token s = Inr (r, now)"
    and rest: "sas_mark_used st (sa_credential_id r) now s = Inr s'" "p = service_principal r"
    by (auto simp: authenticate_service_def rbind_Inr_iff make_Principal_def split: sum.splits exn.splits if_splits)
  from fa show ?thesis using rest that
    by (auto simp: find_active_def rbind_Inr_iff as_utc_def split: option.splits moment.splits if_splits)
qed

context credential_store
begin

lemma issue_matches:
  assumes "inv s" "log_matches P m log (creds s)" "\<forall>i. Issued i \<in> set log \<longrightarrow> is_credential_id i \<noteq> c"
    and "issue_credential P st m clock c key secret q s = Inr (i, s')" "secret_pattern secret"
  shows "inv s' \<and> log_matches P m (log @ [Issued i]) (creds s')"
proof -
  note old = log_matchesD [OF assms(2)]
  from assms(4,5) obtain r where r: "sas_create st r s = Inr s'" "sa_key_id r = key" "sa_credential_id r = c" "sa_revoked_at r = None"
    "sa_last_used_at r = None" "is_key_id i = key" "is_credential_id i = c" "grants P m i r"
    by (rule issue_credential_cases)
  have fresh: "\<forall>k q. creds s k = Some q \<longrightarrow> sa_credential_id q \<noteq> sa_credential_id r"
  proof (intro allI impI)
    fix k q
    assume q: "creds s k = Some q"
    from old(2) [OF q] obtain j where j: "Issued j \<in> set log" "is_key_id j = k" by blast
    from old(1) [OF j(1)] q j(2) have "sa_credential_id q = is_credential_id j" by (auto dest: grants_id)
    with assms(3) j(1) r(3) show "sa_credential_id q \<noteq> sa_credential_id r" by auto
  qed
  from create_view [OF assms(1) r(1,4,5) fresh] have v: "inv s'" "creds s key = None" "creds s' = (creds s)(key \<mapsto> r)" by (simp_all add: r(2))
  have nr: "Revoked c \<notin> set log" using old(3) assms(3) by blast
  have "log_matches P m (log @ [Issued i]) (creds s')"
  proof (rule log_matchesI)
    fix j
    assume "Issued j \<in> set (log @ [Issued i])"
    then consider "j = i" | "Issued j \<in> set log" by auto
    then show "\<exists>r. creds s' (is_key_id j) = Some r \<and> grants P m j r \<and>
        (sa_revoked_at r \<noteq> None \<longleftrightarrow> Revoked (is_credential_id j) \<in> set (log @ [Issued i]))"
    proof cases
      case 1
      then show ?thesis using r v nr by simp
    next
      case 2
      from old(1) [OF 2] v(2) have "is_key_id j \<noteq> key" by auto
      with old(1) [OF 2] v(3) show ?thesis by simp
    qed
  next
    fix k q
    assume "creds s' k = Some q"
    then show "\<exists>j. Issued j \<in> set (log @ [Issued i]) \<and> is_key_id j = k"
      using old(2) [of k q] r(6) v(3) by (auto split: if_splits)
  next
    fix d
    assume "Revoked d \<in> set (log @ [Issued i])"
    then show "\<exists>j. Issued j \<in> set (log @ [Issued i]) \<and> is_credential_id j = d" using old(3) [of d] by auto
  qed
  with v(1) show ?thesis by simp
qed

lemma mark_matches:
  assumes "inv s" "log_matches P m log (creds s)" "sas_mark_used st c t s = Inr s'"
  shows "inv s' \<and> log_matches P m log (creds s')"
proof -
  note old = log_matchesD [OF assms(2)]
  from mark_view [OF assms(1,3)] obtain k r where v: "inv s'" "creds s k = Some r" "creds s' = (creds s)(k \<mapsto> r\<lparr>sa_last_used_at := Some t\<rparr>)"
    by blast
  have "log_matches P m log (creds s')"
  proof (rule log_matchesI)
    fix j
    assume "Issued j \<in> set log"
    from old(1) [OF this] obtain q where q: "creds s (is_key_id j) = Some q" "grants P m j q"
      "sa_revoked_at q \<noteq> None \<longleftrightarrow> Revoked (is_credential_id j) \<in> set log" by blast
    then show "\<exists>r. creds s' (is_key_id j) = Some r \<and> grants P m j r \<and> (sa_revoked_at r \<noteq> None \<longleftrightarrow> Revoked (is_credential_id j) \<in> set log)"
      using v(2) by (cases "is_key_id j = k") (simp_all add: v(3) grants_used)
  next
    fix l q
    assume "creds s' l = Some q"
    then have "\<exists>q. creds s l = Some q" using v(2,3) by (auto split: if_splits)
    then show "\<exists>j. Issued j \<in> set log \<and> is_key_id j = l" using old(2) by blast
  next
    fix d
    assume "Revoked d \<in> set log"
    then show "\<exists>j. Issued j \<in> set log \<and> is_credential_id j = d" by (rule old(3))
  qed
  with v(1) show ?thesis by simp
qed

lemma revoke_matches:
  assumes "inv s" "log_matches P m log (creds s)" "sas_revoke st c t s = Inr s'"
  shows "inv s' \<and> log_matches P m (log @ [Revoked c]) (creds s')"
proof -
  note old = log_matchesD [OF assms(2)]
  from revoke_view [OF assms(1,3)] obtain k r u where v: "inv s'" "creds s k = Some r" "sa_credential_id r = c"
    "creds s' = (creds s)(k \<mapsto> r\<lparr>sa_revoked_at := Some u\<rparr>)" by blast
  have "log_matches P m (log @ [Revoked c]) (creds s')"
  proof (rule log_matchesI)
    fix j
    assume "Issued j \<in> set (log @ [Revoked c])"
    then have "Issued j \<in> set log" by simp
    from old(1) [OF this] obtain q where q: "creds s (is_key_id j) = Some q" "grants P m j q"
      "sa_revoked_at q \<noteq> None \<longleftrightarrow> Revoked (is_credential_id j) \<in> set log" by blast
    have "is_key_id j = k \<longleftrightarrow> is_credential_id j = c"
      using one_credential [OF assms(1) q(1) v(2)] grants_id [OF q(2)] q(1) v(2,3) by auto
    with q v(2) show "\<exists>r. creds s' (is_key_id j) = Some r \<and> grants P m j r \<and>
        (sa_revoked_at r \<noteq> None \<longleftrightarrow> Revoked (is_credential_id j) \<in> set (log @ [Revoked c]))"
      by (cases "is_key_id j = k") (simp_all add: v(4) grants_used)
  next
    fix l q
    assume "creds s' l = Some q"
    then have "\<exists>q. creds s l = Some q" using v(2,4) by (auto split: if_splits)
    then show "\<exists>j. Issued j \<in> set (log @ [Revoked c]) \<and> is_key_id j = l" using old(2) by auto
  next
    fix d
    assume d: "Revoked d \<in> set (log @ [Revoked c])"
    from old(2) [OF v(2)] obtain i where i: "Issued i \<in> set log" "is_key_id i = k" by blast
    from old(1) [OF i(1)] i(2) v(2,3) have "is_credential_id i = c" by (auto dest: grants_id)
    with d i old(3) [of d] show "\<exists>j. Issued j \<in> set (log @ [Revoked c]) \<and> is_credential_id j = d" by auto
  qed
  with v(1) show ?thesis by simp
qed

lemma runs_match:
  assumes "credential_runs P st m s0 log s" "inv s0" "creds s0 = Map.empty"
  shows "inv s \<and> log_matches P m log (creds s)"
  using assms
proof (induction rule: credential_runs.induct)
  case cr_start
  then show ?case by (simp add: log_matches_def)
next
  case (cr_issue log s c secret clock key q i s')
  then have "inv s" "log_matches P m log (creds s)" by simp_all
  then show ?case by (rule issue_matches) (fact cr_issue)+
next
  case (cr_authenticate log s clock token p s')
  then have ok: "inv s" "log_matches P m log (creds s)" by simp_all
  from cr_authenticate(2) obtain r :: ServiceAccountRecord and now where "sas_mark_used st (sa_credential_id r) now s = Inr s'"
    by (rule authenticate_service_cases)
  with ok show ?case by (rule mark_matches)
next
  case (cr_revoke log s clock c s')
  then have ok: "inv s" "log_matches P m log (creds s)" by simp_all
  from cr_revoke(2) obtain now where "sas_revoke st c now s = Inr s'" by (auto simp: revoke_credential_def rbind_Inr_iff)
  with ok show ?case by (rule revoke_matches)
qed

lemma accepted_was_issued:
  assumes "credential_runs P st m s0 log s" "inv s0" "creds s0 = Map.empty" "authenticate_service P st m clock token s = Inr (p, s')"
  shows "\<exists>i now. Issued i \<in> set log \<and> Revoked (is_credential_id i) \<notin> set log \<and> clock = Aware now \<and>
     (case is_expires_at i of None \<Rightarrow> True | Some e \<Rightarrow> now < e) \<and> (token = is_token i \<or> collide (sha256 P) {encode token} {encode (is_token i)}) \<and>
     p = \<lparr>pl_subject = is_subject i, pl_roles = {}, pl_permissions = is_permissions i, pl_kind = SERVICE,
       pl_organization_id = sm_organization_id m, pl_environment_id = sm_environment_id m\<rparr>"
proof -
  from runs_match [OF assms(1-3)] have ok: "inv s" "log_matches P m log (creds s)" by simp_all
  from assms(4) obtain key r now where r: "clock = Aware now" "sas_get_by_key_id st key s = Inr (Some r)"
    "sa_organization_id r = sm_organization_id m" "sa_environment_id r = sm_environment_id m" "sa_token_digest r = token_digest P token"
    "sa_revoked_at r = None" "case sa_expires_at r of None \<Rightarrow> True | Some e \<Rightarrow> e > now" "p = service_principal r"
    by (rule authenticate_service_cases)
  from r(2) have view: "creds s key = Some r" by (simp add: get_view [OF ok(1)])
  from log_matchesD(2) [OF ok(2) view] obtain i where i0: "Issued i \<in> set log" "is_key_id i = key" by blast
  from log_matchesD(1) [OF ok(2) i0(1)] i0 view r(6) have i: "Issued i \<in> set log" "grants P m i r" "Revoked (is_credential_id i) \<notin> set log"
    by auto
  from i(2) r(5) have "token = is_token i \<or> collide (sha256 P) {encode token} {encode (is_token i)}"
    by (intro token_digest_binds) (simp add: grants_def)
  with i r show ?thesis by (intro exI [of _ i] exI [of _ now]) (auto simp: grants_def service_principal_def)
qed

lemma issued_is_accepted:
  assumes "credential_runs P st m s0 log s" "inv s0" "creds s0 = Map.empty" "ServiceAccountManager_init org env = Inr m"
    and "Issued i \<in> set log" "Revoked (is_credential_id i) \<notin> set log" "case is_expires_at i of None \<Rightarrow> True | Some e \<Rightarrow> now < e"
  shows "\<exists>p s'. authenticate_service P st m (Aware now) (is_token i) s = Inr (p, s')"
proof -
  from runs_match [OF assms(1-3)] have ok: "inv s" "log_matches P m log (creds s)" by simp_all
  from log_matchesD(1) [OF ok(2) assms(5)] assms(6) obtain r where r: "creds s (is_key_id i) = Some r" "grants P m i r" "sa_revoked_at r = None"
    by blast
  from r(2) obtain secret where "secret_pattern secret" "is_token i = token_text (is_key_id i) secret" by (auto simp: grants_def)
  then have "parse_key_id (is_token i) = Inr (is_key_id i)" by (simp add: parse_key_id_token)
  with r assms(7) have fa: "find_active P st m (Aware now) (is_token i) s = Inr (r, now)"
    by (auto simp: find_active_def get_view [OF ok(1)] as_utc_def grants_def)
  obtain s' where "sas_mark_used st (sa_credential_id r) now s = Inr s'" using mark_known [OF ok(1) r(1)] by blast
  moreover have "make_Principal (service_principal r) = Inr (service_principal r)"
    using r(2) assms(4) by (auto simp: make_Principal_def service_principal_def grants_def ServiceAccountManager_init_def
        rbind_Inr_iff validated_identifier_def split: if_splits)
  ultimately show ?thesis using fa by (auto simp: authenticate_service_def)
qed

end

section \<open>The two stores provide it\<close>

definition mc_ok :: "memory_credentials \<Rightarrow> bool" where
  "mc_ok d \<longleftrightarrow> dict_wf d \<and> (\<forall>k r l q. dget d k = Some r \<longrightarrow> dget d l = Some q \<longrightarrow> sa_credential_id r = sa_credential_id q \<longrightarrow> k = l)"

lemma find_in: "find P xs = Some x \<Longrightarrow> x \<in> set xs \<and> P x"
  by (induction xs) (auto split: if_splits)

lemma mc_find_credential_iff:
  assumes "dict_wf d" "mc_find_credential c d = Inr (k, r)"
  shows "dget d k = Some r" "sa_credential_id r = c"
  using assms by (auto simp: mc_find_credential_def in_set_dget dest!: find_in)

lemma mc_update_ok:
  assumes "mc_ok d" "dget d k = Some r" "sa_credential_id r' = sa_credential_id r"
  shows "mc_ok (dset k r' d)"
  using assms by (auto simp: mc_ok_def split: if_splits)

lemma mc_insert_ok:
  assumes "mc_ok d" and new: "\<And>k q. dget d k = Some q \<Longrightarrow> sa_credential_id q \<noteq> sa_credential_id r"
  shows "mc_ok (dset key r d)"
  unfolding mc_ok_def
proof (intro conjI allI impI)
  show "dict_wf (dset key r d)" using assms(1) by (simp add: mc_ok_def)
  fix k x l y
  assume x: "dget (dset key r d) k = Some x" and y: "dget (dset key r d) l = Some y" and same: "sa_credential_id x = sa_credential_id y"
  show "k = l"
  proof (cases "k = key \<or> l = key")
    case True
    then show ?thesis using x y same new [of l y] new [of k x] by (auto split: if_splits)
  next
    case False
    then have "dget d k = Some x" "dget d l = Some y" using x y by simp_all
    then show ?thesis using assms(1) same unfolding mc_ok_def by blast
  qed
qed

interpretation memory_credentials: credential_store MemoryServiceAccountStore mc_ok dget
proof
  fix s :: memory_credentials and k r
  assume s: "mc_ok s"
  show "sas_get_by_key_id MemoryServiceAccountStore k s = Inr (dget s k)" by (simp add: MemoryServiceAccountStore_def)
  fix l q
  show "dget s k = Some r \<Longrightarrow> dget s l = Some q \<Longrightarrow> sa_credential_id r = sa_credential_id q \<Longrightarrow> k = l"
    using s by (auto simp: mc_ok_def)
next
  fix s s' :: memory_credentials and r
  assume ok: "mc_ok s" and cr: "sas_create MemoryServiceAccountStore r s = Inr s'"
    and new: "\<forall>k q. dget s k = Some q \<longrightarrow> sa_credential_id q \<noteq> sa_credential_id r"
  from cr have s': "s' = dset (sa_key_id r) r s" "dget s (sa_key_id r) = None"
    by (simp_all add: MemoryServiceAccountStore_def mc_create_def dhas_def split: if_splits)
  have "mc_ok s'" unfolding s' using ok by (rule mc_insert_ok) (use new in blast)
  with s' show "mc_ok s' \<and> dget s (sa_key_id r) = None \<and> dget s' = (dget s)(sa_key_id r \<mapsto> r)"
    by (simp add: fun_eq_iff)
next
  fix s s' :: memory_credentials and c t
  assume s: "mc_ok s" "sas_revoke MemoryServiceAccountStore c t s = Inr s'"
  then obtain k r where "mc_find_credential c s = Inr (k, r)" and s': "s' = dset k (r\<lparr>sa_revoked_at := Some t\<rparr>) s"
    by (auto simp: MemoryServiceAccountStore_def mc_revoke_def rbind_Inr_iff)
  with s(1) mc_find_credential_iff [of s c k r] have r: "dget s k = Some r" "sa_credential_id r = c" by (simp_all add: mc_ok_def)
  have "dget s' = (dget s)(k \<mapsto> r\<lparr>sa_revoked_at := Some t\<rparr>)" by (simp add: s' fun_eq_iff)
  with mc_update_ok [OF s(1) r(1), of "r\<lparr>sa_revoked_at := Some t\<rparr>"] s' r
  show "mc_ok s' \<and> (\<exists>k r u. dget s k = Some r \<and> sa_credential_id r = c \<and> dget s' = (dget s)(k \<mapsto> r\<lparr>sa_revoked_at := Some u\<rparr>))"
    by auto
next
  fix s s' :: memory_credentials and c t
  assume s: "mc_ok s" "sas_mark_used MemoryServiceAccountStore c t s = Inr s'"
  then obtain k r where "mc_find_credential c s = Inr (k, r)" and s': "s' = dset k (r\<lparr>sa_last_used_at := Some t\<rparr>) s"
    by (auto simp: MemoryServiceAccountStore_def mc_mark_used_def rbind_Inr_iff)
  with s(1) mc_find_credential_iff [of s c k r] have r: "dget s k = Some r" "sa_credential_id r = c" by (simp_all add: mc_ok_def)
  have "dget s' = (dget s)(k \<mapsto> r\<lparr>sa_last_used_at := Some t\<rparr>)" by (simp add: s' fun_eq_iff)
  with mc_update_ok [OF s(1) r(1), of "r\<lparr>sa_last_used_at := Some t\<rparr>"] s' r
  show "mc_ok s' \<and> (\<exists>k r. dget s k = Some r \<and> sa_credential_id r = c \<and> dget s' = (dget s)(k \<mapsto> r\<lparr>sa_last_used_at := Some t\<rparr>))"
    by auto
next
  fix s :: memory_credentials and k r t
  assume "mc_ok s" "dget s k = Some r"
  then have "(k, r) \<in> set s" by (simp add: dget_in_set)
  then have "find (\<lambda>(_, q). sa_credential_id q = sa_credential_id r) s \<noteq> None" unfolding find_None_iff by auto
  then show "\<exists>s'. sas_mark_used MemoryServiceAccountStore (sa_credential_id r) t s = Inr s'"
    by (auto simp: MemoryServiceAccountStore_def mc_mark_used_def mc_find_credential_def)
qed

definition pc_view :: "credentials_row list \<Rightarrow> uuid \<Rightarrow> ServiceAccountRecord option" where
  "pc_view t k = map_option (\<lambda>r. projr (credential_of_row r)) (find (\<lambda>r. cr_key_id r = k) t)"

definition pc_ok :: "credentials_row list \<Rightarrow> bool" where
  "pc_ok t \<longleftrightarrow> distinct (map cr_credential_id t) \<and> distinct (map cr_key_id t) \<and> list_all (\<lambda>r. \<exists>q. credential_of_row r = Inr q) t"

lemma find_map_option: "find P (map g t) = map_option g (find (\<lambda>x. P (g x)) t)"
  by (induction t) simp_all

lemma find_distinct: "distinct (map f t) \<Longrightarrow> find (\<lambda>r. f r = k) t = Some r \<longleftrightarrow> r \<in> set t \<and> f r = k"
  by (induction t) auto

lemma credential_of_row_ids: "credential_of_row r = Inr q \<Longrightarrow> sa_credential_id q = cr_credential_id r \<and> sa_key_id q = cr_key_id r"
  by (auto simp: credential_of_row_def rbind_Inr_iff)

lemma pc_view_iff:
  assumes "pc_ok t"
  shows "pc_view t k = Some q \<longleftrightarrow> (\<exists>r\<in>set t. cr_key_id r = k \<and> credential_of_row r = Inr q)"
  using assms by (fastforce simp: pc_view_def pc_ok_def find_distinct list_all_iff)

lemma pc_one_credential:
  assumes "pc_ok t" "pc_view t k = Some r" "pc_view t l = Some q" "sa_credential_id r = sa_credential_id q"
  shows "k = l"
proof -
  from assms(2,3) obtain x y where x: "x \<in> set t" "cr_key_id x = k" "credential_of_row x = Inr r"
    and y: "y \<in> set t" "cr_key_id y = l" "credential_of_row y = Inr q" by (auto simp: pc_view_iff [OF assms(1)])
  have "inj_on cr_credential_id (set t)" using assms(1) by (simp add: pc_ok_def distinct_map)
  then have "x = y" by (rule inj_onD) (use x y assms(4) credential_of_row_ids [OF x(3)] credential_of_row_ids [OF y(3)] in simp_all)
  with x y show ?thesis by simp
qed

lemma pc_update_view:
  assumes ok: "pc_ok t" and upd: "update_credential f c t = Inr t'"
    and ids: "\<And>r. cr_key_id (f r) = cr_key_id r" "\<And>r. cr_credential_id (f r) = cr_credential_id r"
    and row: "\<And>r q. credential_of_row r = Inr q \<Longrightarrow> credential_of_row (f r) = Inr (h r q)"
  shows "pc_ok t' \<and> (\<exists>k r q. pc_view t k = Some q \<and> sa_credential_id q = c \<and> pc_view t' = (pc_view t)(k \<mapsto> h r q))"
proof -
  let ?g = "\<lambda>r. if cr_credential_id r = c then f r else r"
  from upd obtain r where r: "r \<in> set t" "cr_credential_id r = c" and t': "t' = map ?g t"
    by (auto simp: update_credential_def list_ex_iff split: if_splits)
  from ok r(1) obtain q where q: "credential_of_row r = Inr q" by (auto simp: pc_ok_def list_all_iff)
  have "map cr_key_id t' = map cr_key_id t" "map cr_credential_id t' = map cr_credential_id t" by (auto simp: t' ids)
  moreover have "list_all (\<lambda>r. \<exists>q. credential_of_row r = Inr q) t'" using ok row by (fastforce simp: t' pc_ok_def list_all_iff)
  ultimately have "pc_ok t'" using ok by (simp add: pc_ok_def)
  have uniq: "r' = r" if "r' \<in> set t" "cr_credential_id r' = c" for r'
    using ok that r by (auto simp: pc_ok_def distinct_map inj_on_def)
  have key: "r' = r" if "r' \<in> set t" "cr_key_id r' = cr_key_id r" for r'
    using ok that r by (auto simp: pc_ok_def distinct_map inj_on_def)
  have "pc_view t' l = ((pc_view t)(cr_key_id r \<mapsto> h r q)) l" for l
  proof -
    have "(\<lambda>x. cr_key_id (?g x) = l) = (\<lambda>x. cr_key_id x = l)" by (auto simp: ids)
    then have v: "pc_view t' l = map_option (\<lambda>x. projr (credential_of_row (?g x))) (find (\<lambda>x. cr_key_id x = l) t)"
      by (simp add: pc_view_def t' find_map_option option.map_comp comp_def)
    show ?thesis
    proof (cases "find (\<lambda>x. cr_key_id x = l) t")
      case None
      then have "l \<noteq> cr_key_id r" using r(1) by (auto simp: find_None_iff)
      with None v show ?thesis by (simp add: pc_view_def)
    next
      case (Some x)
      then have x: "x \<in> set t" "cr_key_id x = l" by (auto simp: find_Some_iff)
      show ?thesis
      proof (cases "cr_credential_id x = c")
        case True
        with x uniq have "x = r" by blast
        with True Some v x row [OF q] show ?thesis by simp
      next
        case False
        with x key r(2) have "l \<noteq> cr_key_id r" by blast
        with False Some v show ?thesis by (simp add: pc_view_def)
      qed
    qed
  qed
  then have "pc_view t' = (pc_view t)(cr_key_id r \<mapsto> h r q)" by blast
  moreover have "pc_view t (cr_key_id r) = Some q" using r(1) q by (auto simp: pc_view_iff [OF ok])
  moreover have "sa_credential_id q = c" using credential_of_row_ids [OF q] r(2) by simp
  ultimately show ?thesis using \<open>pc_ok t'\<close> by blast
qed

lemma permission_of_value: "permission_of (permission_value p) = Inr p"
  by (cases p) (simp_all add: permission_of_def permission_value_def permissions_sorted_def)

lemma permissions_of_values: "permissions_of (map permission_value ps) = Inr (set ps)"
  by (induction ps) (simp_all add: permission_of_value)

lemma all_permissions: "p \<in> set permissions_sorted"
  by (cases p) (simp_all add: permissions_sorted_def)

interpretation table_credentials: credential_store PostgresServiceAccountStore pc_ok pc_view
proof
  fix s k r
  assume s: "pc_ok s"
  show "sas_get_by_key_id PostgresServiceAccountStore k s = Inr (pc_view s k)"
  proof (cases "find (\<lambda>r. cr_key_id r = k) s")
    case None
    then show ?thesis by (simp add: PostgresServiceAccountStore_def pc_get_by_key_id_def pc_view_def)
  next
    case (Some x)
    then have "x \<in> set s" by (auto simp: find_Some_iff)
    with s obtain q where "credential_of_row x = Inr q" by (auto simp: pc_ok_def list_all_iff)
    with Some show ?thesis by (simp add: PostgresServiceAccountStore_def pc_get_by_key_id_def pc_view_def)
  qed
  fix l q
  show "pc_view s k = Some r \<Longrightarrow> pc_view s l = Some q \<Longrightarrow> sa_credential_id r = sa_credential_id q \<Longrightarrow> k = l"
    by (rule pc_one_credential [OF s])
next
  fix s r s'
  assume s: "pc_ok s" and cr: "sas_create PostgresServiceAccountStore r s = Inr s'" and new: "sa_revoked_at r = None" "sa_last_used_at r = None"
  obtain row where row: "s' = s @ [row]" "credential_of_row row = Inr r" "cr_key_id row = sa_key_id r"
    "\<not> list_ex (\<lambda>x. cr_credential_id x = cr_credential_id row \<or> cr_key_id x = cr_key_id row) s"
    using cr new all_permissions
    by (auto simp: PostgresServiceAccountStore_def pc_create_def insert_credential_def credential_of_row_def permissions_of_values
        split: if_splits)
  then have ok: "pc_ok s'" using s by (auto simp: pc_ok_def list_ex_iff)
  have none: "find (\<lambda>x. cr_key_id x = sa_key_id r) s = None" using row(3,4) by (auto simp: find_None_iff list_ex_iff)
  have "find P (xs @ [y]) = (case find P xs of None \<Rightarrow> if P y then Some y else None | Some z \<Rightarrow> Some z)" for P and xs :: "credentials_row list" and y
    by (induction xs) simp_all
  then have "pc_view s' = (pc_view s)(sa_key_id r \<mapsto> r)"
    using none row by (auto simp: pc_view_def fun_eq_iff split: option.splits)
  with ok none show "pc_ok s' \<and> pc_view s (sa_key_id r) = None \<and> pc_view s' = (pc_view s)(sa_key_id r \<mapsto> r)"
    by (simp add: pc_view_def)
next
  fix s c t s'
  assume s: "pc_ok s" "sas_revoke PostgresServiceAccountStore c t s = Inr s'"
  define f :: "credentials_row \<Rightarrow> credentials_row"
    where "f = (\<lambda>r. r\<lparr>cr_revoked_at := (case cr_revoked_at r of None \<Rightarrow> Some t | Some u \<Rightarrow> Some u)\<rparr>)"
  have upd: "update_credential f c s = Inr s'" using s(2) by (simp add: PostgresServiceAccountStore_def pc_revoke_def f_def)
  have "credential_of_row (f r) = Inr (q\<lparr>sa_revoked_at := cr_revoked_at (f r)\<rparr>)" if "credential_of_row r = Inr q" for r q
    using that by (auto simp: f_def credential_of_row_def rbind_Inr_iff)
  from pc_update_view [OF s(1) upd, of "\<lambda>r q. q\<lparr>sa_revoked_at := cr_revoked_at (f r)\<rparr>", OF _ _ this]
  obtain k r q where v: "pc_ok s'" "pc_view s k = Some q" "sa_credential_id q = c"
      "pc_view s' = (pc_view s)(k \<mapsto> q\<lparr>sa_revoked_at := cr_revoked_at (f r)\<rparr>)"
    by (auto simp: f_def)
  obtain u where u: "cr_revoked_at (f r) = Some u" by (cases "cr_revoked_at r") (auto simp: f_def)
  from v show "pc_ok s' \<and> (\<exists>k r u. pc_view s k = Some r \<and> sa_credential_id r = c \<and> pc_view s' = (pc_view s)(k \<mapsto> r\<lparr>sa_revoked_at := Some u\<rparr>))"
    unfolding u by blast
next
  fix s c t s'
  assume s: "pc_ok s" "sas_mark_used PostgresServiceAccountStore c t s = Inr s'"
  have "credential_of_row (r\<lparr>cr_last_used_at := Some t\<rparr>) = Inr (q\<lparr>sa_last_used_at := Some t\<rparr>)" if "credential_of_row r = Inr q" for r q
    using that by (auto simp: credential_of_row_def rbind_Inr_iff)
  from pc_update_view [OF s(1), of "\<lambda>r. r\<lparr>cr_last_used_at := Some t\<rparr>" c s' "\<lambda>r q. q\<lparr>sa_last_used_at := Some t\<rparr>", OF _ _ _ this] s(2)
  show "pc_ok s' \<and> (\<exists>k r. pc_view s k = Some r \<and> sa_credential_id r = c \<and> pc_view s' = (pc_view s)(k \<mapsto> r\<lparr>sa_last_used_at := Some t\<rparr>))"
    by (auto simp: PostgresServiceAccountStore_def pc_mark_used_def)
next
  fix s k r t
  assume "pc_ok s" "pc_view s k = Some r"
  then have "list_ex (\<lambda>x. cr_credential_id x = sa_credential_id r) s"
    by (auto simp: pc_view_iff list_ex_iff dest!: credential_of_row_ids intro: bexI)
  then show "\<exists>s'. sas_mark_used PostgresServiceAccountStore (sa_credential_id r) t s = Inr s'"
    by (simp add: PostgresServiceAccountStore_def pc_mark_used_def update_credential_def)
qed

lemma mc_empty: "mc_ok []" "dget ([] :: memory_credentials) = Map.empty"
  by (simp_all add: mc_ok_def fun_eq_iff)

lemma pc_empty: "pc_ok []" "pc_view [] = Map.empty"
  by (simp_all add: pc_ok_def pc_view_def fun_eq_iff)

section \<open>Properties\<close>

text \<open>The grant of an issued credential, as the principal that requests are made with.\<close>

definition issued_principal :: "ServiceAccountManager \<Rightarrow> IssuedServiceAccount \<Rightarrow> Principal" where
  "issued_principal m i = \<lparr>pl_subject = is_subject i, pl_roles = {}, pl_permissions = is_permissions i, pl_kind = SERVICE,
     pl_organization_id = sm_organization_id m, pl_environment_id = sm_environment_id m\<rparr>"

text \<open>C18. Service credentials are sound, with either store: after any issues, authentications and
  revocations, a token is accepted only if it is one that was issued (or the token is a
  SHA-256 collision with that one), before its expiry and when its credential was never revoked, and the principal it
  gives has exactly the subject, permissions and scope of that issue and no role.\<close>

theorem service_credential_sound:
  shows "(credential_runs P MemoryServiceAccountStore m [] log s \<longrightarrow> authenticate_service P MemoryServiceAccountStore m clock token s = Inr (p, s') \<longrightarrow>
     (\<exists>i now. Issued i \<in> set log \<and> Revoked (is_credential_id i) \<notin> set log \<and> clock = Aware now \<and>
       (case is_expires_at i of None \<Rightarrow> True | Some e \<Rightarrow> now < e) \<and> (token = is_token i \<or> collide (sha256 P) {encode token} {encode (is_token i)}) \<and> p = issued_principal m i)) \<and>
    (credential_runs P PostgresServiceAccountStore m [] log' t \<longrightarrow> authenticate_service P PostgresServiceAccountStore m clock token t = Inr (p, t') \<longrightarrow>
     (\<exists>i now. Issued i \<in> set log' \<and> Revoked (is_credential_id i) \<notin> set log' \<and> clock = Aware now \<and>
       (case is_expires_at i of None \<Rightarrow> True | Some e \<Rightarrow> now < e) \<and> (token = is_token i \<or> collide (sha256 P) {encode token} {encode (is_token i)}) \<and> p = issued_principal m i))"
  using memory_credentials.accepted_was_issued [OF _ mc_empty] table_credentials.accepted_was_issued [OF _ pc_empty]
  unfolding issued_principal_def by blast

text \<open>An issued credential works until it expires or is revoked: with either store, whatever else was
  issued, used and revoked, the token that \<open>issue\<close> returned is accepted.\<close>

theorem service_credential_live:
  assumes "ServiceAccountManager_init org env = Inr m" "Issued i \<in> set log" "Revoked (is_credential_id i) \<notin> set log"
    and "case is_expires_at i of None \<Rightarrow> True | Some e \<Rightarrow> now < e"
  shows "(credential_runs P MemoryServiceAccountStore m [] log s \<longrightarrow>
      (\<exists>p s'. authenticate_service P MemoryServiceAccountStore m (Aware now) (is_token i) s = Inr (p, s'))) \<and>
    (credential_runs P PostgresServiceAccountStore m [] log t \<longrightarrow>
      (\<exists>p t'. authenticate_service P PostgresServiceAccountStore m (Aware now) (is_token i) t = Inr (p, t')))"
  using memory_credentials.issued_is_accepted [OF _ mc_empty assms] table_credentials.issued_is_accepted [OF _ pc_empty assms] by blast

definition sample_manager :: ServiceAccountManager where
  "sample_manager = \<lparr>sm_organization_id = ''acme'', sm_environment_id = ''prod''\<rparr>"

definition sample_issue :: issue_request where
  "sample_issue = \<lparr>ir_name = ''bot'', ir_subject = ''agent-1'', ir_permissions = {PROPOSALS_READ}, ir_expires_at = None\<rparr>"

definition sample_secret :: string where
  "sample_secret = replicate 43 (CHR ''s'')"

definition sample_issued :: IssuedServiceAccount where
  "sample_issued = \<lparr>is_credential_id = 1, is_key_id = 2, is_name = ''bot'', is_subject = ''agent-1'', is_organization_id = ''acme'',
     is_environment_id = ''prod'', is_permissions = {PROPOSALS_READ}, is_token = token_text 2 sample_secret, is_expires_at = None\<rparr>"

lemma sample_identifiers: "validated_identifier ''bot'' w 128 = Inr ''bot''" "validated_identifier ''agent-1'' w 256 = Inr ''agent-1''"
    "validated_identifier ''acme'' w 128 = Inr ''acme''" "validated_identifier ''prod'' w 128 = Inr ''prod''"
  unfolding validated_identifier_def by (simp_all, code_simp+)

lemma sample_run: "\<exists>s. credential_runs prims MemoryServiceAccountStore sample_manager [] [Issued sample_issued] s"
proof -
  obtain s where "issue_credential prims MemoryServiceAccountStore sample_manager (Aware 5) 1 2 sample_secret sample_issue [] = Inr (sample_issued, s)"
    by (auto simp: issue_credential_def sample_issue_def sample_identifiers as_utc_def checked_expiry_def MemoryServiceAccountStore_def
        mc_create_def sample_manager_def sample_issued_def Let_def)
  moreover have "secret_pattern sample_secret" by code_simp
  ultimately have "credential_runs prims MemoryServiceAccountStore sample_manager [] ([] @ [Issued sample_issued]) s"
    by (intro cr_issue [OF cr_start]) simp_all
  then show ?thesis by auto
qed

theorem service_credential_live_witness:
  "\<exists>s p s'. authenticate_service prims MemoryServiceAccountStore sample_manager (Aware 9) (is_token sample_issued) s = Inr (p, s')"
proof -
  have init: "ServiceAccountManager_init ''acme'' ''prod'' = Inr sample_manager"
    by (simp add: ServiceAccountManager_init_def sample_identifiers sample_manager_def)
  obtain s where "credential_runs prims MemoryServiceAccountStore sample_manager [] [Issued sample_issued] s" using sample_run by blast
  moreover have "Issued sample_issued \<in> set [Issued sample_issued]" "Revoked (is_credential_id sample_issued) \<notin> set [Issued sample_issued]"
    "case is_expires_at sample_issued of None \<Rightarrow> True | Some e \<Rightarrow> 9 < e" by (simp_all add: sample_issued_def)
  ultimately show ?thesis using service_credential_live [OF init, of sample_issued "[Issued sample_issued]" 9 prims s] by blast
qed

theorem service_credential_sound_witness:
  "\<exists>s p s'. authenticate_service prims MemoryServiceAccountStore sample_manager (Aware 9) (is_token sample_issued) s = Inr (p, s') \<and>
     p = issued_principal sample_manager sample_issued"
proof -
  have init: "ServiceAccountManager_init ''acme'' ''prod'' = Inr sample_manager"
    by (simp add: ServiceAccountManager_init_def sample_identifiers sample_manager_def)
  obtain s where run: "credential_runs prims MemoryServiceAccountStore sample_manager [] [Issued sample_issued] s" using sample_run by blast
  have "Issued sample_issued \<in> set [Issued sample_issued]" "Revoked (is_credential_id sample_issued) \<notin> set [Issued sample_issued]"
    "case is_expires_at sample_issued of None \<Rightarrow> True | Some e \<Rightarrow> 9 < e" by (simp_all add: sample_issued_def)
  from memory_credentials.issued_is_accepted [OF run mc_empty init this]
  obtain p s' where acc: "authenticate_service prims MemoryServiceAccountStore sample_manager (Aware 9) (is_token sample_issued) s = Inr (p, s')"
    by blast
  from service_credential_sound [of prims sample_manager "[Issued sample_issued]" s "Aware 9" "is_token sample_issued" p s'] run acc have "p = issued_principal sample_manager sample_issued" by auto
  with acc show ?thesis by blast
qed

end
