(* ===== verification/Artifacts.thy ===== *)
theory Artifacts
  imports PostgresState Signing
begin

text \<open>
  \<open>src/aegisledger/signer_client.py\<close> and \<open>artifact_store.py\<close>: the client of the isolated signer, which
  treats every field of an answer as untrusted, and the stores of decisions and signed
  executions, in memory and on the tables \<open>decisions\<close> and \<open>transactions\<close> of migrations
  \<open>0001_core.py\<close> and \<open>0002_artifact_idempotency.py\<close>.

  \<^item> The gRPC call and the JSON parser of the evidence are parameters.
  \<^item> A JSON column holds the model it was dumped from; reading it validates the model again. The
    columns of type \<open>char\<close> hold hashes and addresses of the length the models require.

  The locale \<open>artifact_store\<close> is the contract of the \<open>AuthorizationArtifactStore\<close> protocol: the first
  write wins. Both stores interpret it. Shown: whatever is written later, the first decision and
  the first execution of a proposal stay, and the time of submission is set once; an answer of
  the signer is accepted only for the transaction that was asked for.
\<close>

section \<open>The client of the isolated signer\<close>

record SignerIdentity =
  si_signer_identity :: string
  si_secp256k1_public_key :: string
  si_build_measurement :: string

record SignerResult =
  sg_signing_hash :: string
  sg_transaction_hash :: string
  sg_signed_transaction :: bytes
  sg_wallet_nonce :: int
  sg_chain_id :: int
  sg_decision_id :: uuid
  sg_signer_identity :: string
  sg_signature :: string
  sg_enclave_evidence :: json

text \<open>The response message on the wire.\<close>

record wire_response =
  wr_eip1559_hash :: string
  wr_wallet_nonce :: nat
  wr_chain_id :: nat
  wr_decision_id :: string
  wr_signer_identity :: string
  wr_signature :: string
  wr_enclave_evidence_json :: bytes
  wr_signed_transaction :: bytes
  wr_transaction_hash :: string
  wr_signing_hash :: string

definition client_error :: "string \<Rightarrow> exn" where
  "client_error m = SignerClientError m"

text \<open>\<open>identity()\<close> on the answer of the RPC; \<open>None\<close> is a failed call.\<close>

definition signer_client_identity :: "(string \<times> string \<times> string) option \<Rightarrow> SignerIdentity res" where
  "signer_client_identity answer = (case answer of
     None \<Rightarrow> Inl (client_error ''isolated signer identity request failed'')
   | Some (i, k, m) \<Rightarrow>
       let identity = lower i; public_key = lower k in
       if \<not> startswith identity ''0x'' \<or> py_len identity \<noteq> 42 \<or> \<not> startswith public_key ''0x04'' \<or> py_len public_key \<noteq> 132 \<or> m = []
       then Inl (client_error ''isolated signer returned an invalid identity'')
       else Inr \<lparr>si_signer_identity = identity, si_secp256k1_public_key = public_key, si_build_measurement = m\<rparr>)"

text \<open>\<open>str(value)\<close> of a JSON value; the text of a container or a float is not needed, because it is no hash,
  identifier or address.\<close>

definition py_str :: "json \<Rightarrow> string" where
  "py_str v = (case v of JStr s \<Rightarrow> s | JNull \<Rightarrow> ''None'' | JBool b \<Rightarrow> (if b then ''True'' else ''False'') | JInt i \<Rightarrow> show_int i | _ \<Rightarrow> ''object'')"

definition evidence_text :: "json \<Rightarrow> string \<Rightarrow> string" where
  "evidence_text evidence k = (case field evidence k of None \<Rightarrow> [] | Some v \<Rightarrow> py_str v)"

definition validated_result ::
  "primitives \<Rightarrow> (bytes \<Rightarrow> json option) \<Rightarrow> TransactionSignRequestV1 \<Rightarrow> wire_response \<Rightarrow> SignerResult res" where
  "validated_result P loads request response =
     (let signing_hash = lower (wr_signing_hash response); transaction_hash = lower (wr_transaction_hash response);
        raw_transaction = wr_signed_transaction response; signer_identity = lower (wr_signer_identity response);
        signature = lower (wr_signature response); decision = uuid_str (dt_decision_id (sr_decision request)) in
      rbind (raise_first
        [(signing_hash \<noteq> sr_eip1559_hash request \<or> lower (wr_eip1559_hash response) \<noteq> signing_hash \<or>
          int (wr_wallet_nonce response) \<noteq> sr_wallet_nonce request \<or> int (wr_chain_id response) \<noteq> sr_chain_id request \<or>
          wr_decision_id response \<noteq> decision, client_error ''isolated signer response does not match the request''),
         (take 1 raw_transaction \<noteq> [2], client_error ''isolated signer omitted a signed type-2 transaction''),
         (transaction_hash \<noteq> ''0x'' @ bytes_hex (keccak P raw_transaction),
          client_error ''isolated signer transaction hash does not match raw bytes''),
         (\<not> startswith signer_identity ''0x'' \<or> py_len signer_identity \<noteq> 42 \<or> \<not> startswith signature ''0x'' \<or> py_len signature \<noteq> 132,
          client_error ''isolated signer signature metadata is malformed'')]) (\<lambda>_.
      rbind (of_option (client_error ''isolated signer evidence is invalid JSON'') (loads (wr_enclave_evidence_json response))) (\<lambda>evidence.
      rbind (raise_first
        [(\<not> is_object evidence, client_error ''isolated signer evidence must be an object''),
         (lower (evidence_text evidence ''transaction_hash'') \<noteq> transaction_hash \<or>
          lower (evidence_text evidence ''signing_hash'') \<noteq> signing_hash \<or> evidence_text evidence ''decision_id'' \<noteq> decision \<or>
          lower (evidence_text evidence ''signer_identity'') \<noteq> signer_identity,
          client_error ''isolated signer evidence does not match its response'')]) (\<lambda>_.
      Inr \<lparr>sg_signing_hash = signing_hash, sg_transaction_hash = transaction_hash, sg_signed_transaction = raw_transaction,
        sg_wallet_nonce = sr_wallet_nonce request, sg_chain_id = sr_chain_id request,
        sg_decision_id = dt_decision_id (sr_decision request), sg_signer_identity = signer_identity, sg_signature = signature,
        sg_enclave_evidence = evidence\<rparr>))))"

text \<open>\<open>sign()\<close>: the RPC gives an answer or fails.\<close>

definition signer_client_sign ::
  "primitives \<Rightarrow> (bytes \<Rightarrow> json option) \<Rightarrow> (TransactionSignRequestV1 \<Rightarrow> wire_response option) \<Rightarrow> TransactionSignRequestV1 \<Rightarrow> SignerResult res" where
  "signer_client_sign P loads rpc request = (case rpc request of
     None \<Rightarrow> Inl (client_error ''isolated signer denied or failed the request'')
   | Some response \<Rightarrow> validated_result P loads request response)"

section \<open>Stored executions\<close>

record StoredExecutionV1 =
  se_transaction_id :: uuid
  se_proposal_id :: uuid
  se_authorization :: TransactionSignRequestV1
  se_signing_hash :: string
  se_transaction_hash :: string
  se_raw_transaction :: string
  se_signer_identity :: string
  se_signature :: string
  se_enclave_evidence :: json
  se_signed_at :: time
  se_submitted_at :: "time option"

definition make_StoredExecutionV1 :: "StoredExecutionV1 \<Rightarrow> StoredExecutionV1 res" where
  "make_StoredExecutionV1 e =
     (if Hex32 (se_signing_hash e) \<and> Hex32 (se_transaction_hash e) \<and> HexData (se_raw_transaction e) \<and> Address (se_signer_identity e) \<and>
         RecoverableSignature (se_signature e) \<and> is_object (se_enclave_evidence e)
      then Inr e else Inl (ValueError ''StoredExecutionV1''))"

definition from_signer :: "uuid \<Rightarrow> time \<Rightarrow> uuid \<Rightarrow> TransactionSignRequestV1 \<Rightarrow> SignerResult \<Rightarrow> StoredExecutionV1 res" where
  "from_signer transaction_id now proposal_id authorization result =
     make_StoredExecutionV1 \<lparr>se_transaction_id = transaction_id, se_proposal_id = proposal_id, se_authorization = authorization,
       se_signing_hash = sg_signing_hash result, se_transaction_hash = sg_transaction_hash result,
       se_raw_transaction = ''0x'' @ bytes_hex (sg_signed_transaction result), se_signer_identity = sg_signer_identity result,
       se_signature = sg_signature result, se_enclave_evidence = sg_enclave_evidence result, se_signed_at = now, se_submitted_at = None\<rparr>"

text \<open>\<open>model_validate_json\<close>: nested models are validated too.\<close>

definition validate_execution :: "StoredExecutionV1 \<Rightarrow> StoredExecutionV1 res" where
  "validate_execution e =
     rbind (make_TransactionSignRequestV1 (se_authorization e)) (\<lambda>a. make_StoredExecutionV1 (e\<lparr>se_authorization := a\<rparr>))"

section \<open>The stores\<close>

record 's AuthorizationArtifactStore =
  aas_put_decision :: "uuid \<Rightarrow> DecisionTokenV1 \<Rightarrow> 's \<Rightarrow> ((DecisionTokenV1 \<times> bool) \<times> 's) res"
  aas_get_decision :: "uuid \<Rightarrow> 's \<Rightarrow> DecisionTokenV1 option res"
  aas_put_execution :: "StoredExecutionV1 \<Rightarrow> 's \<Rightarrow> ((StoredExecutionV1 \<times> bool) \<times> 's) res"
  aas_get_execution :: "uuid \<Rightarrow> 's \<Rightarrow> StoredExecutionV1 option res"
  aas_mark_submitted :: "uuid \<Rightarrow> time \<Rightarrow> 's \<Rightarrow> (StoredExecutionV1 \<times> 's) res"

record memory_artifacts =
  ma_decisions :: "(uuid, DecisionTokenV1) dict"
  ma_executions :: "(uuid, StoredExecutionV1) dict"

definition MemoryArtifacts_init :: memory_artifacts where
  "MemoryArtifacts_init = \<lparr>ma_decisions = [], ma_executions = []\<rparr>"

definition ma_put_decision :: "uuid \<Rightarrow> DecisionTokenV1 \<Rightarrow> memory_artifacts \<Rightarrow> ((DecisionTokenV1 \<times> bool) \<times> memory_artifacts) res" where
  "ma_put_decision pid d s = (case dget (ma_decisions s) pid of
     Some existing \<Rightarrow> Inr ((existing, False), s)
   | None \<Rightarrow> Inr ((d, True), s\<lparr>ma_decisions := dset pid d (ma_decisions s)\<rparr>))"

definition ma_put_execution :: "StoredExecutionV1 \<Rightarrow> memory_artifacts \<Rightarrow> ((StoredExecutionV1 \<times> bool) \<times> memory_artifacts) res" where
  "ma_put_execution e s = (case dget (ma_executions s) (se_proposal_id e) of
     Some existing \<Rightarrow> Inr ((existing, False), s)
   | None \<Rightarrow> Inr ((e, True), s\<lparr>ma_executions := dset (se_proposal_id e) e (ma_executions s)\<rparr>))"

definition ma_mark_submitted :: "uuid \<Rightarrow> time \<Rightarrow> memory_artifacts \<Rightarrow> (StoredExecutionV1 \<times> memory_artifacts) res" where
  "ma_mark_submitted pid t s =
     rbind (of_option (KeyError (uuid_str pid)) (dget (ma_executions s) pid)) (\<lambda>e.
     if se_submitted_at e = None
     then let e = e\<lparr>se_submitted_at := Some t\<rparr> in Inr (e, s\<lparr>ma_executions := dset pid e (ma_executions s)\<rparr>)
     else Inr (e, s))"

definition MemoryAuthorizationArtifactStore :: "memory_artifacts AuthorizationArtifactStore" where
  "MemoryAuthorizationArtifactStore =
     \<lparr>aas_put_decision = ma_put_decision, aas_get_decision = (\<lambda>pid s. Inr (dget (ma_decisions s) pid)),
      aas_put_execution = ma_put_execution, aas_get_execution = (\<lambda>pid s. Inr (dget (ma_executions s) pid)),
      aas_mark_submitted = ma_mark_submitted\<rparr>"

record decisions_row =
  dr_id :: uuid
  dr_proposal_id :: uuid
  dr_policy_version_id :: uuid
  dr_reservation_id :: "uuid option"
  dr_decision_nonce :: uuid
  dr_verdict :: DecisionVerdict
  dr_reason_codes :: "string list"
  dr_state_version :: int
  dr_token :: DecisionTokenV1
  dr_expires_at :: time

record transactions_row =
  tr_id :: uuid
  tr_proposal_id :: uuid
  tr_decision_id :: uuid
  tr_wallet :: string
  tr_chain_id :: int
  tr_wallet_nonce :: int
  tr_eip712_hash :: string
  tr_eip1559_hash :: string
  tr_signed_transaction :: StoredExecutionV1
  tr_submitted_at :: "time option"

record artifact_tables = state_tables +
  policy_version_ids :: "uuid list"
  decisions :: "decisions_row list"
  transactions :: "transactions_row list"

text \<open>\<open>INSERT INTO decisions \<dots> ON CONFLICT (proposal_id) DO NOTHING RETURNING id\<close>: ranges and checks, then the
  conflict that is tolerated, then the other unique keys and the references.\<close>

definition insert_decision :: "decisions_row \<Rightarrow> artifact_tables \<Rightarrow> (bool \<times> artifact_tables) res" where
  "insert_decision r db =
     rbind (raise_first
       [(dr_state_version r \<ge> 2 ^ 63, NumericValueOutOfRange ''state_version''),
        ((dr_verdict r = ALLOW) \<noteq> (dr_reservation_id r \<noteq> None), CheckViolation ''decisions'')]) (\<lambda>_.
     if list_ex (\<lambda>x. dr_proposal_id x = dr_proposal_id r) (decisions db) then Inr (False, db)
     else
       rbind (raise_first
         [(list_ex (\<lambda>x. dr_id x = dr_id r \<or> dr_decision_nonce x = dr_decision_nonce r) (decisions db), UniqueViolation ''decisions''),
          (\<not> list_ex (\<lambda>p. pq_id p = dr_proposal_id r) (proposals db) \<or> dr_policy_version_id r \<notin> set (policy_version_ids db) \<or>
           (case dr_reservation_id r of None \<Rightarrow> False | Some rid \<Rightarrow> \<not> list_ex (\<lambda>x. rr_id x = rid) (reservations db)),
           ForeignKeyViolation ''decisions'')]) (\<lambda>_.
       Inr (True, db\<lparr>decisions := decisions db @ [r]\<rparr>)))"

definition pa_get_decision :: "uuid \<Rightarrow> artifact_tables \<Rightarrow> DecisionTokenV1 option res" where
  "pa_get_decision pid db = (case find (\<lambda>r. dr_proposal_id r = pid) (decisions db) of
     None \<Rightarrow> Inr None
   | Some r \<Rightarrow> rbind (make_DecisionTokenV1 (dr_token r)) (\<lambda>d. Inr (Some d)))"

definition pa_put_decision :: "uuid \<Rightarrow> DecisionTokenV1 \<Rightarrow> artifact_tables \<Rightarrow> ((DecisionTokenV1 \<times> bool) \<times> artifact_tables) res" where
  "pa_put_decision pid d db =
     rbind (insert_decision \<lparr>dr_id = dt_decision_id d, dr_proposal_id = pid, dr_policy_version_id = dt_policy_version_id d,
       dr_reservation_id = dt_reservation_id d, dr_decision_nonce = dt_decision_nonce d, dr_verdict = dt_verdict d,
       dr_reason_codes = dt_reason_codes d, dr_state_version = dt_state_version d, dr_token = d, dr_expires_at = dt_expires_at d\<rparr> db)
       (\<lambda>(inserted, db).
     rbind (pa_get_decision pid db) (\<lambda>stored.
     rbind (of_option AssertionError stored) (\<lambda>stored. Inr ((stored, inserted), db))))"

definition insert_transaction :: "transactions_row \<Rightarrow> artifact_tables \<Rightarrow> (bool \<times> artifact_tables) res" where
  "insert_transaction r db =
     rbind (raise_first
       [(tr_chain_id r \<ge> 2 ^ 63, NumericValueOutOfRange ''chain_id''), (tr_wallet_nonce r \<ge> 10 ^ 78, NumericValueOutOfRange ''wallet_nonce'')]) (\<lambda>_.
     if list_ex (\<lambda>x. tr_proposal_id x = tr_proposal_id r) (transactions db) then Inr (False, db)
     else
       rbind (raise_first
         [(list_ex (\<lambda>x. tr_id x = tr_id r \<or> tr_decision_id x = tr_decision_id r \<or> tr_eip712_hash x = tr_eip712_hash r \<or>
             tr_eip1559_hash x = tr_eip1559_hash r \<or>
             (tr_wallet x, tr_chain_id x, tr_wallet_nonce x) = (tr_wallet r, tr_chain_id r, tr_wallet_nonce r)) (transactions db),
           UniqueViolation ''transactions''),
          (\<not> list_ex (\<lambda>p. pq_id p = tr_proposal_id r) (proposals db) \<or> \<not> list_ex (\<lambda>d. dr_id d = tr_decision_id r) (decisions db),
           ForeignKeyViolation ''transactions'')]) (\<lambda>_.
       Inr (True, db\<lparr>transactions := transactions db @ [r]\<rparr>)))"

definition execution_of_row :: "transactions_row \<Rightarrow> StoredExecutionV1 res" where
  "execution_of_row r =
     rbind (validate_execution (tr_signed_transaction r)) (\<lambda>e.
     Inr (if tr_submitted_at r \<noteq> None \<and> se_submitted_at e = None then e\<lparr>se_submitted_at := tr_submitted_at r\<rparr> else e))"

definition pa_get_execution :: "uuid \<Rightarrow> artifact_tables \<Rightarrow> StoredExecutionV1 option res" where
  "pa_get_execution pid db = (case find (\<lambda>r. tr_proposal_id r = pid) (transactions db) of
     None \<Rightarrow> Inr None
   | Some r \<Rightarrow> rbind (execution_of_row r) (\<lambda>e. Inr (Some e)))"

definition pa_put_execution :: "StoredExecutionV1 \<Rightarrow> artifact_tables \<Rightarrow> ((StoredExecutionV1 \<times> bool) \<times> artifact_tables) res" where
  "pa_put_execution e db =
     (let a = se_authorization e in
      rbind (insert_transaction \<lparr>tr_id = se_transaction_id e, tr_proposal_id = se_proposal_id e,
        tr_decision_id = dt_decision_id (sr_decision a), tr_wallet = pr_wallet (sr_proposal a), tr_chain_id = sr_chain_id a,
        tr_wallet_nonce = sr_wallet_nonce a, tr_eip712_hash = sr_eip712_hash a, tr_eip1559_hash = se_signing_hash e,
        tr_signed_transaction = e, tr_submitted_at = None\<rparr> db) (\<lambda>(inserted, db).
      rbind (pa_get_execution (se_proposal_id e) db) (\<lambda>stored.
      rbind (of_option AssertionError stored) (\<lambda>stored. Inr ((stored, inserted), db)))))"

definition pa_mark_submitted :: "uuid \<Rightarrow> time \<Rightarrow> artifact_tables \<Rightarrow> (StoredExecutionV1 \<times> artifact_tables) res" where
  "pa_mark_submitted pid t db =
     (let db = db\<lparr>transactions := update_where (\<lambda>r. tr_proposal_id r = pid)
        (\<lambda>r. r\<lparr>tr_submitted_at := (case tr_submitted_at r of None \<Rightarrow> Some t | Some u \<Rightarrow> Some u)\<rparr>) (transactions db)\<rparr> in
      rbind (pa_get_execution pid db) (\<lambda>stored.
      rbind (of_option (KeyError (''unknown execution for proposal '' @ uuid_str pid)) stored) (\<lambda>stored. Inr (stored, db))))"

definition PostgresAuthorizationArtifactStore :: "artifact_tables AuthorizationArtifactStore" where
  "PostgresAuthorizationArtifactStore =
     \<lparr>aas_put_decision = pa_put_decision, aas_get_decision = pa_get_decision, aas_put_execution = pa_put_execution,
      aas_get_execution = pa_get_execution, aas_mark_submitted = pa_mark_submitted\<rparr>"

section \<open>The contract: the first write wins\<close>

datatype artifact_op = PutDecision uuid DecisionTokenV1 | PutExecution StoredExecutionV1 | MarkSubmitted uuid time

fun artifact_step :: "'s AuthorizationArtifactStore \<Rightarrow> artifact_op \<Rightarrow> 's \<Rightarrow> 's" where
  "artifact_step st (PutDecision p d) s = after snd s (aas_put_decision st p d s)"
| "artifact_step st (PutExecution e) s = after snd s (aas_put_execution st e s)"
| "artifact_step st (MarkSubmitted p t) s = after snd s (aas_mark_submitted st p t s)"

definition artifact_run :: "'s AuthorizationArtifactStore \<Rightarrow> artifact_op list \<Rightarrow> 's \<Rightarrow> 's" where
  "artifact_run st ops s = fold (artifact_step st) ops s"

definition submitted_once :: "time \<Rightarrow> StoredExecutionV1 \<Rightarrow> StoredExecutionV1" where
  "submitted_once t e = (if se_submitted_at e = None then e\<lparr>se_submitted_at := Some t\<rparr> else e)"

locale artifact_store =
  fixes st :: "'s AuthorizationArtifactStore"
  assumes decision_put: "aas_put_decision st p d s = Inr ((x, c), s') \<Longrightarrow> aas_get_decision st p s' = Inr (Some x)"
    and decision_known: "aas_get_decision st p s = Inr (Some w) \<Longrightarrow> aas_put_decision st p d s = Inr ((x, c), s') \<Longrightarrow> x = w \<and> \<not> c \<and> s' = s"
    and decision_frame: "aas_put_decision st p d s = Inr ((x, c), s') \<Longrightarrow>
      (q \<noteq> p \<longrightarrow> aas_get_decision st q s' = aas_get_decision st q s) \<and> aas_get_execution st q s' = aas_get_execution st q s"
    and execution_put: "aas_put_execution st e s = Inr ((y, c), s') \<Longrightarrow> aas_get_execution st (se_proposal_id e) s' = Inr (Some y)"
    and execution_known: "aas_get_execution st (se_proposal_id e) s = Inr (Some z) \<Longrightarrow> aas_put_execution st e s = Inr ((y, c), s') \<Longrightarrow>
      y = z \<and> \<not> c \<and> s' = s"
    and execution_frame: "aas_put_execution st e s = Inr ((y, c), s') \<Longrightarrow>
      (q \<noteq> se_proposal_id e \<longrightarrow> aas_get_execution st q s' = aas_get_execution st q s) \<and> aas_get_decision st q s' = aas_get_decision st q s"
    and submitted_put: "aas_mark_submitted st p t s = Inr (y, s') \<Longrightarrow>
      \<exists>e. aas_get_execution st p s = Inr (Some e) \<and> y = submitted_once t e \<and> aas_get_execution st p s' = Inr (Some y)"
    and submitted_frame: "aas_mark_submitted st p t s = Inr (y, s') \<Longrightarrow>
      (q \<noteq> p \<longrightarrow> aas_get_execution st q s' = aas_get_execution st q s) \<and> aas_get_decision st q s' = aas_get_decision st q s"
begin

lemma step_keeps_decision:
  assumes "aas_get_decision st p s = Inr (Some d)"
  shows "aas_get_decision st p (artifact_step st op s) = Inr (Some d)"
proof (cases op)
  case (PutDecision q d')
  show ?thesis
  proof (cases "aas_put_decision st q d' s")
    case (Inr r)
    obtain x c s' where r: "r = ((x, c), s')" by (metis surj_pair)
    have "aas_get_decision st p s' = Inr (Some d)"
      using assms decision_known [of q s d d' x c s'] decision_frame [of q d' s x c s' p] Inr r by (cases "p = q") auto
    then show ?thesis by (simp add: PutDecision Inr r after_def)
  qed (simp add: PutDecision assms after_def)
next
  case (PutExecution e)
  show ?thesis
  proof (cases "aas_put_execution st e s")
    case (Inr r)
    obtain x c s' where r: "r = ((x, c), s')" by (metis surj_pair)
    show ?thesis using assms execution_frame [of e s x c s' p] by (simp add: PutExecution Inr r after_def)
  qed (simp add: PutExecution assms after_def)
next
  case (MarkSubmitted q t)
  show ?thesis
  proof (cases "aas_mark_submitted st q t s")
    case (Inr r)
    obtain x s' where r: "r = (x, s')" by (metis surj_pair)
    show ?thesis using assms submitted_frame [of q t s x s' p] by (simp add: MarkSubmitted Inr r after_def)
  qed (simp add: MarkSubmitted assms after_def)
qed

lemma run_keeps_decision:
  "aas_get_decision st p s = Inr (Some d) \<Longrightarrow> aas_get_decision st p (artifact_run st ops s) = Inr (Some d)"
  by (induction ops arbitrary: s) (simp_all add: artifact_run_def step_keeps_decision)

lemma step_keeps_execution:
  assumes "aas_get_execution st p s = Inr (Some e)"
  shows "\<exists>e'. aas_get_execution st p (artifact_step st op s) = Inr (Some e') \<and> (e' = e \<or> (\<exists>t. e' = submitted_once t e))"
proof (cases op)
  case (PutDecision q d')
  show ?thesis
  proof (cases "aas_put_decision st q d' s")
    case (Inr r)
    obtain x c s' where r: "r = ((x, c), s')" by (metis surj_pair)
    show ?thesis using assms decision_frame [of q d' s x c s' p] by (simp add: PutDecision Inr r after_def)
  qed (simp add: PutDecision assms after_def)
next
  case (PutExecution f)
  show ?thesis
  proof (cases "aas_put_execution st f s")
    case (Inr r)
    obtain x c s' where r: "r = ((x, c), s')" by (metis surj_pair)
    have "aas_get_execution st p s' = Inr (Some e)"
      using assms execution_known [of f s e x c s'] execution_frame [of f s x c s' p] Inr r by (cases "p = se_proposal_id f") auto
    then show ?thesis by (simp add: PutExecution Inr r after_def)
  qed (simp add: PutExecution assms after_def)
next
  case (MarkSubmitted q t)
  show ?thesis
  proof (cases "aas_mark_submitted st q t s")
    case (Inr r)
    obtain x s' where r: "r = (x, s')" by (metis surj_pair)
    show ?thesis
      using assms submitted_frame [of q t s x s' p] submitted_put [of q t s x s']
      by (cases "p = q") (auto simp: MarkSubmitted Inr r after_def)
  qed (simp add: MarkSubmitted assms after_def)
qed

lemma run_keeps_execution:
  assumes "aas_get_execution st p s = Inr (Some e)"
  shows "\<exists>e'. aas_get_execution st p (artifact_run st ops s) = Inr (Some e') \<and> (e' = e \<or> (\<exists>t. e' = submitted_once t e))"
  using assms
proof (induction ops arbitrary: s e)
  case (Cons op ops)
  obtain f where f: "aas_get_execution st p (artifact_step st op s) = Inr (Some f)" "f = e \<or> (\<exists>t. f = submitted_once t e)"
    using step_keeps_execution [OF Cons.prems] by blast
  have "submitted_once u (submitted_once t e) = submitted_once t e" for t u by (simp add: submitted_once_def)
  then show ?case using Cons.IH [OF f(1)] f(2) by (auto simp: artifact_run_def)
qed (simp add: artifact_run_def)

end

text \<open>What a store promises over any further run: a decision that is stored stays and every later
  \<open>put_decision\<close> for the proposal returns it as not created; a stored execution stays but for its time of
  submission, which is set at most once, and is returned by every later \<open>put_execution\<close>.\<close>

definition first_write_wins :: "'s AuthorizationArtifactStore \<Rightarrow> artifact_op list \<Rightarrow> 's \<Rightarrow> bool" where
  "first_write_wins st ops s =
     ((\<forall>p d. aas_get_decision st p s = Inr (Some d) \<longrightarrow>
         aas_get_decision st p (artifact_run st ops s) = Inr (Some d) \<and>
         (\<forall>d' x c s'. aas_put_decision st p d' (artifact_run st ops s) = Inr ((x, c), s') \<longrightarrow> x = d \<and> \<not> c)) \<and>
      (\<forall>p e. aas_get_execution st p s = Inr (Some e) \<longrightarrow>
         (\<exists>e'. aas_get_execution st p (artifact_run st ops s) = Inr (Some e') \<and> (e' = e \<or> (\<exists>t. e' = submitted_once t e)) \<and>
            (\<forall>f y c s'. se_proposal_id f = p \<longrightarrow> aas_put_execution st f (artifact_run st ops s) = Inr ((y, c), s') \<longrightarrow> y = e' \<and> \<not> c))))"

context artifact_store
begin

lemma store_first_write_wins: "first_write_wins st ops s"
proof -
  have d: "aas_get_decision st p (artifact_run st ops s) = Inr (Some d) \<and>
      (\<forall>d' x c s'. aas_put_decision st p d' (artifact_run st ops s) = Inr ((x, c), s') \<longrightarrow> x = d \<and> \<not> c)"
    if "aas_get_decision st p s = Inr (Some d)" for p d
    using run_keeps_decision [OF that, of ops] decision_known by blast
  have e: "\<exists>e'. aas_get_execution st p (artifact_run st ops s) = Inr (Some e') \<and> (e' = e \<or> (\<exists>t. e' = submitted_once t e)) \<and>
      (\<forall>f y c s'. se_proposal_id f = p \<longrightarrow> aas_put_execution st f (artifact_run st ops s) = Inr ((y, c), s') \<longrightarrow> y = e' \<and> \<not> c)"
    if "aas_get_execution st p s = Inr (Some e)" for p e
    using run_keeps_execution [OF that, of ops] execution_known by blast
  show ?thesis unfolding first_write_wins_def using d e by blast
qed

end

lemmas memory_artifact_defs = MemoryAuthorizationArtifactStore_def ma_put_decision_def ma_put_execution_def ma_mark_submitted_def

interpretation memory_artifacts: artifact_store MemoryAuthorizationArtifactStore
  by unfold_locales
    (auto simp: memory_artifact_defs submitted_once_def rbind_Inr_iff Let_def split: option.splits if_splits)

lemma insert_decision_cases:
  "insert_decision r db = Inr (b, db') \<Longrightarrow>
     (\<not> b \<and> db' = db \<and> list_ex (\<lambda>x. dr_proposal_id x = dr_proposal_id r) (decisions db)) \<or>
     (b \<and> db' = db\<lparr>decisions := decisions db @ [r]\<rparr> \<and> \<not> list_ex (\<lambda>x. dr_proposal_id x = dr_proposal_id r) (decisions db))"
  by (auto simp: insert_decision_def rbind_Inr_iff split: if_splits)

lemma insert_transaction_cases:
  "insert_transaction r db = Inr (b, db') \<Longrightarrow>
     (\<not> b \<and> db' = db \<and> list_ex (\<lambda>x. tr_proposal_id x = tr_proposal_id r) (transactions db)) \<or>
     (b \<and> db' = db\<lparr>transactions := transactions db @ [r]\<rparr> \<and> \<not> list_ex (\<lambda>x. tr_proposal_id x = tr_proposal_id r) (transactions db))"
  by (auto simp: insert_transaction_def rbind_Inr_iff split: if_splits)

lemma find_none_ex: "find Q xs = None \<longleftrightarrow> \<not> list_ex Q xs"
  by (induction xs) auto

lemma pa_put_decision_Inr:
  assumes "pa_put_decision p d db = Inr ((x, c), db')"
  obtains r where "dr_proposal_id r = p" "pa_get_decision p db' = Inr (Some x)"
    "(\<not> c \<and> db' = db) \<or> (c \<and> db' = db\<lparr>decisions := decisions db @ [r]\<rparr> \<and> find (\<lambda>r. dr_proposal_id r = p) (decisions db) = None)"
proof -
  let ?r = "\<lparr>dr_id = dt_decision_id d, dr_proposal_id = p, dr_policy_version_id = dt_policy_version_id d,
       dr_reservation_id = dt_reservation_id d, dr_decision_nonce = dt_decision_nonce d, dr_verdict = dt_verdict d,
       dr_reason_codes = dt_reason_codes d, dr_state_version = dt_state_version d, dr_token = d, dr_expires_at = dt_expires_at d\<rparr>"
  have i: "insert_decision ?r db = Inr (c, db')" and g: "pa_get_decision p db' = Inr (Some x)"
    using assms by (auto simp: pa_put_decision_def rbind_Inr_iff)
  show thesis by (rule that [of ?r]) (use insert_decision_cases [OF i] g in \<open>auto simp: find_none_ex\<close>)
qed

lemma pa_put_execution_Inr:
  assumes "pa_put_execution e db = Inr ((x, c), db')"
  obtains r where "tr_proposal_id r = se_proposal_id e" "pa_get_execution (se_proposal_id e) db' = Inr (Some x)"
    "(\<not> c \<and> db' = db) \<or> (c \<and> db' = db\<lparr>transactions := transactions db @ [r]\<rparr> \<and>
       find (\<lambda>r. tr_proposal_id r = se_proposal_id e) (transactions db) = None)"
proof -
  let ?a = "se_authorization e"
  let ?r = "\<lparr>tr_id = se_transaction_id e, tr_proposal_id = se_proposal_id e, tr_decision_id = dt_decision_id (sr_decision ?a),
        tr_wallet = pr_wallet (sr_proposal ?a), tr_chain_id = sr_chain_id ?a, tr_wallet_nonce = sr_wallet_nonce ?a,
        tr_eip712_hash = sr_eip712_hash ?a, tr_eip1559_hash = se_signing_hash e, tr_signed_transaction = e, tr_submitted_at = None\<rparr>"
  have i: "insert_transaction ?r db = Inr (c, db')" and g: "pa_get_execution (se_proposal_id e) db' = Inr (Some x)"
    using assms by (auto simp: pa_put_execution_def rbind_Inr_iff Let_def)
  show thesis by (rule that [of ?r]) (use insert_transaction_cases [OF i] g in \<open>auto simp: find_none_ex\<close>)
qed

lemma pa_get_decision_append:
  "dr_proposal_id r \<noteq> q \<Longrightarrow> pa_get_decision q (db\<lparr>decisions := decisions db @ [r]\<rparr>) = pa_get_decision q db"
  by (simp add: pa_get_decision_def find_append split: option.splits)

lemma pa_get_execution_append:
  "tr_proposal_id r \<noteq> q \<Longrightarrow> pa_get_execution q (db\<lparr>transactions := transactions db @ [r]\<rparr>) = pa_get_execution q db"
  by (simp add: pa_get_execution_def find_append split: option.splits)

lemma pa_get_other [simp]:
  "pa_get_decision q (db\<lparr>transactions := ts\<rparr>) = pa_get_decision q db"
  "pa_get_execution q (db\<lparr>decisions := ds\<rparr>) = pa_get_execution q db"
  by (simp_all add: pa_get_decision_def pa_get_execution_def)

definition stamp_row :: "uuid \<Rightarrow> time \<Rightarrow> transactions_row \<Rightarrow> transactions_row" where
  "stamp_row p t r = (if tr_proposal_id r = p
     then r\<lparr>tr_submitted_at := (case tr_submitted_at r of None \<Rightarrow> Some t | Some u \<Rightarrow> Some u)\<rparr> else r)"

lemma stamp_row_key: "tr_proposal_id (stamp_row p t r) = tr_proposal_id r"
  by (simp add: stamp_row_def)

lemma pa_mark_submitted_alt:
  "pa_mark_submitted p t db = (let db = db\<lparr>transactions := map (stamp_row p t) (transactions db)\<rparr> in
     rbind (pa_get_execution p db) (\<lambda>stored.
     rbind (of_option (KeyError (''unknown execution for proposal '' @ uuid_str p)) stored) (\<lambda>stored. Inr (stored, db))))"
  by (simp add: pa_mark_submitted_def update_where_def stamp_row_def [abs_def])

lemma execution_of_stamp:
  "execution_of_row (stamp_row p t r) = rbind (execution_of_row r) (\<lambda>e. Inr (if tr_proposal_id r = p then submitted_once t e else e))"
  by (cases "validate_execution (tr_signed_transaction r)")
     (auto simp: execution_of_row_def stamp_row_def submitted_once_def split: option.splits)

lemma pa_get_stamped:
  "pa_get_execution q (db\<lparr>transactions := map (stamp_row p t) (transactions db)\<rparr>) =
     rbind (pa_get_execution q db) (\<lambda>e. Inr (map_option (if q = p then submitted_once t else id) e))"
proof (cases "find (\<lambda>r. tr_proposal_id r = q) (transactions db)")
  case None
  then show ?thesis by (simp add: pa_get_execution_def find_map_keep stamp_row_key)
next
  case (Some r)
  then have "tr_proposal_id r = q" using find_Some_mem by fast
  with Some show ?thesis
    by (cases "execution_of_row r") (simp_all add: pa_get_execution_def find_map_keep stamp_row_key execution_of_stamp)
qed

lemma pa_mark_submitted_Inr:
  assumes "pa_mark_submitted p t db = Inr (y, db')"
  shows "db' = db\<lparr>transactions := map (stamp_row p t) (transactions db)\<rparr>"
    "\<exists>e. pa_get_execution p db = Inr (Some e) \<and> y = submitted_once t e \<and> pa_get_execution p db' = Inr (Some y)"
  using assms by (auto simp: pa_mark_submitted_alt Let_def rbind_Inr_iff pa_get_stamped)

lemma pa_put_decision_known:
  assumes "pa_get_decision p db = Inr (Some y)" "pa_put_decision p d db = Inr ((x, c), db')"
  shows "x = y \<and> \<not> c \<and> db' = db"
proof -
  have "find (\<lambda>r. dr_proposal_id r = p) (decisions db) \<noteq> None"
    using assms(1) by (auto simp: pa_get_decision_def split: option.splits)
  with assms(1) show ?thesis using pa_put_decision_Inr [OF assms(2)] by (metis Inr_inject option.inject)
qed

lemma pa_put_execution_known:
  assumes "pa_get_execution (se_proposal_id e) db = Inr (Some y)" "pa_put_execution e db = Inr ((x, c), db')"
  shows "x = y \<and> \<not> c \<and> db' = db"
proof -
  have "find (\<lambda>r. tr_proposal_id r = se_proposal_id e) (transactions db) \<noteq> None"
    using assms(1) by (auto simp: pa_get_execution_def split: option.splits)
  with assms(1) show ?thesis using pa_put_execution_Inr [OF assms(2)] by (metis Inr_inject option.inject)
qed

lemma pa_put_decision_frame:
  assumes "pa_put_decision p d db = Inr ((x, c), db')"
  shows "(q \<noteq> p \<longrightarrow> pa_get_decision q db' = pa_get_decision q db) \<and> pa_get_execution q db' = pa_get_execution q db"
  by (rule pa_put_decision_Inr [OF assms]) (auto simp: pa_get_decision_append)

lemma pa_put_execution_frame:
  assumes "pa_put_execution e db = Inr ((x, c), db')"
  shows "(q \<noteq> se_proposal_id e \<longrightarrow> pa_get_execution q db' = pa_get_execution q db) \<and> pa_get_decision q db' = pa_get_decision q db"
  by (rule pa_put_execution_Inr [OF assms]) (auto simp: pa_get_execution_append)

lemma pa_mark_submitted_frame:
  assumes "pa_mark_submitted p t db = Inr (y, db')"
  shows "(q \<noteq> p \<longrightarrow> pa_get_execution q db' = pa_get_execution q db) \<and> pa_get_decision q db' = pa_get_decision q db"
  unfolding pa_mark_submitted_Inr(1) [OF assms]
  by (cases "pa_get_execution q db") (simp_all add: pa_get_stamped option.map_id)

lemma table_ops [simp]:
  "aas_put_decision PostgresAuthorizationArtifactStore = pa_put_decision" "aas_get_decision PostgresAuthorizationArtifactStore = pa_get_decision"
  "aas_put_execution PostgresAuthorizationArtifactStore = pa_put_execution" "aas_get_execution PostgresAuthorizationArtifactStore = pa_get_execution"
  "aas_mark_submitted PostgresAuthorizationArtifactStore = pa_mark_submitted"
  by (simp_all add: PostgresAuthorizationArtifactStore_def)

interpretation table_artifacts: artifact_store PostgresAuthorizationArtifactStore
proof
qed (unfold table_ops, blast elim: pa_put_decision_Inr, blast dest: pa_put_decision_known, erule pa_put_decision_frame,
  blast elim: pa_put_execution_Inr, blast dest: pa_put_execution_known, erule pa_put_execution_frame,
  erule pa_mark_submitted_Inr(2), erule pa_mark_submitted_frame)

section \<open>Properties\<close>

text \<open>C28. The first decision and the first signed execution of a proposal are authoritative, in memory and on
  the tables: from any state and over any sequence of writes, a stored decision stays and is what every later
  \<open>put_decision\<close> returns, and a stored execution stays up to its time of submission, which is set once.\<close>

theorem artifacts_first_write_wins:
  "first_write_wins MemoryAuthorizationArtifactStore ops s \<and> first_write_wins PostgresAuthorizationArtifactStore ops db"
  by (simp only: memory_artifacts.store_first_write_wins table_artifacts.store_first_write_wins simp_thms)

end
