(* ===== verification/Effects.thy ===== *)
theory Effects
  imports Prelude
begin

text \<open>
  Operations that may raise after they have changed state: an operation maps a state to a result and
  the state it leaves behind, also when the result is an exception. The rules of \<open>triple\<close> carry
  the invariants of the components that compose such operations.
\<close>

type_synonym ('s, 'a) eff = "'s \<Rightarrow> 'a res \<times> 's"

definition ereturn :: "'a \<Rightarrow> ('s, 'a) eff" where
  "ereturn x s = (Inr x, s)"

definition eraise :: "exn \<Rightarrow> ('s, 'a) eff" where
  "eraise e s = (Inl e, s)"

definition ebind :: "('s, 'a) eff \<Rightarrow> ('a \<Rightarrow> ('s, 'b) eff) \<Rightarrow> ('s, 'b) eff" where
  "ebind m f s = (case m s of (Inl e, s') \<Rightarrow> (Inl e, s') | (Inr x, s') \<Rightarrow> f x s')"

text \<open>A result that does not touch the state, a reading of it, and an operation that leaves it as it was
  when it raises.\<close>

definition elift :: "'a res \<Rightarrow> ('s, 'a) eff" where
  "elift r s = (r, s)"

definition eread :: "('s \<Rightarrow> 'a res) \<Rightarrow> ('s, 'a) eff" where
  "eread f s = (f s, s)"

definition atomically :: "('s \<Rightarrow> ('a \<times> 's) res) \<Rightarrow> ('s, 'a) eff" where
  "atomically f s = (case f s of Inl e \<Rightarrow> (Inl e, s) | Inr (x, s') \<Rightarrow> (Inr x, s'))"

text \<open>\<open>except\<close>: the exceptions \<open>handles\<close> accepts are caught.\<close>

definition ecatch :: "('s, 'a) eff \<Rightarrow> (exn \<Rightarrow> ('s, 'a) eff option) \<Rightarrow> ('s, 'a) eff" where
  "ecatch m h s = (case m s of
     (Inl e, s') \<Rightarrow> (case h e of None \<Rightarrow> (Inl e, s') | Some k \<Rightarrow> k s')
   | (Inr x, s') \<Rightarrow> (Inr x, s'))"

fun efor :: "'b list \<Rightarrow> ('b \<Rightarrow> ('s, unit) eff) \<Rightarrow> ('s, unit) eff" where
  "efor [] body = ereturn ()"
| "efor (x # xs) body = ebind (body x) (\<lambda>_. efor xs body)"

lemmas eff_defs = ereturn_def eraise_def ebind_def elift_def eread_def atomically_def

lemma ebind_Inr_iff:
  "ebind m f s = (Inr y, s') \<longleftrightarrow> (\<exists>x t. m s = (Inr x, t) \<and> f x t = (Inr y, s'))"
  by (auto simp: ebind_def split: prod.splits sum.splits)

section \<open>Triples\<close>

text \<open>From a state with \<open>P\<close>, the operation ends with \<open>Q\<close> or raises in a state with \<open>E\<close>.\<close>

definition triple :: "('s \<Rightarrow> bool) \<Rightarrow> ('s, 'a) eff \<Rightarrow> ('a \<Rightarrow> 's \<Rightarrow> bool) \<Rightarrow> ('s \<Rightarrow> bool) \<Rightarrow> bool" where
  "triple P m Q E \<longleftrightarrow> (\<forall>s. P s \<longrightarrow> (case m s of (Inl e, s') \<Rightarrow> E s' | (Inr x, s') \<Rightarrow> Q x s'))"

lemma triple_Inr: "triple P m Q E \<Longrightarrow> P s \<Longrightarrow> m s = (Inr x, s') \<Longrightarrow> Q x s'"
  unfolding triple_def by (drule spec [of _ s]) simp

lemma triple_Inl: "triple P m Q E \<Longrightarrow> P s \<Longrightarrow> m s = (Inl e, s') \<Longrightarrow> E s'"
  unfolding triple_def by (drule spec [of _ s]) simp

lemma triple_snd:
  assumes "triple P m (\<lambda>_. J) J" "P s" shows "J (snd (m s))"
proof (cases "m s")
  case (Pair r t)
  then show ?thesis using triple_Inl [OF assms] triple_Inr [OF assms] by (cases r) simp_all
qed

lemma triple_bind:
  assumes "triple P m R E" "\<And>x. triple (R x) (f x) Q E"
  shows "triple P (ebind m f) Q E"
  unfolding triple_def
proof (intro allI impI)
  fix s assume P: "P s"
  show "case ebind m f s of (Inl e, s') \<Rightarrow> E s' | (Inr x, s') \<Rightarrow> Q x s'"
  proof (cases "m s")
    case (Pair r t)
    show ?thesis
    proof (cases r)
      case (Inl e)
      with Pair triple_Inl [OF assms(1) P] show ?thesis by (simp add: ebind_def)
    next
      case (Inr x)
      with Pair triple_Inr [OF assms(1) P] have "R x t" by simp
      with assms(2) [of x] Pair Inr show ?thesis by (simp add: ebind_def triple_def)
    qed
  qed
qed

lemma triple_return: "(\<And>s. P s \<Longrightarrow> Q x s) \<Longrightarrow> triple P (ereturn x) Q E"
  by (simp add: triple_def ereturn_def)

lemma triple_raise: "(\<And>s. P s \<Longrightarrow> E s) \<Longrightarrow> triple P (eraise e) Q E"
  by (simp add: triple_def eraise_def)

lemma triple_lift: "(\<And>s. P s \<Longrightarrow> E s) \<Longrightarrow> (\<And>s x. P s \<Longrightarrow> r = Inr x \<Longrightarrow> Q x s) \<Longrightarrow> triple P (elift r) Q E"
  by (auto simp: triple_def elift_def split: sum.splits)

lemma triple_read: "(\<And>s. P s \<Longrightarrow> E s) \<Longrightarrow> (\<And>s x. P s \<Longrightarrow> f s = Inr x \<Longrightarrow> Q x s) \<Longrightarrow> triple P (eread f) Q E"
  by (auto simp: triple_def eread_def split: sum.splits)

lemma triple_atomically:
  "(\<And>s. P s \<Longrightarrow> E s) \<Longrightarrow> (\<And>s x s'. P s \<Longrightarrow> f s = Inr (x, s') \<Longrightarrow> Q x s') \<Longrightarrow> triple P (atomically f) Q E"
  by (auto simp: triple_def atomically_def split: sum.splits prod.splits)

lemma triple_if:
  "(b \<Longrightarrow> triple P m Q E) \<Longrightarrow> (\<not> b \<Longrightarrow> triple P n Q E) \<Longrightarrow> triple P (if b then m else n) Q E"
  by simp

lemma triple_option:
  "(x = None \<Longrightarrow> triple P m Q E) \<Longrightarrow> (\<And>y. x = Some y \<Longrightarrow> triple P (f y) Q E) \<Longrightarrow>
     triple P (case x of None \<Rightarrow> m | Some y \<Rightarrow> f y) Q E"
  by (cases x) simp_all

lemma triple_conseq:
  "triple P' m Q' E' \<Longrightarrow> (\<And>s. P s \<Longrightarrow> P' s) \<Longrightarrow> (\<And>x s. Q' x s \<Longrightarrow> Q x s) \<Longrightarrow> (\<And>s. E' s \<Longrightarrow> E s) \<Longrightarrow> triple P m Q E"
  unfolding triple_def by (fastforce split: prod.splits sum.splits)

text \<open>A fact about values that does not depend on the state moves out of the precondition.\<close>

lemma triple_pure: "(b \<Longrightarrow> triple P m Q E) \<Longrightarrow> triple (\<lambda>s. b \<and> P s) m Q E"
  by (cases b) (simp_all add: triple_def)

lemma triple_catch:
  assumes "triple P m Q R" "\<And>e k. h e = Some k \<Longrightarrow> triple R k Q E" "\<And>s. R s \<Longrightarrow> E s"
  shows "triple P (ecatch m h) Q E"
  unfolding triple_def
proof (intro allI impI)
  fix s assume P: "P s"
  obtain r t where r: "m s = (r, t)" by (cases "m s")
  show "case ecatch m h s of (Inl e, s') \<Rightarrow> E s' | (Inr x, s') \<Rightarrow> Q x s'"
  proof (cases r)
    case (Inl e)
    then have "R t" using triple_Inl [OF assms(1) P] r by simp
    then show ?thesis using r Inl assms(2,3) by (cases "h e") (simp_all add: ecatch_def triple_def)
  next
    case (Inr x)
    then show ?thesis using triple_Inr [OF assms(1) P] r by (simp add: ecatch_def)
  qed
qed

lemma triple_for:
  assumes "\<And>x. x \<in> set xs \<Longrightarrow> triple I (body x) (\<lambda>_. I) I"
  shows "triple I (efor xs body) (\<lambda>_. I) I"
  using assms
proof (induction xs)
  case Nil
  show ?case by (simp add: triple_return)
next
  case (Cons x xs)
  show ?case unfolding efor.simps
    by (rule triple_bind [where R = "\<lambda>_. I"]) (use Cons in simp_all)
qed

end
