(* ===== verification/Settlement.thy ===== *)
theory Settlement
  imports Artifacts LocalChain Effects
begin

text \<open>
  \<open>src/aegisledger/chain.py\<close> and \<open>reconciler.py\<close>: the backends that broadcast a signed transaction and
  read its receipt, the settlement stores in memory and on the tables, and the reconciler that
  moves a submitted proposal to its final state.

  \<^item> The node behind a JSON-RPC endpoint is a parameter: a function of a method, its arguments and the
    state of the world. The parts of the endpoint's URL are an argument.
  \<^item> One poll asks a backend once for each pending transaction; what it answers is a parameter, and a
    timeout of either library is \<open>TimeoutError\<close>.
  \<^item> A poll that raises keeps what it has done so far.

  Shown: a transaction is broadcast only to a node that answered with the expected chain and only if its
  bytes hash to the hash submitted; a proposal leaves \<open>SUBMITTED\<close> only on a receipt for its own
  transaction with enough confirmations, and a poll that ends has settled every such proposal. The locale
  \<open>settlement_side\<close> is what the reconciler relies on; both pairs of stores interpret it.
\<close>

section \<open>Hexadecimal numbers\<close>

text \<open>\<open>int(text, 16)\<close> on ASCII text: space around it, a sign, a prefix, and single underscores between digits.\<close>

fun hex_digits :: "bool \<Rightarrow> nat \<Rightarrow> string \<Rightarrow> nat option" where
  "hex_digits after_digit n [] = (if after_digit then Some n else None)"
| "hex_digits after_digit n (c # cs) =
     (if c = CHR ''_'' then (if after_digit then hex_digits False n cs else None)
      else case hexval c of None \<Rightarrow> None | Some v \<Rightarrow> hex_digits True (16 * n + v) cs)"

definition strip :: "string \<Rightarrow> string" where
  "strip s = rev (dropWhile is_space (rev (dropWhile is_space s)))"

definition int16 :: "string \<Rightarrow> int option" where
  "int16 text =
     (let s = strip text;
        negative = startswith s ''-'';
        s = (if startswith s ''-'' \<or> startswith s ''+'' then drop 1 s else s);
        s = (if startswith s ''0x'' \<or> startswith s ''0X''
             then (let r = drop 2 s in if startswith r ''_'' then drop 1 r else r) else s)
      in map_option (\<lambda>n. if negative then - int n else int n) (hex_digits False 0 s))"

section \<open>Submissions and receipts\<close>

definition keccak_transaction_hash :: "primitives \<Rightarrow> string \<Rightarrow> string res" where
  "keccak_transaction_hash P raw =
     (if \<not> startswith raw ''0x'' then Inl (ValueError ''raw transaction must be 0x-prefixed'')
      else case bytes_fromhex (drop 2 raw) of
        None \<Rightarrow> Inl (ValueError ''raw transaction must contain hexadecimal bytes'')
      | Some payload \<Rightarrow>
          if payload = [] then Inl (ValueError ''raw transaction cannot be empty'')
          else Inr (''0x'' @ bytes_hex (keccak P payload)))"

record ChainSubmission =
  sb_chain_id :: int
  sb_transaction_hash :: string
  sb_raw_transaction :: "string option"
  sb_local_transaction :: "Tx option"

record EvmReceipt =
  er_transaction_hash :: string
  er_block_hash :: string
  er_block_number :: int
  er_success :: bool
  er_confirmations :: int

section \<open>The local backend\<close>

record LocalChainBackend =
  lb_chain :: chain
  lb_receipts :: "(string, Receipt) dict"

definition lb_submit :: "primitives \<Rightarrow> ChainSubmission \<Rightarrow> LocalChainBackend \<Rightarrow> (string \<times> LocalChainBackend) res" where
  "lb_submit P submission b =
     (if sb_chain_id submission \<noteq> ch_chain_id (lb_chain b) then Inl (ValueError ''submission targets the wrong chain'')
      else case sb_local_transaction submission of
        None \<Rightarrow> Inl (ValueError ''LocalChain backend requires a local transaction'')
      | Some tx \<Rightarrow>
          if tx_hash P tx \<noteq> sb_transaction_hash submission then Inl (ValueError ''local transaction hash does not match submission'')
          else rbind (submit P tx (lb_chain b)) (\<lambda>c. Inr (tx_hash P tx, b\<lparr>lb_chain := c\<rparr>)))"

definition lb_mine :: "primitives \<Rightarrow> (LocalChainBackend, Receipt list) eff" where
  "lb_mine P b =
     (case mine_block (lb_chain b) of
        (Inl e, c) \<Rightarrow> (Inl e, b\<lparr>lb_chain := c\<rparr>)
      | (Inr receipts, c) \<Rightarrow>
          (Inr receipts, b\<lparr>lb_chain := c, lb_receipts := fold (\<lambda>r. dset (tx_hash P (rc_tx r)) r) receipts (lb_receipts b)\<rparr>))"

definition lb_receipt :: "string \<Rightarrow> LocalChainBackend \<Rightarrow> Receipt option" where
  "lb_receipt h b = dget (lb_receipts b) h"

section \<open>JSON-RPC backends\<close>

record rpc_url =
  url_scheme :: string
  url_username :: "string option"
  url_password :: "string option"
  url_hostname :: "string option"
  url_loopback :: bool

definition given :: "string option \<Rightarrow> bool" where
  "given x \<longleftrightarrow> x \<noteq> None \<and> x \<noteq> Some []"

definition validate_url :: "rpc_url \<Rightarrow> bool \<Rightarrow> unit res" where
  "validate_url u allow_insecure_http =
     raise_first
       [(given (url_username u) \<or> given (url_password u), RpcConfigurationError ''RPC credentials must use an authorization header''),
        (\<not> given (url_hostname u), RpcConfigurationError ''RPC URL must include a host''),
        (url_scheme u \<noteq> ''https'' \<and>
         \<not> (url_scheme u = ''http'' \<and> (url_hostname u = Some ''localhost'' \<or> url_loopback u \<or> allow_insecure_http)),
         RpcConfigurationError ''remote RPC endpoints must use HTTPS'')]"

type_synonym 'w rpc = "string \<Rightarrow> json list \<Rightarrow> ('w, json) eff"

record 'w JsonRpcChainBackend =
  jb_chain_id :: int
  jb_finality_confirmations :: int
  jb_network_verified :: bool
  jb_world :: 'w

definition JsonRpcChainBackend_init :: "rpc_url \<Rightarrow> bool \<Rightarrow> int \<Rightarrow> int \<Rightarrow> 'w \<Rightarrow> 'w JsonRpcChainBackend res" where
  "JsonRpcChainBackend_init u allow_insecure_http expected_chain_id finality_confirmations w =
     rbind (validate_url u allow_insecure_http) (\<lambda>_.
     rbind (raise_first
       [(expected_chain_id \<le> 0, RpcConfigurationError ''expected chain ID must be positive''),
        (finality_confirmations < 1, RpcConfigurationError ''finality confirmations must be positive'')]) (\<lambda>_.
     Inr \<lparr>jb_chain_id = expected_chain_id, jb_finality_confirmations = finality_confirmations, jb_network_verified = False, jb_world = w\<rparr>))"

text \<open>\<open>_http_rpc\<close>: the counter of requests, and the JSON body the endpoint answers with.\<close>

definition http_rpc :: "(json \<Rightarrow> ('v, json) eff) \<Rightarrow> (int \<times> 'v) rpc" where
  "http_rpc post m params w =
     (let (counter, v) = w;
        (answer, v) = post (JObj [(StrKey ''jsonrpc'', JStr ''2.0''), (StrKey ''id'', JInt counter), (StrKey ''method'', JStr m),
          (StrKey ''params'', JList params)]) v
      in (rbind answer (\<lambda>body.
          if \<not> is_object body \<or> field body ''jsonrpc'' \<noteq> Some (JStr ''2.0'') then Inl (RuntimeError ''RPC returned a malformed response'')
          else if field body ''error'' \<noteq> None \<and> field body ''error'' \<noteq> Some JNull then Inl (RuntimeError ''RPC request failed'')
          else of_option (RuntimeError ''RPC response omitted result'') (field body ''result'')), (counter + 1, v)))"

definition rpc_call :: "'w rpc \<Rightarrow> string \<Rightarrow> json list \<Rightarrow> ('w JsonRpcChainBackend, json) eff" where
  "rpc_call rpc m params b = (let (r, w) = rpc m params (jb_world b) in (r, b\<lparr>jb_world := w\<rparr>))"

definition set_verified :: "'w JsonRpcChainBackend \<Rightarrow> 'w JsonRpcChainBackend" where
  "set_verified b = b\<lparr>jb_network_verified := True\<rparr>"

definition verify_network :: "'w rpc \<Rightarrow> ('w JsonRpcChainBackend, unit) eff" where
  "verify_network rpc b =
     (if jb_network_verified b then (Inr (), b)
      else ebind (rpc_call rpc ''eth_chainId'' []) (\<lambda>result b. case result of
        JStr text \<Rightarrow> (case int16 text of
          None \<Rightarrow> (Inl (RuntimeError ''RPC chain ID response is malformed''), b)
        | Some actual \<Rightarrow>
            if actual \<noteq> jb_chain_id b
            then (Inl (RuntimeError (''RPC is connected to wrong chain '' @ show_int actual @ ''; expected '' @ show_int (jb_chain_id b))), b)
            else (Inr (), set_verified b))
      | _ \<Rightarrow> (Inl (RuntimeError ''RPC chain ID response is malformed''), b)) b)"

text \<open>The common end of both \<open>submit\<close> methods: network, digest, broadcast, and the hash the node returns.\<close>

definition broadcast :: "primitives \<Rightarrow> 'w rpc \<Rightarrow> string \<Rightarrow> string \<Rightarrow> string \<Rightarrow> json list \<Rightarrow> string \<Rightarrow> ('w JsonRpcChainBackend, string) eff" where
  "broadcast P rpc raw expected m params complaint =
     ebind (verify_network rpc) (\<lambda>_.
     ebind (elift (keccak_transaction_hash P raw)) (\<lambda>computed.
     if lower computed \<noteq> lower expected then eraise (ValueError ''signed raw transaction hash does not match submission'')
     else ebind (rpc_call rpc m params) (\<lambda>result. case result of
       JStr h \<Rightarrow> if lower h \<noteq> lower computed then eraise (RuntimeError complaint) else ereturn (lower h)
     | _ \<Rightarrow> eraise (RuntimeError complaint))))"

definition jb_submit :: "primitives \<Rightarrow> 'w rpc \<Rightarrow> ChainSubmission \<Rightarrow> ('w JsonRpcChainBackend, string) eff" where
  "jb_submit P rpc submission b =
     (if sb_chain_id submission \<noteq> jb_chain_id b then (Inl (ValueError ''submission targets the wrong chain''), b)
      else case sb_raw_transaction submission of
        None \<Rightarrow> (Inl (ValueError ''EVM backend requires an encoded signed transaction''), b)
      | Some raw \<Rightarrow> broadcast P rpc raw (sb_transaction_hash submission) ''eth_sendRawTransaction'' [JStr raw]
          ''RPC returned an unexpected transaction hash'' b)"

definition private_relay_submit :: "primitives \<Rightarrow> 'w rpc \<Rightarrow> ChainSubmission \<Rightarrow> ('w JsonRpcChainBackend, string) eff" where
  "private_relay_submit P rpc submission b =
     (case sb_raw_transaction submission of
        None \<Rightarrow> (Inl (ValueError ''relay submission is incomplete or targets the wrong chain''), b)
      | Some raw \<Rightarrow>
          if sb_chain_id submission \<noteq> jb_chain_id b
          then (Inl (ValueError ''relay submission is incomplete or targets the wrong chain''), b)
          else broadcast P rpc raw (sb_transaction_hash submission) ''eth_sendPrivateTransaction''
            [JObj [(StrKey ''tx'', JStr raw), (StrKey ''maxBlockNumber'', JNull)]] ''relay returned an unexpected transaction hash'' b)"

definition malformed_receipt :: exn where
  "malformed_receipt = RuntimeError ''RPC receipt response is malformed''"

text \<open>The exceptions of the \<open>except (KeyError, TypeError, ValueError)\<close> clause, with the subclass of the module.\<close>

definition receipt_error :: "exn \<Rightarrow> bool" where
  "receipt_error e = (case e of KeyError _ \<Rightarrow> True | TypeError _ \<Rightarrow> True | ValueError _ \<Rightarrow> True | RpcConfigurationError _ \<Rightarrow> True | _ \<Rightarrow> False)"

definition read_receipt :: "json \<Rightarrow> json \<Rightarrow> EvmReceipt res" where
  "read_receipt result latest =
     (case (field result ''blockNumber'', field result ''status'', field result ''transactionHash'', field result ''blockHash'', latest) of
        (Some (JStr n), Some (JStr st), Some (JStr h), Some (JStr bh), JStr l) \<Rightarrow>
          (case (int16 n, int16 st, int16 l) of
             (Some block_number, Some status, Some latest_number) \<Rightarrow>
               Inr \<lparr>er_transaction_hash = lower h, er_block_hash = lower bh, er_block_number = block_number, er_success = (status = 1),
                 er_confirmations = max (latest_number - block_number + 1) 0\<rparr>
           | _ \<Rightarrow> Inl malformed_receipt)
      | _ \<Rightarrow> Inl malformed_receipt)"

definition jb_receipt :: "'w rpc \<Rightarrow> string \<Rightarrow> ('w JsonRpcChainBackend, EvmReceipt option) eff" where
  "jb_receipt rpc h =
     ebind (verify_network rpc) (\<lambda>_.
     ebind (rpc_call rpc ''eth_getTransactionReceipt'' [JStr h]) (\<lambda>result. case result of
       JNull \<Rightarrow> ereturn None
     | JObj fs \<Rightarrow>
         if list_ex (\<lambda>k. field result k = None) [''blockNumber'', ''status'', ''transactionHash'', ''blockHash''] then eraise malformed_receipt
         else ebind (ecatch (rpc_call rpc ''eth_blockNumber'' []) (\<lambda>e. if receipt_error e then Some (eraise malformed_receipt) else None)) (\<lambda>latest.
           ebind (elift (read_receipt result latest)) (\<lambda>r. ereturn (Some r)))
     | _ \<Rightarrow> eraise malformed_receipt))"

definition is_final :: "'w JsonRpcChainBackend \<Rightarrow> EvmReceipt \<Rightarrow> bool" where
  "is_final b r \<longleftrightarrow> jb_finality_confirmations b \<le> er_confirmations r"

section \<open>Settlement stores\<close>

record TrackedTransaction =
  tk_transaction_hash :: string
  tk_proposal_id :: uuid
  tk_chain_id :: int
  tk_status :: string
  tk_block_hash :: "string option"
  tk_block_number :: "int option"
  tk_success :: "bool option"
  tk_confirmations :: int
  tk_reorg_count :: int
  tk_observed_at :: "time option"

record SettlementObservation =
  so_transaction_hash :: string
  so_block_hash :: string
  so_block_number :: int
  so_chain_id :: int
  so_success :: bool
  so_confirmations :: int
  so_observed_at :: time

definition new_tracked :: "string \<Rightarrow> uuid \<Rightarrow> int \<Rightarrow> TrackedTransaction" where
  "new_tracked h pid chain_id =
     \<lparr>tk_transaction_hash = h, tk_proposal_id = pid, tk_chain_id = chain_id, tk_status = ''PENDING'', tk_block_hash = None,
      tk_block_number = None, tk_success = None, tk_confirmations = 0, tk_reorg_count = 0, tk_observed_at = None\<rparr>"

subsection \<open>In memory\<close>

record MemorySettlementStore =
  mt_transactions :: "(string, TrackedTransaction) dict"
  mt_proposals :: "(uuid, string) dict"

definition MemorySettlementStore_init :: MemorySettlementStore where
  "MemorySettlementStore_init = \<lparr>mt_transactions = [], mt_proposals = []\<rparr>"

definition mt_register :: "string \<Rightarrow> uuid \<Rightarrow> int \<Rightarrow> MemorySettlementStore \<Rightarrow> MemorySettlementStore res" where
  "mt_register h pid chain_id s = (case dget (mt_transactions s) h of
     Some existing \<Rightarrow>
       if tk_proposal_id existing = pid \<and> tk_chain_id existing = chain_id then Inr s
       else Inl (ValueError ''transaction hash is already bound'')
   | None \<Rightarrow>
       if dhas (mt_proposals s) pid then Inl (ValueError ''proposal already has a transaction'')
       else Inr (s\<lparr>mt_transactions := dset h (new_tracked h pid chain_id) (mt_transactions s), mt_proposals := dset pid h (mt_proposals s)\<rparr>))"

definition mt_pending :: "MemorySettlementStore \<Rightarrow> TrackedTransaction list" where
  "mt_pending s = filter (\<lambda>t. tk_status t = ''PENDING'') (dvalues (mt_transactions s))"

definition observed :: "time \<Rightarrow> EvmReceipt \<Rightarrow> TrackedTransaction \<Rightarrow> TrackedTransaction" where
  "observed now r t = t\<lparr>tk_reorg_count := tk_reorg_count t + (if tk_block_hash t \<noteq> None \<and> tk_block_hash t \<noteq> Some (er_block_hash r) then 1 else 0),
     tk_block_hash := Some (er_block_hash r), tk_block_number := Some (er_block_number r), tk_success := Some (er_success r),
     tk_confirmations := er_confirmations r, tk_observed_at := Some now\<rparr>"

definition mt_observe :: "time \<Rightarrow> string \<Rightarrow> EvmReceipt \<Rightarrow> MemorySettlementStore \<Rightarrow> MemorySettlementStore res" where
  "mt_observe now h r s =
     rbind (of_option (KeyError h) (dget (mt_transactions s) h)) (\<lambda>t.
     Inr (s\<lparr>mt_transactions := dset h (observed now r t) (mt_transactions s)\<rparr>))"

definition mt_complete :: "string \<Rightarrow> string \<Rightarrow> MemorySettlementStore \<Rightarrow> MemorySettlementStore res" where
  "mt_complete h status s =
     (if status \<notin> {''SETTLED'', ''REVERTED''} then Inl (ValueError ''invalid terminal settlement status'')
      else rbind (of_option (KeyError h) (dget (mt_transactions s) h)) (\<lambda>t.
        Inr (s\<lparr>mt_transactions := dset h (t\<lparr>tk_status := status\<rparr>) (mt_transactions s)\<rparr>)))"

definition mt_get :: "string \<Rightarrow> MemorySettlementStore \<Rightarrow> TrackedTransaction res" where
  "mt_get h s = of_option (KeyError h) (dget (mt_transactions s) h)"

definition mt_observation :: "string \<Rightarrow> MemorySettlementStore \<Rightarrow> SettlementObservation option" where
  "mt_observation h s = (case dget (mt_transactions s) h of
     None \<Rightarrow> None
   | Some t \<Rightarrow> (case (tk_block_hash t, tk_block_number t, tk_success t, tk_observed_at t) of
       (Some bh, Some n, Some ok, Some at) \<Rightarrow>
         Some \<lparr>so_transaction_hash = tk_transaction_hash t, so_block_hash = bh, so_block_number = n, so_chain_id = tk_chain_id t,
           so_success = ok, so_confirmations = tk_confirmations t, so_observed_at = at\<rparr>
     | _ \<Rightarrow> None))"

subsection \<open>On the tables\<close>

record settlements_row =
  sx_id :: uuid
  sx_transaction_id :: uuid
  sx_block_hash :: string
  sx_block_number :: int
  sx_success :: bool
  sx_confirmations :: int
  sx_canonical :: bool
  sx_observed_at :: time

record settlement_tables = artifact_tables +
  settlements :: "settlements_row list"

text \<open>\<open>char(66)\<close>: a longer value is refused unless the rest is blank, a shorter one is padded; comparisons ignore
  trailing blanks.\<close>

definition blank :: char where
  "blank = CHR '' ''"

definition rstrip :: "string \<Rightarrow> string" where
  "rstrip s = rev (dropWhile (\<lambda>c. c = blank) (rev s))"

definition char66 :: "string \<Rightarrow> string res" where
  "char66 s = (if list_all (\<lambda>c. c = blank) (drop 66 s) then Inr (take 66 (s @ replicate 66 blank))
     else Inl (StringDataRightTruncation ''block_hash''))"

definition row_transaction_hash :: "transactions_row \<Rightarrow> string" where
  "row_transaction_hash r = se_transaction_hash (tr_signed_transaction r)"

definition ps_register :: "string \<Rightarrow> uuid \<Rightarrow> int \<Rightarrow> settlement_tables \<Rightarrow> unit res" where
  "ps_register h pid chain_id db = (case find (\<lambda>r. tr_proposal_id r = pid \<and> tr_submitted_at r \<noteq> None) (transactions db) of
     None \<Rightarrow> Inl (ValueError ''submitted transaction is not durable'')
   | Some r \<Rightarrow>
       if tr_chain_id r \<noteq> chain_id \<or> lower (row_transaction_hash r) \<noteq> lower h then Inl (ValueError ''durable transaction binding mismatch'')
       else Inr ())"

text \<open>\<open>ORDER BY observed_at DESC LIMIT 1\<close>, and the canonical rows of a transaction.\<close>

definition latest_of :: "('a \<Rightarrow> time) \<Rightarrow> 'a list \<Rightarrow> 'a option" where
  "latest_of k xs = fold (\<lambda>x best. case best of None \<Rightarrow> Some x | Some y \<Rightarrow> Some (if k x > k y then x else y)) xs None"

definition canonical_rows :: "uuid \<Rightarrow> settlement_tables \<Rightarrow> settlements_row list" where
  "canonical_rows tid db = filter (\<lambda>x. sx_transaction_id x = tid \<and> sx_canonical x) (settlements db)"

definition proposal_in :: "LifecycleState \<Rightarrow> uuid \<Rightarrow> settlement_tables \<Rightarrow> bool" where
  "proposal_in st pid db = list_ex (\<lambda>p. pq_id p = pid \<and> pq_state p = st) (proposals db)"

definition ps_tracked :: "settlement_tables \<Rightarrow> transactions_row \<Rightarrow> TrackedTransaction" where
  "ps_tracked db r =
     (let s = latest_of sx_observed_at (canonical_rows (tr_id r) db) in
      (new_tracked (lower (row_transaction_hash r)) (tr_proposal_id r) (tr_chain_id r))
        \<lparr>tk_block_hash := map_option sx_block_hash s, tk_confirmations := (case s of None \<Rightarrow> 0 | Some x \<Rightarrow> sx_confirmations x),
         tk_reorg_count := int (length (filter (\<lambda>x. sx_transaction_id x = tr_id r \<and> \<not> sx_canonical x) (settlements db)))\<rparr>)"

definition ps_pending :: "settlement_tables \<Rightarrow> TrackedTransaction list" where
  "ps_pending db = map (ps_tracked db)
     (filter (\<lambda>r. tr_submitted_at r \<noteq> None \<and> proposal_in SUBMITTED (tr_proposal_id r) db) (transactions db))"

definition ps_observe :: "time \<Rightarrow> uuid \<Rightarrow> string \<Rightarrow> EvmReceipt \<Rightarrow> settlement_tables \<Rightarrow> settlement_tables res" where
  "ps_observe now rid h r db =
     (case find (\<lambda>t. row_transaction_hash t = h) (transactions db) of
        None \<Rightarrow> Inl (KeyError (''unknown transaction '' @ h))
      | Some t \<Rightarrow>
          let tid = tr_id t;
            rows = update_where (\<lambda>x. sx_transaction_id x = tid \<and> sx_canonical x \<and> rstrip (sx_block_hash x) \<noteq> rstrip (er_block_hash r))
              (\<lambda>x. x\<lparr>sx_canonical := False\<rparr>) (settlements db)
          in
          rbind (raise_first
            [(er_block_number r < - (2 ^ 63) \<or> er_block_number r \<ge> 2 ^ 63, NumericValueOutOfRange ''block_number''),
             (er_confirmations r < - (2 ^ 31) \<or> er_confirmations r \<ge> 2 ^ 31, NumericValueOutOfRange ''confirmations'')]) (\<lambda>_.
          rbind (char66 (er_block_hash r)) (\<lambda>bh.
          let same = (\<lambda>x. sx_transaction_id x = tid \<and> rstrip (sx_block_hash x) = rstrip bh) in
          if list_ex same rows
          then Inr (db\<lparr>settlements := update_where same
            (\<lambda>x. x\<lparr>sx_success := er_success r, sx_confirmations := er_confirmations r, sx_canonical := True, sx_observed_at := now\<rparr>) rows\<rparr>)
          else if list_ex (\<lambda>x. sx_id x = rid) rows then Inl (UniqueViolation ''settlements'')
          else Inr (db\<lparr>settlements := rows @ [\<lparr>sx_id = rid, sx_transaction_id = tid, sx_block_hash = bh, sx_block_number = er_block_number r,
            sx_success = er_success r, sx_confirmations = er_confirmations r, sx_canonical = True, sx_observed_at = now\<rparr>]\<rparr>))))"

definition ps_complete :: "string \<Rightarrow> string \<Rightarrow> settlement_tables \<Rightarrow> unit res" where
  "ps_complete h status db =
     (if status \<notin> {''SETTLED'', ''REVERTED''} then Inl (ValueError ''invalid terminal settlement status'')
      else if list_ex (\<lambda>t. row_transaction_hash t = h \<and>
        list_ex (\<lambda>p. pq_id p = tr_proposal_id t \<and> lifecycle_name (pq_state p) = status) (proposals db)) (transactions db) then Inr ()
      else Inl (RuntimeError ''lifecycle transition was not durably committed''))"

definition ps_observation :: "string \<Rightarrow> settlement_tables \<Rightarrow> SettlementObservation option" where
  "ps_observation h db =
     map_option (\<lambda>(t, x). \<lparr>so_transaction_hash = lower h, so_block_hash = lower (sx_block_hash x), so_block_number = sx_block_number x,
       so_chain_id = tr_chain_id t, so_success = sx_success x, so_confirmations = sx_confirmations x, so_observed_at = sx_observed_at x\<rparr>)
     (latest_of (\<lambda>(t, x). sx_observed_at x)
       (concat (map (\<lambda>t. map (Pair t) (canonical_rows (tr_id t) db)) (filter (\<lambda>t. row_transaction_hash t = h) (transactions db)))))"

section \<open>The reconciler\<close>

text \<open>The operations \<open>poll_once\<close> calls, on one state that holds the lifecycle store and the settlement store.\<close>

record 's settlement_side =
  sd_pending :: "'s \<Rightarrow> TrackedTransaction list"
  sd_observe :: "time \<Rightarrow> uuid \<Rightarrow> string \<Rightarrow> EvmReceipt \<Rightarrow> 's \<Rightarrow> 's res"
  sd_complete :: "string \<Rightarrow> string \<Rightarrow> 's \<Rightarrow> 's res"
  sd_get :: "uuid \<Rightarrow> 's \<Rightarrow> ProposalRecord option res"
  sd_transition :: "time \<Rightarrow> uuid \<Rightarrow> LifecycleState \<Rightarrow> 's \<Rightarrow> (ProposalRecord \<times> 's) res"

definition SettlementReconciler_init :: "(int \<times> int) list \<Rightarrow> int \<Rightarrow> unit res" where
  "SettlementReconciler_init backend_chain_ids finality =
     raise_first [(finality < 1, ValueError ''finality must be positive''),
       (list_ex (\<lambda>(chain_id, actual). actual \<noteq> chain_id) backend_chain_ids, ValueError ''backend registry chain ID mismatch'')]"

text \<open>The clock readings and the identifier an iteration draws, and the answers of the backends.\<close>

record poll_env =
  pe_observed :: time
  pe_row :: uuid
  pe_moved :: time

type_synonym receipts = "int \<Rightarrow> (string \<Rightarrow> EvmReceipt option res) option"

definition settled_as :: "EvmReceipt \<Rightarrow> LifecycleState" where
  "settled_as r = (if er_success r then SETTLED else REVERTED)"

definition unit_op :: "('s \<Rightarrow> 's res) \<Rightarrow> ('s, unit) eff" where
  "unit_op f = atomically (\<lambda>s. rbind (f s) (\<lambda>s. Inr ((), s)))"

definition settle_final :: "'s settlement_side \<Rightarrow> poll_env \<Rightarrow> TrackedTransaction \<Rightarrow> EvmReceipt \<Rightarrow> ('s, unit) eff" where
  "settle_final sd env t r =
     ebind (eread (sd_get sd (tk_proposal_id t))) (\<lambda>record. case record of
       None \<Rightarrow> eraise (RuntimeError ''tracked settlement references an unknown proposal'')
     | Some record \<Rightarrow>
         ebind (if rec_state record = SUBMITTED then
             ebind (atomically (sd_transition sd (pe_moved env) (tk_proposal_id t) (settled_as r))) (\<lambda>_. ereturn ())
           else ereturn ()) (\<lambda>_.
         unit_op (sd_complete sd (tk_transaction_hash t) (lifecycle_name (settled_as r)))))"

definition poll_tracked :: "'s settlement_side \<Rightarrow> receipts \<Rightarrow> int \<Rightarrow> (TrackedTransaction \<Rightarrow> poll_env) \<Rightarrow> TrackedTransaction \<Rightarrow> ('s, unit) eff" where
  "poll_tracked sd answers finality env t = (case answers (tk_chain_id t) of
     None \<Rightarrow> ereturn ()
   | Some backend \<Rightarrow> (case backend (tk_transaction_hash t) of
       Inl TimeoutError \<Rightarrow> ereturn ()
     | Inl e \<Rightarrow> eraise e
     | Inr None \<Rightarrow> ereturn ()
     | Inr (Some r) \<Rightarrow>
         if lower (er_transaction_hash r) \<noteq> lower (tk_transaction_hash t)
         then eraise (RuntimeError ''backend returned a receipt for a different transaction'')
         else ebind (unit_op (sd_observe sd (pe_observed (env t)) (pe_row (env t)) (tk_transaction_hash t) r)) (\<lambda>_.
           if er_confirmations r < finality then ereturn () else settle_final sd (env t) t r)))"

definition poll_once :: "'s settlement_side \<Rightarrow> receipts \<Rightarrow> int \<Rightarrow> (TrackedTransaction \<Rightarrow> poll_env) \<Rightarrow> ('s, unit) eff" where
  "poll_once sd answers finality env s = efor (sd_pending sd s) (poll_tracked sd answers finality env) s"

text \<open>The memory stores, and the tables of one database.\<close>

definition lift_snd :: "('b \<Rightarrow> 'b res) \<Rightarrow> 'a \<times> 'b \<Rightarrow> ('a \<times> 'b) res" where
  "lift_snd f s = rbind (f (snd s)) (\<lambda>t. Inr (fst s, t))"

definition memory_side :: "(MemoryStateStore \<times> MemorySettlementStore) settlement_side" where
  "memory_side =
     \<lparr>sd_pending = (\<lambda>s. mt_pending (snd s)), sd_observe = (\<lambda>now rid h r. lift_snd (mt_observe now h r)),
      sd_complete = (\<lambda>h st. lift_snd (mt_complete h st)), sd_get = (\<lambda>pid s. Inr (ms_get (fst s) pid)),
      sd_transition = (\<lambda>now pid target s. rbind (ms_transition now pid target (fst s)) (\<lambda>(r, t). Inr (r, t, snd s)))\<rparr>"

definition state_part :: "settlement_tables \<Rightarrow> state_tables" where
  "state_part db = \<lparr>proposals = proposals db, reservations = reservations db, decision_nonce_uses = decision_nonce_uses db,
     wallet_nonce_uses = wallet_nonce_uses db\<rparr>"

definition with_state :: "settlement_tables \<Rightarrow> state_tables \<Rightarrow> settlement_tables" where
  "with_state db t = db\<lparr>proposals := proposals t, reservations := reservations t, decision_nonce_uses := decision_nonce_uses t,
     wallet_nonce_uses := wallet_nonce_uses t\<rparr>"

definition table_side :: "settlement_tables settlement_side" where
  "table_side =
     \<lparr>sd_pending = ps_pending, sd_observe = ps_observe, sd_complete = (\<lambda>h st db. rbind (ps_complete h st db) (\<lambda>_. Inr db)),
      sd_get = (\<lambda>pid db. pgs_get pid (state_part db)),
      sd_transition = (\<lambda>now pid target db. rbind (pgs_transition now pid target (state_part db)) (\<lambda>(r, t). Inr (r, with_state db t)))\<rparr>"

section \<open>What a node is asked\<close>

text \<open>A log of the calls beside the world, and runs of a backend.\<close>

type_synonym call_log = "(string \<times> json list \<times> json res) list"

definition logged :: "'w rpc \<Rightarrow> (call_log \<times> 'w) rpc" where
  "logged rpc m params lw = (let (r, w) = rpc m params (snd lw) in (r, (fst lw @ [(m, params, r)], w)))"

datatype backend_op = Submit ChainSubmission | RelaySubmit ChainSubmission | AskReceipt string

fun backend_step :: "primitives \<Rightarrow> 'w rpc \<Rightarrow> backend_op \<Rightarrow> 'w JsonRpcChainBackend \<Rightarrow> 'w JsonRpcChainBackend" where
  "backend_step P rpc (Submit x) b = snd (jb_submit P rpc x b)"
| "backend_step P rpc (RelaySubmit x) b = snd (private_relay_submit P rpc x b)"
| "backend_step P rpc (AskReceipt h) b = snd (jb_receipt rpc h b)"

definition backend_run :: "primitives \<Rightarrow> 'w rpc \<Rightarrow> backend_op list \<Rightarrow> 'w JsonRpcChainBackend \<Rightarrow> 'w JsonRpcChainBackend" where
  "backend_run P rpc ops b = fold (backend_step P rpc) ops b"

definition chain_answered :: "int \<Rightarrow> call_log \<Rightarrow> bool" where
  "chain_answered cid log = list_ex (\<lambda>(m, ps, r). m = ''eth_chainId'' \<and> (case r of Inr (JStr t) \<Rightarrow> int16 t = Some cid | _ \<Rightarrow> False)) log"

text \<open>The raw transaction of a call that broadcasts.\<close>

definition broadcasts :: "string \<times> json list \<times> json res \<Rightarrow> bool" where
  "broadcasts c \<longleftrightarrow> fst c \<in> {''eth_sendRawTransaction'', ''eth_sendPrivateTransaction''}"

definition sent_raw :: "string \<times> json list \<times> json res \<Rightarrow> string option" where
  "sent_raw c = (case fst (snd c) of
     [JStr raw] \<Rightarrow> Some raw
   | [JObj fs] \<Rightarrow> (case field (JObj fs) ''tx'' of Some (JStr raw) \<Rightarrow> Some raw | _ \<Rightarrow> None)
   | _ \<Rightarrow> None)"

definition op_submission :: "backend_op \<Rightarrow> ChainSubmission option" where
  "op_submission op = (case op of Submit x \<Rightarrow> Some x | RelaySubmit x \<Rightarrow> Some x | AskReceipt h \<Rightarrow> None)"

text \<open>A submission for this chain whose bytes hash to its hash.\<close>

definition submission_bound :: "primitives \<Rightarrow> int \<Rightarrow> string \<Rightarrow> ChainSubmission \<Rightarrow> bool" where
  "submission_bound P cid raw x \<longleftrightarrow> sb_chain_id x = cid \<and> sb_raw_transaction x = Some raw \<and>
     (\<exists>h. keccak_transaction_hash P raw = Inr h \<and> lower h = lower (sb_transaction_hash x))"

definition call_justified :: "primitives \<Rightarrow> int \<Rightarrow> ChainSubmission set \<Rightarrow> call_log \<Rightarrow> string \<times> json list \<times> json res \<Rightarrow> bool" where
  "call_justified P cid xs before c \<longleftrightarrow> broadcasts c \<longrightarrow> chain_answered cid before \<and> (\<exists>raw. sent_raw c = Some raw \<and> (\<exists>x \<in> xs. submission_bound P cid raw x))"

definition calls_justified :: "primitives \<Rightarrow> int \<Rightarrow> ChainSubmission set \<Rightarrow> call_log \<Rightarrow> bool" where
  "calls_justified P cid xs log \<longleftrightarrow> (\<forall>i < length log. call_justified P cid xs (take i log) (log ! i))"

lemma calls_justified_append:
  "calls_justified P cid xs (log @ [c]) \<longleftrightarrow> calls_justified P cid xs log \<and> call_justified P cid xs log c"
  by (auto simp: calls_justified_def nth_append less_Suc_eq)

lemma calls_justified_mono: "calls_justified P cid xs log \<Longrightarrow> xs \<subseteq> ys \<Longrightarrow> calls_justified P cid ys log"
  unfolding calls_justified_def call_justified_def by blast

definition backend_inv :: "primitives \<Rightarrow> int \<Rightarrow> ChainSubmission set \<Rightarrow> (call_log \<times> 'w) JsonRpcChainBackend \<Rightarrow> bool" where
  "backend_inv P cid xs b \<longleftrightarrow> jb_chain_id b = cid \<and> calls_justified P cid xs (fst (jb_world b)) \<and>
     (jb_network_verified b \<longrightarrow> chain_answered cid (fst (jb_world b)))"

text \<open>A call that does not broadcast keeps the invariant and is in the log.\<close>

lemma triple_call:
  assumes "\<And>log r. Q log \<Longrightarrow> call_justified P cid xs log (m, params, r)"
  shows "triple (\<lambda>b. backend_inv P cid xs b \<and> Q (fst (jb_world b))) (rpc_call (logged rpc) m params)
    (\<lambda>r b. backend_inv P cid xs b \<and> (\<exists>log. fst (jb_world b) = log @ [(m, params, Inr r)])) (backend_inv P cid xs)"
  using assms
  by (auto simp: triple_def rpc_call_def logged_def backend_inv_def calls_justified_append chain_answered_def Let_def split: prod.splits sum.splits)

lemma verify_network_triple:
  "triple (backend_inv P cid xs) (verify_network (logged rpc)) (\<lambda>_ b. backend_inv P cid xs b \<and> chain_answered cid (fst (jb_world b)))
     (backend_inv P cid xs)"
proof -
  have c: "triple (backend_inv P cid xs) (rpc_call (logged rpc) ''eth_chainId'' [])
      (\<lambda>r b. backend_inv P cid xs b \<and> (\<exists>log. fst (jb_world b) = log @ [(''eth_chainId'', [], Inr r)])) (backend_inv P cid xs)"
    using triple_call [of "\<lambda>_. True" P cid xs "''eth_chainId''" "[]" rpc] by (simp add: call_justified_def broadcasts_def)
  have k: "triple (\<lambda>b. backend_inv P cid xs b \<and> (\<exists>log. fst (jb_world b) = log @ [(''eth_chainId'', [], Inr r)]))
      (\<lambda>b. case r of JStr text \<Rightarrow> (case int16 text of
          None \<Rightarrow> (Inl (RuntimeError ''RPC chain ID response is malformed''), b)
        | Some actual \<Rightarrow>
            if actual \<noteq> jb_chain_id b
            then (Inl (RuntimeError (''RPC is connected to wrong chain '' @ show_int actual @ ''; expected '' @ show_int (jb_chain_id b))), b)
            else (Inr (), set_verified b))
      | _ \<Rightarrow> (Inl (RuntimeError ''RPC chain ID response is malformed''), b))
      (\<lambda>_ b. backend_inv P cid xs b \<and> chain_answered cid (fst (jb_world b))) (backend_inv P cid xs)" for r
    by (auto simp: triple_def backend_inv_def set_verified_def chain_answered_def split: json.splits option.splits)
  show ?thesis
    using triple_bind [OF c k]
    by (auto simp: triple_def verify_network_def backend_inv_def)
qed

lemma broadcast_triple:
  assumes x: "x \<in> xs" "sb_chain_id x = cid" "sb_raw_transaction x = Some raw" "sb_transaction_hash x = expected"
    and m: "\<And>r. sent_raw (m, params, r) = Some raw"
  shows "triple (backend_inv P cid xs) (broadcast P (logged rpc) raw expected m params complaint) (\<lambda>_. backend_inv P cid xs) (backend_inv P cid xs)"
  unfolding broadcast_def
proof (rule triple_bind [OF verify_network_triple], rule triple_bind)
  let ?I = "backend_inv P cid xs"
  let ?A = "\<lambda>b. ?I b \<and> chain_answered cid (fst (jb_world b))"
  show "triple ?A (elift (keccak_transaction_hash P raw)) (\<lambda>h b. keccak_transaction_hash P raw = Inr h \<and> ?A b) ?I"
    by (rule triple_lift) auto
  fix h
  show "triple (\<lambda>b. keccak_transaction_hash P raw = Inr h \<and> ?A b)
      (if lower h \<noteq> lower expected then eraise (ValueError ''signed raw transaction hash does not match submission'')
       else ebind (rpc_call (logged rpc) m params) (\<lambda>result. case result of
         JStr g \<Rightarrow> if lower g \<noteq> lower h then eraise (RuntimeError complaint) else ereturn (lower g)
       | _ \<Rightarrow> eraise (RuntimeError complaint))) (\<lambda>_. ?I) ?I"
  proof (rule triple_pure, rule triple_if)
    assume "\<not> lower h \<noteq> lower expected" and h: "keccak_transaction_hash P raw = Inr h"
    then have b: "submission_bound P cid raw x" using x by (simp add: submission_bound_def)
    have c: "triple ?A (rpc_call (logged rpc) m params) (\<lambda>_. ?I) ?I"
      by (rule triple_conseq [OF triple_call [of "chain_answered cid" P cid xs m params rpc]])
        (use b m x(1) in \<open>auto simp: call_justified_def\<close>)
    show "triple ?A (ebind (rpc_call (logged rpc) m params) (\<lambda>result. case result of
         JStr g \<Rightarrow> if lower g \<noteq> lower h then eraise (RuntimeError complaint) else ereturn (lower g)
       | _ \<Rightarrow> eraise (RuntimeError complaint))) (\<lambda>_. ?I) ?I"
      by (rule triple_bind [OF c]) (auto simp: triple_def eff_defs split: json.splits)
  qed (auto intro: triple_raise)
qed

lemma jb_receipt_triple:
  "triple (backend_inv P cid xs) (jb_receipt (logged rpc) h) (\<lambda>_. backend_inv P cid xs) (backend_inv P cid xs)"
proof -
  let ?I = "backend_inv P cid xs"
  have call: "triple ?I (rpc_call (logged rpc) m ps) (\<lambda>_. ?I) ?I" if "m \<in> {''eth_getTransactionReceipt'', ''eth_blockNumber''}" for m ps
    by (rule triple_conseq [OF triple_call [of "\<lambda>_. True" P cid xs m ps rpc]]) (use that in \<open>auto simp: call_justified_def broadcasts_def\<close>)
  have latest: "triple ?I (ecatch (rpc_call (logged rpc) ''eth_blockNumber'' []) (\<lambda>e. if receipt_error e then Some (eraise malformed_receipt) else None))
      (\<lambda>_. ?I) ?I"
    by (rule triple_catch [OF call]) (auto simp: triple_def eraise_def split: if_splits)
  have verified: "triple ?I (verify_network (logged rpc)) (\<lambda>_. ?I) ?I"
    by (rule triple_conseq [OF verify_network_triple]) auto
  have read: "triple ?I (ebind (elift (read_receipt v l)) (\<lambda>r. ereturn (Some r))) (\<lambda>_. ?I) ?I" for v l
    by (auto simp: triple_def eff_defs split: sum.splits)
  have rest: "triple ?I (case r of JNull \<Rightarrow> ereturn None | JObj fs \<Rightarrow>
         if list_ex (\<lambda>k. field r k = None) [''blockNumber'', ''status'', ''transactionHash'', ''blockHash''] then eraise malformed_receipt
         else ebind (ecatch (rpc_call (logged rpc) ''eth_blockNumber'' []) (\<lambda>e. if receipt_error e then Some (eraise malformed_receipt) else None)) (\<lambda>latest.
           ebind (elift (read_receipt r latest)) (\<lambda>r. ereturn (Some r)))
     | _ \<Rightarrow> eraise malformed_receipt) (\<lambda>_. ?I) ?I" for r
    by (cases r) (auto intro!: triple_return triple_raise triple_if triple_bind [OF latest read])
  show ?thesis unfolding jb_receipt_def
    by (rule triple_bind [OF verified], rule triple_bind [OF call]) (simp_all only: rest, simp)
qed

lemma backend_step_inv:
  assumes "backend_inv P cid xs b"
  shows "backend_inv P cid (xs \<union> set_option (op_submission op)) (backend_step P (logged rpc) op b)"
proof -
  have b: "backend_inv P cid (xs \<union> ys) b" for ys
    using assms calls_justified_mono [of P cid xs _ "xs \<union> ys"] by (auto simp: backend_inv_def)
  have send: "backend_inv P cid (xs \<union> {x}) (snd (broadcast P (logged rpc) raw (sb_transaction_hash x) m params c b))"
    if "sb_chain_id x = jb_chain_id b" "sb_raw_transaction x = Some raw" "\<And>r. sent_raw (m, params, r) = Some raw" for x raw m params c
    by (rule triple_snd [OF broadcast_triple b]) (use that assms in \<open>auto simp: backend_inv_def\<close>)
  show ?thesis
  proof (cases op)
    case (Submit x)
    then show ?thesis using b [of "{x}"] send [of x]
      by (auto simp: op_submission_def jb_submit_def sent_raw_def split: option.splits)
  next
    case (RelaySubmit x)
    then show ?thesis using b [of "{x}"] send [of x]
      by (auto simp: op_submission_def private_relay_submit_def sent_raw_def field_def split: option.splits prod.splits)
  next
    case (AskReceipt h)
    then show ?thesis using triple_snd [OF jb_receipt_triple b [of "{}"]] by (simp add: op_submission_def)
  qed
qed

lemma backend_run_inv:
  "backend_inv P cid xs b \<Longrightarrow> backend_inv P cid (xs \<union> {x. Some x \<in> op_submission ` set ops}) (backend_run P (logged rpc) ops b)"
proof (induction ops arbitrary: b xs)
  case (Cons op ops)
  have "xs \<union> set_option (op_submission op) \<union> {x. Some x \<in> op_submission ` set ops} = xs \<union> {x. Some x \<in> op_submission ` set (op # ops)}"
    by (auto simp: set_option_def [symmetric] elem_set)
  with Cons.IH [OF backend_step_inv [OF Cons.prems, of op rpc]] show ?case by (simp add: backend_run_def)
qed (simp add: backend_run_def)

section \<open>What the reconciler relies on\<close>

text \<open>A receipt that makes a tracked transaction final.\<close>

definition final_receipt :: "receipts \<Rightarrow> int \<Rightarrow> TrackedTransaction \<Rightarrow> EvmReceipt \<Rightarrow> bool" where
  "final_receipt answers finality t r \<longleftrightarrow>
     (\<exists>backend. answers (tk_chain_id t) = Some backend \<and> backend (tk_transaction_hash t) = Inr (Some r)) \<and>
     lower (er_transaction_hash r) = lower (tk_transaction_hash t) \<and> finality \<le> er_confirmations r"

definition settled_by_poll :: "receipts \<Rightarrow> int \<Rightarrow> TrackedTransaction list \<Rightarrow> (uuid \<Rightarrow> LifecycleState option) \<Rightarrow> (uuid \<Rightarrow> LifecycleState option) \<Rightarrow> bool" where
  "settled_by_poll answers finality ts before now \<longleftrightarrow>
     (\<forall>p. now p = before p \<or> (before p = Some SUBMITTED \<and>
        (\<exists>t \<in> set ts. tk_proposal_id t = p \<and> (\<exists>r. final_receipt answers finality t r \<and> now p = Some (settled_as r)))))"

lemma settled_by_pollD:
  "settled_by_poll answers finality ts f g \<Longrightarrow> g p = f p \<or> (f p = Some SUBMITTED \<and>
     (\<exists>t \<in> set ts. tk_proposal_id t = p \<and> (\<exists>r. final_receipt answers finality t r \<and> g p = Some (settled_as r))))"
  by (simp add: settled_by_poll_def)

lemma settled_by_poll_refl: "settled_by_poll answers finality ts f f"
  by (simp add: settled_by_poll_def)

lemma settled_as_not_submitted [simp]: "settled_as r \<noteq> SUBMITTED"
  by (simp add: settled_as_def)

lemma settled_by_poll_move:
  assumes "settled_by_poll answers finality ts f g" "g (tk_proposal_id t) = Some SUBMITTED" "t \<in> set ts" "final_receipt answers finality t r"
  shows "settled_by_poll answers finality ts f (g(tk_proposal_id t \<mapsto> settled_as r))"
proof -
  have "f (tk_proposal_id t) = Some SUBMITTED"
    using settled_by_pollD [OF assms(1), of "tk_proposal_id t"] assms(2) by auto
  then show ?thesis using assms unfolding settled_by_poll_def by (metis fun_upd_apply)
qed

locale settlement_contract =
  fixes sd :: "'s settlement_side"
    and life :: "'s \<Rightarrow> uuid \<Rightarrow> LifecycleState option"
  assumes get_life: "sd_get sd p s = Inr (Some record) \<Longrightarrow> life s p = Some (rec_state record)"
    and observe_life: "sd_observe sd now rid h r s = Inr s' \<Longrightarrow> life s' = life s"
    and complete_life: "sd_complete sd h st s = Inr s' \<Longrightarrow> life s' = life s"
    and transition_life: "sd_transition sd now p target s = Inr (record, s') \<Longrightarrow> life s' = (life s)(p \<mapsto> target)"
begin

lemma settle_final_triple:
  assumes "t \<in> set ts" "final_receipt answers finality t r"
  shows "triple (\<lambda>s. settled_by_poll answers finality ts f (life s)) (settle_final sd env t r)
    (\<lambda>_ s. settled_by_poll answers finality ts f (life s) \<and> life s (tk_proposal_id t) \<noteq> Some SUBMITTED)
    (\<lambda>s. settled_by_poll answers finality ts f (life s))"
  unfolding settle_final_def
proof (rule triple_bind)
  let ?I = "\<lambda>s. settled_by_poll answers finality ts f (life s)"
  let ?R = "\<lambda>x s. ?I s \<and> (\<forall>record. x = Some record \<longrightarrow> life s (tk_proposal_id t) = Some (rec_state record))"
  show "triple ?I (eread (sd_get sd (tk_proposal_id t))) ?R ?I"
    by (rule triple_read) (auto dest: get_life)
  fix x
  show "triple (?R x) (case x of None \<Rightarrow> eraise (RuntimeError ''tracked settlement references an unknown proposal'')
     | Some record \<Rightarrow>
         ebind (if rec_state record = SUBMITTED then
             ebind (atomically (sd_transition sd (pe_moved env) (tk_proposal_id t) (settled_as r))) (\<lambda>_. ereturn ())
           else ereturn ()) (\<lambda>_.
         unit_op (sd_complete sd (tk_transaction_hash t) (lifecycle_name (settled_as r)))))
     (\<lambda>_ s. ?I s \<and> life s (tk_proposal_id t) \<noteq> Some SUBMITTED) ?I"
  proof (rule triple_option)
    let ?D = "\<lambda>s. ?I s \<and> life s (tk_proposal_id t) \<noteq> Some SUBMITTED"
    fix rd assume x: "x = Some rd"
    have move: "triple (?R x) (ebind (atomically (sd_transition sd (pe_moved env) (tk_proposal_id t) (settled_as r))) (\<lambda>_. ereturn ()))
        (\<lambda>_. ?D) ?I" if "rec_state rd = SUBMITTED"
      by (rule triple_bind [where R = "\<lambda>_. ?D"])
        (auto intro!: triple_atomically triple_return simp: x that settled_by_poll_move [OF _ _ assms] dest!: transition_life)
    have complete: "triple ?D (unit_op (sd_complete sd (tk_transaction_hash t) (lifecycle_name (settled_as r)))) (\<lambda>_. ?D) ?I"
      unfolding unit_op_def by (rule triple_atomically) (auto simp: rbind_Inr_iff dest!: complete_life)
    show "triple (?R x) (ebind (if rec_state rd = SUBMITTED then
             ebind (atomically (sd_transition sd (pe_moved env) (tk_proposal_id t) (settled_as r))) (\<lambda>_. ereturn ())
           else ereturn ()) (\<lambda>_.
         unit_op (sd_complete sd (tk_transaction_hash t) (lifecycle_name (settled_as r))))) (\<lambda>_. ?D) ?I"
      by (rule triple_bind [OF triple_if [OF move] complete]) (auto intro: triple_return simp: x)
  qed (auto intro: triple_raise)
qed

lemma poll_tracked_triple:
  assumes "t \<in> set ts"
  shows "triple (\<lambda>s. settled_by_poll answers finality ts f (life s)) (poll_tracked sd answers finality env t)
    (\<lambda>_ s. settled_by_poll answers finality ts f (life s) \<and> (\<forall>r. final_receipt answers finality t r \<longrightarrow> life s (tk_proposal_id t) \<noteq> Some SUBMITTED))
    (\<lambda>s. settled_by_poll answers finality ts f (life s))"
  (is "triple ?I _ (\<lambda>_. ?D) _")
proof (cases "\<exists>backend r. answers (tk_chain_id t) = Some backend \<and> backend (tk_transaction_hash t) = Inr (Some r) \<and>
    lower (er_transaction_hash r) = lower (tk_transaction_hash t)")
  case False
  then have "\<not> final_receipt answers finality t r" for r by (auto simp: final_receipt_def)
  with False show ?thesis
    by (auto simp: poll_tracked_def triple_def eff_defs split: option.splits sum.splits exn.splits)
next
  case True
  then obtain backend r where a: "answers (tk_chain_id t) = Some backend" "backend (tk_transaction_hash t) = Inr (Some r)"
    "lower (er_transaction_hash r) = lower (tk_transaction_hash t)" by blast
  have o: "triple ?I (unit_op (sd_observe sd (pe_observed (env t)) (pe_row (env t)) (tk_transaction_hash t) r)) (\<lambda>_. ?I) ?I"
    unfolding unit_op_def by (rule triple_atomically) (auto simp: rbind_Inr_iff dest!: observe_life)
  have n: "\<not> final_receipt answers finality t q" if "er_confirmations r < finality" for q
    using that a by (auto simp: final_receipt_def)
  have fin: "triple ?I (settle_final sd (env t) t r) (\<lambda>_. ?D) ?I" if "\<not> er_confirmations r < finality"
    by (rule triple_conseq [OF settle_final_triple [OF assms, where r = r]]) (use that a in \<open>auto simp: final_receipt_def\<close>)
  have rest: "triple ?I (if er_confirmations r < finality then ereturn () else settle_final sd (env t) t r) (\<lambda>_. ?D) ?I"
    by (rule triple_if) (use n fin in \<open>auto intro: triple_return\<close>)
  have "poll_tracked sd answers finality env t = ebind (unit_op (sd_observe sd (pe_observed (env t)) (pe_row (env t)) (tk_transaction_hash t) r))
      (\<lambda>_. if er_confirmations r < finality then ereturn () else settle_final sd (env t) t r)"
    by (simp add: poll_tracked_def a)
  then show ?thesis using triple_bind [OF o rest] by simp
qed

lemma poll_list_safe:
  assumes "set xs \<subseteq> set ts"
  shows "settled_by_poll answers finality ts (life s) (life (snd (efor xs (poll_tracked sd answers finality env) s)))"
proof -
  have "triple (\<lambda>u. settled_by_poll answers finality ts (life s) (life u)) (efor xs (poll_tracked sd answers finality env))
      (\<lambda>_ u. settled_by_poll answers finality ts (life s) (life u)) (\<lambda>u. settled_by_poll answers finality ts (life s) (life u))"
    by (rule triple_for, rule triple_conseq [OF poll_tracked_triple]) (use assms in auto)
  from triple_snd [OF this] show ?thesis by (simp add: settled_by_poll_refl)
qed

lemma poll_list_done:
  assumes "set xs \<subseteq> set ts" "efor xs (poll_tracked sd answers finality env) s = (Inr (), s')"
    "t \<in> set xs" "final_receipt answers finality t r"
  shows "life s' (tk_proposal_id t) \<noteq> Some SUBMITTED"
  using assms
proof (induction xs arbitrary: s)
  case (Cons x xs)
  from Cons.prems(2) obtain u where u: "poll_tracked sd answers finality env x s = (Inr (), u)"
    "efor xs (poll_tracked sd answers finality env) u = (Inr (), s')"
    by (auto simp: ebind_Inr_iff)
  show ?case
  proof (cases "t = x")
    case True
    have "life u (tk_proposal_id x) \<noteq> Some SUBMITTED"
      using triple_Inr [OF poll_tracked_triple [of x ts answers finality "life s" env] _ u(1)] Cons.prems True by (auto simp: settled_by_poll_refl)
    moreover have "settled_by_poll answers finality ts (life u) (life s')"
      using poll_list_safe [of xs ts answers finality u env] Cons.prems(1) u(2) by simp
    ultimately show ?thesis unfolding True settled_by_poll_def by metis
  next
    case False
    then show ?thesis using Cons.IH [OF _ u(2)] Cons.prems by simp
  qed
qed simp

lemma poll_once_safe:
  "settled_by_poll answers finality (sd_pending sd s) (life s) (life (snd (poll_once sd answers finality env s)))"
  unfolding poll_once_def by (rule poll_list_safe) simp

lemma poll_once_done:
  assumes "poll_once sd answers finality env s = (Inr (), s')" "t \<in> set (sd_pending sd s)" "final_receipt answers finality t r"
    "life s (tk_proposal_id t) = Some SUBMITTED" "distinct (map tk_proposal_id (sd_pending sd s))"
  shows "life s' (tk_proposal_id t) = Some (settled_as r)"
proof -
  have "life s' (tk_proposal_id t) \<noteq> Some SUBMITTED"
    by (rule poll_list_done [where xs = "sd_pending sd s" and ts = "sd_pending sd s"]) (use assms in \<open>auto simp: poll_once_def\<close>)
  then obtain q z where q: "q \<in> set (sd_pending sd s)" "tk_proposal_id q = tk_proposal_id t" "final_receipt answers finality q z"
    "life s' (tk_proposal_id t) = Some (settled_as z)"
    using settled_by_pollD [OF poll_once_safe [of answers finality s env], of "tk_proposal_id t"] assms(1,4) by auto
  have "q = t" using assms(2,5) q(1,2) by (auto simp: distinct_map inj_on_def)
  with q assms(3) show ?thesis by (auto simp: final_receipt_def)
qed

end

definition memory_life :: "MemoryStateStore \<times> MemorySettlementStore \<Rightarrow> uuid \<Rightarrow> LifecycleState option" where
  "memory_life s p = map_option rec_state (dget (ms_records (fst s)) p)"

interpretation memory_poll: settlement_contract memory_side memory_life
proof
  fix now p target s r s'
  assume "sd_transition memory_side now p target s = Inr (r, s')"
  then obtain u where u: "ms_transition now p target (fst s) = Inr (r, u)" "s' = (u, snd s)"
    by (auto simp: memory_side_def rbind_Inr_iff)
  then have "rec_state r = target" by (auto simp: ms_transition_def rbind_Inr_iff Let_def)
  then show "memory_life s' = (memory_life s)(p \<mapsto> target)"
    using ms_transition_frame [OF u(1)] u(2) by (auto simp: memory_life_def fun_eq_iff)
qed (auto simp: memory_side_def memory_life_def ms_get_def lift_snd_def rbind_Inr_iff)

definition table_life :: "settlement_tables \<Rightarrow> uuid \<Rightarrow> LifecycleState option" where
  "table_life db p = map_option pq_state (find (\<lambda>r. pq_id r = p) (proposals db))"

lemma ps_observe_proposals: "ps_observe now rid h r db = Inr db' \<Longrightarrow> proposals db' = proposals db"
  by (auto simp: ps_observe_def rbind_Inr_iff Let_def split: option.splits if_splits)

lemma pgs_record_state: "pgs_record p db = Inr (Some r) \<Longrightarrow> map_option pq_state (find (\<lambda>r. pq_id r = p) (proposals db)) = Some (rec_state r)"
  by (auto simp: pgs_record_def rbind_Inr_iff split: option.splits)

lemma pgs_transition_proposals:
  assumes "pgs_transition now p target db = Inr (r, db')"
  shows "proposals db' = map (\<lambda>x. if pq_id x = p then x\<lparr>pq_state := target, pq_state_version := pq_state_version x + 1, pq_updated_at := now\<rparr> else x) (proposals db)"
    "find (\<lambda>x. pq_id x = p) (proposals db) \<noteq> None"
  using assms
  by (auto simp: pgs_transition_def pgs_record_def rbind_Inr_iff Let_def update_where_def split: if_splits option.splits)

interpretation table_poll: settlement_contract table_side table_life
proof
  fix now p target s r s'
  assume "sd_transition table_side now p target s = Inr (r, s')"
  then obtain u where u: "pgs_transition now p target (state_part s) = Inr (r, u)" "s' = with_state s u"
    by (auto simp: table_side_def rbind_Inr_iff)
  have f: "find (\<lambda>x. pq_id x = q) (proposals u) =
      map_option (\<lambda>x. if pq_id x = p then x\<lparr>pq_state := target, pq_state_version := pq_state_version x + 1, pq_updated_at := now\<rparr> else x)
        (find (\<lambda>x. pq_id x = q) (proposals s))" for q
    using pgs_transition_proposals(1) [OF u(1)] by (simp add: find_map_keep state_part_def)
  have "table_life s' q = ((table_life s)(p \<mapsto> target)) q" for q
  proof (cases "find (\<lambda>x. pq_id x = q) (proposals s)")
    case None
    then have "q \<noteq> p" using pgs_transition_proposals(2) [OF u(1)] by (auto simp: state_part_def)
    then show ?thesis using f [of q] None by (simp add: table_life_def u(2) with_state_def)
  next
    case (Some x)
    then have "pq_id x = q" using find_Some_mem by fast
    then show ?thesis using f [of q] Some by (simp add: table_life_def u(2) with_state_def)
  qed
  then show "table_life s' = (table_life s)(p \<mapsto> target)" by blast
qed (auto simp: table_side_def table_life_def pgs_get_def state_part_def rbind_Inr_iff ps_observe_proposals dest!: pgs_record_state)

section \<open>Properties\<close>

text \<open>A poll that returns settles every pending transaction with a final receipt.\<close>

definition poll_completes :: "'s settlement_side \<Rightarrow> ('s \<Rightarrow> uuid \<Rightarrow> LifecycleState option) \<Rightarrow> bool" where
  "poll_completes sd life \<longleftrightarrow>
     (\<forall>answers finality env s s' t r. poll_once sd answers finality env s = (Inr (), s') \<longrightarrow> distinct (map tk_proposal_id (sd_pending sd s)) \<longrightarrow>
        t \<in> set (sd_pending sd s) \<longrightarrow> life s (tk_proposal_id t) = Some SUBMITTED \<longrightarrow> final_receipt answers finality t r \<longrightarrow>
        life s' (tk_proposal_id t) = Some (settled_as r))"

text \<open>A submitted proposal in memory, its tracked transaction and its receipt.\<close>

definition sample_submitted :: "MemoryStateStore \<times> MemorySettlementStore" where
  "sample_submitted =
     (sample_reserved\<lparr>ms_records := dset (pr_proposal_id (rec_proposal sample_record)) (sample_record\<lparr>rec_state := SUBMITTED\<rparr>) (ms_records sample_reserved)\<rparr>,
      \<lparr>mt_transactions = [(''0xaa'', new_tracked ''0xaa'' (pr_proposal_id (rec_proposal sample_record)) 1)],
       mt_proposals = [(pr_proposal_id (rec_proposal sample_record), ''0xaa'')]\<rparr>)"

definition sample_receipt :: EvmReceipt where
  "sample_receipt = \<lparr>er_transaction_hash = ''0xaa'', er_block_hash = ''0xbb'', er_block_number = 7, er_success = True, er_confirmations = 3\<rparr>"

definition sample_answers :: receipts where
  "sample_answers c = (if c = 1 then Some (\<lambda>h. Inr (Some sample_receipt)) else None)"

definition sample_env :: "TrackedTransaction \<Rightarrow> poll_env" where
  "sample_env t = \<lparr>pe_observed = 1, pe_row = 2, pe_moved = 3\<rparr>"

text \<open>C8. A proposal changes its lifecycle state in a poll only from \<open>SUBMITTED\<close>, and only if a pending
  transaction of the proposal has a receipt with that transaction's hash and at least \<open>finality\<close> confirmations;
  it then becomes \<open>SETTLED\<close> or \<open>REVERTED\<close> as the receipt says. This holds for both pairs of stores, whatever the
  backends answer, and also when the poll raises midway.\<close>

theorem settlement_needs_finality:
  "settled_by_poll answers finality (sd_pending memory_side s) (memory_life s) (memory_life (snd (poll_once memory_side answers finality env s))) \<and>
   settled_by_poll answers finality (sd_pending table_side db) (table_life db) (table_life (snd (poll_once table_side answers finality env db)))"
  by (simp only: memory_poll.poll_once_safe table_poll.poll_once_safe simp_thms)

text \<open>C23. A poll that returns has settled, as its receipt says, every submitted proposal whose pending transaction has
  a final receipt, with the stores in memory and on the tables, from any state: also from one a poll that raised or
  a crash left behind.\<close>

theorem settlement_completes:
  "poll_completes memory_side memory_life \<and> poll_completes table_side table_life"
  unfolding poll_completes_def using memory_poll.poll_once_done table_poll.poll_once_done by blast

theorem settlement_completes_witness:
  "memory_life (snd (poll_once memory_side sample_answers 2 sample_env sample_submitted)) (pr_proposal_id (rec_proposal sample_record)) = Some SETTLED"
proof -
  let ?t = "new_tracked ''0xaa'' (pr_proposal_id (rec_proposal sample_record)) 1"
  obtain r s' where p: "poll_once memory_side sample_answers 2 sample_env sample_submitted = (r, s')"
    by (cases "poll_once memory_side sample_answers 2 sample_env sample_submitted")
  have pending: "sd_pending memory_side sample_submitted = [?t]"
    by (simp add: memory_side_def mt_pending_def sample_submitted_def dvalues_def new_tracked_def)
  have "fst (poll_once memory_side sample_answers 2 sample_env sample_submitted) = Inr ()" by code_simp
  then have "r = Inr ()" using p by simp
  moreover have "final_receipt sample_answers 2 ?t sample_receipt"
    by (simp add: final_receipt_def sample_answers_def sample_receipt_def new_tracked_def)
  moreover have "memory_life sample_submitted (tk_proposal_id ?t) = Some SUBMITTED"
    by (simp add: memory_life_def sample_submitted_def new_tracked_def)
  ultimately have "memory_life s' (tk_proposal_id ?t) = Some (settled_as sample_receipt)"
    using settlement_completes p pending unfolding poll_completes_def by fastforce
  then show ?thesis by (simp add: p settled_as_def sample_receipt_def new_tracked_def)
qed

text \<open>C19. Whatever the node answers, a backend broadcasts a raw transaction, publicly or through the private relay, only
  after the node has answered with the expected chain identifier, and only for a submission to that chain whose hash is
  the Keccak-256 hash of those bytes.\<close>

theorem backend_broadcasts_bound:
  assumes "JsonRpcChainBackend_init u insecure cid confirmations ([], w) = Inr b"
  shows "calls_justified P cid {x. Some x \<in> op_submission ` set ops} (fst (jb_world (backend_run P (logged rpc) ops b)))"
proof -
  have "backend_inv P cid {} b"
    using assms by (auto simp: JsonRpcChainBackend_init_def rbind_Inr_iff backend_inv_def calls_justified_def)
  from backend_run_inv [OF this, of ops rpc] show ?thesis by (simp add: backend_inv_def)
qed

definition sample_url :: rpc_url where
  "sample_url = \<lparr>url_scheme = ''https'', url_username = None, url_password = None, url_hostname = Some ''node'', url_loopback = False\<rparr>"

definition sample_hash :: string where
  "sample_hash = ''0x'' @ bytes_hex (keccak prims [2])"

definition sample_node :: "unit rpc" where
  "sample_node m params w = (Inr (JStr (if m = ''eth_chainId'' then ''0x1'' else sample_hash)), w)"

definition sample_submission :: ChainSubmission where
  "sample_submission = \<lparr>sb_chain_id = 1, sb_transaction_hash = sample_hash, sb_raw_transaction = Some ''0x02'', sb_local_transaction = None\<rparr>"

definition sample_backend :: "(call_log \<times> unit) JsonRpcChainBackend" where
  "sample_backend = \<lparr>jb_chain_id = 1, jb_finality_confirmations = 2, jb_network_verified = False, jb_world = ([], ())\<rparr>"

theorem backend_broadcasts_bound_witness:
  "calls_justified prims 1 {sample_submission} (fst (jb_world (backend_run prims (logged sample_node) [Submit sample_submission] sample_backend))) \<and>
   list_ex broadcasts (fst (jb_world (backend_run prims (logged sample_node) [Submit sample_submission] sample_backend)))"
proof -
  have "JsonRpcChainBackend_init sample_url False 1 2 ([], ()) = Inr sample_backend"
    by (simp add: JsonRpcChainBackend_init_def validate_url_def sample_url_def given_def sample_backend_def)
  from backend_broadcasts_bound [OF this, of prims "[Submit sample_submission]" sample_node]
  have j: "calls_justified prims 1 {sample_submission} (fst (jb_world (backend_run prims (logged sample_node) [Submit sample_submission] sample_backend)))"
    by (simp add: op_submission_def)
  have "int16 ''0x1'' = Some 1" by code_simp
  moreover have "bytes_fromhex ''02'' = Some [2]" by code_simp
  ultimately have "list_ex broadcasts (fst (jb_world (backend_run prims (logged sample_node) [Submit sample_submission] sample_backend)))"
    by (simp add: backend_run_def jb_submit_def broadcast_def verify_network_def rpc_call_def logged_def sample_node_def sample_submission_def
        sample_backend_def keccak_transaction_hash_def sample_hash_def eff_defs set_verified_def broadcasts_def startswith_def)
  with j show ?thesis ..
qed

end
