(* ===== verification/Attestations.thy ===== *)
theory Attestations
  imports Settlement
begin

text \<open>
  \<open>src/aegisledger/attestations.py\<close> and \<open>attestation_store.py\<close>: the attestation of an executed proposal,
  its offline verifier, and the stores in memory and on the table of migrations \<open>0001_core.py\<close> and
  \<open>0003_complete_attestations.py\<close>.

  \<^item> Reading ISO 8601 text with a UTC offset and the curve secp256k1 are parameters (\<open>attestation_lib\<close>):
    the moment a text denotes, if it is such a text, whether bytes
    are a point of the curve, and whether \<open>(r, s)\<close> is a signature of a digest under a point. The
    uncompressed encoding of a point decoded from uncompressed bytes is those bytes.
  \<^item> A JSON column holds the model it was dumped from; reading it validates the model again.

  Shown: the evidence hash of an attestation that verifies determines the evidence, the proposal, the
  decision it names and the transaction bytes, up to a collision of a hash; the stores keep the
  first attestation of a proposal.
\<close>

section \<open>Models\<close>

record attestation_lib =
  al_fromisoformat :: "string \<Rightarrow> time option"
  al_point :: "bytes \<Rightarrow> bool"
  al_ecdsa_verify :: "bytes \<Rightarrow> nat \<Rightarrow> nat \<Rightarrow> bytes \<Rightarrow> bool"

record EnclaveEvidenceV1 =
  ee_mode :: string
  ee_build_measurement :: string
  ee_signer_identity :: string
  ee_secp256k1_public_key :: string
  ee_transaction_hash :: string
  ee_signing_hash :: string
  ee_proposal_hash :: string
  ee_policy_version_id :: uuid
  ee_policy_hash :: string
  ee_state_version :: int
  ee_reservation_id :: uuid
  ee_wallet :: string
  ee_principal_id :: string
  ee_chain_id :: int
  ee_wallet_nonce :: int
  ee_decision_id :: uuid
  ee_decision_nonce :: uuid
  ee_expires_at :: string
  ee_issued_at :: string
  ee_evidence_hash :: string
  ee_evidence_signature :: string

definition HexPublicKey :: "string \<Rightarrow> bool" where
  "HexPublicKey s \<longleftrightarrow> startswith s ''0x04'' \<and> length s = 132 \<and> list_all is_lower_hex (drop 4 s)"

definition Rfc3339Timestamp :: "attestation_lib \<Rightarrow> string \<Rightarrow> bool" where
  "Rfc3339Timestamp L s \<longleftrightarrow> len_between 20 40 s \<and> al_fromisoformat L s \<noteq> None"

definition make_EnclaveEvidenceV1 :: "attestation_lib \<Rightarrow> EnclaveEvidenceV1 \<Rightarrow> EnclaveEvidenceV1 res" where
  "make_EnclaveEvidenceV1 L e =
     (if ee_mode e \<in> {''local-process-or-nitro'', ''aws-nitro''} \<and> len_between 1 256 (ee_build_measurement e) \<and> Address (ee_signer_identity e) \<and>
         HexPublicKey (ee_secp256k1_public_key e) \<and> Hex32 (ee_transaction_hash e) \<and> Hex32 (ee_signing_hash e) \<and> Hex32 (ee_proposal_hash e) \<and>
         Hex32 (ee_policy_hash e) \<and> 0 \<le> ee_state_version e \<and> Address (ee_wallet e) \<and> len_between 1 128 (ee_principal_id e) \<and>
         0 < ee_chain_id e \<and> 0 \<le> ee_wallet_nonce e \<and> Rfc3339Timestamp L (ee_expires_at e) \<and> Rfc3339Timestamp L (ee_issued_at e) \<and>
         Hex32 (ee_evidence_hash e) \<and> RecoverableSignature (ee_evidence_signature e)
      then Inr (e\<lparr>ee_signer_identity := lower (ee_signer_identity e), ee_wallet := lower (ee_wallet e)\<rparr>)
      else Inl (ValueError ''EnclaveEvidenceV1''))"

definition timestamp :: "attestation_lib \<Rightarrow> string \<Rightarrow> time res" where
  "timestamp L s = of_option (ValueError ''Invalid isoformat string'') (al_fromisoformat L s)"

text \<open>\<open>model_dump(mode="json")\<close> without the hash and the signature, and with them.\<close>

definition unsigned_fields :: "EnclaveEvidenceV1 \<Rightarrow> (string \<times> json) list" where
  "unsigned_fields e =
     [(''schema_version'', JStr ''aegisledger.enclave_evidence.v1''), (''mode'', JStr (ee_mode e)),
      (''build_measurement'', JStr (ee_build_measurement e)), (''signer_identity'', JStr (ee_signer_identity e)),
      (''secp256k1_public_key'', JStr (ee_secp256k1_public_key e)), (''transaction_hash'', JStr (ee_transaction_hash e)),
      (''signing_hash'', JStr (ee_signing_hash e)), (''proposal_hash'', JStr (ee_proposal_hash e)),
      (''policy_version_id'', JStr (uuid_str (ee_policy_version_id e))), (''policy_hash'', JStr (ee_policy_hash e)),
      (''state_version'', JInt (ee_state_version e)), (''reservation_id'', JStr (uuid_str (ee_reservation_id e))),
      (''wallet'', JStr (ee_wallet e)), (''principal_id'', JStr (ee_principal_id e)), (''chain_id'', JInt (ee_chain_id e)),
      (''wallet_nonce'', JInt (ee_wallet_nonce e)), (''decision_id'', JStr (uuid_str (ee_decision_id e))),
      (''decision_nonce'', JStr (uuid_str (ee_decision_nonce e))), (''expires_at'', JStr (ee_expires_at e)),
      (''issued_at'', JStr (ee_issued_at e))]"

definition evidence_json :: "EnclaveEvidenceV1 \<Rightarrow> json" where
  "evidence_json e = obj (unsigned_fields e @ [(''evidence_hash'', JStr (ee_evidence_hash e)), (''evidence_signature'', JStr (ee_evidence_signature e))])"

definition unsigned_payload :: "primitives \<Rightarrow> EnclaveEvidenceV1 \<Rightarrow> bytes res" where
  "unsigned_payload P e = canonical_json (rfc8785 P) (obj (unsigned_fields e))"

record SettlementEvidenceV1 =
  sv_transaction_hash :: string
  sv_block_hash :: string
  sv_block_number :: int
  sv_chain_id :: int
  sv_success :: bool
  sv_confirmations :: int
  sv_observed_at :: time

definition make_SettlementEvidenceV1 :: "SettlementEvidenceV1 \<Rightarrow> SettlementEvidenceV1 res" where
  "make_SettlementEvidenceV1 v =
     (if Hex32 (sv_transaction_hash v) \<and> Hex32 (sv_block_hash v) \<and> 0 \<le> sv_block_number v \<and> 0 < sv_chain_id v \<and> 0 \<le> sv_confirmations v
      then Inr v else Inl (ValueError ''SettlementEvidenceV1''))"

record CompleteAttestationV1 =
  ca_lifecycle_state :: LifecycleState
  ca_proposal :: ProposalV1
  ca_decision :: DecisionTokenV1
  ca_transaction_binding :: TransactionBindingV1
  ca_signed_transaction :: SignedTransactionV1
  ca_enclave_evidence :: EnclaveEvidenceV1
  ca_settlement :: "SettlementEvidenceV1 option"

definition make_CompleteAttestationV1 :: "CompleteAttestationV1 \<Rightarrow> CompleteAttestationV1 res" where
  "make_CompleteAttestationV1 a =
     rbind (raise_first
       [(ca_lifecycle_state a \<notin> {SIGNED, SUBMITTED, SETTLED, REVERTED}, ValueError ''lifecycle_state''),
        ((ca_lifecycle_state a \<in> {SETTLED, REVERTED}) \<noteq> (ca_settlement a \<noteq> None),
         ValueError ''terminal attestations require settlement evidence'')]) (\<lambda>_. Inr a)"

section \<open>The offline verifier\<close>

record AttestationVerification =
  av_valid :: bool
  av_errors :: "string list"

text \<open>The messages of the checks that fail, in order.\<close>

definition failures :: "(bool \<times> string) list \<Rightarrow> string list" where
  "failures cs = map snd (filter fst cs)"

definition authority_checks :: "bool \<Rightarrow> time \<Rightarrow> time \<Rightarrow> string set \<Rightarrow> EnclaveEvidenceV1 \<Rightarrow> (bool \<times> string) list" where
  "authority_checks verified issued_at expires_at allowed_build_measurements evidence =
     [(\<not> verified, ''policy decision signature is invalid''),
      (issued_at > expires_at, ''enclave evidence was issued after expiry''),
      (ee_build_measurement evidence \<notin> allowed_build_measurements, ''signer build measurement is not approved'')]"

definition mismatch :: "string \<Rightarrow> string" where
  "mismatch name = ''enclave evidence '' @ name @ '' binding mismatch''"

definition evidence_checks :: "string \<Rightarrow> CompleteAttestationV1 \<Rightarrow> (bool \<times> string) list" where
  "evidence_checks h a =
     (let proposal = ca_proposal a; decision = ca_decision a; stx = ca_signed_transaction a; evidence = ca_enclave_evidence a in
      [(ee_proposal_hash evidence \<noteq> h, mismatch ''proposal_hash''),
       (ee_policy_version_id evidence \<noteq> dt_policy_version_id decision, mismatch ''policy_version_id''),
       (ee_policy_hash evidence \<noteq> dt_policy_hash decision, mismatch ''policy_hash''),
       (ee_state_version evidence \<noteq> dt_state_version decision, mismatch ''state_version''),
       (Some (ee_reservation_id evidence) \<noteq> dt_reservation_id decision, mismatch ''reservation_id''),
       (ee_wallet evidence \<noteq> pr_wallet proposal, mismatch ''wallet''),
       (ee_principal_id evidence \<noteq> pr_principal_id proposal, mismatch ''principal_id''),
       (ee_chain_id evidence \<noteq> pr_chain_id proposal, mismatch ''chain_id''),
       (ee_decision_id evidence \<noteq> dt_decision_id decision, mismatch ''decision_id''),
       (ee_decision_nonce evidence \<noteq> dt_decision_nonce decision, mismatch ''decision_nonce''),
       (ee_transaction_hash evidence \<noteq> st_transaction_hash stx, ''enclave evidence transaction hash mismatch''),
       (ee_signing_hash evidence \<noteq> st_eip1559_hash stx, ''enclave evidence signing hash mismatch''),
       (ee_wallet_nonce evidence \<noteq> st_wallet_nonce stx, ''enclave evidence wallet nonce mismatch''),
       (ee_signer_identity evidence \<noteq> lower (st_signer_identity stx), ''enclave evidence signer identity mismatch'')])"

definition binding_checks :: "time \<Rightarrow> CompleteAttestationV1 \<Rightarrow> (bool \<times> string) list" where
  "binding_checks expires_at a =
     (let proposal = ca_proposal a; decision = ca_decision a; stx = ca_signed_transaction a; binding = ca_transaction_binding a in
      [(expires_at > dt_expires_at decision \<or> expires_at > pr_deadline proposal, ''enclave evidence outlives authorization''),
       (st_decision_id stx \<noteq> dt_decision_id decision, ''signed transaction decision binding mismatch''),
       (st_wallet stx \<noteq> pr_wallet proposal \<or> st_chain_id stx \<noteq> pr_chain_id proposal, ''signed transaction scope mismatch''),
       (tb_wallet binding \<noteq> pr_wallet proposal \<or> tb_chain_id binding \<noteq> pr_chain_id proposal, ''transaction binding scope mismatch''),
       (tb_wallet_nonce binding \<noteq> st_wallet_nonce stx, ''transaction binding nonce mismatch''),
       (tb_asset binding \<noteq> pr_asset proposal \<or> tb_amount binding \<noteq> pr_amount proposal, ''transaction binding value mismatch''),
       (case pr_intent proposal of
          TransferIntentV1 recipient \<Rightarrow> (tb_operation binding \<noteq> Op_transfer \<or> tb_recipient binding \<noteq> Some recipient, ''transaction binding recipient mismatch'')
        | SwapIntentV1 contract selector calldata _ _ \<Rightarrow>
            (tb_operation binding \<noteq> Op_swap \<or> tb_contract binding \<noteq> Some contract \<or> tb_selector binding \<noteq> Some selector \<or>
             tb_calldata binding \<noteq> calldata, ''transaction binding contract call mismatch''))])"

definition verify_raw_signature :: "attestation_lib \<Rightarrow> bytes \<Rightarrow> bytes \<Rightarrow> string \<Rightarrow> bool res" where
  "verify_raw_signature L public_key digest signature =
     rbind (fromhex (drop 2 signature)) (\<lambda>raw.
     Inr (al_ecdsa_verify L public_key (be_nat (take 32 raw)) (be_nat (take 32 (drop 32 raw))) digest))"

definition key_identity :: "primitives \<Rightarrow> bytes \<Rightarrow> string" where
  "key_identity P public_key = (let d = keccak P (drop 1 public_key) in ''0x'' @ bytes_hex (drop (length d - 20) d))"

definition signature_checks :: "primitives \<Rightarrow> attestation_lib \<Rightarrow> bytes \<Rightarrow> CompleteAttestationV1 \<Rightarrow> (bool \<times> string) list res" where
  "signature_checks P L evidence_digest a =
     (let stx = ca_signed_transaction a; evidence = ca_enclave_evidence a in
      case bytes_fromhex (drop 2 (ee_secp256k1_public_key evidence)) of
        None \<Rightarrow> Inr [(True, ''secp256k1 public key is invalid'')]
      | Some public_key \<Rightarrow>
      if \<not> al_point L public_key then Inr [(True, ''secp256k1 public key is invalid'')]
      else
        rbind (verify_raw_signature L public_key evidence_digest (ee_evidence_signature evidence)) (\<lambda>evidence_ok.
        rbind (fromhex (drop 2 (st_eip1559_hash stx))) (\<lambda>signing_digest.
        rbind (verify_raw_signature L public_key signing_digest (st_signature stx)) (\<lambda>transaction_ok.
        Inr [(key_identity P public_key \<noteq> ee_signer_identity evidence, ''secp256k1 public key does not match signer identity''),
             (\<not> evidence_ok, ''enclave evidence signature is invalid''), (\<not> transaction_ok, ''transaction signature is invalid'')]))))"

definition raw_checks :: "primitives \<Rightarrow> SignedTransactionV1 \<Rightarrow> (bool \<times> string) list" where
  "raw_checks P stx = (case bytes_fromhex (drop 2 (st_raw_transaction stx)) of
     None \<Rightarrow> [(True, ''signed raw transaction is not hexadecimal'')]
   | Some raw \<Rightarrow> [(''0x'' @ bytes_hex (keccak P raw) \<noteq> st_transaction_hash stx, ''signed raw transaction hash mismatch'')])"

definition settlement_checks :: "CompleteAttestationV1 \<Rightarrow> (bool \<times> string) list" where
  "settlement_checks a = (case ca_settlement a of
     None \<Rightarrow> []
   | Some v \<Rightarrow>
       [(sv_transaction_hash v \<noteq> st_transaction_hash (ca_signed_transaction a) \<or> sv_chain_id v \<noteq> st_chain_id (ca_signed_transaction a),
         ''settlement scope mismatch''),
        (sv_success v \<noteq> (ca_lifecycle_state a = SETTLED), ''settlement result does not match lifecycle state'')])"

definition verify_complete_attestation ::
  "primitives \<Rightarrow> attestation_lib \<Rightarrow> CompleteAttestationV1 \<Rightarrow> bytes \<Rightarrow> string set \<Rightarrow> AttestationVerification res" where
  "verify_complete_attestation P L a policy_public_key allowed_build_measurements =
     (let evidence = ca_enclave_evidence a; stx = ca_signed_transaction a in
      rbind (timestamp L (ee_issued_at evidence)) (\<lambda>issued_at.
      rbind (timestamp L (ee_expires_at evidence)) (\<lambda>expires_at.
      rbind (verify_decision_token P (ca_decision a) policy_public_key issued_at) (\<lambda>verified.
      rbind (proposal_hash P (ca_proposal a)) (\<lambda>h.
      rbind (unsigned_payload P evidence) (\<lambda>payload.
      rbind (signature_checks P L (sha256 P payload) a) (\<lambda>signatures.
      rbind (canonical_json (rfc8785 P) (st_enclave_evidence stx)) (\<lambda>carried.
      rbind (canonical_json (rfc8785 P) (evidence_json evidence)) (\<lambda>dumped.
      let errors = failures (authority_checks verified issued_at expires_at allowed_build_measurements evidence @ evidence_checks h a @
        binding_checks expires_at a @ [(ee_evidence_hash evidence \<noteq> ''0x'' @ bytes_hex (sha256 P payload), ''enclave evidence hash mismatch'')] @
        signatures @ [(carried \<noteq> dumped, ''signed transaction carries different enclave evidence'')] @ raw_checks P stx @ settlement_checks a)
      in Inr \<lparr>av_valid = (errors = []), av_errors = errors\<rparr>)))))))))"

section \<open>The stores\<close>

type_synonym MemoryAttestationStore = "(uuid, CompleteAttestationV1) dict"

definition mat_get :: "uuid \<Rightarrow> MemoryAttestationStore \<Rightarrow> CompleteAttestationV1 option" where
  "mat_get pid s = dget s pid"

definition mat_put :: "uuid \<Rightarrow> CompleteAttestationV1 \<Rightarrow> MemoryAttestationStore \<Rightarrow> ((CompleteAttestationV1 \<times> bool) \<times> MemoryAttestationStore) res" where
  "mat_put pid a s = (case dget s pid of
     Some existing \<Rightarrow> Inr ((existing, False), s)
   | None \<Rightarrow>
       if pr_proposal_id (ca_proposal a) \<noteq> pid then Inl (ValueError ''attestation proposal binding mismatch'')
       else Inr ((a, True), dset pid a s))"

record attestations_row =
  aw_id :: uuid
  aw_decision_id :: uuid
  aw_transaction_id :: uuid
  aw_signer_identity :: string
  aw_build_measurement :: string
  aw_evidence :: CompleteAttestationV1
  aw_expires_at :: time

record attestation_tables = settlement_tables +
  attestations :: "attestations_row list"

text \<open>\<open>model_validate_json\<close>: every nested model is validated again.\<close>

definition validate_attestation :: "attestation_lib \<Rightarrow> CompleteAttestationV1 \<Rightarrow> CompleteAttestationV1 res" where
  "validate_attestation L a =
     rbind (make_ProposalV1 (ca_proposal a)) (\<lambda>proposal.
     rbind (make_DecisionTokenV1 (ca_decision a)) (\<lambda>decision.
     rbind (make_TransactionBindingV1 (ca_transaction_binding a)) (\<lambda>binding.
     rbind (make_SignedTransactionV1 (ca_signed_transaction a)) (\<lambda>stx.
     rbind (make_EnclaveEvidenceV1 L (ca_enclave_evidence a)) (\<lambda>evidence.
     rbind (case ca_settlement a of None \<Rightarrow> Inr None | Some v \<Rightarrow> rbind (make_SettlementEvidenceV1 v) (\<lambda>v. Inr (Some v))) (\<lambda>settlement.
     make_CompleteAttestationV1 (a\<lparr>ca_proposal := proposal, ca_decision := decision, ca_transaction_binding := binding,
       ca_signed_transaction := stx, ca_enclave_evidence := evidence, ca_settlement := settlement\<rparr>)))))))"

text \<open>\<open>JOIN decisions d ON d.id=a.decision_id WHERE d.proposal_id=\<close> the proposal.\<close>

definition attestation_row :: "uuid \<Rightarrow> attestation_tables \<Rightarrow> attestations_row option" where
  "attestation_row pid db =
     find (\<lambda>w. list_ex (\<lambda>d. dr_id d = aw_decision_id w \<and> dr_proposal_id d = pid) (decisions db)) (attestations db)"

definition pat_get :: "attestation_lib \<Rightarrow> uuid \<Rightarrow> attestation_tables \<Rightarrow> CompleteAttestationV1 option res" where
  "pat_get L pid db = (case attestation_row pid db of
     None \<Rightarrow> Inr None
   | Some w \<Rightarrow> rbind (validate_attestation L (aw_evidence w)) (\<lambda>a. Inr (Some a)))"

text \<open>The first pair of a decision of the proposal and its transaction.\<close>

definition durable_binding :: "uuid \<Rightarrow> attestation_tables \<Rightarrow> (uuid \<times> uuid) option" where
  "durable_binding pid db =
     (case concat (map (\<lambda>d. map (\<lambda>t. (dr_id d, tr_id t)) (filter (\<lambda>t. tr_decision_id t = dr_id d) (transactions db)))
        (filter (\<lambda>d. dr_proposal_id d = pid) (decisions db))) of
        [] \<Rightarrow> None
      | b # _ \<Rightarrow> Some b)"

definition pat_put :: "attestation_lib \<Rightarrow> uuid \<Rightarrow> uuid \<Rightarrow> CompleteAttestationV1 \<Rightarrow> attestation_tables \<Rightarrow>
  ((CompleteAttestationV1 \<times> bool) \<times> attestation_tables) res" where
  "pat_put L rid pid a db =
     (if pr_proposal_id (ca_proposal a) \<noteq> pid then Inl (ValueError ''attestation proposal binding mismatch'')
      else case durable_binding pid db of
        None \<Rightarrow> Inl (ValueError ''attestation requires a durable signed transaction'')
      | Some (did, tid) \<Rightarrow>
          if did \<noteq> dt_decision_id (ca_decision a) then Inl (ValueError ''attestation decision binding mismatch'')
          else
            rbind (timestamp L (ee_expires_at (ca_enclave_evidence a))) (\<lambda>expires_at.
            rbind (if list_ex (\<lambda>w. aw_decision_id w = did) (attestations db) then Inr (False, db)
                   else if list_ex (\<lambda>w. aw_id w = rid) (attestations db) then Inl (UniqueViolation ''attestations'')
                   else Inr (True, db\<lparr>attestations := attestations db @ [\<lparr>aw_id = rid, aw_decision_id = did, aw_transaction_id = tid,
                     aw_signer_identity = ee_signer_identity (ca_enclave_evidence a), aw_build_measurement = ee_build_measurement (ca_enclave_evidence a),
                     aw_evidence = a, aw_expires_at = expires_at\<rparr>]\<rparr>)) (\<lambda>(inserted, db).
            rbind (pat_get L pid db) (\<lambda>stored.
            rbind (of_option AssertionError stored) (\<lambda>stored. Inr ((stored, inserted), db))))))"

section \<open>What the verifier establishes\<close>

lemma failures_Nil: "failures cs = [] \<longleftrightarrow> list_all (\<lambda>c. \<not> fst c) cs"
  by (auto simp: failures_def filter_empty_conv list_all_iff)

text \<open>The bytes hashed with SHA-256 for the proposal and for the evidence, and with Keccak-256 for the transaction.\<close>

definition sha_inputs :: "primitives \<Rightarrow> CompleteAttestationV1 \<Rightarrow> bytes set" where
  "sha_inputs P a = proposal_inputs P (ca_proposal a) \<union> {b. unsigned_payload P (ca_enclave_evidence a) = Inr b}"

definition keccak_inputs :: "CompleteAttestationV1 \<Rightarrow> bytes set" where
  "keccak_inputs a = {b. bytes_fromhex (drop 2 (st_raw_transaction (ca_signed_transaction a))) = Some b}"

text \<open>What an attestation says was authorized and signed.\<close>

definition attested :: "CompleteAttestationV1 \<Rightarrow> ProposalV1 \<times> (uuid \<times> uuid \<times> uuid \<times> string \<times> uuid option) \<times> bytes option \<times> string \<times> int" where
  "attested a =
     (ca_proposal a,
      (let d = ca_decision a in (dt_decision_id d, dt_decision_nonce d, dt_policy_version_id d, dt_policy_hash d, dt_reservation_id d)),
      bytes_fromhex (drop 2 (st_raw_transaction (ca_signed_transaction a))), st_eip1559_hash (ca_signed_transaction a),
      st_wallet_nonce (ca_signed_transaction a))"

lemma verify_valid:
  assumes "verify_complete_attestation P L a key allowed = Inr r" "av_valid r"
  obtains issued expires h payload raw sigs where
    "al_fromisoformat L (ee_issued_at (ca_enclave_evidence a)) = Some issued"
    "al_fromisoformat L (ee_expires_at (ca_enclave_evidence a)) = Some expires"
    "verify_decision_token P (ca_decision a) key issued = Inr True" "issued \<le> expires"
    "ee_build_measurement (ca_enclave_evidence a) \<in> allowed"
    "proposal_hash P (ca_proposal a) = Inr h" "list_all (\<lambda>c. \<not> fst c) (evidence_checks h a)" "list_all (\<lambda>c. \<not> fst c) (binding_checks expires a)"
    "unsigned_payload P (ca_enclave_evidence a) = Inr payload"
    "ee_evidence_hash (ca_enclave_evidence a) = ''0x'' @ bytes_hex (sha256 P payload)"
    "signature_checks P L (sha256 P payload) a = Inr sigs" "list_all (\<lambda>c. \<not> fst c) sigs"
    "bytes_fromhex (drop 2 (st_raw_transaction (ca_signed_transaction a))) = Some raw"
    "st_transaction_hash (ca_signed_transaction a) = ''0x'' @ bytes_hex (keccak P raw)" "list_all (\<lambda>c. \<not> fst c) (settlement_checks a)"
proof -
  let ?errors = "\<lambda>verified issued expires h payload sigs carried dumped.
    failures (authority_checks verified issued expires allowed (ca_enclave_evidence a) @ evidence_checks h a @ binding_checks expires a @
        [(ee_evidence_hash (ca_enclave_evidence a) \<noteq> ''0x'' @ bytes_hex (sha256 P payload), ''enclave evidence hash mismatch'')] @
        sigs @ [(carried \<noteq> dumped, ''signed transaction carries different enclave evidence'')] @
        raw_checks P (ca_signed_transaction a) @ settlement_checks a)"
  from assms(1) obtain issued expires verified h payload sigs and carried dumped :: bytes where
    t: "al_fromisoformat L (ee_issued_at (ca_enclave_evidence a)) = Some issued"
      "al_fromisoformat L (ee_expires_at (ca_enclave_evidence a)) = Some expires"
    and v: "verify_decision_token P (ca_decision a) key issued = Inr verified" "proposal_hash P (ca_proposal a) = Inr h"
      "unsigned_payload P (ca_enclave_evidence a) = Inr payload" "signature_checks P L (sha256 P payload) a = Inr sigs"
    and r: "\<lparr>av_valid = (?errors verified issued expires h payload sigs carried dumped = []),
      av_errors = ?errors verified issued expires h payload sigs carried dumped\<rparr> = r"
    unfolding verify_complete_attestation_def timestamp_def Let_def rbind_Inr_iff of_option_simps(3) sum.inject
    by (elim exE conjE) (rule that, assumption+)
  from r assms(2) have e: "?errors verified issued expires h payload sigs carried dumped = []" by auto
  note e = e [unfolded failures_Nil list_all_append]
  from e have "list_all (\<lambda>c. \<not> fst c) (raw_checks P (ca_signed_transaction a))" by blast
  then obtain raw where "bytes_fromhex (drop 2 (st_raw_transaction (ca_signed_transaction a))) = Some raw"
    "st_transaction_hash (ca_signed_transaction a) = ''0x'' @ bytes_hex (keccak P raw)"
    by (auto simp: raw_checks_def split: option.splits)
  with t v e show thesis by (intro that [of issued expires h payload sigs raw]) (auto simp: authority_checks_def)
qed

lemma unsigned_fields_distinct: "distinct (map fst (unsigned_fields e))"
  by (simp add: unsigned_fields_def)

lemma unsigned_payload_inject:
  assumes "iso_ok P" "unsigned_payload P e = Inr b" "unsigned_payload P f = Inr b"
  shows "e = f\<lparr>ee_evidence_hash := ee_evidence_hash e, ee_evidence_signature := ee_evidence_signature e\<rparr>"
proof -
  have "sort_keys (obj (unsigned_fields e)) = sort_keys (obj (unsigned_fields f))"
    using assms unfolding unsigned_payload_def iso_ok_def by (blast intro: canonical_json_document)
  then have field: "map_option sort_keys (map_of (unsigned_fields e) k) = map_option sort_keys (map_of (unsigned_fields f) k)" for k
    by (rule obj_fields_eq) (rule unsigned_fields_distinct)+
  note field = field [unfolded unsigned_fields_def, simplified]
  show ?thesis
    using field [of "''mode''"] field [of "''build_measurement''"] field [of "''signer_identity''"] field [of "''secp256k1_public_key''"]
      field [of "''transaction_hash''"] field [of "''signing_hash''"] field [of "''proposal_hash''"] field [of "''policy_version_id''"]
      field [of "''policy_hash''"] field [of "''state_version''"] field [of "''reservation_id''"] field [of "''wallet''"]
      field [of "''principal_id''"] field [of "''chain_id''"] field [of "''wallet_nonce''"] field [of "''decision_id''"]
      field [of "''decision_nonce''"] field [of "''expires_at''"] field [of "''issued_at''"]
    by (simp add: uuid_str_inject)
qed

lemma attested_determined:
  assumes "iso_ok P"
    and "verify_complete_attestation P L a key allowed = Inr r" "av_valid r"
    and "verify_complete_attestation P L b key' allowed' = Inr q" "av_valid q"
    and "ee_evidence_hash (ca_enclave_evidence a) = ee_evidence_hash (ca_enclave_evidence b)"
  shows "attested a = attested b \<or> collide (sha256 P) (sha_inputs P a) (sha_inputs P b) \<or> collide (keccak P) (keccak_inputs a) (keccak_inputs b)"
proof (cases "collide (sha256 P) (sha_inputs P a) (sha_inputs P b) \<or> collide (keccak P) (keccak_inputs a) (keccak_inputs b)")
  case False
  from assms(2,3) obtain h payload raw expires where a: "proposal_hash P (ca_proposal a) = Inr h" "list_all (\<lambda>c. \<not> fst c) (evidence_checks h a)"
    "unsigned_payload P (ca_enclave_evidence a) = Inr payload" "ee_evidence_hash (ca_enclave_evidence a) = ''0x'' @ bytes_hex (sha256 P payload)"
    "bytes_fromhex (drop 2 (st_raw_transaction (ca_signed_transaction a))) = Some raw"
    "st_transaction_hash (ca_signed_transaction a) = ''0x'' @ bytes_hex (keccak P raw)"
    "list_all (\<lambda>c. \<not> fst c) (binding_checks expires a)"
    by (rule verify_valid) (rule that, assumption+)
  from assms(4,5) obtain g payload' raw' expires' where b: "proposal_hash P (ca_proposal b) = Inr g" "list_all (\<lambda>c. \<not> fst c) (evidence_checks g b)"
    "unsigned_payload P (ca_enclave_evidence b) = Inr payload'" "ee_evidence_hash (ca_enclave_evidence b) = ''0x'' @ bytes_hex (sha256 P payload')"
    "bytes_fromhex (drop 2 (st_raw_transaction (ca_signed_transaction b))) = Some raw'"
    "st_transaction_hash (ca_signed_transaction b) = ''0x'' @ bytes_hex (keccak P raw')"
    "list_all (\<lambda>c. \<not> fst c) (binding_checks expires' b)"
    by (rule verify_valid) (rule that, assumption+)
  have "sha256 P payload = sha256 P payload'" using a(4) b(4) assms(6) by simp
  moreover have "payload \<in> sha_inputs P a" "payload' \<in> sha_inputs P b" using a(3) b(3) by (simp_all add: sha_inputs_def)
  ultimately have "payload = payload'" using False unfolding collide_def by blast
  with a(3) b(3) have e: "ca_enclave_evidence a = (ca_enclave_evidence b)\<lparr>ee_evidence_hash := ee_evidence_hash (ca_enclave_evidence a),
      ee_evidence_signature := ee_evidence_signature (ca_enclave_evidence a)\<rparr>"
    by (intro unsigned_payload_inject [OF assms(1)]) simp_all
  note same = e [THEN arg_cong, of ee_proposal_hash, simplified] e [THEN arg_cong, of ee_transaction_hash, simplified]
    e [THEN arg_cong, of ee_reservation_id, simplified] e [THEN arg_cong, of ee_decision_id, simplified]
    e [THEN arg_cong, of ee_decision_nonce, simplified] e [THEN arg_cong, of ee_policy_version_id, simplified]
    e [THEN arg_cong, of ee_policy_hash, simplified] e [THEN arg_cong, of ee_signing_hash, simplified]
    e [THEN arg_cong, of ee_wallet_nonce, simplified]
  note ca = a(2) [unfolded evidence_checks_def Let_def, simplified] and cb = b(2) [unfolded evidence_checks_def Let_def, simplified]
  have eqs: "h = g" "keccak P raw = keccak P raw'" "dt_decision_id (ca_decision a) = dt_decision_id (ca_decision b)"
    "dt_decision_nonce (ca_decision a) = dt_decision_nonce (ca_decision b)" "dt_policy_version_id (ca_decision a) = dt_policy_version_id (ca_decision b)"
    "dt_policy_hash (ca_decision a) = dt_policy_hash (ca_decision b)" "dt_reservation_id (ca_decision a) = dt_reservation_id (ca_decision b)"
    "st_eip1559_hash (ca_signed_transaction a) = st_eip1559_hash (ca_signed_transaction b)"
    "st_wallet_nonce (ca_signed_transaction a) = st_wallet_nonce (ca_signed_transaction b)"
    using ca cb same a(6) b(6) by auto
  then have "ca_proposal a = ca_proposal b \<or> collide (sha256 P) (proposal_inputs P (ca_proposal a)) (proposal_inputs P (ca_proposal b))"
    using a(1) b(1) by (intro proposal_hash_inject [OF assms(1)]) simp_all
  moreover have "\<not> collide (sha256 P) (proposal_inputs P (ca_proposal a)) (proposal_inputs P (ca_proposal b))"
    using False unfolding sha_inputs_def collide_def by blast
  moreover have "raw = raw'" using False eqs(2) a(5) b(5) unfolding collide_def keccak_inputs_def by blast
  ultimately show ?thesis using eqs a(5) b(5) by (simp add: attested_def Let_def)
qed simp

section \<open>The contract of an attestation store\<close>

locale attestation_store =
  fixes inv :: "'s \<Rightarrow> bool"
    and get :: "uuid \<Rightarrow> 's \<Rightarrow> CompleteAttestationV1 option res"
    and put :: "'e \<Rightarrow> uuid \<Rightarrow> CompleteAttestationV1 \<Rightarrow> 's \<Rightarrow> ((CompleteAttestationV1 \<times> bool) \<times> 's) res"
  assumes put_inv: "inv s \<Longrightarrow> put e p a s = Inr ((b, c), s') \<Longrightarrow> inv s'"
    and put_get: "inv s \<Longrightarrow> put e p a s = Inr ((b, c), s') \<Longrightarrow> get p s' = Inr (Some b)"
    and put_known: "inv s \<Longrightarrow> get p s = Inr (Some d) \<Longrightarrow> put e p a s = Inr ((b, c), s') \<Longrightarrow> b = d \<and> \<not> c \<and> s' = s"
    and put_frame: "inv s \<Longrightarrow> put e p a s = Inr ((b, c), s') \<Longrightarrow> q \<noteq> p \<Longrightarrow> get q s' = get q s"
begin

text \<open>After any writes the first attestation of a proposal is the one that is read and returned.\<close>

lemma first_stays:
  "inv s \<Longrightarrow> get p s = Inr (Some d) \<Longrightarrow>
     get p (fold (\<lambda>(e, p, a) s. after snd s (put e p a s)) ws s) = Inr (Some d) \<and>
     inv (fold (\<lambda>(e, p, a) s. after snd s (put e p a s)) ws s)"
proof (induction ws arbitrary: s)
  case (Cons w ws)
  obtain e q a where w: "w = (e, q, a)" by (cases w)
  show ?case
  proof (cases "put e q a s")
    case (Inl x)
    then show ?thesis using Cons by (simp add: w after_def)
  next
    case (Inr x)
    then obtain b c s' where x: "put e q a s = Inr ((b, c), s')" by (cases x) auto
    have "get p s' = Inr (Some d)"
      using put_known [OF Cons.prems(1) _ x] put_frame [OF Cons.prems(1) x, of p] Cons.prems(2) by (cases "p = q") auto
    with Cons.IH [OF put_inv [OF Cons.prems(1) x]] show ?thesis by (simp add: w x after_def)
  qed
qed simp

end

interpretation memory_attestations: attestation_store "\<lambda>_. True" "\<lambda>p s. Inr (mat_get p s)" "\<lambda>_. mat_put"
  by unfold_locales (auto simp: mat_get_def mat_put_def split: option.splits if_splits)

text \<open>The keys of the \<open>decisions\<close> table.\<close>

definition decision_keys :: "attestation_tables \<Rightarrow> bool" where
  "decision_keys db \<longleftrightarrow> distinct (map dr_id (decisions db)) \<and> distinct (map dr_proposal_id (decisions db))"

lemma case_list_Some: "(case xs of [] \<Rightarrow> None | x # _ \<Rightarrow> Some x) = Some y \<Longrightarrow> y \<in> set xs"
  by (cases xs) simp_all

lemma durable_binding_Some:
  assumes "durable_binding pid db = Some (did, tid)"
  shows "\<exists>d \<in> set (decisions db). dr_id d = did \<and> dr_proposal_id d = pid"
proof -
  have "(did, tid) \<in> set (concat (map (\<lambda>d. map (\<lambda>t. (dr_id d, tr_id t)) (filter (\<lambda>t. tr_decision_id t = dr_id d) (transactions db)))
        (filter (\<lambda>d. dr_proposal_id d = pid) (decisions db))))"
    using assms unfolding durable_binding_def by (rule case_list_Some)
  then show ?thesis by auto
qed

lemma pat_put_Inr:
  assumes "pat_put L rid pid a db = Inr ((b, c), db')"
  obtains did w where "\<exists>d \<in> set (decisions db). dr_id d = did \<and> dr_proposal_id d = pid" "pat_get L pid db' = Inr (Some b)"
    "(\<not> c \<and> db' = db) \<or> (c \<and> db' = db\<lparr>attestations := attestations db @ [w]\<rparr> \<and> aw_decision_id w = did \<and>
       \<not> list_ex (\<lambda>w. aw_decision_id w = did) (attestations db))"
proof -
  from assms obtain did tid where d: "durable_binding pid db = Some (did, tid)"
    by (auto simp: pat_put_def split: if_splits option.splits)
  let ?row = "\<lambda>t. \<lparr>aw_id = rid, aw_decision_id = did, aw_transaction_id = tid,
     aw_signer_identity = ee_signer_identity (ca_enclave_evidence a), aw_build_measurement = ee_build_measurement (ca_enclave_evidence a),
     aw_evidence = a, aw_expires_at = t\<rparr>"
  from assms d have "pr_proposal_id (ca_proposal a) = pid" "did = dt_decision_id (ca_decision a)"
    by (auto simp: pat_put_def split: if_splits)
  with assms d obtain t where g: "pat_get L pid db' = Inr (Some b)"
    and i: "(if list_ex (\<lambda>w. aw_decision_id w = did) (attestations db) then Inr (False, db)
       else if list_ex (\<lambda>w. aw_id w = rid) (attestations db) then Inl (UniqueViolation ''attestations'')
       else Inr (True, db\<lparr>attestations := attestations db @ [?row t]\<rparr>)) = Inr (c, db')"
    unfolding pat_put_def by (auto simp: rbind_Inr_iff)
  show thesis
    by (rule that [OF durable_binding_Some [OF d] g, of "?row t"]) (use i in \<open>auto split: if_splits\<close>)
qed

lemma attestation_row_append:
  assumes "decision_keys db" "d \<in> set (decisions db)" "dr_id d = aw_decision_id w" "dr_proposal_id d \<noteq> q"
  shows "pat_get L q (db\<lparr>attestations := attestations db @ [w]\<rparr>) = pat_get L q db"
proof -
  have "\<not> list_ex (\<lambda>d. dr_id d = aw_decision_id w \<and> dr_proposal_id d = q) (decisions db)"
    using assms by (auto simp: decision_keys_def list_ex_iff distinct_map inj_on_def)
  then show ?thesis by (simp add: pat_get_def attestation_row_def find_append split: option.splits)
qed

lemma pat_put_known:
  assumes "decision_keys db" "pat_get L p db = Inr (Some y)" "pat_put L rid p a db = Inr ((b, c), db')"
  shows "b = y \<and> \<not> c \<and> db' = db"
  using assms(3)
proof (rule pat_put_Inr)
  fix did w
  assume d: "\<exists>d \<in> set (decisions db). dr_id d = did \<and> dr_proposal_id d = p" and g: "pat_get L p db' = Inr (Some b)"
    and r: "(\<not> c \<and> db' = db) \<or> (c \<and> db' = db\<lparr>attestations := attestations db @ [w]\<rparr> \<and> aw_decision_id w = did \<and>
       \<not> list_ex (\<lambda>w. aw_decision_id w = did) (attestations db))"
  from assms(2) obtain v where v: "attestation_row p db = Some v" by (auto simp: pat_get_def split: option.splits)
  from find_Some_mem [OF v [unfolded attestation_row_def]]
  obtain e where e: "v \<in> set (attestations db)" "e \<in> set (decisions db)" "dr_id e = aw_decision_id v" "dr_proposal_id e = p"
    unfolding list_ex_iff by blast
  from d obtain f where f: "f \<in> set (decisions db)" "dr_id f = did" "dr_proposal_id f = p" by blast
  have "inj_on dr_proposal_id (set (decisions db))" using assms(1) by (simp add: decision_keys_def distinct_map)
  then have "e = f" by (rule inj_onD) (use e f in simp_all)
  then have "list_ex (\<lambda>w. aw_decision_id w = did) (attestations db)" using e f(2) unfolding list_ex_iff by metis
  with r have "\<not> c \<and> db' = db" by blast
  with g assms(2) show ?thesis by simp
qed

lemma pat_put_keeps:
  assumes "decision_keys s" "pat_put L e p a s = Inr ((b, c), s')"
  shows "decision_keys s' \<and> pat_get L p s' = Inr (Some b) \<and> (q \<noteq> p \<longrightarrow> pat_get L q s' = pat_get L q s)"
  using assms(2)
proof (rule pat_put_Inr)
  fix did w
  assume d: "\<exists>d \<in> set (decisions s). dr_id d = did \<and> dr_proposal_id d = p" and g: "pat_get L p s' = Inr (Some b)"
    and r: "(\<not> c \<and> s' = s) \<or> (c \<and> s' = s\<lparr>attestations := attestations s @ [w]\<rparr> \<and> aw_decision_id w = did \<and>
       \<not> list_ex (\<lambda>w. aw_decision_id w = did) (attestations s))"
  from r have s': "s' = s \<or> (s' = s\<lparr>attestations := attestations s @ [w]\<rparr> \<and> aw_decision_id w = did)" by blast
  have "decision_keys s'" using s' assms(1) by (auto simp: decision_keys_def)
  moreover have "q \<noteq> p \<longrightarrow> pat_get L q s' = pat_get L q s"
    using s' d attestation_row_append [OF assms(1), of _ w q L] by blast
  ultimately show ?thesis using g by blast
qed

interpretation table_attestations: attestation_store decision_keys "pat_get L" "pat_put L" for L
  by unfold_locales (blast dest: pat_put_keeps pat_put_known)+

section \<open>An example\<close>

definition sample_lib :: attestation_lib where
  "sample_lib = \<lparr>al_fromisoformat = (\<lambda>s. Some (seconds (if s = ''1970-01-01T00:00:20Z'' then 20 else 30))), al_point = (\<lambda>_. True),
     al_ecdsa_verify = (\<lambda>_ _ _ _. True)\<rparr>"

definition sample_signature_text :: string where
  "sample_signature_text = ''0x'' @ bytes_hex (replicate 65 1)"

definition sample_evidence :: "DecisionTokenV1 \<Rightarrow> string \<Rightarrow> string \<Rightarrow> EnclaveEvidenceV1" where
  "sample_evidence d h evidence_hash =
     \<lparr>ee_mode = ''aws-nitro'', ee_build_measurement = ''pcr0'', ee_signer_identity = key_identity prims (4 # replicate 64 1),
      ee_secp256k1_public_key = ''0x'' @ bytes_hex (4 # replicate 64 1), ee_transaction_hash = ''0x'' @ bytes_hex (keccak prims [2]),
      ee_signing_hash = ''0x'' @ bytes_hex (replicate 32 0), ee_proposal_hash = h, ee_policy_version_id = dt_policy_version_id d,
      ee_policy_hash = dt_policy_hash d, ee_state_version = dt_state_version d, ee_reservation_id = 7, ee_wallet = pr_wallet sample_transfer,
      ee_principal_id = pr_principal_id sample_transfer, ee_chain_id = pr_chain_id sample_transfer, ee_wallet_nonce = 0,
      ee_decision_id = dt_decision_id d, ee_decision_nonce = dt_decision_nonce d, ee_expires_at = ''1970-01-01T00:00:30Z'',
      ee_issued_at = ''1970-01-01T00:00:20Z'', ee_evidence_hash = evidence_hash, ee_evidence_signature = sample_signature_text\<rparr>"

definition sample_attestation :: "DecisionTokenV1 \<Rightarrow> EnclaveEvidenceV1 \<Rightarrow> CompleteAttestationV1" where
  "sample_attestation d e =
     \<lparr>ca_lifecycle_state = SETTLED, ca_proposal = sample_transfer, ca_decision = d,
      ca_transaction_binding = transfer_binding sample_transfer 0 1 2 21000,
      ca_signed_transaction = \<lparr>st_transaction_id = 1, st_eip712_hash = ''0x'', st_eip1559_hash = ''0x'' @ bytes_hex (replicate 32 0),
        st_transaction_hash = ''0x'' @ bytes_hex (keccak prims [2]), st_raw_transaction = ''0x'' @ bytes_hex [2],
        st_wallet = pr_wallet sample_transfer, st_wallet_nonce = 0, st_chain_id = pr_chain_id sample_transfer,
        st_decision_id = dt_decision_id d, st_signer_identity = ee_signer_identity e, st_enclave_evidence = evidence_json e,
        st_signature = sample_signature_text\<rparr>,
      ca_enclave_evidence = e,
      ca_settlement = Some \<lparr>sv_transaction_hash = ''0x'' @ bytes_hex (keccak prims [2]), sv_block_hash = ''0x'', sv_block_number = 1,
        sv_chain_id = pr_chain_id sample_transfer, sv_success = True, sv_confirmations = 2, sv_observed_at = 0\<rparr>\<rparr>"

lemma supported_evidence: "supported (obj (unsigned_fields e))" "supported (evidence_json e)"
  by (simp_all add: unsigned_fields_def evidence_json_def obj_def)

lemma unsigned_payload_hash: "unsigned_payload P (e\<lparr>ee_evidence_hash := x\<rparr>) = unsigned_payload P e"
  by (simp add: unsigned_payload_def unsigned_fields_def)

lemma sample_attestation_valid:
  "\<exists>a r. verify_complete_attestation prims sample_lib a (issuer_public_key sample_issuer) {''pcr0''} = Inr r \<and> av_valid r"
proof -
  obtain d where d: "issue prims (seconds 10) 1 2 sample_issuer sample_record sample_version = Inr d" "dt_expires_at d = seconds 40"
    using sample_issue by blast
  have d': "issue prims (seconds 10) 1 2 (issuer_from_seed prims ''policy'' 30) sample_record sample_version = Inr d"
    using d(1) by (simp add: sample_issuer_def)
  have "seconds 20 < dt_expires_at d" by (simp add: d(2) seconds_def)
  from issued_verifies [OF prims_ok(2) d' this]
  have v: "verify_decision_token prims d (issuer_public_key sample_issuer) (seconds 20) = Inr True" by (simp add: sample_issuer_def)
  have "dt_reservation_id d = rec_reservation_id sample_record" using d'
    by (rule issue_Inr) (simp add: placeholder_token_def)
  then have rid: "dt_reservation_id d = Some 7" by (simp add: sample_record_facts(3))
  have none: "rfc8785 prims = None" by (simp add: prims_def)
  obtain h where h: "proposal_hash prims sample_transfer = Inr h" using proposal_hash_stdlib [OF none] by blast
  let ?e0 = "sample_evidence d h []"
  obtain p where p: "unsigned_payload prims ?e0 = Inr p"
    using supported_evidence(1) [of ?e0] by (auto simp: unsigned_payload_def none canonical_json_stdlib json_dumps_def)
  let ?e = "?e0\<lparr>ee_evidence_hash := ''0x'' @ bytes_hex (sha256 prims p)\<rparr>"
  obtain j where j: "canonical_json (rfc8785 prims) (evidence_json ?e) = Inr j"
    using supported_evidence(2) [of ?e] by (auto simp: none canonical_json_stdlib json_dumps_def)
  let ?a = "sample_attestation d ?e"
  have "signature_checks prims sample_lib (sha256 prims p) ?a = Inr [(False, ''secp256k1 public key does not match signer identity''),
      (False, ''enclave evidence signature is invalid''), (False, ''transaction signature is invalid'')]"
    by (simp add: signature_checks_def sample_attestation_def sample_evidence_def sample_lib_def verify_raw_signature_def
        sample_signature_text_def fromhex_def Let_def del: bytes_hex.simps bytes_fromhex.simps)
  moreover have "unsigned_payload prims ?e = Inr p" using p by (simp only: unsigned_payload_hash)
  moreover have "lower (key_identity prims (4 # replicate 64 1)) = key_identity prims (4 # replicate 64 1)"
    unfolding key_identity_def Let_def by (rule hex_text(2))
  ultimately have "\<exists>r. verify_complete_attestation prims sample_lib ?a (issuer_public_key sample_issuer) {''pcr0''} = Inr r \<and> av_valid r"
    using v rid h j d(2)
    by (simp add: verify_complete_attestation_def timestamp_def Let_def del: bytes_hex.simps bytes_fromhex.simps)
      (simp add: sample_attestation_def sample_evidence_def sample_lib_def failures_def authority_checks_def evidence_checks_def binding_checks_def
        raw_checks_def settlement_checks_def transfer_binding_def seconds_def sample_transfer_def del: bytes_hex.simps bytes_fromhex.simps)
  then show ?thesis by blast
qed

section \<open>Properties\<close>

text \<open>C15. The evidence hash commits to the whole execution: two attestations that verify offline and carry the same
  evidence hash, whatever policy keys and measurements the verifiers trust, attest the same proposal, the same decision
  with its policy and reservation, the same signing hash and wallet nonce and the same signed transaction bytes, or the
  bytes hashed for them are a collision of SHA-256 or Keccak-256.\<close>

theorem attestation_binds:
  assumes "iso_ok P"
    and "verify_complete_attestation P L a key allowed = Inr r" "av_valid r"
    and "verify_complete_attestation P L b key' allowed' = Inr q" "av_valid q"
    and "ee_evidence_hash (ca_enclave_evidence a) = ee_evidence_hash (ca_enclave_evidence b)"
  shows "attested a = attested b \<or> collide (sha256 P) (sha_inputs P a) (sha_inputs P b) \<or> collide (keccak P) (keccak_inputs a) (keccak_inputs b)"
  using assms by (rule attested_determined)

theorem attestation_binds_witness:
  "\<exists>a r. verify_complete_attestation prims sample_lib a (issuer_public_key sample_issuer) {''pcr0''} = Inr r \<and> av_valid r \<and>
     (attested a = attested a \<or> collide (sha256 prims) (sha_inputs prims a) (sha_inputs prims a) \<or>
      collide (keccak prims) (keccak_inputs a) (keccak_inputs a))"
proof -
  obtain a r where "verify_complete_attestation prims sample_lib a (issuer_public_key sample_issuer) {''pcr0''} = Inr r" "av_valid r"
    using sample_attestation_valid by blast
  with attestation_binds [OF prims_ok(3) this this refl] show ?thesis by blast
qed

end
