(* ===== verification/Gateway.thy ===== *)
theory Gateway
  imports Attestations Journal RateLimit ServiceAccounts
begin

text \<open>
  \<open>src/aegisledger/api.py\<close>: the service container that composes the stores, the policy registry, the
  decision issuer, the journal, the signer and the chain backends, and the HTTP endpoints on top of it.

  \<^item> The container is the default one, on the stores in memory. The signer and the backends are
    functions on the state of the world; an operation that raises keeps what it has already done.
  \<^item> \<open>execute\<close> runs under a lock. A request handler is one step; its clock readings and fresh
    identifiers are the fields of \<open>readings\<close>.
  \<^item> An endpoint is a function of the authenticated principal and the body of the request. An exception that no
    handler maps is answered with status 500.
  \<^item> The text of a validation error is the name of the model. \<open>recording\<close> adds a log of submissions to a
    container, for the statements.

  Left out: experiments, the wiring of FastAPI (routing, response models, headers, the lifespan tasks but
  the reconciler, server-sent events), health checks and logging.

  Shown: over any sequence of requests and reconciliations, every submission handed to a chain backend
  belongs to a stored execution that the owner of the proposal ordered, built for the proposal's chain and
  target under the stored decision; no decision nonce and no wallet nonce is used by two executions; an
  execution that was submitted is never submitted again; a request that roles, permissions and ownership do
  not allow changes nothing but the request count; stored attestations verify; bodies are limited.
\<close>

section \<open>The container\<close>

record 'w services =
  gw_policies :: PolicyRegistry
  gw_state :: MemoryStateStore
  gw_audit :: AuditJournal
  gw_artifacts :: memory_artifacts
  gw_settlements :: MemorySettlementStore
  gw_attestations :: MemoryAttestationStore
  gw_rates :: windows
  gw_world :: 'w

text \<open>What the container is configured with.\<close>

record 'w container =
  gc_decisions :: DecisionIssuer
  gc_signer :: "(TransactionSignRequestV1 \<Rightarrow> ('w, SignerResult) eff) option"
  gc_chain_backends :: "int \<Rightarrow> (ChainSubmission \<Rightarrow> ('w, string) eff) option"
  gc_eip712_domain_separator :: string
  gc_allowed_build_measurements :: "string set"
  gc_rate_limit_requests :: int
  gc_rate_limit_window_seconds :: int

record readings =
  rd_reserve :: clock
  rd_reservation_id :: uuid
  rd_issued_at :: time
  rd_decision_id :: uuid
  rd_decision_nonce :: uuid
  rd_event_at :: time
  rd_event_id :: uuid
  rd_transaction_id :: uuid
  rd_signed_at :: time
  rd_moved_at :: time
  rd_submitted_at :: time
  rd_resumed_at :: time
  rd_event_at' :: time
  rd_event_id' :: uuid
  rd_rate :: time

text \<open>Calls into a part of the services.\<close>

definition on_state :: "(MemoryStateStore \<Rightarrow> ('a \<times> MemoryStateStore) res) \<Rightarrow> ('w services, 'a) eff" where
  "on_state f = atomically (\<lambda>s. rbind (f (gw_state s)) (\<lambda>(x, t). Inr (x, s\<lparr>gw_state := t\<rparr>)))"

definition on_artifacts :: "(memory_artifacts \<Rightarrow> ('a \<times> memory_artifacts) res) \<Rightarrow> ('w services, 'a) eff" where
  "on_artifacts f = atomically (\<lambda>s. rbind (f (gw_artifacts s)) (\<lambda>(x, t). Inr (x, s\<lparr>gw_artifacts := t\<rparr>)))"

definition on_audit :: "(AuditJournal \<Rightarrow> ('a \<times> AuditJournal) res) \<Rightarrow> ('w services, 'a) eff" where
  "on_audit f = atomically (\<lambda>s. rbind (f (gw_audit s)) (\<lambda>(x, t). Inr (x, s\<lparr>gw_audit := t\<rparr>)))"

definition on_settlements :: "(MemorySettlementStore \<Rightarrow> MemorySettlementStore res) \<Rightarrow> ('w services, unit) eff" where
  "on_settlements f = atomically (\<lambda>s. rbind (f (gw_settlements s)) (\<lambda>t. Inr ((), s\<lparr>gw_settlements := t\<rparr>)))"

definition on_attestations :: "(MemoryAttestationStore \<Rightarrow> ('a \<times> MemoryAttestationStore) res) \<Rightarrow> ('w services, 'a) eff" where
  "on_attestations f = atomically (\<lambda>s. rbind (f (gw_attestations s)) (\<lambda>(x, t). Inr (x, s\<lparr>gw_attestations := t\<rparr>)))"

definition on_policies :: "(PolicyRegistry \<Rightarrow> ('a \<times> PolicyRegistry) res) \<Rightarrow> ('w services, 'a) eff" where
  "on_policies f = atomically (\<lambda>s. rbind (f (gw_policies s)) (\<lambda>(x, t). Inr (x, s\<lparr>gw_policies := t\<rparr>)))"

definition on_world :: "('w, 'a) eff \<Rightarrow> ('w services, 'a) eff" where
  "on_world m s = (let (r, w) = m (gw_world s) in (r, s\<lparr>gw_world := w\<rparr>))"

definition with_unit :: "('s \<Rightarrow> 's res) \<Rightarrow> 's \<Rightarrow> (unit \<times> 's) res" where
  "with_unit f s = rbind (f s) (\<lambda>t. Inr ((), t))"

section \<open>Submitting a proposal\<close>

record SubmissionResponse =
  sbr_proposal_id :: uuid
  sbr_state :: LifecycleState
  sbr_state_version :: int
  sbr_created :: bool
  sbr_decision :: DecisionTokenV1

definition decision_event :: "ProposalRecord \<Rightarrow> DecisionTokenV1 \<Rightarrow> PolicyVersion \<Rightarrow> json" where
  "decision_event r d v = obj
     [(''proposal_id'', JStr (uuid_str (pr_proposal_id (rec_proposal r)))), (''state'', JStr (lifecycle_name (rec_state r))),
      (''decision_id'', JStr (uuid_str (dt_decision_id d))), (''policy_hash'', JStr (pv_policy_hash v))]"

definition decide_once ::
  "primitives \<Rightarrow> 'w container \<Rightarrow> readings \<Rightarrow> string \<Rightarrow> PolicyVersion \<Rightarrow> ProposalRecord \<Rightarrow> ('w services, DecisionTokenV1) eff" where
  "decide_once P c rd actor version r =
     (let pid = pr_proposal_id (rec_proposal r) in
      ebind (eread (\<lambda>s. Inr (dget (ma_decisions (gw_artifacts s)) pid))) (\<lambda>existing. case existing of
        Some d \<Rightarrow> ereturn d
      | None \<Rightarrow>
          ebind (elift (issue P (rd_issued_at rd) (rd_decision_id rd) (rd_decision_nonce rd) (gc_decisions c) r version)) (\<lambda>candidate.
          ebind (on_artifacts (ma_put_decision pid candidate)) (\<lambda>(d, created).
          if created then
            ebind (on_audit (aj_append P (rd_event_at rd) (rd_event_id rd) ''POLICY_DECISION_ISSUED'' actor (decision_event r d version) (Some pid)))
              (\<lambda>_. ereturn d)
          else ereturn d))))"

definition gw_submit ::
  "primitives \<Rightarrow> 'w container \<Rightarrow> readings \<Rightarrow> ProposalV1 \<Rightarrow> string \<Rightarrow> ('w services, SubmissionResponse) eff" where
  "gw_submit P c rd proposal actor =
     ebind (eread (\<lambda>s. pg_active (gw_policies s))) (\<lambda>version.
     ebind (on_state (ms_reserve (rd_reserve rd) (rd_reservation_id rd) proposal (pv_policy version))) (\<lambda>(r, created).
     ebind (decide_once P c rd actor version r) (\<lambda>d.
     ereturn \<lparr>sbr_proposal_id = pr_proposal_id (rec_proposal r), sbr_state = rec_state r, sbr_state_version = rec_state_version r,
       sbr_created = created, sbr_decision = d\<rparr>)))"

section \<open>Executing a proposal\<close>

record ExecutionRequest =
  xr_wallet_nonce :: int
  xr_value :: int
  xr_gas_limit :: int
  xr_max_fee_per_gas :: int
  xr_max_priority_fee_per_gas :: int

definition make_ExecutionRequest :: "ExecutionRequest \<Rightarrow> ExecutionRequest res" where
  "make_ExecutionRequest q =
     (if 0 \<le> xr_wallet_nonce q \<and> 0 \<le> xr_value q \<and> 0 < xr_gas_limit q \<and> 0 < xr_max_fee_per_gas q \<and> 0 \<le> xr_max_priority_fee_per_gas q
      then if xr_max_priority_fee_per_gas q > xr_max_fee_per_gas q then Inl (ValueError ''priority fee cannot exceed maximum fee'') else Inr q
      else Inl (ValueError ''ExecutionRequest''))"

record ExecutionResponse =
  xp_proposal_id :: uuid
  xp_transaction_id :: uuid
  xp_state :: LifecycleState
  xp_state_version :: int
  xp_signing_hash :: string
  xp_transaction_hash :: string
  xp_signer_identity :: string
  xp_submitted :: bool
  xp_created :: bool

definition requested_binding :: "ProposalV1 \<Rightarrow> ExecutionRequest \<Rightarrow> TransactionBindingV1" where
  "requested_binding p q =
     \<lparr>tb_operation = (case pr_intent p of TransferIntentV1 _ \<Rightarrow> Op_transfer | SwapIntentV1 _ _ _ _ _ \<Rightarrow> Op_swap), tb_wallet = pr_wallet p,
      tb_chain_id = pr_chain_id p, tb_wallet_nonce = xr_wallet_nonce q, tb_asset = pr_asset p, tb_amount = pr_amount p,
      tb_recipient = (case pr_intent p of TransferIntentV1 recipient \<Rightarrow> Some recipient | SwapIntentV1 _ _ _ _ _ \<Rightarrow> None),
      tb_contract = (case pr_intent p of TransferIntentV1 _ \<Rightarrow> None | SwapIntentV1 contract _ _ _ _ \<Rightarrow> Some contract),
      tb_selector = (case pr_intent p of TransferIntentV1 _ \<Rightarrow> None | SwapIntentV1 _ selector _ _ _ \<Rightarrow> Some selector),
      tb_calldata = (case pr_intent p of TransferIntentV1 _ \<Rightarrow> ''0x'' | SwapIntentV1 _ _ calldata _ _ \<Rightarrow> calldata),
      tb_value = xr_value q, tb_gas_limit = xr_gas_limit q, tb_max_fee_per_gas = xr_max_fee_per_gas q,
      tb_max_priority_fee_per_gas = xr_max_priority_fee_per_gas q\<rparr>"

definition call_target :: "ProposalV1 \<Rightarrow> string" where
  "call_target p = (case pr_intent p of TransferIntentV1 recipient \<Rightarrow> recipient | SwapIntentV1 contract _ _ _ _ \<Rightarrow> contract)"

definition authorization ::
  "primitives \<Rightarrow> 'w container \<Rightarrow> ProposalRecord \<Rightarrow> DecisionTokenV1 \<Rightarrow> ExecutionRequest \<Rightarrow> TransactionSignRequestV1 res" where
  "authorization P c r d q =
     (let p = rec_proposal r; separator = gc_eip712_domain_separator c in
      rbind (of_option (ValueError ''proposal has no active reservation'') (rec_reservation_id r)) (\<lambda>rid.
      rbind (make_TransactionBindingV1 (requested_binding p q)) (\<lambda>transaction.
      rbind (encode_unsigned_eip1559 (pr_chain_id p) (xr_wallet_nonce q) (xr_max_priority_fee_per_gas q) (xr_max_fee_per_gas q)
        (xr_gas_limit q) (call_target p) (xr_value q) (tb_calldata (requested_binding p q))) (\<lambda>unsigned_payload.
      if py_len separator \<noteq> 66 \<or> \<not> startswith separator ''0x'' then Inl (ValueError ''EIP-712 domain separator is invalid'')
      else
        let eip712_payload = ''0x1901'' @ drop 2 separator @ drop 2 (dt_proposal_hash d) in
        rbind (keccak_hex P eip712_payload) (\<lambda>eip712_hash.
        rbind (keccak_hex P unsigned_payload) (\<lambda>eip1559_hash.
        make_TransactionSignRequestV1 \<lparr>sr_proposal = p, sr_decision = d, sr_reservation_id = rid, sr_wallet_nonce = xr_wallet_nonce q,
          sr_chain_id = pr_chain_id p, sr_transaction = transaction, sr_eip712_payload = eip712_payload,
          sr_eip1559_unsigned_payload = unsigned_payload, sr_eip712_hash = eip712_hash, sr_eip1559_hash = eip1559_hash,
          sr_expires_at = min (dt_expires_at d) (pr_deadline p)\<rparr>))))))"

definition execution_matches_request :: "StoredExecutionV1 \<Rightarrow> ExecutionRequest \<Rightarrow> bool" where
  "execution_matches_request e q =
     (let t = sr_transaction (se_authorization e) in
      tb_wallet_nonce t = xr_wallet_nonce q \<and> tb_value t = xr_value q \<and> tb_gas_limit t = xr_gas_limit q \<and>
      tb_max_fee_per_gas t = xr_max_fee_per_gas q \<and> tb_max_priority_fee_per_gas t = xr_max_priority_fee_per_gas q)"

definition different_execution :: exn where
  "different_execution = ValueError ''proposal already has a different signed execution''"

definition signed_event :: "uuid \<Rightarrow> StoredExecutionV1 \<Rightarrow> json" where
  "signed_event pid e = obj
     [(''proposal_id'', JStr (uuid_str pid)), (''transaction_id'', JStr (uuid_str (se_transaction_id e))),
      (''transaction_hash'', JStr (se_transaction_hash e)), (''signing_hash'', JStr (se_signing_hash e))]"

definition submitted_event :: "uuid \<Rightarrow> StoredExecutionV1 \<Rightarrow> json" where
  "submitted_event pid e = obj
     [(''proposal_id'', JStr (uuid_str pid)), (''transaction_id'', JStr (uuid_str (se_transaction_id e))),
      (''transaction_hash'', JStr (se_transaction_hash e))]"

text \<open>The branch that signs: no execution is stored yet.\<close>

definition sign_execution ::
  "primitives \<Rightarrow> 'w container \<Rightarrow> readings \<Rightarrow> (TransactionSignRequestV1 \<Rightarrow> ('w, SignerResult) eff) \<Rightarrow> uuid \<Rightarrow> ExecutionRequest \<Rightarrow> string \<Rightarrow>
   ProposalRecord \<Rightarrow> ('w services, StoredExecutionV1 \<times> bool) eff" where
  "sign_execution P c rd sign pid q actor r =
     (let p = rec_proposal r in
      if rec_state r \<noteq> RESERVED then eraise (ValueError (''proposal cannot be signed from '' @ lifecycle_name (rec_state r)))
      else
        ebind (eread (\<lambda>s. of_option (RuntimeError ''proposal decision is unavailable'') (dget (ma_decisions (gw_artifacts s)) pid))) (\<lambda>d.
        ebind (elift (authorization P c r d q)) (\<lambda>a.
        ebind (on_world (sign a)) (\<lambda>result.
        ebind (on_state (with_unit (ms_register_decision_nonce (dt_decision_nonce d)))) (\<lambda>_.
        ebind (on_state (with_unit (ms_register_wallet_nonce (pr_wallet p) (pr_chain_id p) (xr_wallet_nonce q)))) (\<lambda>_.
        ebind (elift (from_signer (rd_transaction_id rd) (rd_signed_at rd) pid a result)) (\<lambda>candidate.
        ebind (on_artifacts (ma_put_execution candidate)) (\<lambda>(e, created).
        if \<not> execution_matches_request e q then eraise different_execution
        else
          ebind (on_state (ms_transition (rd_moved_at rd) pid SIGNED)) (\<lambda>_.
          ebind (on_audit (aj_append P (rd_event_at rd) (rd_event_id rd) ''TRANSACTION_SIGNED'' actor (signed_event pid e) (Some pid))) (\<lambda>_.
          ereturn (e, created)))))))))))"

definition reread_record :: "uuid \<Rightarrow> ('w services, ProposalRecord) eff" where
  "reread_record pid = eread (\<lambda>s. of_option AssertionError (ms_get (gw_state s) pid))"

definition submission_of :: "StoredExecutionV1 \<Rightarrow> ChainSubmission" where
  "submission_of e = \<lparr>sb_chain_id = sr_chain_id (se_authorization e), sb_transaction_hash = se_transaction_hash e,
     sb_raw_transaction = Some (se_raw_transaction e), sb_local_transaction = None\<rparr>"

text \<open>The branch that broadcasts: the execution has no time of submission.\<close>

definition submit_execution ::
  "primitives \<Rightarrow> readings \<Rightarrow> (ChainSubmission \<Rightarrow> ('w, string) eff) \<Rightarrow> uuid \<Rightarrow> string \<Rightarrow> StoredExecutionV1 \<Rightarrow>
   ('w services, StoredExecutionV1 \<times> ProposalRecord) eff" where
  "submit_execution P rd backend pid actor e =
     ebind (on_world (backend (submission_of e))) (\<lambda>h.
     if lower h \<noteq> se_transaction_hash e then eraise (RuntimeError ''chain backend returned a different transaction hash'')
     else
       ebind (on_artifacts (ma_mark_submitted pid (rd_submitted_at rd))) (\<lambda>e.
       ebind (on_settlements (mt_register (se_transaction_hash e) pid (sr_chain_id (se_authorization e)))) (\<lambda>_.
       ebind (reread_record pid) (\<lambda>current.
       ebind (if rec_state current = SIGNED then on_state (ms_transition (rd_resumed_at rd) pid SUBMITTED) else ereturn current) (\<lambda>r.
       ebind (on_audit (aj_append P (rd_event_at' rd) (rd_event_id' rd) ''TRANSACTION_SUBMITTED'' actor (submitted_event pid e) (Some pid))) (\<lambda>_.
       ereturn (e, r)))))))"

text \<open>The branch that resumes: the execution was submitted before.\<close>

definition resume_execution :: "readings \<Rightarrow> uuid \<Rightarrow> StoredExecutionV1 \<Rightarrow> ('w services, StoredExecutionV1 \<times> ProposalRecord) eff" where
  "resume_execution rd pid e =
     ebind (reread_record pid) (\<lambda>current.
     if rec_state current = SIGNED then
       ebind (on_settlements (mt_register (se_transaction_hash e) pid (sr_chain_id (se_authorization e)))) (\<lambda>_.
       ebind (on_state (ms_transition (rd_resumed_at rd) pid SUBMITTED)) (\<lambda>r. ereturn (e, r)))
     else ereturn (e, current))"

definition gw_execute ::
  "primitives \<Rightarrow> 'w container \<Rightarrow> readings \<Rightarrow> uuid \<Rightarrow> ExecutionRequest \<Rightarrow> string \<Rightarrow> ('w services, ExecutionResponse) eff" where
  "gw_execute P c rd pid q actor =
     ebind (eread (\<lambda>s. of_option (KeyError ''proposal does not exist'') (ms_get (gw_state s) pid))) (\<lambda>r.
     if pr_principal_id (rec_proposal r) \<noteq> actor then eraise (PermissionError ''proposal belongs to another principal'')
     else case gc_signer c of
       None \<Rightarrow> eraise (RuntimeError ''isolated signer is not configured'')
     | Some sign \<Rightarrow> (case gc_chain_backends c (pr_chain_id (rec_proposal r)) of
         None \<Rightarrow> eraise (RuntimeError ''chain backend is not configured'')
       | Some backend \<Rightarrow>
           ebind (eread (\<lambda>s. Inr (dget (ma_executions (gw_artifacts s)) pid))) (\<lambda>existing.
           ebind (case existing of
               None \<Rightarrow> sign_execution P c rd sign pid q actor r
             | Some e \<Rightarrow> if \<not> execution_matches_request e q then eraise different_execution else ereturn (e, False)) (\<lambda>(e, created).
           ebind (if se_submitted_at e = None then submit_execution P rd backend pid actor e else resume_execution rd pid e) (\<lambda>(e, r).
           ereturn \<lparr>xp_proposal_id = pid, xp_transaction_id = se_transaction_id e, xp_state = rec_state r, xp_state_version = rec_state_version r,
             xp_signing_hash = se_signing_hash e, xp_transaction_hash = se_transaction_hash e, xp_signer_identity = se_signer_identity e,
             xp_submitted = (se_submitted_at e \<noteq> None), xp_created = created\<rparr>)))))"

section \<open>Complete attestations\<close>

text \<open>\<open>uuid.UUID(text)\<close>.\<close>

function remove_all :: "string \<Rightarrow> string \<Rightarrow> string" where
  "remove_all p [] = []"
| "remove_all p (c # s) = (if p \<noteq> [] \<and> startswith (c # s) p then remove_all p (drop (length p) (c # s)) else c # remove_all p s)"
  by pat_completeness auto
termination by (relation "measure (\<lambda>(p, s). length s)") auto

definition strip_braces :: "string \<Rightarrow> string" where
  "strip_braces s = (let b = (\<lambda>c. c \<in> set ''{}'') in rev (dropWhile b (rev (dropWhile b s))))"

definition uuid_parse :: "string \<Rightarrow> uuid res" where
  "uuid_parse text =
     (let hex = remove_all ''-'' (strip_braces (remove_all ''uuid:'' (remove_all ''urn:'' text))) in
      if py_len hex \<noteq> 32 then Inl (ValueError ''badly formed hexadecimal UUID string'')
      else case int16 hex of
        None \<Rightarrow> Inl (ValueError ''invalid literal for int() with base 16'')
      | Some i \<Rightarrow> if 0 \<le> i \<and> i < 2 ^ 128 then Inr (word_of_int i) else Inl (ValueError ''int is out of range (need a 128-bit value)''))"

text \<open>\<open>EnclaveEvidenceV1.model_validate\<close>: a \<open>TypeError\<close> of a validator leaves pydantic at once, every other
  failure is part of its \<open>ValidationError\<close>.\<close>

definition EVIDENCE_FIELDS :: "string list" where
  "EVIDENCE_FIELDS = [''schema_version'', ''mode'', ''build_measurement'', ''signer_identity'', ''secp256k1_public_key'', ''transaction_hash'',
     ''signing_hash'', ''proposal_hash'', ''policy_version_id'', ''policy_hash'', ''state_version'', ''reservation_id'', ''wallet'', ''principal_id'',
     ''chain_id'', ''wallet_nonce'', ''decision_id'', ''decision_nonce'', ''expires_at'', ''issued_at'', ''evidence_hash'', ''evidence_signature'']"

definition is_text :: "json option \<Rightarrow> bool" where
  "is_text v = (case v of Some (JStr _) \<Rightarrow> True | _ \<Rightarrow> False)"

definition text_field :: "json \<Rightarrow> string \<Rightarrow> string res" where
  "text_field v k = (case field v k of Some (JStr s) \<Rightarrow> Inr s | _ \<Rightarrow> Inl (ValueError k))"

definition int_field :: "json \<Rightarrow> string \<Rightarrow> int res" where
  "int_field v k = (case field v k of Some (JInt i) \<Rightarrow> Inr i | _ \<Rightarrow> Inl (ValueError k))"

definition uuid_field :: "json \<Rightarrow> string \<Rightarrow> uuid res" where
  "uuid_field v k = rbind (text_field v k) uuid_parse"

definition evidence_of_json :: "attestation_lib \<Rightarrow> json \<Rightarrow> EnclaveEvidenceV1 res" where
  "evidence_of_json L v =
     rbind (raise_first (map (\<lambda>k. (field v k \<noteq> None \<and> \<not> is_text (field v k), TypeError k))
       [''policy_version_id'', ''reservation_id'', ''decision_id'', ''decision_nonce'', ''expires_at'', ''issued_at''])) (\<lambda>_.
     rbind (case v of JObj fs \<Rightarrow> raise_first [(list_ex (\<lambda>f. fst f \<notin> StrKey ` set EVIDENCE_FIELDS) fs, ValueError ''extra fields'')]
       | _ \<Rightarrow> Inl (ValueError ''EnclaveEvidenceV1'')) (\<lambda>_.
     rbind (raise_first [(field v ''schema_version'' \<noteq> Some (JStr ''aegisledger.enclave_evidence.v1''), ValueError ''schema_version'')]) (\<lambda>_.
     rbind (text_field v ''mode'') (\<lambda>mode. rbind (text_field v ''build_measurement'') (\<lambda>measurement.
     rbind (text_field v ''signer_identity'') (\<lambda>identity. rbind (text_field v ''secp256k1_public_key'') (\<lambda>key.
     rbind (text_field v ''transaction_hash'') (\<lambda>transaction_hash. rbind (text_field v ''signing_hash'') (\<lambda>signing_hash.
     rbind (text_field v ''proposal_hash'') (\<lambda>h. rbind (uuid_field v ''policy_version_id'') (\<lambda>version.
     rbind (text_field v ''policy_hash'') (\<lambda>ph. rbind (int_field v ''state_version'') (\<lambda>state_version.
     rbind (uuid_field v ''reservation_id'') (\<lambda>rid. rbind (text_field v ''wallet'') (\<lambda>wallet.
     rbind (text_field v ''principal_id'') (\<lambda>principal. rbind (int_field v ''chain_id'') (\<lambda>chain_id.
     rbind (int_field v ''wallet_nonce'') (\<lambda>nonce. rbind (uuid_field v ''decision_id'') (\<lambda>did.
     rbind (uuid_field v ''decision_nonce'') (\<lambda>dnonce. rbind (text_field v ''expires_at'') (\<lambda>expires_at.
     rbind (text_field v ''issued_at'') (\<lambda>issued_at. rbind (text_field v ''evidence_hash'') (\<lambda>evidence_hash.
     rbind (text_field v ''evidence_signature'') (\<lambda>evidence_signature.
     make_EnclaveEvidenceV1 L \<lparr>ee_mode = mode, ee_build_measurement = measurement, ee_signer_identity = identity, ee_secp256k1_public_key = key,
       ee_transaction_hash = transaction_hash, ee_signing_hash = signing_hash, ee_proposal_hash = h, ee_policy_version_id = version,
       ee_policy_hash = ph, ee_state_version = state_version, ee_reservation_id = rid, ee_wallet = wallet, ee_principal_id = principal,
       ee_chain_id = chain_id, ee_wallet_nonce = nonce, ee_decision_id = did, ee_decision_nonce = dnonce, ee_expires_at = expires_at,
       ee_issued_at = issued_at, ee_evidence_hash = evidence_hash, ee_evidence_signature = evidence_signature\<rparr>))))))))))))))))))))))))"

definition assemble_attestation ::
  "attestation_lib \<Rightarrow> uuid \<Rightarrow> ProposalRecord \<Rightarrow> StoredExecutionV1 \<Rightarrow> DecisionTokenV1 \<Rightarrow> EnclaveEvidenceV1 \<Rightarrow> SettlementObservation \<Rightarrow>
   CompleteAttestationV1 res" where
  "assemble_attestation L transaction_id r e d evidence observation =
     rbind (make_SignedTransactionV1 \<lparr>st_transaction_id = transaction_id, st_eip712_hash = sr_eip712_hash (se_authorization e),
       st_eip1559_hash = se_signing_hash e, st_transaction_hash = se_transaction_hash e, st_raw_transaction = se_raw_transaction e,
       st_wallet = pr_wallet (rec_proposal r), st_wallet_nonce = sr_wallet_nonce (se_authorization e),
       st_chain_id = sr_chain_id (se_authorization e), st_decision_id = dt_decision_id d, st_signer_identity = se_signer_identity e,
       st_enclave_evidence = evidence_json evidence, st_signature = se_signature e\<rparr>) (\<lambda>stx.
     rbind (make_SettlementEvidenceV1 \<lparr>sv_transaction_hash = so_transaction_hash observation, sv_block_hash = so_block_hash observation,
       sv_block_number = so_block_number observation, sv_chain_id = so_chain_id observation, sv_success = so_success observation,
       sv_confirmations = so_confirmations observation, sv_observed_at = so_observed_at observation\<rparr>) (\<lambda>settlement.
     make_CompleteAttestationV1 \<lparr>ca_lifecycle_state = (if rec_state r = SETTLED then SETTLED else REVERTED), ca_proposal = rec_proposal r,
       ca_decision = d, ca_transaction_binding = sr_transaction (se_authorization e), ca_signed_transaction = stx,
       ca_enclave_evidence = evidence, ca_settlement = Some settlement\<rparr>))"

definition attestation_event :: "uuid \<Rightarrow> StoredExecutionV1 \<Rightarrow> ProposalRecord \<Rightarrow> json" where
  "attestation_event pid e r = obj
     [(''proposal_id'', JStr (uuid_str pid)), (''transaction_hash'', JStr (se_transaction_hash e)),
      (''lifecycle_state'', JStr (lifecycle_name (rec_state r)))]"

definition create_attestation ::
  "primitives \<Rightarrow> attestation_lib \<Rightarrow> 'w container \<Rightarrow> readings \<Rightarrow> uuid \<Rightarrow> string \<Rightarrow> ('w services, CompleteAttestationV1) eff" where
  "create_attestation P L c rd pid actor =
     ebind (eread (\<lambda>s. of_option (KeyError ''proposal does not exist'') (ms_get (gw_state s) pid))) (\<lambda>r.
     if rec_state r \<notin> {SETTLED, REVERTED} then eraise (ValueError ''complete attestation requires a terminal settlement'')
     else
       ebind (eread (\<lambda>s. of_option (RuntimeError ''authorization artifacts are incomplete'')
         (case (dget (ma_executions (gw_artifacts s)) pid, dget (ma_decisions (gw_artifacts s)) pid) of (Some e, Some d) \<Rightarrow> Some (e, d) | _ \<Rightarrow> None)))
         (\<lambda>(e, d).
       ebind (elift (evidence_of_json L (se_enclave_evidence e))) (\<lambda>evidence.
       ebind (eread (\<lambda>s. of_option (RuntimeError ''canonical settlement evidence is unavailable'')
         (mt_observation (se_transaction_hash e) (gw_settlements s)))) (\<lambda>observation.
       ebind (elift (assemble_attestation L (rd_transaction_id rd) r e d evidence observation)) (\<lambda>a.
       ebind (elift (verify_complete_attestation P L a (issuer_public_key (gc_decisions c)) (gc_allowed_build_measurements c))) (\<lambda>report.
       if \<not> av_valid report then eraise (RuntimeError ''assembled attestation failed offline verification'')
       else
         ebind (on_attestations (mat_put pid a)) (\<lambda>(stored, created).
         if created then
           ebind (on_audit (aj_append P (rd_event_at rd) (rd_event_id rd) ''COMPLETE_ATTESTATION_CREATED'' actor (attestation_event pid e r) (Some pid)))
             (\<lambda>_. ereturn stored)
         else ereturn stored)))))))"

definition gw_complete_attestation ::
  "primitives \<Rightarrow> attestation_lib \<Rightarrow> 'w container \<Rightarrow> readings \<Rightarrow> uuid \<Rightarrow> string \<Rightarrow> ('w services, CompleteAttestationV1) eff" where
  "gw_complete_attestation P L c rd pid actor =
     ebind (eread (\<lambda>s. Inr (mat_get pid (gw_attestations s)))) (\<lambda>existing. case existing of
       Some a \<Rightarrow> ereturn a
     | None \<Rightarrow> create_attestation P L c rd pid actor)"

section \<open>The limit on request bodies\<close>

record http_message =
  hm_type :: string
  hm_body :: bytes
  hm_more_body :: bool

datatype body_outcome = Forward "http_message list" | Reject int string | Waiting

text \<open>The loop over \<open>receive()\<close>, on the messages that arrive; it waits when they run out before the body ends.\<close>

fun receive_body :: "int \<Rightarrow> http_message list \<Rightarrow> int \<Rightarrow> http_message list \<Rightarrow> body_outcome" where
  "receive_body max_bytes messages received [] = Waiting"
| "receive_body max_bytes messages received (m # incoming) =
     (let messages = messages @ [m] in
      if hm_type m = ''http.disconnect'' then Forward messages
      else if hm_type m \<noteq> ''http.request'' then receive_body max_bytes messages received incoming
      else
        let received = received + int (length (hm_body m)) in
        if received > max_bytes then Reject 413 ''PAYLOAD_TOO_LARGE''
        else if \<not> hm_more_body m then Forward messages
        else receive_body max_bytes messages received incoming)"

text \<open>\<open>content_length\<close> is the header as \<open>int()\<close> reads it: absent, not a number, or a number.\<close>

definition limit_body :: "int \<Rightarrow> int option option \<Rightarrow> http_message list \<Rightarrow> body_outcome" where
  "limit_body max_bytes content_length incoming = (case content_length of
     None \<Rightarrow> receive_body max_bytes [] 0 incoming
   | Some None \<Rightarrow> Reject 400 ''INVALID_CONTENT_LENGTH''
   | Some (Some declared) \<Rightarrow>
       if declared < 0 then Reject 400 ''INVALID_CONTENT_LENGTH''
       else if declared > max_bytes then Reject 413 ''PAYLOAD_TOO_LARGE''
       else receive_body max_bytes [] 0 incoming)"

section \<open>Endpoints\<close>

definition require_access :: "Role set \<Rightarrow> Permission set \<Rightarrow> Principal \<Rightarrow> Principal res" where
  "require_access roles permissions who =
     (if pl_roles who \<inter> roles = {} \<and> pl_permissions who \<inter> permissions = {}
      then Inl (ApiError 403 ''FORBIDDEN'' ''credential does not permit this operation'') else Inr who)"

text \<open>\<open>current_principal\<close> after authentication: the request counts against the limit of the subject.\<close>

definition current_principal :: "'w container \<Rightarrow> readings \<Rightarrow> Principal \<Rightarrow> ('w services, Principal) eff" where
  "current_principal c rd who =
     (let subject = pl_organization_id who @ '':'' @ pl_environment_id who @ '':'' @ pl_subject who in
      ebind (atomically (\<lambda>s. rbind (mr_consume (rd_rate rd) subject (gc_rate_limit_requests c) (gc_rate_limit_window_seconds c) (gw_rates s))
        (\<lambda>(allowed, rates). Inr (allowed, s\<lparr>gw_rates := rates\<rparr>)))) (\<lambda>allowed.
      if allowed then ereturn who else eraise (ApiError 429 ''RATE_LIMITED'' ''principal request rate exceeded'')))"

definition admitted :: "'w container \<Rightarrow> readings \<Rightarrow> Role set \<Rightarrow> Permission set \<Rightarrow> Principal \<Rightarrow> ('w services, Principal) eff" where
  "admitted c rd roles permissions who =
     ebind (current_principal c rd who) (\<lambda>who. elift (require_access roles permissions who))"

definition enforce_read_scope :: "ProposalRecord \<Rightarrow> Principal \<Rightarrow> unit res" where
  "enforce_read_scope r who =
     (if pr_principal_id (rec_proposal r) \<noteq> pl_subject who \<and> pl_roles who \<inter> {VIEWER, POLICY_ADMIN, AUDITOR} = {}
      then Inl (ApiError 403 ''FORBIDDEN'' ''proposal belongs to another principal'') else Inr ())"

text \<open>The classes of exceptions the endpoints name, with the subclasses of the sources.\<close>

definition is_lookup_error :: "exn \<Rightarrow> bool" where
  "is_lookup_error e = (case e of LookupError _ \<Rightarrow> True | KeyError _ \<Rightarrow> True | _ \<Rightarrow> False)"

definition is_permission_error :: "exn \<Rightarrow> bool" where
  "is_permission_error e = (case e of PermissionError _ \<Rightarrow> True | AuthenticationError _ \<Rightarrow> True | MandateError _ \<Rightarrow> True
     | SignerAuthorizationError _ \<Rightarrow> True | ToolCallDenied _ \<Rightarrow> True | _ \<Rightarrow> False)"

definition value_error_text :: "exn \<Rightarrow> string option" where
  "value_error_text e = (case e of ValueError m \<Rightarrow> Some m | CanonicalizationError m \<Rightarrow> Some m | Eip1559DecodeError m \<Rightarrow> Some m
     | RpcConfigurationError m \<Rightarrow> Some m | PolicyError m \<Rightarrow> Some m | _ \<Rightarrow> None)"

definition runtime_error_text :: "exn \<Rightarrow> string option" where
  "runtime_error_text e = (case e of RuntimeError m \<Rightarrow> Some m | SignerClientError m \<Rightarrow> Some m | OIDCConfigurationError m \<Rightarrow> Some m
     | RecursionError \<Rightarrow> Some ''maximum recursion depth exceeded'' | _ \<Rightarrow> None)"

text \<open>\<open>raise ApiError(\<dots>) from exc\<close>.\<close>

definition api_errors :: "(exn \<Rightarrow> exn option) \<Rightarrow> ('s, 'a) eff \<Rightarrow> ('s, 'a) eff" where
  "api_errors f m = ecatch m (\<lambda>e. map_option eraise (f e))"

text \<open>The body of a request is validated after the dependencies of the endpoint.\<close>

definition parsed :: "'a res \<Rightarrow> ('s, 'a) eff" where
  "parsed r = (case r of Inl _ \<Rightarrow> eraise (ApiError 422 ''VALIDATION_ERROR'' ''request validation failed'') | Inr x \<Rightarrow> ereturn x)"

definition submit_proposal ::
  "primitives \<Rightarrow> 'w container \<Rightarrow> readings \<Rightarrow> ProposalV1 \<Rightarrow> Principal \<Rightarrow> ('w services, SubmissionResponse) eff" where
  "submit_proposal P c rd body who =
     ebind (admitted c rd {RESEARCHER} {PROPOSALS_WRITE} who) (\<lambda>who.
     ebind (parsed (make_ProposalV1 body)) (\<lambda>proposal.
     if pr_principal_id proposal \<noteq> pl_subject who
     then eraise (ApiError 403 ''PRINCIPAL_MISMATCH'' ''proposal principal must match authenticated subject'')
     else api_errors (\<lambda>e. if is_lookup_error e then Some (ApiError 503 ''NO_ACTIVE_POLICY'' ''no active policy is available'') else None)
       (gw_submit P c rd proposal (pl_subject who))))"

record ProposalStatusResponse =
  psr_proposal_id :: uuid
  psr_state :: LifecycleState
  psr_state_version :: int
  psr_reason_codes :: "string list"
  psr_reservation_id :: "uuid option"

definition status_response :: "ProposalRecord \<Rightarrow> ProposalStatusResponse" where
  "status_response r = \<lparr>psr_proposal_id = pr_proposal_id (rec_proposal r), psr_state = rec_state r, psr_state_version = rec_state_version r,
     psr_reason_codes = rec_reason_codes r, psr_reservation_id = rec_reservation_id r\<rparr>"

definition readable_record :: "uuid \<Rightarrow> Principal \<Rightarrow> ('w services, ProposalRecord) eff" where
  "readable_record pid who =
     ebind (eread (\<lambda>s. of_option (ApiError 404 ''PROPOSAL_NOT_FOUND'' ''proposal does not exist'') (ms_get (gw_state s) pid))) (\<lambda>r.
     ebind (elift (enforce_read_scope r who)) (\<lambda>_. ereturn r))"

definition proposal_status :: "'w container \<Rightarrow> readings \<Rightarrow> uuid \<Rightarrow> Principal \<Rightarrow> ('w services, ProposalStatusResponse) eff" where
  "proposal_status c rd pid who =
     ebind (admitted c rd {VIEWER, RESEARCHER, POLICY_ADMIN, AUDITOR} {PROPOSALS_READ, PROPOSALS_WRITE} who) (\<lambda>who.
     ebind (readable_record pid who) (\<lambda>r. ereturn (status_response r)))"

definition execution_error :: "exn \<Rightarrow> exn option" where
  "execution_error e = (case e of
     KeyError _ \<Rightarrow> Some (ApiError 404 ''PROPOSAL_NOT_FOUND'' ''proposal does not exist'')
   | SignerClientError _ \<Rightarrow> Some (ApiError 503 ''SIGNER_UNAVAILABLE'' ''isolated signing failed'')
   | _ \<Rightarrow>
       if is_permission_error e then Some (ApiError 403 ''FORBIDDEN'' ''proposal belongs to another principal'')
       else case value_error_text e of
         Some m \<Rightarrow> Some (ApiError 409 ''EXECUTION_CONFLICT'' m)
       | None \<Rightarrow> map_option (ApiError 503 ''EXECUTION_UNAVAILABLE'') (runtime_error_text e))"

definition execute_proposal ::
  "primitives \<Rightarrow> 'w container \<Rightarrow> readings \<Rightarrow> uuid \<Rightarrow> ExecutionRequest \<Rightarrow> Principal \<Rightarrow> ('w services, ExecutionResponse) eff" where
  "execute_proposal P c rd pid body who =
     ebind (admitted c rd {RESEARCHER} {PROPOSALS_WRITE} who) (\<lambda>who.
     ebind (parsed (make_ExecutionRequest body)) (\<lambda>q.
     api_errors execution_error (gw_execute P c rd pid q (pl_subject who))))"

definition policy_event :: "PolicyVersion \<Rightarrow> json" where
  "policy_event v = obj [(''version_id'', JStr (uuid_str (pv_version_id v))), (''policy_hash'', JStr (pv_policy_hash v))]"

definition create_policy :: "primitives \<Rightarrow> 'w container \<Rightarrow> readings \<Rightarrow> uuid \<Rightarrow> PolicyV1 \<Rightarrow> Principal \<Rightarrow> ('w services, PolicyVersion) eff" where
  "create_policy P c rd vid body who =
     ebind (admitted c rd {POLICY_ADMIN} {} who) (\<lambda>who.
     ebind (parsed (make_PolicyV1 body)) (\<lambda>policy.
     ebind (on_policies (pg_create P vid (rd_moved_at rd) policy (pl_subject who))) (\<lambda>v.
     ebind (on_audit (aj_append P (rd_event_at rd) (rd_event_id rd) ''POLICY_VERSION_CREATED'' (pl_subject who) (policy_event v)
       (Some (pv_version_id v)))) (\<lambda>_. ereturn v))))"

definition policy_missing :: "exn \<Rightarrow> exn option" where
  "policy_missing e = (case e of KeyError _ \<Rightarrow> Some (ApiError 404 ''POLICY_NOT_FOUND'' ''policy version does not exist'') | _ \<Rightarrow> None)"

definition approve_policy :: "'w container \<Rightarrow> readings \<Rightarrow> uuid \<Rightarrow> Principal \<Rightarrow> ('w services, PolicyVersion) eff" where
  "approve_policy c rd vid who =
     ebind (admitted c rd {POLICY_ADMIN} {} who) (\<lambda>who.
     api_errors policy_missing (on_policies (pg_approve vid (pl_subject who))))"

definition activation_error :: "exn \<Rightarrow> exn option" where
  "activation_error e = (case e of PermissionError m \<Rightarrow> Some (ApiError 409 ''APPROVALS_REQUIRED'' m) | _ \<Rightarrow> policy_missing e)"

definition activate_policy :: "primitives \<Rightarrow> 'w container \<Rightarrow> readings \<Rightarrow> uuid \<Rightarrow> Principal \<Rightarrow> ('w services, PolicyVersion) eff" where
  "activate_policy P c rd vid who =
     ebind (admitted c rd {POLICY_ADMIN} {} who) (\<lambda>who.
     ebind (api_errors activation_error (on_policies (pg_activate (rd_moved_at rd) vid (pl_subject who)))) (\<lambda>v.
     ebind (on_audit (aj_append P (rd_event_at rd) (rd_event_id rd) ''POLICY_VERSION_ACTIVATED'' (pl_subject who) (policy_event v)
       (Some (pv_version_id v)))) (\<lambda>_. ereturn v)))"

definition simulate_policy ::
  "primitives \<Rightarrow> 'w container \<Rightarrow> readings \<Rightarrow> ProposalV1 \<Rightarrow> PolicyV1 \<Rightarrow> Principal \<Rightarrow> ('w services, DecisionVerdict \<times> string list \<times> string) eff" where
  "simulate_policy P c rd proposal_body policy_body who =
     ebind (admitted c rd {RESEARCHER, POLICY_ADMIN} {POLICIES_SIMULATE} who) (\<lambda>_.
     ebind (parsed (make_PolicyV1 policy_body)) (\<lambda>policy.
     ebind (parsed (make_ProposalV1 proposal_body)) (\<lambda>proposal.
     ebind (eread (\<lambda>s. Inr (ms_simulate (rd_reserve rd) proposal policy (gw_state s)))) (\<lambda>reasons.
     ebind (elift (policy_hash P policy)) (\<lambda>h.
     ereturn (if reasons \<noteq> [] then DENY else ALLOW, reasons, h))))))"

text \<open>\<open>AttestationVerificationRequest\<close>: exactly one of the artifacts.\<close>

datatype attestation_request = CheckDecision DecisionTokenV1 | CheckAttestation CompleteAttestationV1

definition exactly_one_artifact ::
  "attestation_lib \<Rightarrow> DecisionTokenV1 option \<Rightarrow> CompleteAttestationV1 option \<Rightarrow> attestation_request res" where
  "exactly_one_artifact L decision attestation = (case (decision, attestation) of
     (Some d, None) \<Rightarrow> rbind (make_DecisionTokenV1 d) (\<lambda>d. Inr (CheckDecision d))
   | (None, Some a) \<Rightarrow> rbind (validate_attestation L a) (\<lambda>a. Inr (CheckAttestation a))
   | _ \<Rightarrow> Inl (ValueError ''provide exactly one decision or complete attestation''))"

text \<open>Validity, identity of the signer and errors.\<close>

definition check_artifact ::
  "primitives \<Rightarrow> attestation_lib \<Rightarrow> 'w container \<Rightarrow> time \<Rightarrow> attestation_request \<Rightarrow> (bool \<times> string \<times> string list) res" where
  "check_artifact P L c now q = (case q of
     CheckAttestation a \<Rightarrow>
       rbind (verify_complete_attestation P L a (issuer_public_key (gc_decisions c)) (gc_allowed_build_measurements c)) (\<lambda>report.
       Inr (av_valid report, st_signer_identity (ca_signed_transaction a), av_errors report))
   | CheckDecision d \<Rightarrow>
       rbind (verify_decision_token P d (issuer_public_key (gc_decisions c)) now) (\<lambda>valid.
       Inr (valid, dt_policy_signer d, if valid then [] else [''policy decision signature is invalid or expired''])))"

definition verify_attestation_endpoint ::
  "primitives \<Rightarrow> attestation_lib \<Rightarrow> 'w container \<Rightarrow> readings \<Rightarrow> DecisionTokenV1 option \<Rightarrow> CompleteAttestationV1 option \<Rightarrow> Principal \<Rightarrow>
   ('w services, bool \<times> string \<times> string list) eff" where
  "verify_attestation_endpoint P L c rd decision attestation who =
     ebind (admitted c rd {AUDITOR, RESEARCHER} {ATTESTATIONS_VERIFY} who) (\<lambda>_.
     ebind (parsed (exactly_one_artifact L decision attestation)) (\<lambda>q. elift (check_artifact P L c (rd_issued_at rd) q)))"

definition attestation_error :: "exn \<Rightarrow> exn option" where
  "attestation_error e = (case value_error_text e of
     Some m \<Rightarrow> Some (ApiError 409 ''ATTESTATION_NOT_READY'' m)
   | None \<Rightarrow> map_option (ApiError 503 ''ATTESTATION_UNAVAILABLE'') (runtime_error_text e))"

definition proposal_attestation ::
  "primitives \<Rightarrow> attestation_lib \<Rightarrow> 'w container \<Rightarrow> readings \<Rightarrow> uuid \<Rightarrow> Principal \<Rightarrow> ('w services, CompleteAttestationV1) eff" where
  "proposal_attestation P L c rd pid who =
     ebind (admitted c rd {VIEWER, RESEARCHER, AUDITOR} {PROPOSALS_READ, PROPOSALS_WRITE} who) (\<lambda>who.
     ebind (readable_record pid who) (\<lambda>_.
     api_errors attestation_error (gw_complete_attestation P L c rd pid (pl_subject who))))"

definition audit_stream :: "'w container \<Rightarrow> readings \<Rightarrow> Principal \<Rightarrow> ('w services, AuditEventV1 list) eff" where
  "audit_stream c rd who =
     ebind (admitted c rd {AUDITOR} {} who) (\<lambda>_. eread (\<lambda>s. Inr (aj_events (gw_audit s))))"

section \<open>Runs\<close>

datatype api_request =
    PostProposal ProposalV1
  | GetProposal uuid
  | PostExecution uuid ExecutionRequest
  | PostPolicy uuid PolicyV1
  | PostApproval uuid
  | PostActivation uuid
  | PostSimulation ProposalV1 PolicyV1
  | PostVerification "DecisionTokenV1 option" "CompleteAttestationV1 option"
  | GetAttestation uuid
  | GetEvents

definition discarding :: "('s, 'a) eff \<Rightarrow> ('s, unit) eff" where
  "discarding m = ebind m (\<lambda>_. ereturn ())"

definition respond :: "primitives \<Rightarrow> attestation_lib \<Rightarrow> 'w container \<Rightarrow> readings \<Rightarrow> api_request \<Rightarrow> Principal \<Rightarrow> ('w services, unit) eff" where
  "respond P L c rd q who = (case q of
     PostProposal proposal \<Rightarrow> discarding (submit_proposal P c rd proposal who)
   | GetProposal pid \<Rightarrow> discarding (proposal_status c rd pid who)
   | PostExecution pid body \<Rightarrow> discarding (execute_proposal P c rd pid body who)
   | PostPolicy vid policy \<Rightarrow> discarding (create_policy P c rd vid policy who)
   | PostApproval vid \<Rightarrow> discarding (approve_policy c rd vid who)
   | PostActivation vid \<Rightarrow> discarding (activate_policy P c rd vid who)
   | PostSimulation proposal policy \<Rightarrow> discarding (simulate_policy P c rd proposal policy who)
   | PostVerification decision attestation \<Rightarrow> discarding (verify_attestation_endpoint P L c rd decision attestation who)
   | GetAttestation pid \<Rightarrow> discarding (proposal_attestation P L c rd pid who)
   | GetEvents \<Rightarrow> discarding (audit_stream c rd who))"

text \<open>The background task: an exception of \<open>poll_once\<close> is recording and the loop goes on.\<close>

definition reconcile_loop :: "receipts \<Rightarrow> int \<Rightarrow> (TrackedTransaction \<Rightarrow> poll_env) \<Rightarrow> 'w services \<Rightarrow> 'w services" where
  "reconcile_loop answers finality env s =
     (let (st, settlements) = snd (poll_once memory_side answers finality env (gw_state s, gw_settlements s)) in
      s\<lparr>gw_state := st, gw_settlements := settlements\<rparr>)"

datatype gateway_event = Request readings api_request Principal | Reconcile receipts int "TrackedTransaction \<Rightarrow> poll_env"

fun gateway_step :: "primitives \<Rightarrow> attestation_lib \<Rightarrow> 'w container \<Rightarrow> gateway_event \<Rightarrow> 'w services \<Rightarrow> 'w services" where
  "gateway_step P L c (Request rd q who) s = snd (respond P L c rd q who s)"
| "gateway_step P L c (Reconcile answers finality env) s = reconcile_loop answers finality env s"

definition gateway_run :: "primitives \<Rightarrow> attestation_lib \<Rightarrow> 'w container \<Rightarrow> gateway_event list \<Rightarrow> 'w services \<Rightarrow> 'w services" where
  "gateway_run P L c events s = fold (gateway_step P L c) events s"

definition ServiceContainer_init :: "PolicyRegistry \<Rightarrow> time \<Rightarrow> 'w \<Rightarrow> 'w services" where
  "ServiceContainer_init policies now w = \<lparr>gw_policies = policies, gw_state = MemoryStateStore_init, gw_audit = AuditJournal_init now,
     gw_artifacts = MemoryArtifacts_init, gw_settlements = MemorySettlementStore_init, gw_attestations = [], gw_rates = [], gw_world = w\<rparr>"

text \<open>A container whose backends also record what they are given.\<close>

definition recording :: "'w container \<Rightarrow> ('w \<times> ChainSubmission list) container" where
  "recording c = \<lparr>gc_decisions = gc_decisions c,
     gc_signer = map_option (\<lambda>sign a (w, log). let (r, w) = sign a w in (r, (w, log))) (gc_signer c),
     gc_chain_backends = (\<lambda>n. map_option (\<lambda>submit x (w, log). let (r, w) = submit x w in (r, (w, log @ [x]))) (gc_chain_backends c n)),
     gc_eip712_domain_separator = gc_eip712_domain_separator c, gc_allowed_build_measurements = gc_allowed_build_measurements c,
     gc_rate_limit_requests = gc_rate_limit_requests c, gc_rate_limit_window_seconds = gc_rate_limit_window_seconds c\<rparr>"

section \<open>What the operations preserve\<close>

definition preserves :: "('s \<Rightarrow> bool) \<Rightarrow> ('s, 'a) eff \<Rightarrow> bool" where
  "preserves I m \<longleftrightarrow> triple I m (\<lambda>_. I) I"

named_theorems preserving

lemma preserves_snd: "preserves I m \<Longrightarrow> I s \<Longrightarrow> I (snd (m s))"
  unfolding preserves_def by (rule triple_snd)

lemma preserves_bind [preserving]: "preserves I m \<Longrightarrow> (\<And>x. preserves I (f x)) \<Longrightarrow> preserves I (ebind m f)"
  unfolding preserves_def by (rule triple_bind)

lemma preserves_pure [preserving]:
  "preserves I (ereturn x)" "preserves I (eraise e)" "preserves I (elift r)" "preserves I (eread f)"
  unfolding preserves_def by (auto intro: triple_return triple_raise triple_lift triple_read)

lemma preserves_atomically: "(\<And>s x s'. I s \<Longrightarrow> f s = Inr (x, s') \<Longrightarrow> I s') \<Longrightarrow> preserves I (atomically f)"
  unfolding preserves_def by (rule triple_atomically)

lemma preserves_if [preserving]: "(b \<Longrightarrow> preserves I m) \<Longrightarrow> (\<not> b \<Longrightarrow> preserves I n) \<Longrightarrow> preserves I (if b then m else n)"
  by simp

lemma preserves_option [preserving]:
  "(x = None \<Longrightarrow> preserves I m) \<Longrightarrow> (\<And>y. x = Some y \<Longrightarrow> preserves I (f y)) \<Longrightarrow>
     preserves I (case x of None \<Rightarrow> m | Some y \<Rightarrow> f y)"
  by (cases x) simp_all

lemma preserves_prod [preserving]: "(\<And>y z. x = (y, z) \<Longrightarrow> preserves I (f y z)) \<Longrightarrow> preserves I (case x of (y, z) \<Rightarrow> f y z)"
  by (cases x) simp

lemma preserves_catch [preserving]: "preserves I m \<Longrightarrow> preserves I (api_errors f m)"
  unfolding preserves_def api_errors_def by (rule triple_catch) (auto intro: triple_raise)

lemma preserves_parsed [preserving]: "preserves I (parsed r)"
  by (cases r) (simp_all add: parsed_def preserves_pure)

lemma preserves_discarding [preserving]: "preserves I m \<Longrightarrow> preserves I (discarding m)"
  unfolding discarding_def by (intro preserving)

text \<open>An invariant that does not look at a part of the services survives what happens there.\<close>

definition ignores :: "('s \<Rightarrow> bool) \<Rightarrow> ('a \<Rightarrow> 's \<Rightarrow> 's) \<Rightarrow> bool" where
  "ignores I put \<longleftrightarrow> (\<forall>x s. I s \<longrightarrow> I (put x s))"

lemma preserves_parts [preserving]:
  "ignores I (\<lambda>x s. s\<lparr>gw_audit := x\<rparr>) \<Longrightarrow> preserves I (on_audit f)"
  "ignores I (\<lambda>x s. s\<lparr>gw_settlements := x\<rparr>) \<Longrightarrow> preserves I (on_settlements g)"
  "ignores I (\<lambda>x s. s\<lparr>gw_policies := x\<rparr>) \<Longrightarrow> preserves I (on_policies h)"
  by (auto simp: ignores_def on_audit_def on_settlements_def on_policies_def rbind_Inr_iff intro!: preserves_atomically)

lemma preserves_admitted [preserving]: "ignores I (\<lambda>x s. s\<lparr>gw_rates := x\<rparr>) \<Longrightarrow> preserves I (admitted c rd roles permissions who)"
  unfolding admitted_def current_principal_def Let_def
  by (intro preserving preserves_atomically) (auto simp: ignores_def rbind_Inr_iff)

section \<open>Executions are authorized\<close>

definition may_write :: "Principal \<Rightarrow> bool" where
  "may_write who \<longleftrightarrow> RESEARCHER \<in> pl_roles who \<or> PROPOSALS_WRITE \<in> pl_permissions who"

text \<open>The execution stored for a proposal was requested by the proposal's own principal; its payload calls the proposal's
  target on the proposal's chain with the requested value and fees; its decision is the stored one.\<close>

definition requested_execution :: "gateway_event list \<Rightarrow> TransactionSignRequestV1 \<Rightarrow> bool" where
  "requested_execution events a \<longleftrightarrow>
     (\<exists>rd q who. let p = sr_proposal a in
        Request rd (PostExecution (pr_proposal_id p) q) who \<in> set events \<and> may_write who \<and> pl_subject who = pr_principal_id p \<and>
        sr_wallet_nonce a = xr_wallet_nonce q \<and>
        encode_unsigned_eip1559 (pr_chain_id p) (xr_wallet_nonce q) (xr_max_priority_fee_per_gas q) (xr_max_fee_per_gas q)
          (xr_gas_limit q) (call_target p) (xr_value q) (tb_calldata (requested_binding p q)) = Inr (sr_eip1559_unsigned_payload a))"

definition bound_execution :: "primitives \<Rightarrow> gateway_event list \<Rightarrow> memory_artifacts \<Rightarrow> uuid \<Rightarrow> StoredExecutionV1 \<Rightarrow> bool" where
  "bound_execution P events m pid e \<longleftrightarrow>
     (let a = se_authorization e; p = sr_proposal a; d = sr_decision a in
      se_proposal_id e = pid \<and> pr_proposal_id p = pid \<and> dget (ma_decisions m) pid = Some d \<and> sr_chain_id a = pr_chain_id p \<and>
      keccak_hex P (sr_eip1559_unsigned_payload a) = Inr (sr_eip1559_hash a) \<and>
      sr_expires_at a = min (dt_expires_at d) (pr_deadline p) \<and> requested_execution events a)"

definition used_nonces :: "StoredExecutionV1 \<Rightarrow> uuid \<times> string \<times> int \<times> int" where
  "used_nonces e =
     (let a = se_authorization e in
      (dt_decision_nonce (sr_decision a), lower (pr_wallet (sr_proposal a)), pr_chain_id (sr_proposal a), sr_wallet_nonce a))"

definition nonces_differ :: "StoredExecutionV1 \<Rightarrow> StoredExecutionV1 \<Rightarrow> bool" where
  "nonces_differ e f \<longleftrightarrow> fst (used_nonces e) \<noteq> fst (used_nonces f) \<and> snd (used_nonces e) \<noteq> snd (used_nonces f)"

definition records_ok :: "MemoryStateStore \<Rightarrow> bool" where
  "records_ok st \<longleftrightarrow> (\<forall>pid r. dget (ms_records st) pid = Some r \<longrightarrow> valid_proposal (rec_proposal r) \<and> pr_proposal_id (rec_proposal r) = pid)"

definition executions_ok :: "primitives \<Rightarrow> gateway_event list \<Rightarrow> memory_artifacts \<Rightarrow> bool" where
  "executions_ok P events m \<longleftrightarrow>
     (\<forall>pid e. dget (ma_executions m) pid = Some e \<longrightarrow> bound_execution P events m pid e) \<and>
     (\<forall>pid e pid' e'. dget (ma_executions m) pid = Some e \<and> dget (ma_executions m) pid' = Some e' \<and> pid \<noteq> pid' \<longrightarrow> nonces_differ e e')"

definition nonces_spent :: "memory_artifacts \<Rightarrow> MemoryStateStore \<Rightarrow> bool" where
  "nonces_spent m st \<longleftrightarrow> (\<forall>pid e. dget (ma_executions m) pid = Some e \<longrightarrow>
     fst (used_nonces e) \<in> set (ms_decision_nonces st) \<and> snd (used_nonces e) \<in> set (ms_wallet_nonces st))"

definition submissions_ok :: "memory_artifacts \<Rightarrow> ChainSubmission list \<Rightarrow> bool" where
  "submissions_ok m log \<longleftrightarrow> (\<forall>x\<in>set log. \<exists>pid e. dget (ma_executions m) pid = Some e \<and> x = submission_of e)"

definition gateway_inv :: "primitives \<Rightarrow> gateway_event list \<Rightarrow> ('w \<times> ChainSubmission list) services \<Rightarrow> bool" where
  "gateway_inv P events s \<longleftrightarrow> executions_ok P events (gw_artifacts s) \<and> nonces_spent (gw_artifacts s) (gw_state s) \<and>
     records_ok (gw_state s) \<and> submissions_ok (gw_artifacts s) (snd (gw_world s))"

lemma gateway_inv_ignores:
  "ignores (gateway_inv P events) (\<lambda>x s. s\<lparr>gw_audit := x\<rparr>)" "ignores (gateway_inv P events) (\<lambda>x s. s\<lparr>gw_settlements := x\<rparr>)"
  "ignores (gateway_inv P events) (\<lambda>x s. s\<lparr>gw_policies := x\<rparr>)" "ignores (gateway_inv P events) (\<lambda>x s. s\<lparr>gw_rates := x\<rparr>)"
  "ignores (gateway_inv P events) (\<lambda>x s. s\<lparr>gw_attestations := x\<rparr>)"
  by (simp_all add: ignores_def gateway_inv_def)

subsection \<open>The lifecycle store\<close>

text \<open>What the services rely on: no operation of the store forgets a nonce, and records stay well formed.\<close>

definition state_grows :: "MemoryStateStore \<Rightarrow> MemoryStateStore \<Rightarrow> bool" where
  "state_grows s t \<longleftrightarrow> set (ms_decision_nonces s) \<subseteq> set (ms_decision_nonces t) \<and> set (ms_wallet_nonces s) \<subseteq> set (ms_wallet_nonces t) \<and>
     (records_ok s \<longrightarrow> records_ok t)"

lemma gateway_inv_state: "gateway_inv P events s \<Longrightarrow> state_grows (gw_state s) t \<Longrightarrow> gateway_inv P events (s\<lparr>gw_state := t\<rparr>)"
  by (auto simp: gateway_inv_def state_grows_def nonces_spent_def)

lemma state_grows_transition:
  assumes "ms_transition now pid target s = Inr (r, t)" shows "state_grows s t"
proof -
  obtain r0 where "dget (ms_records s) pid = Some r0" "rec_proposal r = rec_proposal r0"
    using assms by (auto simp: ms_transition_def rbind_Inr_iff Let_def)
  then show ?thesis using ms_transition_frame [OF assms] by (auto simp: state_grows_def records_ok_def)
qed

lemma state_grows_reserve:
  assumes "ms_reserve clk rid p policy s = Inr (x, t)" "valid_proposal p" shows "state_grows s t"
proof -
  obtain r created where "x = (r, created)" by (cases x)
  with assms(1) have "ms_reserve clk rid p policy s = Inr ((r, created), t)" by simp
  then show ?thesis by (rule ms_reserve_cases) (use assms(2) in \<open>auto simp: state_grows_def records_ok_def\<close>)
qed

lemma state_grows_register:
  "with_unit (ms_register_decision_nonce n) s = Inr (u, t) \<Longrightarrow> state_grows s t"
  "with_unit (ms_register_wallet_nonce w c k) s = Inr (u, t) \<Longrightarrow> state_grows s t"
  by (auto simp: with_unit_def ms_register_decision_nonce_def ms_register_wallet_nonce_def state_grows_def records_ok_def Let_def
      rbind_Inr_iff split: if_splits)

lemma preserves_on_state:
  "(\<And>s x t. f s = Inr (x, t) \<Longrightarrow> state_grows s t) \<Longrightarrow> preserves (gateway_inv P events) (on_state f)"
  unfolding on_state_def by (rule preserves_atomically) (auto simp: rbind_Inr_iff intro: gateway_inv_state)

subsection \<open>Submitting\<close>

lemma executions_ok_decision:
  assumes "executions_ok P events m" "ma_put_decision pid d m = Inr (x, m')" shows "executions_ok P events m'"
proof -
  have m': "ma_executions m' = ma_executions m" "\<And>q y. dget (ma_decisions m) q = Some y \<Longrightarrow> dget (ma_decisions m') q = Some y"
    using assms(2) by (auto simp: ma_put_decision_def split: option.splits)
  then show ?thesis using assms(1) unfolding executions_ok_def bound_execution_def Let_def by simp
qed

lemma preserves_put_decision: "preserves (gateway_inv P events) (on_artifacts (ma_put_decision pid d))"
  unfolding on_artifacts_def
proof (rule preserves_atomically)
  fix s :: "('w \<times> ChainSubmission list) services" and x s'
  assume I: "gateway_inv P events s"
    and "rbind (ma_put_decision pid d (gw_artifacts s)) (\<lambda>(x, t). Inr (x, s\<lparr>gw_artifacts := t\<rparr>)) = Inr (x, s')"
  then obtain t where t: "ma_put_decision pid d (gw_artifacts s) = Inr (x, t)" "s' = s\<lparr>gw_artifacts := t\<rparr>"
    by (auto simp: rbind_Inr_iff)
  then have "ma_executions t = ma_executions (gw_artifacts s)" by (auto simp: ma_put_decision_def split: option.splits)
  then show "gateway_inv P events s'"
    using I executions_ok_decision [OF _ t(1)] t(2) by (simp add: gateway_inv_def nonces_spent_def submissions_ok_def)
qed

lemma preserves_submit:
  assumes "valid_proposal p" shows "preserves (gateway_inv P events) (gw_submit P c rd p actor)"
  unfolding gw_submit_def decide_once_def Let_def
  by (intro preserving preserves_put_decision preserves_on_state gateway_inv_ignores) (rule state_grows_reserve [OF _ assms])

subsection \<open>Executing\<close>

lemma authorization_Inr:
  assumes "authorization P c r d q = Inr a" "valid_proposal (rec_proposal r)"
  shows "sr_proposal a = rec_proposal r" "sr_decision a = d" "sr_chain_id a = pr_chain_id (rec_proposal r)"
    "sr_wallet_nonce a = xr_wallet_nonce q" "sr_expires_at a = min (dt_expires_at d) (pr_deadline (rec_proposal r))"
    "keccak_hex P (sr_eip1559_unsigned_payload a) = Inr (sr_eip1559_hash a)"
    "encode_unsigned_eip1559 (pr_chain_id (rec_proposal r)) (xr_wallet_nonce q) (xr_max_priority_fee_per_gas q) (xr_max_fee_per_gas q)
       (xr_gas_limit q) (call_target (rec_proposal r)) (xr_value q) (tb_calldata (requested_binding (rec_proposal r) q)) =
       Inr (sr_eip1559_unsigned_payload a)"
proof -
  let ?p = "rec_proposal r"
  obtain rid t payload h h' where w: "encode_unsigned_eip1559 (pr_chain_id ?p) (xr_wallet_nonce q) (xr_max_priority_fee_per_gas q)
      (xr_max_fee_per_gas q) (xr_gas_limit q) (call_target ?p) (xr_value q) (tb_calldata (requested_binding ?p q)) = Inr payload"
    "keccak_hex P payload = Inr h'"
    "make_TransactionSignRequestV1 \<lparr>sr_proposal = ?p, sr_decision = d, sr_reservation_id = rid, sr_wallet_nonce = xr_wallet_nonce q,
       sr_chain_id = pr_chain_id ?p, sr_transaction = t,
       sr_eip712_payload = ''0x1901'' @ drop 2 (gc_eip712_domain_separator c) @ drop 2 (dt_proposal_hash d),
       sr_eip1559_unsigned_payload = payload, sr_eip712_hash = h, sr_eip1559_hash = h',
       sr_expires_at = min (dt_expires_at d) (pr_deadline ?p)\<rparr> = Inr a"
    using assms(1) unfolding authorization_def Let_def
    by (auto simp: rbind_Inr_iff simp del: requested_binding_def split: if_splits)
  have low: "lower payload = payload" using w(1) by (rule encoded_payload)
  have self: "make_ProposalV1 ?p = Inr ?p" using assms(2) by (simp add: valid_proposal_def)
  show "sr_proposal a = ?p" "sr_decision a = d" "sr_chain_id a = pr_chain_id ?p"
    "sr_wallet_nonce a = xr_wallet_nonce q" "sr_expires_at a = min (dt_expires_at d) (pr_deadline ?p)"
    "keccak_hex P (sr_eip1559_unsigned_payload a) = Inr (sr_eip1559_hash a)"
    "encode_unsigned_eip1559 (pr_chain_id ?p) (xr_wallet_nonce q) (xr_max_priority_fee_per_gas q) (xr_max_fee_per_gas q)
       (xr_gas_limit q) (call_target ?p) (xr_value q) (tb_calldata (requested_binding ?p q)) = Inr (sr_eip1559_unsigned_payload a)"
    using w low self by (auto simp: make_TransactionSignRequestV1_def rbind_Inr_iff dest!: make_DecisionTokenV1_Inr split: if_splits)
qed

text \<open>The nonces of a request are spent by no stored execution, and marked.\<close>

definition nonces_taken :: "uuid \<Rightarrow> string \<times> int \<times> int \<Rightarrow> 'w services \<Rightarrow> bool" where
  "nonces_taken n k s \<longleftrightarrow> n \<in> set (ms_decision_nonces (gw_state s)) \<and> k \<in> set (ms_wallet_nonces (gw_state s)) \<and>
     (\<forall>pid e. dget (ma_executions (gw_artifacts s)) pid = Some e \<longrightarrow> fst (used_nonces e) \<noteq> n \<and> snd (used_nonces e) \<noteq> k)"

lemma submissions_ok_mono:
  assumes "submissions_ok m log" "\<And>q f. dget (ma_executions m) q = Some f \<Longrightarrow>
    \<exists>g. dget (ma_executions m') q = Some g \<and> submission_of g = submission_of f"
  shows "submissions_ok m' log"
  unfolding submissions_ok_def
proof
  fix x assume "x \<in> set log"
  then obtain q f where "dget (ma_executions m) q = Some f" "x = submission_of f" using assms(1) unfolding submissions_ok_def by blast
  with assms(2) show "\<exists>q f. dget (ma_executions m') q = Some f \<and> x = submission_of f" by metis
qed

lemma put_execution_inv:
  assumes inv: "gateway_inv P events s" and taken: "nonces_taken (fst (used_nonces x)) (snd (used_nonces x)) s"
    and x: "bound_execution P events (gw_artifacts s) pid x"
    and put: "ma_put_execution x (gw_artifacts s) = Inr ((e, created), m)"
  shows "gateway_inv P events (s\<lparr>gw_artifacts := m\<rparr>)" "dget (ma_executions m) pid = Some e"
proof -
  have pid: "se_proposal_id x = pid" using x by (simp add: bound_execution_def Let_def)
  have "gateway_inv P events (s\<lparr>gw_artifacts := m\<rparr>) \<and> dget (ma_executions m) pid = Some e"
  proof (cases "dget (ma_executions (gw_artifacts s)) pid")
    case (Some y)
    with put have m: "gw_artifacts s = m" "y = e" by (simp_all add: ma_put_execution_def pid)
    have "gateway_inv P events (s\<lparr>gw_artifacts := m\<rparr>)" using inv unfolding gateway_inv_def m(1) by simp
    then show ?thesis using Some m by simp
  next
    case None
    with put have new: "m = (gw_artifacts s)\<lparr>ma_executions := dset pid x (ma_executions (gw_artifacts s))\<rparr>" "e = x"
      by (auto simp: ma_put_execution_def pid)
    have same: "bound_execution P events ((gw_artifacts s)\<lparr>ma_executions := z\<rparr>) q f = bound_execution P events (gw_artifacts s) q f" for z q f
      by (simp add: bound_execution_def)
    have differ: "nonces_differ f x \<and> nonces_differ x f" if "dget (ma_executions (gw_artifacts s)) q = Some f" for q f
      using taken that unfolding nonces_taken_def nonces_differ_def by metis
    have "executions_ok P events m"
      using inv x unfolding gateway_inv_def executions_ok_def new(1) by (auto simp: same differ)
    moreover have "nonces_spent m (gw_state s)"
      using inv taken by (auto simp: gateway_inv_def nonces_spent_def nonces_taken_def new(1))
    moreover have "submissions_ok m (snd (gw_world s))"
      by (rule submissions_ok_mono [of "gw_artifacts s"]) (use inv None in \<open>auto simp: gateway_inv_def new(1)\<close>)
    ultimately show ?thesis using inv new by (simp add: gateway_inv_def)
  qed
  then show "gateway_inv P events (s\<lparr>gw_artifacts := m\<rparr>)" "dget (ma_executions m) pid = Some e" by simp_all
qed

text \<open>The world of a container that logs: the signer leaves the log alone, a backend appends what it is given.\<close>

lemma logged_signer:
  assumes "gc_signer (recording c) = Some sign" "\<And>s w. I s \<Longrightarrow> I (s\<lparr>gw_world := (w, snd (gw_world s))\<rparr>)"
  shows "triple I (on_world (sign a)) (\<lambda>_. I) I"
proof -
  obtain z where "sign = (\<lambda>a (w, log). case z a w of (r, w) \<Rightarrow> (r, w, log))" using assms(1) by (auto simp: recording_def Let_def)
  then have "snd (on_world (sign a) s) = s\<lparr>gw_world := (snd (z a (fst (gw_world s))), snd (gw_world s))\<rparr>" for s :: "('a \<times> ChainSubmission list) services"
    by (simp add: on_world_def split: prod.splits)
  then have "I (snd (on_world (sign a) s))" if "I s" for s using assms(2) that by simp
  then show ?thesis by (auto simp: triple_def split: prod.splits sum.splits) (metis snd_conv)+
qed

lemma gateway_inv_world: "gateway_inv P events (s\<lparr>gw_world := (w, snd (gw_world s))\<rparr>) = gateway_inv P events s"
  by (simp add: gateway_inv_def)

definition at_decision :: "primitives \<Rightarrow> gateway_event list \<Rightarrow> uuid \<Rightarrow> DecisionTokenV1 \<Rightarrow> ('w \<times> ChainSubmission list) services \<Rightarrow> bool" where
  "at_decision P events pid d s \<longleftrightarrow> gateway_inv P events s \<and> dget (ma_decisions (gw_artifacts s)) pid = Some d"

lemma sign_step:
  assumes "gc_signer (recording c) = Some sign"
  shows "triple (at_decision P events pid d) (on_world (sign a)) (\<lambda>_. at_decision P events pid d) (gateway_inv P events)"
  by (rule triple_conseq [OF logged_signer [OF assms, of "at_decision P events pid d"]]) (auto simp: at_decision_def gateway_inv_world)

text \<open>After the first registration, after the second.\<close>

lemma decision_nonce_step:
  "triple (at_decision P events pid d) (on_state (with_unit (ms_register_decision_nonce n)))
     (\<lambda>_ s. at_decision P events pid d s \<and> n \<in> set (ms_decision_nonces (gw_state s)) \<and>
        (\<forall>q f. dget (ma_executions (gw_artifacts s)) q = Some f \<longrightarrow> fst (used_nonces f) \<noteq> n)) (gateway_inv P events)"
  unfolding on_state_def
proof (rule triple_atomically)
  fix s :: "('w \<times> ChainSubmission list) services" and x s'
  assume I: "at_decision P events pid d s"
    and "rbind (with_unit (ms_register_decision_nonce n) (gw_state s)) (\<lambda>(x, t). Inr (x, s\<lparr>gw_state := t\<rparr>)) = Inr (x, s')"
  then obtain t where t: "with_unit (ms_register_decision_nonce n) (gw_state s) = Inr (x, t)" "s' = s\<lparr>gw_state := t\<rparr>"
    by (auto simp: rbind_Inr_iff)
  then have n: "n \<notin> set (ms_decision_nonces (gw_state s))" "n \<in> set (ms_decision_nonces t)"
    by (auto simp: with_unit_def ms_register_decision_nonce_def rbind_Inr_iff split: if_splits)
  have "gateway_inv P events s'" unfolding t(2) by (rule gateway_inv_state [OF _ state_grows_register(1) [OF t(1)]]) (use I in \<open>simp add: at_decision_def\<close>)
  moreover have "fst (used_nonces f) \<noteq> n" if "dget (ma_executions (gw_artifacts s)) q = Some f" for q f
    using I that n(1) unfolding at_decision_def gateway_inv_def nonces_spent_def by blast
  ultimately show "at_decision P events pid d s' \<and> n \<in> set (ms_decision_nonces (gw_state s')) \<and>
      (\<forall>q f. dget (ma_executions (gw_artifacts s')) q = Some f \<longrightarrow> fst (used_nonces f) \<noteq> n)"
    using I n(2) t(2) by (simp add: at_decision_def)
qed (simp add: at_decision_def)

lemma wallet_nonce_step:
  "triple (\<lambda>s. at_decision P events pid d s \<and> n \<in> set (ms_decision_nonces (gw_state s)) \<and>
        (\<forall>q f. dget (ma_executions (gw_artifacts s)) q = Some f \<longrightarrow> fst (used_nonces f) \<noteq> n))
     (on_state (with_unit (ms_register_wallet_nonce w k i)))
     (\<lambda>_ s. at_decision P events pid d s \<and> nonces_taken n (lower w, k, i) s) (gateway_inv P events)"
  unfolding on_state_def
proof (rule triple_atomically)
  fix s :: "('w \<times> ChainSubmission list) services" and x s'
  assume I: "at_decision P events pid d s \<and> n \<in> set (ms_decision_nonces (gw_state s)) \<and>
      (\<forall>q f. dget (ma_executions (gw_artifacts s)) q = Some f \<longrightarrow> fst (used_nonces f) \<noteq> n)"
    and "rbind (with_unit (ms_register_wallet_nonce w k i) (gw_state s)) (\<lambda>(x, t). Inr (x, s\<lparr>gw_state := t\<rparr>)) = Inr (x, s')"
  then obtain t where t: "with_unit (ms_register_wallet_nonce w k i) (gw_state s) = Inr (x, t)" "s' = s\<lparr>gw_state := t\<rparr>"
    by (auto simp: rbind_Inr_iff)
  then have n: "(lower w, k, i) \<notin> set (ms_wallet_nonces (gw_state s))" "(lower w, k, i) \<in> set (ms_wallet_nonces t)"
    "ms_decision_nonces t = ms_decision_nonces (gw_state s)"
    by (auto simp: with_unit_def ms_register_wallet_nonce_def rbind_Inr_iff Let_def split: if_splits)
  have "gateway_inv P events s'" unfolding t(2) by (rule gateway_inv_state [OF _ state_grows_register(2) [OF t(1)]]) (use I in \<open>simp add: at_decision_def\<close>)
  moreover have "snd (used_nonces f) \<noteq> (lower w, k, i)" if "dget (ma_executions (gw_artifacts s)) q = Some f" for q f
    using I that n(1) unfolding at_decision_def gateway_inv_def nonces_spent_def by metis
  ultimately show "at_decision P events pid d s' \<and> nonces_taken n (lower w, k, i) s'"
    using I n(2,3) t(2) by (simp add: at_decision_def nonces_taken_def)
qed (simp add: at_decision_def)

text \<open>With the execution stored under the identifier.\<close>

definition at_execution :: "primitives \<Rightarrow> gateway_event list \<Rightarrow> uuid \<Rightarrow> StoredExecutionV1 \<Rightarrow> ('w \<times> ChainSubmission list) services \<Rightarrow> bool" where
  "at_execution P events pid e s \<longleftrightarrow> gateway_inv P events s \<and> dget (ma_executions (gw_artifacts s)) pid = Some e"

lemma put_execution_step:
  assumes "se_authorization x = a" "se_proposal_id x = pid" "sr_decision a = d" "\<And>m. dget (ma_decisions m) pid = Some d \<Longrightarrow> bound_execution P events m pid x"
  shows "triple (\<lambda>s. at_decision P events pid d s \<and> nonces_taken (fst (used_nonces x)) (snd (used_nonces x)) s)
    (on_artifacts (ma_put_execution x)) (\<lambda>(e, created). at_execution P events pid e) (gateway_inv P events)"
  unfolding on_artifacts_def
proof (rule triple_atomically)
  fix s :: "('w \<times> ChainSubmission list) services" and y s'
  assume I: "at_decision P events pid d s \<and> nonces_taken (fst (used_nonces x)) (snd (used_nonces x)) s"
    and "rbind (ma_put_execution x (gw_artifacts s)) (\<lambda>(y, t). Inr (y, s\<lparr>gw_artifacts := t\<rparr>)) = Inr (y, s')"
  then obtain e created m where m: "ma_put_execution x (gw_artifacts s) = Inr ((e, created), m)" "y = (e, created)" "s' = s\<lparr>gw_artifacts := m\<rparr>"
    by (auto simp: rbind_Inr_iff)
  show "(case y of (e, created) \<Rightarrow> at_execution P events pid e) s'"
    using put_execution_inv [OF _ _ assms(4) m(1)] I by (simp add: m at_decision_def at_execution_def)
qed (simp add: at_decision_def)

lemma at_execution_ignores:
  "ignores (at_execution P events pid e) (\<lambda>x s. s\<lparr>gw_audit := x\<rparr>)"
  "ignores (at_execution P events pid e) (\<lambda>x s. s\<lparr>gw_settlements := x\<rparr>)"
  by (simp_all add: ignores_def at_execution_def gateway_inv_def)

lemma preserves_at_execution:
  "(\<And>s x t. f s = Inr (x, t) \<Longrightarrow> state_grows s t) \<Longrightarrow> preserves (at_execution P events pid e) (on_state f)"
  unfolding on_state_def by (rule preserves_atomically) (auto simp: at_execution_def rbind_Inr_iff intro: gateway_inv_state)

text \<open>A triple that starts from a preserved assertion and weakens it at the end.\<close>

lemma preserves_then:
  "preserves I m \<Longrightarrow> (\<And>s. I s \<Longrightarrow> E s) \<Longrightarrow> (\<And>x. triple I (f x) Q E) \<Longrightarrow> triple I (ebind m f) Q E"
  unfolding preserves_def by (rule triple_bind [where R = "\<lambda>_. I"]) (erule triple_conseq, simp_all)

lemma bound_from_signer:
  assumes "authorization P c r d q = Inr a" "valid_proposal (rec_proposal r)" "pr_proposal_id (rec_proposal r) = pid"
    and "Request rd (PostExecution pid q) who \<in> set events" "may_write who" "pl_subject who = pr_principal_id (rec_proposal r)"
    and "from_signer tid now pid a result = Inr x"
  shows "se_authorization x = a" "se_proposal_id x = pid" "dget (ma_decisions m) pid = Some d \<Longrightarrow> bound_execution P events m pid x"
    "used_nonces x = (dt_decision_nonce d, lower (pr_wallet (rec_proposal r)), pr_chain_id (rec_proposal r), xr_wallet_nonce q)"
proof -
  note a = authorization_Inr [OF assms(1,2)]
  show x: "se_authorization x = a" "se_proposal_id x = pid"
    using assms(7) by (auto simp: from_signer_def make_StoredExecutionV1_def split: if_splits)
  have "requested_execution events a"
    unfolding requested_execution_def Let_def using assms(3-6) a by metis
  then show "dget (ma_decisions m) pid = Some d \<Longrightarrow> bound_execution P events m pid x"
    unfolding bound_execution_def Let_def x using a assms(3) by simp
  show "used_nonces x = (dt_decision_nonce d, lower (pr_wallet (rec_proposal r)), pr_chain_id (rec_proposal r), xr_wallet_nonce q)"
    by (simp add: used_nonces_def x a)
qed

lemma signed_tail:
  "triple (at_execution P events pid e)
     (if \<not> execution_matches_request e q then eraise different_execution
      else ebind (on_state (ms_transition now pid SIGNED)) (\<lambda>_. ebind (on_audit f) (\<lambda>_. ereturn (e, created))))
     (\<lambda>(e, created). at_execution P events pid e) (gateway_inv P events)"
proof (rule triple_conseq [where Q' = "\<lambda>(f, _). at_execution P events pid f"])
  show "triple (at_execution P events pid e)
     (if \<not> execution_matches_request e q then eraise different_execution
      else ebind (on_state (ms_transition now pid SIGNED)) (\<lambda>_. ebind (on_audit f) (\<lambda>_. ereturn (e, created))))
     (\<lambda>(f, _). at_execution P events pid f) (at_execution P events pid e)"
    by (intro triple_if triple_raise preserves_then preserving preserves_at_execution at_execution_ignores triple_return)
      (auto intro: state_grows_transition)
qed (auto simp: at_execution_def)

lemma sign_execution_triple:
  assumes "gc_signer (recording c) = Some sign" "valid_proposal (rec_proposal r)" "pr_proposal_id (rec_proposal r) = pid"
    and "Request rd (PostExecution pid q) who \<in> set events" "may_write who" "pl_subject who = pr_principal_id (rec_proposal r)"
  shows "triple (gateway_inv P events) (sign_execution P (recording c) rd' sign pid q actor r)
    (\<lambda>(e, created). at_execution P events pid e) (gateway_inv P events)"
  unfolding sign_execution_def Let_def
  apply (rule triple_if, simp add: triple_raise)
  apply (rule triple_bind [where R = "at_decision P events pid"])
   apply (rule triple_read; simp add: at_decision_def)
  subgoal for d
    apply (rule triple_bind [where R = "\<lambda>a s. authorization P (recording c) r d q = Inr a \<and> at_decision P events pid d s"])
     apply (rule triple_lift; simp add: at_decision_def)
    apply (rule triple_pure)
    apply (rule triple_bind [OF sign_step [OF assms(1)]])
    apply (rule triple_bind [OF decision_nonce_step])
    apply (rule triple_bind [OF wallet_nonce_step])
    subgoal for a result
      apply (rule triple_bind [where R = "\<lambda>x s. from_signer (rd_transaction_id rd') (rd_signed_at rd') pid a result = Inr x \<and>
          at_decision P events pid d s \<and> nonces_taken (fst (used_nonces x)) (snd (used_nonces x)) s"])
       apply (rule triple_lift; simp add: at_decision_def bound_from_signer(4) [OF _ assms(2-6)])
      apply (rule triple_pure)
      apply (rule triple_bind, rule put_execution_step)
          apply (rule bound_from_signer [OF _ assms(2-6)]; assumption)
         apply (rule bound_from_signer [OF _ assms(2-6)]; assumption)
        apply (rule authorization_Inr [OF _ assms(2)], assumption)
       apply (rule bound_from_signer [OF _ assms(2-6)]; assumption)
      by (auto intro!: signed_tail)
    done
  done

lemma backend_step:
  assumes "gc_chain_backends (recording c) n = Some backend"
  shows "preserves (at_execution P events pid e) (on_world (backend (submission_of e)))"
proof -
  obtain z where z: "backend = (\<lambda>x (w, log). case z x w of (r, w) \<Rightarrow> (r, w, log @ [x]))" using assms by (auto simp: recording_def Let_def)
  have snd: "snd (on_world (backend (submission_of e)) s) =
      s\<lparr>gw_world := (snd (z (submission_of e) (fst (gw_world s))), snd (gw_world s) @ [submission_of e])\<rparr>"
    for s :: "('a \<times> ChainSubmission list) services"
    by (simp add: on_world_def z split: prod.splits)
  have "at_execution P events pid e (snd (on_world (backend (submission_of e)) s))" if "at_execution P events pid e s" for s
    using that unfolding snd by (auto simp: at_execution_def gateway_inv_def submissions_ok_def)
  then show ?thesis by (auto simp: preserves_def triple_def split: prod.splits sum.splits) (metis snd_conv)+
qed

lemma mark_submitted_inv:
  assumes "at_execution P events pid e s" "ma_mark_submitted pid now (gw_artifacts s) = Inr (f, m)"
  shows "at_execution P events pid f (s\<lparr>gw_artifacts := m\<rparr>)"
proof (cases "se_submitted_at e")
  case (Some t)
  with assms have m: "gw_artifacts s = m" "f = e" by (auto simp: ma_mark_submitted_def at_execution_def)
  then have "s\<lparr>gw_artifacts := m\<rparr> = s" by simp
  then show ?thesis using assms(1) m(2) by simp
next
  case None
  let ?f = "e\<lparr>se_submitted_at := Some now\<rparr>"
  have f: "f = ?f" and m: "m = (gw_artifacts s)\<lparr>ma_executions := dset pid ?f (ma_executions (gw_artifacts s))\<rparr>"
    using None assms by (auto simp: ma_mark_submitted_def at_execution_def Let_def)
  have e: "dget (ma_executions (gw_artifacts s)) pid = Some e" using assms(1) by (simp add: at_execution_def)
  have old: "\<exists>g. dget (ma_executions (gw_artifacts s)) q = Some g \<and> bound_execution P events m q h = bound_execution P events (gw_artifacts s) q g \<and>
      used_nonces h = used_nonces g"
    if "dget (ma_executions m) q = Some h" for q h
    using that e by (cases "q = pid") (auto simp: m bound_execution_def used_nonces_def)
  have inv: "executions_ok P events (gw_artifacts s)" "nonces_spent (gw_artifacts s) (gw_state s)"
    "submissions_ok (gw_artifacts s) (snd (gw_world s))" "records_ok (gw_state s)"
    using assms(1) by (simp_all add: at_execution_def gateway_inv_def)
  have "executions_ok P events m"
    unfolding executions_ok_def
  proof (intro conjI allI impI)
    fix q h assume "dget (ma_executions m) q = Some h"
    then show "bound_execution P events m q h" using inv(1) old [of q h] unfolding executions_ok_def by auto
  next
    fix q h q' h' assume "dget (ma_executions m) q = Some h \<and> dget (ma_executions m) q' = Some h' \<and> q \<noteq> q'"
    then obtain g g' where "dget (ma_executions (gw_artifacts s)) q = Some g" "dget (ma_executions (gw_artifacts s)) q' = Some g'" "q \<noteq> q'"
      "used_nonces h = used_nonces g" "used_nonces h' = used_nonces g'" using old [of q h] old [of q' h'] by auto
    then show "nonces_differ h h'" using inv(1) unfolding executions_ok_def nonces_differ_def by simp
  qed
  moreover have "nonces_spent m (gw_state s)"
    unfolding nonces_spent_def
  proof (intro allI impI)
    fix q h assume "dget (ma_executions m) q = Some h"
    then obtain g where "dget (ma_executions (gw_artifacts s)) q = Some g" "used_nonces h = used_nonces g" using old [of q h] by auto
    then show "fst (used_nonces h) \<in> set (ms_decision_nonces (gw_state s)) \<and> snd (used_nonces h) \<in> set (ms_wallet_nonces (gw_state s))"
      using inv(2) unfolding nonces_spent_def by simp
  qed
  moreover have "submissions_ok m (snd (gw_world s))"
    by (rule submissions_ok_mono [OF inv(3)]) (use e in \<open>auto simp: m submission_of_def\<close>)
  ultimately show ?thesis using inv(4) by (simp add: at_execution_def gateway_inv_def m f)
qed

lemma mark_submitted_step:
  "triple (at_execution P events pid e) (on_artifacts (ma_mark_submitted pid now)) (at_execution P events pid) (gateway_inv P events)"
  unfolding on_artifacts_def
proof (rule triple_atomically)
  fix s :: "('w \<times> ChainSubmission list) services" and f s'
  assume e: "at_execution P events pid e s"
    and "rbind (ma_mark_submitted pid now (gw_artifacts s)) (\<lambda>(x, t). Inr (x, s\<lparr>gw_artifacts := t\<rparr>)) = Inr (f, s')"
  then obtain m where m: "ma_mark_submitted pid now (gw_artifacts s) = Inr (f, m)" "s' = s\<lparr>gw_artifacts := m\<rparr>"
    by (auto simp: rbind_Inr_iff)
  show "at_execution P events pid f s'" unfolding m(2) by (rule mark_submitted_inv [OF e m(1)])
qed (simp add: at_execution_def)

lemma triple_weaken: "triple I m (\<lambda>_. I) I \<Longrightarrow> (\<And>s. I s \<Longrightarrow> J s) \<Longrightarrow> triple I m (\<lambda>_. J) J"
  by (erule triple_conseq) simp_all

lemma submit_execution_triple:
  assumes "gc_chain_backends (recording c) n = Some backend"
  shows "triple (at_execution P events pid e) (submit_execution P rd backend pid actor e) (\<lambda>_. gateway_inv P events) (gateway_inv P events)"
  unfolding submit_execution_def
proof (rule preserves_then [OF backend_step [OF assms]], simp add: at_execution_def, rule triple_if)
  fix h
  show "triple (at_execution P events pid e) (ebind (on_artifacts (ma_mark_submitted pid (rd_submitted_at rd))) (\<lambda>e.
      ebind (on_settlements (mt_register (se_transaction_hash e) pid (sr_chain_id (se_authorization e)))) (\<lambda>_.
      ebind (reread_record pid) (\<lambda>current.
      ebind (if rec_state current = SIGNED then on_state (ms_transition (rd_resumed_at rd) pid SUBMITTED) else ereturn current) (\<lambda>r.
      ebind (on_audit (aj_append P (rd_event_at' rd) (rd_event_id' rd) ''TRANSACTION_SUBMITTED'' actor (submitted_event pid e) (Some pid))) (\<lambda>_.
      ereturn (e, r))))))) (\<lambda>_. gateway_inv P events) (gateway_inv P events)"
    unfolding reread_record_def
    by (rule triple_bind [OF mark_submitted_step], rule triple_weaken [OF _ at_execution_def [THEN iffD1, THEN conjunct1]], fold preserves_def,
        intro preserving preserves_at_execution at_execution_ignores) (erule state_grows_transition)
qed (auto intro: triple_raise simp: at_execution_def)

lemma preserves_resume: "preserves (gateway_inv P events) (resume_execution rd pid e)"
  unfolding resume_execution_def reread_record_def
  by (intro preserving preserves_on_state gateway_inv_ignores) (erule state_grows_transition)

lemma triple_prod:
  "(\<And>y z. triple (R y z) (f y z) Q E) \<Longrightarrow> triple (case x of (y, z) \<Rightarrow> R y z) (case x of (y, z) \<Rightarrow> f y z) Q E"
  by (cases x) simp

lemma preserves_execute:
  assumes "Request rd (PostExecution pid q) who \<in> set events" "may_write who"
  shows "preserves (gateway_inv P events) (gw_execute P (recording c) rd' pid q (pl_subject who))"
  unfolding gw_execute_def preserves_def
  apply (rule triple_bind [where R = "\<lambda>r s. (valid_proposal (rec_proposal r) \<and> pr_proposal_id (rec_proposal r) = pid) \<and> gateway_inv P events s"])
   apply (rule triple_read; auto simp: gateway_inv_def records_ok_def ms_get_def)
  apply (rule triple_pure)
  apply (intro triple_if triple_option triple_raise)
     apply assumption+
  subgoal for r sign backend
    apply (rule triple_bind [where R = "\<lambda>x s. gateway_inv P events s \<and> (\<forall>e. x = Some e \<longrightarrow> dget (ma_executions (gw_artifacts s)) pid = Some e)"])
     apply (rule triple_read; simp)
    apply (rule triple_bind [where R = "\<lambda>(e, created). at_execution P events pid e"])
     apply (rule triple_option)
      apply (rule triple_conseq [OF sign_execution_triple [of c sign r pid rd q who events]])
              apply (use assms in auto)[9]
     apply (rule triple_if; auto intro!: triple_raise triple_return simp: at_execution_def)
    apply (rule triple_prod)
    apply (rule triple_bind [where R = "\<lambda>_. gateway_inv P events"])
     apply (rule triple_if)
      apply (rule submit_execution_triple, assumption)
     apply (rule triple_conseq [OF preserves_resume [unfolded preserves_def]]; simp add: at_execution_def)
    apply (simp add: split_def triple_return)
    done
  done

subsection \<open>Endpoints and the background task\<close>

lemma admitted_triple:
  assumes "ignores I (\<lambda>x s. s\<lparr>gw_rates := x\<rparr>)"
  shows "triple I (admitted c rd roles permissions who)
    (\<lambda>w s. (w = who \<and> (pl_roles who \<inter> roles \<noteq> {} \<or> pl_permissions who \<inter> permissions \<noteq> {})) \<and> I s) I"
  unfolding admitted_def current_principal_def Let_def
  apply (rule triple_bind [where R = "\<lambda>w s. w = who \<and> I s"])
   apply (rule triple_bind [where R = "\<lambda>_. I"], rule triple_atomically)
     apply (use assms in \<open>auto simp: ignores_def rbind_Inr_iff intro!: triple_return triple_raise\<close>)[3]
  by (rule triple_lift) (auto simp: require_access_def split: if_splits)

lemma parsed_triple: "triple I (parsed r) (\<lambda>x s. r = Inr x \<and> I s) I"
  by (cases r) (simp_all add: parsed_def triple_return triple_raise)

lemma preserves_submit_proposal: "preserves (gateway_inv P events) (submit_proposal P c rd body who)"
  unfolding submit_proposal_def
  apply (rule preserving, rule preserving, rule gateway_inv_ignores)
  apply (subst preserves_def, rule triple_bind [OF parsed_triple], rule triple_pure, fold preserves_def)
  by (intro preserving preserves_submit) (erule make_ProposalV1_fixed)

lemma preserves_execute_proposal:
  assumes "Request rd (PostExecution pid body) who \<in> set events"
  shows "preserves (gateway_inv P events) (execute_proposal P (recording c) rd' pid body who)"
  unfolding execute_proposal_def
  apply (subst preserves_def, rule triple_bind [OF admitted_triple [OF gateway_inv_ignores(4)]], rule triple_pure)
  apply (rule triple_bind [OF parsed_triple], rule triple_pure, fold preserves_def)
  apply (rule preserving)
  using assms by (auto simp: may_write_def make_ExecutionRequest_def split: if_splits intro!: preserves_execute)

lemma preserves_attestation:
  assumes "ignores I (\<lambda>x s. s\<lparr>gw_attestations := x\<rparr>)" "ignores I (\<lambda>x s. s\<lparr>gw_audit := x\<rparr>)"
  shows "preserves I (gw_complete_attestation P L c rd pid actor)"
proof -
  have "preserves I (on_attestations f)" for f :: "MemoryAttestationStore \<Rightarrow> ('b \<times> MemoryAttestationStore) res"
    unfolding on_attestations_def by (rule preserves_atomically) (use assms(1) in \<open>auto simp: ignores_def rbind_Inr_iff\<close>)
  then show ?thesis unfolding gw_complete_attestation_def create_attestation_def by (intro preserving assms) auto
qed

lemma preserves_respond:
  assumes "Request rd q who \<in> set events"
  shows "preserves (gateway_inv P events) (respond P L (recording c) rd q who)"
proof (cases q)
  case (PostProposal p)
  then show ?thesis by (simp add: respond_def preserves_discarding preserves_submit_proposal)
next
  case (PostExecution pid body)
  then show ?thesis using assms by (simp add: respond_def preserves_discarding preserves_execute_proposal)
next
  case (GetAttestation pid)
  then show ?thesis unfolding respond_def proposal_attestation_def readable_record_def
    by simp (intro preserving preserves_attestation gateway_inv_ignores)
qed (simp_all add: respond_def proposal_status_def readable_record_def create_policy_def approve_policy_def activate_policy_def
    simulate_policy_def verify_attestation_endpoint_def audit_stream_def, (intro preserving gateway_inv_ignores)+)

lemma poll_grows: "state_grows (fst s) (fst (snd (poll_once memory_side answers finality env s)))"
proof -
  let ?I = "\<lambda>t. state_grows (fst s) (fst t)"
  have trans: "state_grows x y \<Longrightarrow> state_grows y z \<Longrightarrow> state_grows x z" for x y z by (auto simp: state_grows_def)
  have "triple ?I (poll_tracked memory_side answers finality env t) (\<lambda>_. ?I) ?I" for t
    unfolding poll_tracked_def settle_final_def unit_op_def memory_side_def
    by (auto intro!: preserving preserves_atomically split: option.splits sum.splits exn.splits
        simp: preserves_def [symmetric] lift_snd_def rbind_Inr_iff intro: trans [OF _ state_grows_transition])
  then have "triple ?I (efor (sd_pending memory_side s) (poll_tracked memory_side answers finality env)) (\<lambda>_. ?I) ?I"
    by (rule triple_for)
  then show ?thesis unfolding poll_once_def by (rule triple_snd) (simp add: state_grows_def)
qed

lemma step_preserves_gateway:
  assumes "event \<in> set events" "gateway_inv P events s"
  shows "gateway_inv P events (gateway_step P L (recording c) event s)"
proof (cases event)
  case (Request rd q who)
  then show ?thesis using preserves_snd [OF preserves_respond assms(2)] assms(1) by simp
next
  case (Reconcile answers finality env)
  have "gateway_inv P events (s\<lparr>gw_state := fst (snd (poll_once memory_side answers finality env (gw_state s, gw_settlements s)))\<rparr>)"
    by (rule gateway_inv_state [OF assms(2)]) (use poll_grows [of "(gw_state s, gw_settlements s)"] in simp)
  then show ?thesis by (simp add: Reconcile reconcile_loop_def split_def Let_def gateway_inv_def)
qed

lemma run_preserves_gateway:
  assumes "gateway_inv P events s" "set xs \<subseteq> set events" shows "gateway_inv P events (gateway_run P L (recording c) xs s)"
  using assms by (induction xs arbitrary: s) (simp_all add: gateway_run_def step_preserves_gateway)

lemma gateway_inv_init: "gateway_inv P events (ServiceContainer_init policies now (w, []))"
  by (simp add: gateway_inv_def ServiceContainer_init_def executions_ok_def nonces_spent_def records_ok_def submissions_ok_def
      MemoryArtifacts_init_def MemoryStateStore_init_def)

section \<open>Submitted once, attested once\<close>

text \<open>Invariants of the artifacts and of the attestations, whatever the container is.\<close>

definition artifacts_only :: "(memory_artifacts \<Rightarrow> bool) \<Rightarrow> 'w services \<Rightarrow> bool" where
  "artifacts_only J s \<longleftrightarrow> J (gw_artifacts s)"

definition attestations_only :: "(MemoryAttestationStore \<Rightarrow> bool) \<Rightarrow> 'w services \<Rightarrow> bool" where
  "attestations_only J s \<longleftrightarrow> J (gw_attestations s)"

lemmas only_defs = artifacts_only_def attestations_only_def

lemma only_ignores:
  "ignores (artifacts_only J) (\<lambda>x s. s\<lparr>gw_audit := x\<rparr>)" "ignores (artifacts_only J) (\<lambda>x s. s\<lparr>gw_settlements := x\<rparr>)"
  "ignores (artifacts_only J) (\<lambda>x s. s\<lparr>gw_policies := x\<rparr>)" "ignores (artifacts_only J) (\<lambda>x s. s\<lparr>gw_rates := x\<rparr>)"
  "ignores (artifacts_only J) (\<lambda>x s. s\<lparr>gw_attestations := x\<rparr>)"
  "ignores (attestations_only K) (\<lambda>x s. s\<lparr>gw_audit := x\<rparr>)" "ignores (attestations_only K) (\<lambda>x s. s\<lparr>gw_settlements := x\<rparr>)"
  "ignores (attestations_only K) (\<lambda>x s. s\<lparr>gw_policies := x\<rparr>)" "ignores (attestations_only K) (\<lambda>x s. s\<lparr>gw_rates := x\<rparr>)"
  by (simp_all add: ignores_def only_defs)

lemma only_state [preserving]: "preserves (artifacts_only J) (on_state f)" "preserves (attestations_only K) (on_state f)"
  unfolding on_state_def by (auto intro!: preserves_atomically simp: rbind_Inr_iff only_defs)

lemma only_world [preserving]: "preserves (artifacts_only J) (on_world m)" "preserves (attestations_only K) (on_world m)"
  by (auto simp: preserves_def triple_def on_world_def only_defs split: prod.splits sum.splits)

lemma only_artifacts [preserving]: "preserves (attestations_only K) (on_artifacts f)"
  unfolding on_artifacts_def by (auto intro!: preserves_atomically simp: rbind_Inr_iff only_defs)

lemma only_on_artifacts:
  "(\<And>m x m'. J m \<Longrightarrow> f m = Inr (x, m') \<Longrightarrow> J m') \<Longrightarrow> preserves (artifacts_only J) (on_artifacts f)"
  unfolding on_artifacts_def by (rule preserves_atomically) (auto simp: rbind_Inr_iff only_defs)

text \<open>What every endpoint preserves once the operations on the artifacts do.\<close>

lemmas endpoint_defs = respond_def proposal_status_def readable_record_def create_policy_def approve_policy_def activate_policy_def
  simulate_policy_def verify_attestation_endpoint_def audit_stream_def proposal_attestation_def

lemmas execute_defs = execute_proposal_def gw_execute_def sign_execution_def submit_execution_def resume_execution_def reread_record_def Let_def

lemmas submit_defs = submit_proposal_def gw_submit_def decide_once_def Let_def

lemma artifacts_respond:
  assumes "\<And>pid d. preserves (artifacts_only J :: 'w services \<Rightarrow> bool) (on_artifacts (ma_put_decision pid d))"
    "\<And>e. preserves (artifacts_only J :: 'w services \<Rightarrow> bool) (on_artifacts (ma_put_execution e))"
    "\<And>pid t. preserves (artifacts_only J :: 'w services \<Rightarrow> bool) (on_artifacts (ma_mark_submitted pid t))"
  shows "preserves (artifacts_only J :: 'w services \<Rightarrow> bool) (respond P L c rd q who)"
proof (cases q)
  case (PostProposal p)
  then show ?thesis unfolding respond_def submit_defs by simp (intro preserving assms only_ignores)
next
  case (PostExecution pid body)
  then show ?thesis unfolding respond_def execute_defs by simp (intro preserving assms only_ignores)
next
  case (GetAttestation pid)
  then show ?thesis unfolding endpoint_defs by simp (intro preserving preserves_attestation only_ignores)
qed (simp_all add: endpoint_defs, (intro preserving only_ignores)+)

lemma attestations_respond:
  assumes put: "\<And>pid actor. preserves (attestations_only K :: 'w services \<Rightarrow> bool) (gw_complete_attestation P L c rd pid actor)"
  shows "preserves (attestations_only K :: 'w services \<Rightarrow> bool) (respond P L c rd q who)"
proof (cases q)
  case (PostProposal p)
  then show ?thesis unfolding respond_def submit_defs by simp (intro preserving only_ignores)
next
  case (PostExecution pid body)
  then show ?thesis unfolding respond_def execute_defs by simp (intro preserving only_ignores)
next
  case (GetAttestation pid)
  then show ?thesis unfolding endpoint_defs by simp (intro preserving put only_ignores)
qed (simp_all add: endpoint_defs, (intro preserving only_ignores)+)

lemma reconcile_parts [simp]:
  "gw_artifacts (reconcile_loop answers finality env s) = gw_artifacts s" "gw_attestations (reconcile_loop answers finality env s) = gw_attestations s"
  "gw_world (reconcile_loop answers finality env s) = gw_world s"
  by (simp_all add: reconcile_loop_def split_def Let_def)

text \<open>An execution that carries a time of submission keeps it.\<close>

definition submitted :: "uuid \<Rightarrow> memory_artifacts \<Rightarrow> bool" where
  "submitted pid m \<longleftrightarrow> (\<exists>e. dget (ma_executions m) pid = Some e \<and> se_submitted_at e \<noteq> None)"

lemma submitted_respond: "preserves (artifacts_only (submitted pid)) (respond P L c rd q who)"
  by (intro artifacts_respond only_on_artifacts)
    (auto simp: submitted_def ma_put_decision_def ma_put_execution_def ma_mark_submitted_def rbind_Inr_iff Let_def
      split: option.splits if_splits)

lemma submitted_run: "submitted pid (gw_artifacts s) \<Longrightarrow> submitted pid (gw_artifacts (gateway_run P L c events s))"
proof (induction events arbitrary: s)
  case (Cons ev events)
  have "submitted pid (gw_artifacts (gateway_step P L c ev s))"
    using preserves_snd [OF submitted_respond] Cons.prems by (cases ev) (auto simp: artifacts_only_def)
  then show ?case using Cons.IH by (simp add: gateway_run_def)
qed (simp add: gateway_run_def)

definition world_is :: "'w \<Rightarrow> 'w services \<Rightarrow> bool" where
  "world_is w s \<longleftrightarrow> gw_world s = w"

lemma world_is_ignores:
  "ignores (world_is w) (\<lambda>x s. s\<lparr>gw_settlements := x\<rparr>)" "ignores (world_is w) (\<lambda>x s. s\<lparr>gw_rates := x\<rparr>)"
  by (simp_all add: ignores_def world_is_def)

lemma resume_keeps_world: "preserves (world_is w) (resume_execution rd pid e)"
proof -
  have "preserves (world_is w) (on_state f)" for f :: "MemoryStateStore \<Rightarrow> ('b \<times> MemoryStateStore) res"
    unfolding on_state_def by (rule preserves_atomically) (auto simp: rbind_Inr_iff world_is_def)
  then show ?thesis unfolding resume_execution_def reread_record_def by (intro preserving world_is_ignores) simp
qed

lemma submitted_execute:
  "triple (\<lambda>s. world_is w s \<and> submitted pid (gw_artifacts s)) (gw_execute P c rd pid q actor) (\<lambda>_. world_is w) (world_is w)"
  unfolding gw_execute_def
  apply (rule triple_bind [where R = "\<lambda>_ s. world_is w s \<and> submitted pid (gw_artifacts s)"])
   apply (rule triple_read; simp)
  apply (intro triple_if triple_option triple_raise)
     apply simp_all[3]
  apply (rule triple_bind [where R = "\<lambda>x s. (\<exists>e. x = Some e \<and> se_submitted_at e \<noteq> None) \<and> world_is w s"])
   apply (rule triple_read; auto simp: submitted_def)
  apply (rule triple_pure, elim exE conjE, simp only: option.case)
  apply (rule triple_bind [where R = "\<lambda>(e, created) s. se_submitted_at e \<noteq> None \<and> world_is w s"])
   apply (intro triple_if triple_raise triple_return; simp)
  apply (rule triple_prod, rule triple_pure, simp only: if_False)
  apply (rule triple_bind [OF resume_keeps_world [unfolded preserves_def]])
  by (simp add: split_def triple_return)

lemma snd_discarding: "snd (discarding m s) = snd (m s)"
  by (simp add: discarding_def ebind_def ereturn_def split: prod.splits sum.splits)

lemma execute_keeps_world:
  assumes "ignores (\<lambda>t. world_is w t \<and> submitted pid (gw_artifacts t)) (\<lambda>x t. t\<lparr>gw_rates := x\<rparr>)"
  shows "triple (\<lambda>s. world_is w s \<and> submitted pid (gw_artifacts s)) (execute_proposal P c rd pid body who) (\<lambda>_. world_is w) (world_is w)"
proof -
  let ?I = "\<lambda>s. world_is w s \<and> submitted pid (gw_artifacts s)"
  have run: "triple ?I (api_errors execution_error (gw_execute P c rd pid q actor)) (\<lambda>_. world_is w) (world_is w)" for q actor
    unfolding api_errors_def by (rule triple_catch [OF submitted_execute]) (auto intro: triple_raise)
  show ?thesis unfolding execute_proposal_def
    by (rule triple_bind [where R = "\<lambda>_. ?I"], rule triple_conseq [OF preserves_admitted [OF assms, unfolded preserves_def]], simp_all)
      (rule triple_bind [where R = "\<lambda>_. ?I"], rule triple_conseq [OF parsed_triple [of ?I]], auto intro: run)
qed

text \<open>Attestations are verified before they are stored.\<close>

definition attestations_verified :: "primitives \<Rightarrow> attestation_lib \<Rightarrow> 'w container \<Rightarrow> MemoryAttestationStore \<Rightarrow> bool" where
  "attestations_verified P L c st \<longleftrightarrow> (\<forall>pid a. dget st pid = Some a \<longrightarrow> pr_proposal_id (ca_proposal a) = pid \<and>
     (\<exists>report. verify_complete_attestation P L a (issuer_public_key (gc_decisions c)) (gc_allowed_build_measurements c) = Inr report \<and> av_valid report))"

lemma attestation_put_verified:
  assumes "verify_complete_attestation P L a (issuer_public_key (gc_decisions c)) (gc_allowed_build_measurements c) = Inr report" "av_valid report"
  shows "preserves (attestations_only (attestations_verified P L c)) (on_attestations (mat_put pid a))"
  unfolding on_attestations_def
  by (rule preserves_atomically)
    (use assms in \<open>auto simp: rbind_Inr_iff attestations_only_def attestations_verified_def mat_put_def split: option.splits if_splits\<close>)

lemma preserves_lift_bind: "(\<And>x. r = Inr x \<Longrightarrow> preserves I (f x)) \<Longrightarrow> preserves I (ebind (elift r) f)"
  by (cases r) (simp_all add: preserves_def triple_def ebind_def elift_def)

lemma attestation_verified_complete:
  "preserves (attestations_only (attestations_verified P L c)) (gw_complete_attestation P L c rd pid actor)"
  unfolding gw_complete_attestation_def create_attestation_def
  by (intro preserves_lift_bind preserving attestation_put_verified only_ignores) simp_all

lemma attestations_run:
  "attestations_verified P L c (gw_attestations s) \<Longrightarrow> attestations_verified P L c (gw_attestations (gateway_run P L c events s))"
proof (induction events arbitrary: s)
  case (Cons ev events)
  have "attestations_verified P L c (gw_attestations (gateway_step P L c ev s))"
    using preserves_snd [OF attestations_respond [OF attestation_verified_complete]] Cons.prems
    by (cases ev) (auto simp: attestations_only_def)
  then show ?case using Cons.IH by (simp add: gateway_run_def)
qed (simp add: gateway_run_def)

section \<open>Access\<close>

definition holds :: "Role set \<Rightarrow> Permission set \<Rightarrow> Principal \<Rightarrow> bool" where
  "holds roles permissions who \<longleftrightarrow> pl_roles who \<inter> roles \<noteq> {} \<or> pl_permissions who \<inter> permissions \<noteq> {}"

definition may_read :: "'w services \<Rightarrow> uuid \<Rightarrow> Principal \<Rightarrow> bool" where
  "may_read s pid who \<longleftrightarrow> (\<exists>r. ms_get (gw_state s) pid = Some r \<and>
     (pr_principal_id (rec_proposal r) = pl_subject who \<or> pl_roles who \<inter> {VIEWER, POLICY_ADMIN, AUDITOR} \<noteq> {}))"

text \<open>Who may do what: the roles and permissions of an endpoint, and the ownership of the proposal.\<close>

fun request_permitted :: "'w services \<Rightarrow> api_request \<Rightarrow> Principal \<Rightarrow> bool" where
  "request_permitted s (PostProposal body) who \<longleftrightarrow> holds {RESEARCHER} {PROPOSALS_WRITE} who \<and>
     (\<exists>p. make_ProposalV1 body = Inr p \<and> pr_principal_id p = pl_subject who)"
| "request_permitted s (GetProposal pid) who \<longleftrightarrow>
     holds {VIEWER, RESEARCHER, POLICY_ADMIN, AUDITOR} {PROPOSALS_READ, PROPOSALS_WRITE} who \<and> may_read s pid who"
| "request_permitted s (PostExecution pid body) who \<longleftrightarrow> holds {RESEARCHER} {PROPOSALS_WRITE} who \<and>
     (\<exists>r. ms_get (gw_state s) pid = Some r \<and> pr_principal_id (rec_proposal r) = pl_subject who)"
| "request_permitted s (PostPolicy vid body) who \<longleftrightarrow> POLICY_ADMIN \<in> pl_roles who"
| "request_permitted s (PostApproval vid) who \<longleftrightarrow> POLICY_ADMIN \<in> pl_roles who"
| "request_permitted s (PostActivation vid) who \<longleftrightarrow> POLICY_ADMIN \<in> pl_roles who"
| "request_permitted s (PostSimulation p policy) who \<longleftrightarrow> holds {RESEARCHER, POLICY_ADMIN} {POLICIES_SIMULATE} who"
| "request_permitted s (PostVerification d a) who \<longleftrightarrow> holds {AUDITOR, RESEARCHER} {ATTESTATIONS_VERIFY} who"
| "request_permitted s (GetAttestation pid) who \<longleftrightarrow> holds {VIEWER, RESEARCHER, AUDITOR} {PROPOSALS_READ, PROPOSALS_WRITE} who \<and> may_read s pid who"
| "request_permitted s GetEvents who \<longleftrightarrow> AUDITOR \<in> pl_roles who"

definition refused :: "('w services, 'a) eff \<Rightarrow> 'w services \<Rightarrow> bool" where
  "refused m s \<longleftrightarrow> (\<exists>e rates. m s = (Inl e, s\<lparr>gw_rates := rates\<rparr>))"

lemma refused_discarding: "refused m s \<Longrightarrow> refused (discarding m) s"
  by (auto simp: refused_def discarding_def ebind_def)

lemma admitted_cases:
  obtains (no) e rates where "admitted c rd roles permissions who s = (Inl e, s\<lparr>gw_rates := rates\<rparr>)"
  | (yes) rates where "admitted c rd roles permissions who s = (Inr who, s\<lparr>gw_rates := rates\<rparr>)" "holds roles permissions who"
proof -
  let ?subject = "pl_organization_id who @ '':'' @ pl_environment_id who @ '':'' @ pl_subject who"
  have self: "s = s\<lparr>gw_rates := gw_rates s\<rparr>" by simp
  show ?thesis
  proof (cases "mr_consume (rd_rate rd) ?subject (gc_rate_limit_requests c) (gc_rate_limit_window_seconds c) (gw_rates s)")
    case (Inl e)
    then have "admitted c rd roles permissions who s = (Inl e, s)"
      by (simp add: admitted_def current_principal_def ebind_def atomically_def Let_def)
    then show ?thesis by (intro no [of e "gw_rates s"]) simp
  next
    case (Inr x)
    obtain allowed rates where x: "x = (allowed, rates)" by (cases x)
    show ?thesis
    proof (cases "allowed \<and> holds roles permissions who")
      case True
      then show ?thesis using Inr x
        by (intro yes [of rates]) (auto simp: admitted_def current_principal_def ebind_def atomically_def Let_def ereturn_def elift_def
            require_access_def holds_def)
    next
      case False
      then obtain e where "admitted c rd roles permissions who s = (Inl e, s\<lparr>gw_rates := rates\<rparr>)" using Inr x
        by (cases allowed) (auto simp: admitted_def current_principal_def ebind_def atomically_def Let_def ereturn_def eraise_def elift_def
            require_access_def holds_def)
      then show ?thesis by (rule no)
    qed
  qed
qed

lemma refused_bind:
  assumes "\<And>rates. holds roles permissions who \<Longrightarrow> \<exists>e. f who (s\<lparr>gw_rates := rates\<rparr>) = (Inl e, s\<lparr>gw_rates := rates\<rparr>)"
  shows "refused (ebind (admitted c rd roles permissions who) f) s"
proof (rule admitted_cases [of c rd roles permissions who s])
  fix rates assume w: "admitted c rd roles permissions who s = (Inr who, s\<lparr>gw_rates := rates\<rparr>)" "holds roles permissions who"
  from assms [OF w(2), of rates] show ?thesis by (auto simp: refused_def ebind_def w(1))
qed (auto simp: refused_def ebind_def)

lemma unreadable_refused:
  assumes "\<not> may_read s pid who"
  shows "\<exists>e. ebind (readable_record pid who) f (s\<lparr>gw_rates := rates\<rparr>) = (Inl e, s\<lparr>gw_rates := rates\<rparr>)"
  using assms by (cases "ms_get (gw_state s) pid")
    (auto simp: readable_record_def ebind_def eread_def elift_def enforce_read_scope_def may_read_def)

lemma foreign_refused:
  assumes "\<And>r. ms_get (gw_state s) pid = Some r \<Longrightarrow> pr_principal_id (rec_proposal r) \<noteq> pl_subject who"
  shows "\<exists>e. ebind (parsed (make_ExecutionRequest body)) (\<lambda>q. api_errors execution_error (gw_execute P c rd pid q (pl_subject who)))
    (s\<lparr>gw_rates := rates\<rparr>) = (Inl e, s\<lparr>gw_rates := rates\<rparr>)"
proof (cases "make_ExecutionRequest body")
  case (Inr q)
  then show ?thesis using assms by (cases "ms_get (gw_state s) pid")
    (auto simp: parsed_def ebind_def ereturn_def eraise_def eread_def gw_execute_def api_errors_def ecatch_def execution_error_def
      is_permission_error_def)
qed (simp add: parsed_def ebind_def eraise_def)

lemma not_permitted_refused:
  assumes "\<not> request_permitted s q who" shows "refused (respond P L c rd q who) s"
proof (cases q)
  case (PostProposal body)
  show ?thesis unfolding PostProposal respond_def api_request.case submit_proposal_def using assms PostProposal
    by (intro refused_discarding refused_bind)
      (cases "make_ProposalV1 body"; auto simp: parsed_def ebind_def ereturn_def eraise_def)
next
  case (GetProposal pid)
  show ?thesis unfolding GetProposal respond_def api_request.case proposal_status_def using assms GetProposal
    by (intro refused_discarding refused_bind unreadable_refused) auto
next
  case (PostExecution pid body)
  show ?thesis unfolding PostExecution respond_def api_request.case execute_proposal_def using assms PostExecution
    by (intro refused_discarding refused_bind foreign_refused) auto
next
  case (GetAttestation pid)
  show ?thesis unfolding GetAttestation respond_def api_request.case proposal_attestation_def using assms GetAttestation
    by (intro refused_discarding refused_bind unreadable_refused) auto
qed (use assms in \<open>simp_all add: endpoint_defs\<close>, (rule refused_discarding, rule refused_bind, simp add: holds_def)+)

section \<open>Bodies\<close>

definition body_bytes :: "http_message list \<Rightarrow> int" where
  "body_bytes ms = (\<Sum>m\<leftarrow>ms. if hm_type m = ''http.request'' then int (length (hm_body m)) else 0)"

lemma receive_body_Forward:
  "receive_body max_bytes messages received incoming = Forward out \<Longrightarrow> received = body_bytes messages \<Longrightarrow> received \<le> max_bytes \<Longrightarrow>
     body_bytes out \<le> max_bytes \<and> (\<exists>rest. messages @ incoming = out @ rest)"
proof (induction incoming arbitrary: messages received)
  case (Cons m incoming)
  have b: "body_bytes (messages @ [m]) = body_bytes messages + (if hm_type m = ''http.request'' then int (length (hm_body m)) else 0)"
    by (simp add: body_bytes_def)
  show ?case
    using Cons.prems Cons.IH [of "messages @ [m]" "body_bytes (messages @ [m])"] by (auto simp: Let_def b split: if_splits)
qed simp

lemma pred_option_code [code]: "pred_option Q x = (case x of None \<Rightarrow> True | Some y \<Rightarrow> Q y)"
  by (cases x) simp_all

section \<open>An example\<close>

definition agent :: Principal where
  "agent = \<lparr>pl_subject = ''agent-1'', pl_roles = {RESEARCHER}, pl_permissions = {}, pl_kind = HUMAN, pl_organization_id = ''org'',
     pl_environment_id = ''env''\<rparr>"

definition sample_result :: SignerResult where
  "sample_result = \<lparr>sg_signing_hash = ''0x'' @ replicate 64 (CHR ''1''), sg_transaction_hash = ''0x'' @ replicate 64 (CHR ''2''),
     sg_signed_transaction = [2, 3], sg_wallet_nonce = 0, sg_chain_id = 1, sg_decision_id = 1, sg_signer_identity = alice, sg_signature = ''0x'' @ replicate 130 (CHR ''3''),
     sg_enclave_evidence = JObj []\<rparr>"

definition sample_container :: "unit container" where
  "sample_container = \<lparr>gc_decisions = sample_issuer, gc_signer = Some (\<lambda>a. ereturn sample_result),
     gc_chain_backends = (\<lambda>n. if n = 1 then Some (\<lambda>x. ereturn (sb_transaction_hash x)) else None),
     gc_eip712_domain_separator = ''0x'' @ replicate 64 (CHR ''0''), gc_allowed_build_measurements = {},
     gc_rate_limit_requests = 120, gc_rate_limit_window_seconds = 60\<rparr>"

definition sample_readings :: readings where
  "sample_readings = \<lparr>rd_reserve = sample_clock (seconds 10), rd_reservation_id = 7, rd_issued_at = seconds 10, rd_decision_id = 1,
     rd_decision_nonce = 2, rd_event_at = seconds 10, rd_event_id = 3, rd_transaction_id = 4, rd_signed_at = seconds 11,
     rd_moved_at = seconds 11, rd_submitted_at = seconds 12, rd_resumed_at = seconds 12, rd_event_at' = seconds 12, rd_event_id' = 5,
     rd_rate = seconds 10\<rparr>"

definition sample_order :: ExecutionRequest where
  "sample_order = \<lparr>xr_wallet_nonce = 0, xr_value = 60, xr_gas_limit = 21000, xr_max_fee_per_gas = 2, xr_max_priority_fee_per_gas = 1\<rparr>"

definition sample_events :: "gateway_event list" where
  "sample_events = [Request sample_readings (PostProposal sample_transfer) agent,
     Request sample_readings (PostExecution (pr_proposal_id sample_transfer) sample_order) agent]"

definition sample_services :: "(unit \<times> ChainSubmission list) services" where
  "sample_services = ServiceContainer_init \<lparr>pg_versions = [(3, sample_version)], pg_active_id = Some 3\<rparr> 0 ((), [])"

lemma append_ok:
  assumes "Hex32 (head_hash (aj_events j))" "EventType t" "supported payload" "is_object payload" "len_between 1 256 actor"
  obtains e where "aj_append prims now eid t actor payload agg j = Inr (e, j\<lparr>aj_events := aj_events j @ [e]\<rparr>)" "Hex32 (ae_event_hash e)"
proof -
  let ?p = "new_event now eid (int (length (aj_events j)) + 1) (head_hash (aj_events j)) t actor payload agg"
  have "Hex32 GENESIS_HASH" by code_simp
  then have p: "make_AuditEventV1 ?p = Inr ?p" using assms by (simp add: make_AuditEventV1_def new_event_def)
  obtain b where b: "event_payload prims ?p = Inr b"
    using event_payload_stdlib [of prims ?p] assms(3) by (auto simp: prims_def new_event_def)
  let ?e = "?p\<lparr>ae_event_hash := hash_payload prims b\<rparr>"
  have e: "make_AuditEventV1 ?e = Inr ?e" by (rule rehashed_event [OF prims_ok(1) p])
  show ?thesis
    by (rule that [of ?e]) (use p b e Hex32_hash_payload [OF prims_ok(1)] in \<open>simp_all add: aj_append_def\<close>)
qed

lemma sample_facts:
  "pl_subject agent = ''agent-1''" "make_ProposalV1 sample_transfer = Inr sample_transfer" "pr_principal_id sample_transfer = ''agent-1''"
  "make_ExecutionRequest sample_order = Inr sample_order" "len_between 1 256 ''agent-1''" "Hex32 (head_hash (aj_events (AuditJournal_init 0)))"
  "EventType ''POLICY_DECISION_ISSUED''" "EventType ''TRANSACTION_SIGNED''" "EventType ''TRANSACTION_SUBMITTED''"
  by code_simp+

lemma sample_parts: "pv_policy sample_version = sample_policy" "rec_proposal sample_record = sample_transfer"
  by (simp_all add: sample_version_def sample_record_def)

lemma event_objects:
  "supported (decision_event r d v)" "is_object (decision_event r d v)" "supported (signed_event pid e)" "is_object (signed_event pid e)"
  "supported (submitted_event pid e)" "is_object (submitted_event pid e)"
  by (simp_all add: decision_event_def signed_event_def submitted_event_def obj_def is_object_def)

definition sample_decided :: "DecisionTokenV1 \<Rightarrow> AuditJournal \<Rightarrow> windows \<Rightarrow> (unit \<times> ChainSubmission list) services" where
  "sample_decided d j rates = sample_services\<lparr>gw_state := sample_reserved, gw_artifacts :=
     \<lparr>ma_decisions = [(pr_proposal_id sample_transfer, d)], ma_executions = []\<rparr>, gw_audit := j, gw_rates := rates\<rparr>"

lemma sample_submitted_step:
  obtains d j rates where "issue prims (seconds 10) 1 2 sample_issuer sample_record sample_version = Inr d"
    "Hex32 (head_hash (aj_events j))" "rates = [(''org:env:agent-1'', (seconds 10, 1))]"
    "gateway_step prims sample_lib (recording sample_container) (Request sample_readings (PostProposal sample_transfer) agent) sample_services =
       sample_decided d j rates"
proof -
  let ?rates = "[(''org:env:agent-1'', (seconds 10, 1))] :: windows"
  obtain d where d: "issue prims (seconds 10) 1 2 sample_issuer sample_record sample_version = Inr d" using sample_issue by blast
  obtain e where e: "aj_append prims (seconds 10) 3 ''POLICY_DECISION_ISSUED'' ''agent-1'' (decision_event sample_record d sample_version)
      (Some (pr_proposal_id sample_transfer)) (AuditJournal_init 0) =
      Inr (e, (AuditJournal_init 0)\<lparr>aj_events := aj_events (AuditJournal_init 0) @ [e]\<rparr>)" "Hex32 (ae_event_hash e)"
    by (rule append_ok [OF sample_facts(6) sample_facts(7) event_objects(1,2) sample_facts(5)])
  have rate: "mr_consume (seconds 10) ''org:env:agent-1'' 120 60 [] = Inr (True, ?rates)" by code_simp
  have adm: "admitted (recording sample_container) sample_readings {RESEARCHER} {PROPOSALS_WRITE} agent sample_services =
      (Inr agent, sample_services\<lparr>gw_rates := ?rates\<rparr>)"
    using rate by (simp add: admitted_def current_principal_def ebind_def atomically_def ereturn_def elift_def require_access_def agent_def
      sample_readings_def sample_container_def recording_def sample_services_def ServiceContainer_init_def)
  have "snd (submit_proposal prims (recording sample_container) sample_readings sample_transfer agent sample_services) =
      sample_decided d ((AuditJournal_init 0)\<lparr>aj_events := [e]\<rparr>) ?rates"
    unfolding submit_proposal_def ebind_def [of "admitted _ _ _ _ _"] adm
    using d e(1) sample_reserve
    by (simp add: sample_facts sample_parts parsed_def ebind_def ereturn_def api_errors_def ecatch_def gw_submit_def decide_once_def eread_def elift_def
        on_state_def on_artifacts_def on_audit_def atomically_def pg_active_def sample_services_def ServiceContainer_init_def
        sample_readings_def sample_decided_def recording_def sample_container_def MemoryArtifacts_init_def
        ma_put_decision_def Let_def AuditJournal_init_def)
  then show ?thesis by (intro that [OF d, of "(AuditJournal_init 0)\<lparr>aj_events := [e]\<rparr>" ?rates])
    (use e(2) in \<open>auto simp: respond_def discarding_def ebind_def ereturn_def head_hash_def split: prod.splits sum.splits\<close>)
qed

lemma authorization_eq:
  assumes "rec_reservation_id r = Some rid" "make_TransactionBindingV1 (requested_binding (rec_proposal r) q) = Inr t"
    "encode_unsigned_eip1559 (pr_chain_id (rec_proposal r)) (xr_wallet_nonce q) (xr_max_priority_fee_per_gas q) (xr_max_fee_per_gas q)
       (xr_gas_limit q) (call_target (rec_proposal r)) (xr_value q) (tb_calldata (requested_binding (rec_proposal r) q)) = Inr s"
    "py_len (gc_eip712_domain_separator c) = 66" "startswith (gc_eip712_domain_separator c) ''0x''"
    "x = ''0x1901'' @ drop 2 (gc_eip712_domain_separator c) @ drop 2 (dt_proposal_hash d)" "keccak_hex P x = Inr h" "keccak_hex P s = Inr h'"
  shows "authorization P c r d q = make_TransactionSignRequestV1 \<lparr>sr_proposal = rec_proposal r, sr_decision = d, sr_reservation_id = rid,
    sr_wallet_nonce = xr_wallet_nonce q, sr_chain_id = pr_chain_id (rec_proposal r), sr_transaction = t, sr_eip712_payload = x,
    sr_eip1559_unsigned_payload = s, sr_eip712_hash = h, sr_eip1559_hash = h', sr_expires_at = min (dt_expires_at d) (pr_deadline (rec_proposal r))\<rparr>"
  unfolding authorization_def Let_def assms(1-3) of_option_simps result_simps
  unfolding assms(6) [symmetric] result_simps assms(7,8) using assms(4,5) by simp

lemma sample_authorization:
  assumes "issue prims (seconds 10) 1 2 sample_issuer sample_record sample_version = Inr d"
  obtains s where "dt_decision_nonce d = 2" "authorization prims (recording sample_container) sample_record d sample_order = Inr
      (transfer_request prims sample_transfer d 7 (replicate 32 0) s (transfer_binding sample_transfer 0 1 2 21000))"
proof -
  let ?b = "transfer_binding sample_transfer 0 1 2 21000" and ?c = "recording sample_container"
  from assms obtain h payload where t: "proposal_hash prims (rec_proposal sample_record) = Inr h" "make_DecisionTokenV1 d = Inr d"
    "d = (placeholder_token (seconds 10) 1 2 sample_issuer h sample_record sample_version)
       \<lparr>dt_signature := bytes_hex (key_sign prims (di_keys sample_issuer) payload)\<rparr>" by (rule issue_Inr)
  obtain x where x: "h = ''0x'' @ bytes_hex x" "length x = 32" using proposal_hash_hex [OF prims_ok(1) t(1)] .
  have d: "dt_proposal_hash d = ''0x'' @ bytes_hex x" "dt_expires_at d \<le> pr_deadline sample_transfer" "dt_decision_nonce d = 2"
    unfolding t(3) by (simp_all add: placeholder_token_def x(1) sample_parts)
  have p: "pr_chain_id sample_transfer = 1" "pr_amount sample_transfer = 60" "pr_intent sample_transfer = TransferIntentV1 bob"
    "pr_asset sample_transfer = ''NATIVE:'' @ show_int (pr_chain_id sample_transfer)" "call_target sample_transfer = bob"
    "tb_calldata (requested_binding sample_transfer sample_order) = ''0x''" "rec_reservation_id sample_record = Some 7"
    "make_TransactionBindingV1 (requested_binding sample_transfer sample_order) = Inr ?b"
    "xr_wallet_nonce sample_order = 0" "xr_max_priority_fee_per_gas sample_order = 1" "xr_max_fee_per_gas sample_order = 2"
    "xr_gas_limit sample_order = 21000" "xr_value sample_order = 60" "tb_wallet_nonce ?b = 0" by code_simp+
  have "encode_unsigned_eip1559 1 0 1 2 21000 bob 60 ''0x'' = Inr (projr (encode_unsigned_eip1559 1 0 1 2 21000 bob 60 ''0x''))" by code_simp
  then obtain s where enc: "encode_unsigned_eip1559 1 0 1 2 21000 bob 60 ''0x'' = Inr s" by blast
  have "drop 2 (gc_eip712_domain_separator ?c) = bytes_hex (replicate 32 0)" by code_simp
  then have e: "eip712_text (replicate 32 0) d = ''0x1901'' @ drop 2 (gc_eip712_domain_separator ?c) @ drop 2 (dt_proposal_hash d)"
    by (simp only: eip712_text_def)
  have sep: "py_len (gc_eip712_domain_separator ?c) = 66" "startswith (gc_eip712_domain_separator ?c) ''0x''" by code_simp+
  obtain k k' where k: "keccak_hex prims (eip712_text (replicate 32 0) d) = Inr k" "keccak_hex prims s = Inr k'"
    using encoded_payload [OF enc] unfolding eip712_text_bytes [OF d(1)] by (metis keccak_hex_bytes)
  have v: "make_TransactionSignRequestV1 (transfer_request prims sample_transfer d 7 (replicate 32 0) s ?b) =
      Inr (transfer_request prims sample_transfer d 7 (replicate 32 0) s ?b)"
    by (rule transfer_request_valid [OF sample_transfer_valid p(3,4) _ t(2) d(1) sample_record_facts(1)]) (unfold p(1,2), rule enc)
  have "authorization prims ?c sample_record d sample_order =
      make_TransactionSignRequestV1 (transfer_request prims sample_transfer d 7 (replicate 32 0) s ?b)"
    unfolding transfer_request_def k sum.sel p(1,14)
    using authorization_eq [OF p(7) _ _ sep e k, unfolded sample_parts, OF p(8), unfolded p(1,5,6,9-13) min_absorb1 [OF d(2)], OF enc]
    by (simp only: p(1,9))
  with v show ?thesis by (intro that [OF d(3), of s]) simp
qed

definition sample_registered :: MemoryStateStore where
  "sample_registered = sample_reserved\<lparr>ms_decision_nonces := [2], ms_wallet_nonces := [(alice, 1, 0)]\<rparr>"

definition sample_moved :: "LifecycleState \<Rightarrow> int \<Rightarrow> time \<Rightarrow> ProposalRecord" where
  "sample_moved target version now = sample_record\<lparr>rec_state := target, rec_state_version := version, rec_updated_at := now\<rparr>"

definition sample_state :: "LifecycleState \<Rightarrow> int \<Rightarrow> time \<Rightarrow> MemoryStateStore" where
  "sample_state target version now =
     sample_registered\<lparr>ms_records := [(pr_proposal_id sample_transfer, sample_moved target version now)], ms_version := version\<rparr>"

lemma sample_lifecycle:
  "ms_get sample_reserved (pr_proposal_id sample_transfer) = Some sample_record" "rec_state sample_record = RESERVED"
  "rbind (with_unit (ms_register_decision_nonce 2) sample_reserved)
     (\<lambda>(u, st). with_unit (ms_register_wallet_nonce (pr_wallet sample_transfer) (pr_chain_id sample_transfer) 0) st) = Inr ((), sample_registered)"
  "ms_transition (seconds 11) (pr_proposal_id sample_transfer) SIGNED sample_registered =
     Inr (sample_moved SIGNED 2 (seconds 11), sample_state SIGNED 2 (seconds 11))"
  "ms_get (sample_state SIGNED 2 (seconds 11)) (pr_proposal_id sample_transfer) = Some (sample_moved SIGNED 2 (seconds 11))"
  "rec_state (sample_moved SIGNED 2 (seconds 11)) = SIGNED"
  "ms_transition (seconds 12) (pr_proposal_id sample_transfer) SUBMITTED (sample_state SIGNED 2 (seconds 11)) =
     Inr (sample_moved SUBMITTED 3 (seconds 12), sample_state SUBMITTED 3 (seconds 12))"
  by code_simp+

definition sample_signed_execution :: "TransactionSignRequestV1 \<Rightarrow> StoredExecutionV1" where
  "sample_signed_execution a = \<lparr>se_transaction_id = 4, se_proposal_id = pr_proposal_id sample_transfer, se_authorization = a,
     se_signing_hash = sg_signing_hash sample_result, se_transaction_hash = sg_transaction_hash sample_result,
     se_raw_transaction = ''0x'' @ bytes_hex (sg_signed_transaction sample_result), se_signer_identity = sg_signer_identity sample_result,
     se_signature = sg_signature sample_result, se_enclave_evidence = sg_enclave_evidence sample_result, se_signed_at = seconds 11,
     se_submitted_at = None\<rparr>"

lemma sample_from_signer: "from_signer 4 (seconds 11) (pr_proposal_id sample_transfer) a sample_result = Inr (sample_signed_execution a)"
proof -
  have "Hex32 (sg_signing_hash sample_result)" "Hex32 (sg_transaction_hash sample_result)"
    "HexData (''0x'' @ bytes_hex (sg_signed_transaction sample_result))" "Address (sg_signer_identity sample_result)"
    "RecoverableSignature (sg_signature sample_result)" "is_object (sg_enclave_evidence sample_result)" by code_simp+
  then show ?thesis unfolding from_signer_def make_StoredExecutionV1_def sample_signed_execution_def by simp
qed

text \<open>The services once the execution is signed, and once it is submitted.\<close>

definition sample_executed :: "MemoryStateStore \<Rightarrow> DecisionTokenV1 \<Rightarrow> AuditJournal \<Rightarrow> windows \<Rightarrow> StoredExecutionV1 \<Rightarrow> (unit \<times> ChainSubmission list) services" where
  "sample_executed st d j rates e = (sample_decided d j rates)\<lparr>gw_state := st, gw_artifacts :=
     \<lparr>ma_decisions = [(pr_proposal_id sample_transfer, d)], ma_executions = [(pr_proposal_id sample_transfer, e)]\<rparr>\<rparr>"

lemma sample_sign:
  assumes d: "issue prims (seconds 10) 1 2 sample_issuer sample_record sample_version = Inr d" and j: "Hex32 (head_hash (aj_events j))"
    and sign: "gc_signer (recording sample_container) = Some sign"
  obtains a j' where "Hex32 (head_hash (aj_events j'))" "sr_chain_id a = 1"
    "sign_execution prims (recording sample_container) sample_readings sign (pr_proposal_id sample_transfer) sample_order ''agent-1'' sample_record
       (sample_decided d j rates) = (Inr (sample_signed_execution a, True), sample_executed (sample_state SIGNED 2 (seconds 11)) d j' rates (sample_signed_execution a))"
proof -
  obtain s where s: "dt_decision_nonce d = 2" "authorization prims (recording sample_container) sample_record d sample_order = Inr
      (transfer_request prims sample_transfer d 7 (replicate 32 0) s (transfer_binding sample_transfer 0 1 2 21000))"
    by (rule sample_authorization [OF d])
  let ?a = "transfer_request prims sample_transfer d 7 (replicate 32 0) s (transfer_binding sample_transfer 0 1 2 21000)"
  let ?pid = "pr_proposal_id sample_transfer" and ?e = "sample_signed_execution ?a"
  obtain ev where ev: "aj_append prims (seconds 10) 3 ''TRANSACTION_SIGNED'' ''agent-1'' (signed_event ?pid ?e) (Some ?pid) j =
      Inr (ev, j\<lparr>aj_events := aj_events j @ [ev]\<rparr>)" "Hex32 (ae_event_hash ev)"
    by (rule append_ok [OF j sample_facts(8) event_objects(3,4) sample_facts(5)])
  have "tb_wallet_nonce (transfer_binding sample_transfer 0 1 2 21000) = xr_wallet_nonce sample_order"
    "tb_value (transfer_binding sample_transfer 0 1 2 21000) = xr_value sample_order"
    "tb_gas_limit (transfer_binding sample_transfer 0 1 2 21000) = xr_gas_limit sample_order"
    "tb_max_fee_per_gas (transfer_binding sample_transfer 0 1 2 21000) = xr_max_fee_per_gas sample_order"
    "tb_max_priority_fee_per_gas (transfer_binding sample_transfer 0 1 2 21000) = xr_max_priority_fee_per_gas sample_order"
    and chain: "pr_chain_id sample_transfer = 1" by code_simp+
  then have m: "execution_matches_request ?e sample_order"
    by (simp add: execution_matches_request_def sample_signed_execution_def transfer_request_def)
  have sign': "sign = (\<lambda>a (w, log). (Inr sample_result, w, log))"
    using sign by (simp add: recording_def sample_container_def ereturn_def fun_eq_iff)
  obtain st where st: "with_unit (ms_register_decision_nonce 2) sample_reserved = Inr ((), st)"
    "with_unit (ms_register_wallet_nonce (pr_wallet sample_transfer) (pr_chain_id sample_transfer) 0) st = Inr ((), sample_registered)"
    using sample_lifecycle(3) by (auto simp: rbind_Inr_iff)
  have nonce: "xr_wallet_nonce sample_order = 0" by (simp add: sample_order_def)
  have put: "ma_put_execution ?e \<lparr>ma_decisions = [(?pid, d)], ma_executions = []\<rparr> =
      Inr ((?e, True), \<lparr>ma_decisions = [(?pid, d)], ma_executions = [(?pid, ?e)]\<rparr>)"
    by (simp add: ma_put_execution_def sample_signed_execution_def)
  show ?thesis
    by (rule that [of "j\<lparr>aj_events := aj_events j @ [ev]\<rparr>" ?a], use ev(2) in \<open>simp add: head_hash_def\<close>, simp add: transfer_request_def chain)
      (use s ev(1) m st put sample_from_signer [of ?a] sample_lifecycle in
        \<open>simp add: sign_execution_def Let_def sign' nonce ebind_def eread_def elift_def ereturn_def on_world_def on_state_def on_artifacts_def
          on_audit_def atomically_def sample_parts sample_executed_def sample_decided_def sample_services_def ServiceContainer_init_def
          sample_readings_def\<close>)
qed

definition submission_stamp :: "StoredExecutionV1 \<Rightarrow> StoredExecutionV1" where
  "submission_stamp e = e\<lparr>se_submitted_at := Some (seconds 12)\<rparr>"

lemma sample_submit:
  assumes "Hex32 (head_hash (aj_events j))" "gc_chain_backends (recording sample_container) 1 = Some backend"
  obtains s where "submit_execution prims sample_readings backend (pr_proposal_id sample_transfer) ''agent-1'' (sample_signed_execution a)
      (sample_executed (sample_state SIGNED 2 (seconds 11)) d j rates (sample_signed_execution a)) =
      (Inr (submission_stamp (sample_signed_execution a), sample_moved SUBMITTED 3 (seconds 12)), s)"
    "gw_artifacts s = \<lparr>ma_decisions = [(pr_proposal_id sample_transfer, d)],
       ma_executions = [(pr_proposal_id sample_transfer, submission_stamp (sample_signed_execution a))]\<rparr>"
    "snd (gw_world s) = [submission_of (sample_signed_execution a)]"
proof -
  let ?pid = "pr_proposal_id sample_transfer" and ?e = "sample_signed_execution a"
  obtain ev where ev: "aj_append prims (seconds 12) 5 ''TRANSACTION_SUBMITTED'' ''agent-1'' (submitted_event ?pid (submission_stamp ?e)) (Some ?pid) j =
      Inr (ev, j\<lparr>aj_events := aj_events j @ [ev]\<rparr>)" by (rule append_ok [OF assms(1) sample_facts(9) event_objects(5,6) sample_facts(5)])
  have backend: "backend = (\<lambda>x (w, log). (Inr (sb_transaction_hash x), w, log @ [x]))"
    using assms(2) by (auto simp: recording_def sample_container_def ereturn_def fun_eq_iff)
  have "lower (sg_transaction_hash sample_result) = sg_transaction_hash sample_result" by code_simp
  then have h: "lower (se_transaction_hash ?e) = se_transaction_hash ?e" by (simp add: sample_signed_execution_def)
  have mark: "ma_mark_submitted ?pid (seconds 12) \<lparr>ma_decisions = [(?pid, d)], ma_executions = [(?pid, ?e)]\<rparr> =
      Inr (submission_stamp ?e, \<lparr>ma_decisions = [(?pid, d)], ma_executions = [(?pid, submission_stamp ?e)]\<rparr>)"
    by (simp add: ma_mark_submitted_def submission_stamp_def sample_signed_execution_def Let_def)
  show ?thesis
    by (rule that, use ev h mark sample_lifecycle in
        \<open>simp add: submit_execution_def ebind_def reread_record_def eread_def ereturn_def on_world_def on_state_def on_artifacts_def
          on_audit_def on_settlements_def atomically_def backend submission_of_def mt_register_def MemorySettlementStore_init_def
          sample_executed_def sample_decided_def sample_services_def ServiceContainer_init_def sample_readings_def\<close>)
      (simp_all add: submission_of_def)
qed

lemma sample_gateway_run:
  obtains a s where "gateway_run prims sample_lib (recording sample_container) sample_events sample_services = s"
    "dget (ma_executions (gw_artifacts s)) (pr_proposal_id sample_transfer) = Some (submission_stamp (sample_signed_execution a))"
    "snd (gw_world s) = [submission_of (sample_signed_execution a)]"
proof -
  let ?c = "recording sample_container" and ?pid = "pr_proposal_id sample_transfer"
  obtain d j rates where one: "issue prims (seconds 10) 1 2 sample_issuer sample_record sample_version = Inr d"
    "Hex32 (head_hash (aj_events j))" "rates = [(''org:env:agent-1'', (seconds 10, 1))]"
    "gateway_step prims sample_lib ?c (Request sample_readings (PostProposal sample_transfer) agent) sample_services = sample_decided d j rates"
    by (rule sample_submitted_step)
  let ?rates = "[(''org:env:agent-1'', (seconds 10, 2))] :: windows"
  obtain sign backend where parts: "gc_signer ?c = Some sign" "gc_chain_backends ?c 1 = Some backend"
    by (simp add: recording_def sample_container_def)
  obtain a j' where two: "Hex32 (head_hash (aj_events j'))" "sr_chain_id a = 1"
    "sign_execution prims ?c sample_readings sign ?pid sample_order ''agent-1'' sample_record (sample_decided d j ?rates) =
       (Inr (sample_signed_execution a, True), sample_executed (sample_state SIGNED 2 (seconds 11)) d j' ?rates (sample_signed_execution a))"
    by (rule sample_sign [OF one(1,2) parts(1)])
  obtain s where three: "submit_execution prims sample_readings backend ?pid ''agent-1'' (sample_signed_execution a)
      (sample_executed (sample_state SIGNED 2 (seconds 11)) d j' ?rates (sample_signed_execution a)) =
      (Inr (submission_stamp (sample_signed_execution a), sample_moved SUBMITTED 3 (seconds 12)), s)"
    "gw_artifacts s = \<lparr>ma_decisions = [(?pid, d)], ma_executions = [(?pid, submission_stamp (sample_signed_execution a))]\<rparr>"
    "snd (gw_world s) = [submission_of (sample_signed_execution a)]" by (rule sample_submit [OF two(1) parts(2)])
  have rate: "mr_consume (seconds 10) ''org:env:agent-1'' 120 60 rates = Inr (True, ?rates)" unfolding one(3) by code_simp
  have adm: "admitted ?c sample_readings {RESEARCHER} {PROPOSALS_WRITE} agent (sample_decided d j rates) = (Inr agent, sample_decided d j ?rates)"
    using rate by (simp add: admitted_def current_principal_def ebind_def atomically_def ereturn_def elift_def require_access_def agent_def
      sample_readings_def sample_container_def recording_def sample_decided_def)
  have now: "gw_state (sample_decided d j ?rates) = sample_reserved" "ma_executions (gw_artifacts (sample_decided d j ?rates)) = []"
    "pr_chain_id sample_transfer = 1" "se_submitted_at (sample_signed_execution a) = None"
    by (simp_all add: sample_decided_def sample_transfer_def sample_signed_execution_def)
  have "snd (execute_proposal prims ?c sample_readings ?pid sample_order agent (sample_decided d j rates)) = s"
    unfolding execute_proposal_def ebind_def [of "admitted _ _ _ _ _"] adm
    using two(3) three(1) now parts sample_lifecycle
    by (simp add: sample_facts sample_parts parsed_def ebind_def ereturn_def eread_def api_errors_def ecatch_def gw_execute_def)
  then have "gateway_run prims sample_lib ?c sample_events sample_services = s"
    using one(4) by (auto simp: gateway_run_def sample_events_def respond_def discarding_def ebind_def ereturn_def split: prod.splits sum.splits)
  then show ?thesis using three(2,3) by (intro that [of s a]) simp_all
qed

section \<open>Properties\<close>



text \<open>C13. An execution that was submitted is never submitted again: after any further requests and reconciliations, a
  request to execute that proposal reaches neither the signer nor a chain backend.\<close>

theorem submitted_never_again:
  assumes "dget (ma_executions (gw_artifacts s)) pid = Some e" "se_submitted_at e \<noteq> None"
  shows "gw_world (gateway_step P L c (Request rd (PostExecution pid q) who) (gateway_run P L c events s)) = gw_world (gateway_run P L c events s)"
proof -
  let ?s = "gateway_run P L c events s"
  have "submitted pid (gw_artifacts s)" unfolding submitted_def using assms by simp
  then have sub: "submitted pid (gw_artifacts ?s)" by (rule submitted_run)
  have "ignores (\<lambda>t. world_is (gw_world ?s) t \<and> submitted pid (gw_artifacts t)) (\<lambda>x t. t\<lparr>gw_rates := x\<rparr>)"
    by (simp add: ignores_def world_is_def)
  from execute_keeps_world [OF this]
  have "world_is (gw_world ?s) (snd (execute_proposal P c rd pid q who ?s))"
    by (rule triple_snd) (use sub in \<open>simp add: world_is_def\<close>)
  then show ?thesis by (simp add: respond_def snd_discarding world_is_def)
qed

theorem submitted_never_again_witness:
  "\<exists>s e. dget (ma_executions (gw_artifacts s)) (pr_proposal_id sample_transfer) = Some e \<and>
     gw_world (gateway_step prims sample_lib (recording sample_container)
       (Request sample_readings (PostExecution (pr_proposal_id sample_transfer) sample_order) agent) s) = ((), [submission_of e])"
proof -
  obtain a s where s: "gateway_run prims sample_lib (recording sample_container) sample_events sample_services = s"
    "dget (ma_executions (gw_artifacts s)) (pr_proposal_id sample_transfer) = Some (submission_stamp (sample_signed_execution a))"
    "snd (gw_world s) = [submission_of (sample_signed_execution a)]" by (rule sample_gateway_run)
  have "se_submitted_at (submission_stamp (sample_signed_execution a)) \<noteq> None" by (simp add: submission_stamp_def)
  from submitted_never_again [OF s(2) this, of prims sample_lib "recording sample_container" sample_readings sample_order agent "[]"]
  have "gw_world (gateway_step prims sample_lib (recording sample_container)
       (Request sample_readings (PostExecution (pr_proposal_id sample_transfer) sample_order) agent) s) = gw_world s"
    by (simp add: gateway_run_def)
  moreover have "gw_world s = ((), [submission_of (submission_stamp (sample_signed_execution a))])"
    using s(3) by (simp add: prod_eq_iff submission_of_def submission_stamp_def)
  ultimately show ?thesis using s(2) by auto
qed

text \<open>C14. Access control: a request that the roles, permissions and ownership of the proposal do not allow is answered with
  an error and changes nothing but the count of requests of the caller. Only a writer submits, and only for itself; only
  the owner executes; only a policy administrator creates, approves or activates policies; only an auditor reads the journal.\<close>

theorem access_refused:
  assumes "\<not> request_permitted s q who"
  shows "\<exists>e rates. respond P L c rd q who s = (Inl e, s\<lparr>gw_rates := rates\<rparr>)"
  using not_permitted_refused [OF assms] unfolding refused_def .

theorem access_refused_witness:
  "\<exists>e rates. respond prims sample_lib (recording sample_container) sample_readings (PostApproval 3) agent sample_services =
     (Inl e, sample_services\<lparr>gw_rates := rates\<rparr>)"
  by (rule access_refused) (simp add: agent_def)

text \<open>C20. Whatever the gateway serves, every attestation it has stored belongs to the proposal it is stored for and passes
  the offline verifier under the issuer's key and the allowed measurements.\<close>

theorem stored_attestations_verify:
  "attestations_verified P L c (gw_attestations (gateway_run P L c events (ServiceContainer_init policies now w)))"
  by (rule attestations_run) (simp add: attestations_verified_def ServiceContainer_init_def)

text \<open>The application never sees more of a body than the limit: what the middleware forwards is a prefix of the
  messages with at most \<open>max_bytes\<close> bytes of body, and a declared length is between zero and the limit.\<close>

theorem body_limit_enforced:
  assumes "limit_body max_bytes content_length incoming = Forward messages" "0 \<le> max_bytes"
  shows "body_bytes messages \<le> max_bytes \<and> (\<exists>rest. incoming = messages @ rest) \<and>
    (case content_length of None \<Rightarrow> True | Some None \<Rightarrow> False | Some (Some declared) \<Rightarrow> 0 \<le> declared \<and> declared \<le> max_bytes)"
proof -
  have "receive_body max_bytes [] 0 incoming = Forward messages"
    "case content_length of None \<Rightarrow> True | Some None \<Rightarrow> False | Some (Some declared) \<Rightarrow> 0 \<le> declared \<and> declared \<le> max_bytes"
    using assms(1) by (auto simp: limit_body_def split: option.splits if_splits)
  then show ?thesis using receive_body_Forward [of max_bytes "[]" 0 incoming messages] assms(2) by (simp add: body_bytes_def)
qed

theorem body_limit_enforced_witness:
  "body_bytes [\<lparr>hm_type = ''http.request'', hm_body = [1, 2], hm_more_body = False\<rparr>] \<le> 4 \<and>
   limit_body 4 (Some (Some 2)) [\<lparr>hm_type = ''http.request'', hm_body = [1, 2], hm_more_body = False\<rparr>] =
     Forward [\<lparr>hm_type = ''http.request'', hm_body = [1, 2], hm_more_body = False\<rparr>]"
proof -
  let ?m = "[\<lparr>hm_type = ''http.request'', hm_body = [1, 2], hm_more_body = False\<rparr>]"
  have f: "limit_body 4 (Some (Some 2)) ?m = Forward ?m" by code_simp
  from body_limit_enforced [OF f] f show ?thesis by simp
qed

end
