(* ===== verification/Spec2Isabelle.thy ===== *)
theory Spec2Isabelle
  imports Mandates RateLimit Journal SmartAccount RustSigner WalletGuard ServiceAccounts Settlement Gateway
begin

text \<open>
  A verification library for AegisLedger (\<open>src/agentguard-testbed\<close>): the authorization gateway that
  stands between language-model agents and a transaction signer, the signer itself, the smart account
  that enforces the policy again on chain, and the testbed wallet the design was tried out on. Paths below
  are relative to \<open>src/agentguard-testbed\<close>; a Python module without a directory is one of
  \<open>src/aegisledger\<close>.

  \<^bold>\<open>The program and how its parts interact.\<close> An agent submits a proposal (\<open>api.py\<close>). The active policy
  version evaluates it and the state store reserves its amount (\<open>policies.py\<close>, \<open>state.py\<close> or
  \<open>postgres.py\<close>). The issuer signs a decision that names the proposal by its hash (\<open>decisions.py\<close>). On
  execution the gateway encodes the transaction (\<open>eip1559.py\<close>), asks the isolated signer for a signature
  (\<open>signer_client.py\<close>, \<open>signer/src/main.rs\<close>), marks the nonces as used, stores the execution
  (\<open>artifact_store.py\<close>) and hands it to a chain backend (\<open>chain.py\<close>). The reconciler follows the
  transaction to finality and settles or releases the reservation (\<open>reconciler.py\<close>). The journal records
  every step (\<open>audit.py\<close>), and an attestation ties the whole path together for an offline verifier
  (\<open>attestations.py\<close>).

  \<^bold>\<open>Foundations.\<close>
  \<^item> \<open>Prelude\<close>: exceptions and results, dictionaries, hexadecimal text, identifiers; its collections
    \<open>dict_simps\<close> and \<open>result_simps\<close> carry the component proofs.
  \<^item> \<open>Effects\<close>: operations that raise after a change of state, and the rules of \<open>triple\<close>.
  \<^item> \<open>Crypto\<close> (\<open>src/agentwallet/chain/crypto.py\<close>): keys, addresses and signatures. The hashes, Ed25519
    and RFC 8785 are fields of \<open>primitives\<close>; \<open>hash_ok\<close>, \<open>keys_ok\<close>, \<open>iso_ok\<close> and \<open>keccak_ok\<close>
    are what the code relies on, and \<open>prims\<close> is a concrete instance for the witnesses.
  \<^item> \<open>Canonical\<close> (\<open>canonical.py\<close>): canonical bytes determine the document; UUIDv7 identifiers.
  \<^item> \<open>Eip1559\<close> (\<open>eip1559.py\<close>): the decoder accepts canonical encodings only, returns what was encoded,
    terminates on every text and raises nothing but its own error.
  \<^item> \<open>Contracts\<close> (\<open>contracts.py\<close>, \<open>policy.py\<close>): the strict models and their hashes. Statements about
    hashes read: equal inputs, or the two inputs named in the statement collide.

  \<^bold>\<open>The gateway.\<close>
  \<^item> \<open>Authorization\<close> (\<open>formal/Authorization.tla\<close>): the abstract lifecycle and the locale
    \<open>lifecycle_store\<close>, which \<open>StateStore\<close> and \<open>PostgresState\<close> interpret.
  \<^item> \<open>StateStore\<close> (\<open>state.py\<close>) and \<open>PostgresState\<close> (\<open>postgres.py\<close>, \<open>migrations/versions/0001_core.py\<close>):
    rolling caps and velocity over every window, the invariant of records and reservations, idempotent
    submission, and the refinement of the lifecycle by both stores.
  \<^item> \<open>PolicyVersions\<close> (\<open>policies.py\<close>, \<open>postgres.py\<close>): the active policy has two distinct approvers.
  \<^item> \<open>Signing\<close> (\<open>decisions.py\<close>, \<open>signing.py\<close>): what the gate accepts is the transaction of the
    proposal under a verified unexpired decision; no nonce is accepted twice; an issued transfer is accepted.
  \<^item> \<open>Mandates\<close> (\<open>mandates.py\<close>), \<open>RateLimit\<close> (\<open>rate_limit.py\<close>) and \<open>ServiceAccounts\<close>
    (\<open>service_accounts.py\<close>, \<open>auth.py\<close>): budgets and attenuation of mandates; both limiters give the same
    answers; a credential is accepted exactly while it was issued, unexpired and not revoked.
  \<^item> \<open>Journal\<close> (\<open>audit.py\<close>): histories that verify against one checkpoint are equal, both journals
    record the same, and anchored history is retained.
  \<^item> \<open>Artifacts\<close> (\<open>artifact_store.py\<close>, \<open>signer_client.py\<close>): the first decision and the first execution
    win, in memory and on the tables.
  \<^item> \<open>Settlement\<close> (\<open>chain.py\<close>, \<open>reconciler.py\<close>): a backend broadcasts only what was bound to its chain;
    a poll moves a submitted proposal exactly when a final receipt says so, also when the poll raises.
  \<^item> \<open>Attestations\<close> (\<open>attestations.py\<close>, \<open>attestation_store.py\<close>): the evidence hash commits to the
    whole execution.
  \<^item> \<open>Gateway\<close> (\<open>api.py\<close>): the service container and the endpoints, composed of all of the above. Over any
    sequence of requests and reconciliations, every execution was ordered by the owner of the proposal and
    encodes it, no nonce serves two executions, a submitted execution is never submitted again, a request
    that is not allowed changes nothing, and stored attestations verify.

  \<^bold>\<open>The signer, the account and the testbed wallet.\<close>
  \<^item> \<open>RustSigner\<close> (\<open>signer/src/main.rs\<close>): signatures are over the proposal's transaction; no replay
    across restarts and failed writes; the replay file round-trips.
  \<^item> \<open>SmartAccount\<close> (\<open>contracts/src/AegisSmartAccount.sol\<close>): caps and nonces under reentrancy.
  \<^item> \<open>LocalChain\<close>, \<open>WalletPolicy\<close> and \<open>WalletGuard\<close> (\<open>src/agentwallet\<close>: \<open>chain/ledger.py\<close>,
    \<open>wallet\<close>, \<open>guard\<close>, \<open>payments\<close>, \<open>mev/relay.py\<close>, \<open>testbed.py\<close>): conservation of tokens, solvency
    of the pool, the engine allows exactly what the policy permits, the guard submits nothing else,
    and the limits of x402 payments and contract wallets.

  \<^bold>\<open>How the code is rendered.\<close> A class is a \<open>record\<close>, an enumeration a \<open>datatype\<close>, a dictionary an
  association list in the order of insertion, an exception a value of \<open>exn\<close>. A method is a function from
  the state to a result and the new state; every raise is a branch. Readings of the clock and fresh
  identifiers are arguments. Identifiers are 128-bit words, Rust and Solidity integers are words of their
  width, Python integers are unbounded and times are microseconds. A method that runs under the lock of
  its store, or in one database transaction, is one step. A table is a list of rows and its constraints are
  branches of the statements. Code outside the repository is a parameter.

  \<^bold>\<open>Interfaces.\<close> Where two implementations share a contract, the contract is a locale and both are
  interpretations: \<open>lifecycle_store\<close>, \<open>policy_store\<close>, \<open>window_limiter\<close>, \<open>credential_store\<close>,
  \<open>event_journal\<close>, \<open>retention_store\<close>, \<open>artifact_store\<close>, \<open>attestation_store\<close> and
  \<open>settlement_contract\<close>; \<open>canonicalizer\<close> is the contract of the JSON serializer.

  \<^bold>\<open>Bounds and fuel.\<close> The one fuelled loop reads the items of an RLP list; its fuel is the length of the
  input, every item takes a byte, and it is proved never to run out. The nesting bound of that decoder and
  the size limits are those of the sources. Every other loop is a recursion with a termination proof.

  \<^bold>\<open>Not modelled.\<close>
  \<^item> Interleaving inside a request: a handler and a poll of the reconciler are one step each. \<open>execute\<close>
    holds a lock for its whole run; the other handlers hold the locks of the stores they call.
  \<^item> Crashes in the middle of a handler, except as exceptions, which leave what was done; the replay file
    of the Rust signer is modelled with failed writes and restarts.
  \<^item> Experiments (\<open>experiment_store.py\<close>, \<open>evaluation.py\<close>): statistics in floating point, sampling and files.
  \<^item> FastAPI, gRPC, HTTP and database drivers: routing, serialization of responses, headers, TLS and health
    checks; \<open>settings.py\<close>, \<open>main.py\<close>, \<open>cli.py\<close> and \<open>observability.py\<close>.
  \<^item> \<open>agents.py\<close>, \<open>tools.py\<close>, \<open>protocols.py\<close> and the agents, tools, tasks, attacks and the evaluation of
    \<open>src/agentwallet\<close>: prompts, network calls and scripts that drive the modelled parts.
  \<^item> The scripts, the deployment files and the web console.
\<close>

end
